(* ===== verification/Prelude.thy ===== *)
theory Prelude
  imports Main "HOL-Library.Word" "HOL-Library.Sublist"
begin

text \<open>
  Shared vocabulary of the development: C strings, the faults a C function can run into, the
  result type of the fallible definitions, and the few functions of the C library that the bot
  calls (\<open>ctype.h\<close>, \<open>string.h\<close>, \<open>atoi\<close>, \<open>%d\<close> and \<open>%s\<close> of \<open>printf\<close>).

  A \<open>char *\<close> that points to a string is a \<open>string\<close>; the bytes before the terminating NUL are
  the list, so \<open>*p == '\0'\<close> is \<open>p = []\<close> and \<open>p++\<close> drops the head. A \<open>char *\<close> that may be NULL is
  a \<open>cstr\<close>, with \<open>None\<close> for NULL.
\<close>

section \<open>Types\<close>

type_synonym cstr = "string option"

text \<open>What stops the program, or makes its behaviour undefined.\<close>

datatype fault =
    NullDeref      \<comment> \<open>a NULL pointer is read through\<close>
  | OutOfBounds    \<comment> \<open>a read or write outside its allocation\<close>
  | UseAfterFree   \<comment> \<open>a freed or unlinked node is read\<close>
  | Uninitialised  \<comment> \<open>a variable that was never set is read\<close>
  | DivideByZero   \<comment> \<open>a remainder by 0\<close>
  | ExitFailure    \<comment> \<open>\<open>exit(EXIT_FAILURE)\<close>\<close>

type_synonym 'a res = "fault + 'a"

abbreviation Ok :: "'a \<Rightarrow> 'a res" where
  "Ok x \<equiv> Inr x"

abbreviation Fault :: "fault \<Rightarrow> 'a res" where
  "Fault e \<equiv> Inl e"

fun rbind :: "'a res \<Rightarrow> ('a \<Rightarrow> 'b res) \<Rightarrow> 'b res" where
  "rbind (Inl e) f = Inl e"
| "rbind (Inr x) f = f x"

text \<open>Reading through a \<open>char *\<close> that may be NULL.\<close>

definition deref :: "'a option \<Rightarrow> 'a res" where
  "deref p = (case p of None \<Rightarrow> Fault NullDeref | Some x \<Rightarrow> Ok x)"

fun mapM_res :: "('a \<Rightarrow> 'b res) \<Rightarrow> 'a list \<Rightarrow> 'b list res" where
  "mapM_res f [] = Ok []"
| "mapM_res f (x # xs) = rbind (f x) (\<lambda>y. rbind (mapM_res f xs) (\<lambda>ys. Ok (y # ys)))"

section \<open>Automation\<close>

named_theorems c_lib \<open>unfolding rules of the C library functions\<close>

lemma rbind_Ok_iff: "rbind m f = Inr y \<longleftrightarrow> (\<exists>x. m = Inr x \<and> f x = Inr y)"
  by (cases m) auto

lemma rbind_Fault_iff: "rbind m f = Inl e \<longleftrightarrow> m = Inl e \<or> (\<exists>x. m = Inr x \<and> f x = Inl e)"
  by (cases m) auto

lemma rbind_assoc: "rbind (rbind m f) g = rbind m (\<lambda>x. rbind (f x) g)"
  by (cases m) auto

lemma rbind_Ok_right [simp]: "rbind m Inr = m"
  by (cases m) auto

lemma rbind_cong [fundef_cong]:
  "m = m' \<Longrightarrow> (\<And>x. m' = Inr x \<Longrightarrow> f x = g x) \<Longrightarrow> rbind m f = rbind m' g"
  by (cases m') auto

lemma mapM_res_cong [fundef_cong]:
  "xs = ys \<Longrightarrow> (\<And>x. x \<in> set ys \<Longrightarrow> f x = g x) \<Longrightarrow> mapM_res f xs = mapM_res g ys"
  by (induction ys arbitrary: xs) (auto intro: rbind_cong)

lemma deref_simps [simp]: "deref (Some x) = Inr x" "deref None = Inl NullDeref"
  by (simp_all add: deref_def)

lemma deref_Ok_iff: "deref p = Inr x \<longleftrightarrow> p = Some x"
  by (cases p) auto

text \<open>
  What holds of every result that is no fault. The rules go through the branches of a definition from
  the outside, so that only the ends are left.
\<close>

definition all_ok :: "('a \<Rightarrow> bool) \<Rightarrow> 'a res \<Rightarrow> bool" where
  "all_ok Q r \<longleftrightarrow> (\<forall>x. r = Ok x \<longrightarrow> Q x)"

lemma all_okD: "all_ok Q r \<Longrightarrow> r = Ok x \<Longrightarrow> Q x"
  by (simp add: all_ok_def)

lemma all_ok_Ok [simp]: "all_ok Q (Inr x) = Q x"
  by (simp add: all_ok_def)

lemma all_ok_Fault [simp]: "all_ok Q (Inl e)"
  by (simp add: all_ok_def)

lemma all_ok_rbind: "(\<And>x. m = Ok x \<Longrightarrow> all_ok Q (f x)) \<Longrightarrow> all_ok Q (rbind m f)"
  by (auto simp: all_ok_def rbind_Ok_iff)

lemma all_ok_if: "(c \<Longrightarrow> all_ok Q a) \<Longrightarrow> (\<not> c \<Longrightarrow> all_ok Q b) \<Longrightarrow> all_ok Q (if c then a else b)"
  by simp

lemma all_ok_option:
  "(x = None \<Longrightarrow> all_ok Q a) \<Longrightarrow> (\<And>y. x = Some y \<Longrightarrow> all_ok Q (f y)) \<Longrightarrow> all_ok Q (case x of None \<Rightarrow> a | Some y \<Rightarrow> f y)"
  by (cases x) simp_all

lemmas all_ok_rules = all_ok_rbind all_ok_if all_ok_option

section \<open>Characters\<close>

abbreviation NL :: char where "NL \<equiv> CHR 0x0A"
abbreviation CR :: char where "CR \<equiv> CHR 0x0D"
abbreviation TAB :: char where "TAB \<equiv> CHR 0x09"
abbreviation SPC :: char where "SPC \<equiv> CHR 0x20"
abbreviation DQUOTE :: char where "DQUOTE \<equiv> CHR 0x22"
abbreviation BACKSLASH :: char where "BACKSLASH \<equiv> CHR 0x5C"
abbreviation CTCP :: char where "CTCP \<equiv> CHR 0x01"

text \<open>\<open>isspace\<close> and \<open>tolower\<close> of the C locale.\<close>

definition isspace_c :: "char \<Rightarrow> bool" where
  "isspace_c c \<longleftrightarrow> c = SPC \<or> c = TAB \<or> c = NL \<or> c = CHR 0x0B \<or> c = CHR 0x0C \<or> c = CR"

definition tolower_c :: "char \<Rightarrow> char" where
  "tolower_c c = (let n = (of_char c :: nat) in
     if 65 \<le> n \<and> n \<le> 90 then char_of (n + 32) else c)"

abbreviation lower :: "string \<Rightarrow> string" where
  "lower \<equiv> map tolower_c"

lemma of_char_tolower:
  "(of_char (tolower_c c) :: nat) =
     (if 65 \<le> (of_char c :: nat) \<and> (of_char c :: nat) \<le> 90 then of_char c + 32 else of_char c)"
proof -
  have "(of_char c :: nat) < 256"
    using of_char_mod_256 [of c, where ?'a = nat] by (metis mod_less_divisor zero_less_numeral)
  then show ?thesis by (simp add: tolower_c_def Let_def)
qed

lemma tolower_idem [simp]: "tolower_c (tolower_c c) = tolower_c c"
proof -
  have "(of_char (tolower_c (tolower_c c)) :: nat) = of_char (tolower_c c)"
    by (simp add: of_char_tolower)
  then show ?thesis by simp
qed

lemma lower_idem [simp]: "lower (lower s) = lower s"
  by (simp add: comp_def)

section \<open>The string functions of the C library\<close>

text \<open>The byte a pointer is at, \<open>None\<close> for the terminating NUL.\<close>

definition next_char :: "string \<Rightarrow> char option" where
  "next_char n = (case n of [] \<Rightarrow> None | c # _ \<Rightarrow> Some c)"

text \<open>\<open>strchr(s, c)\<close>: the suffix that starts at the first \<open>c\<close>, NULL if there is none.\<close>

fun strchr :: "string \<Rightarrow> char \<Rightarrow> cstr" where
  "strchr [] c = None"
| "strchr (x # xs) c = (if x = c then Some (x # xs) else strchr xs c)"

text \<open>\<open>!strncmp(s, t, n)\<close>.\<close>

definition strncmp_eq :: "string \<Rightarrow> string \<Rightarrow> nat \<Rightarrow> bool" where
  "strncmp_eq s t n \<longleftrightarrow> take n s = take n t"

text \<open>\<open>!strcmp(s, t)\<close> on pointers that may be NULL.\<close>

definition strcmp_p :: "cstr \<Rightarrow> cstr \<Rightarrow> bool res" where
  "strcmp_p s t = rbind (deref s) (\<lambda>a. rbind (deref t) (\<lambda>b. Ok (a = b)))"

lemma strcmp_p_Some [simp]: "strcmp_p (Some a) (Some b) = Inr (a = b)"
  by (simp add: strcmp_p_def)

lemma strcmp_p_None [simp]:
  "strcmp_p None t = Inl NullDeref" "strcmp_p (Some a) None = Inl NullDeref"
  by (simp_all add: strcmp_p_def)

lemma strchr_None_iff: "strchr s c = None \<longleftrightarrow> c \<notin> set s"
  by (induction s) auto

lemma strchr_append: "c \<notin> set a \<Longrightarrow> strchr (a @ c # b) c = Some (c # b)"
  by (induction a) auto

lemma strncmp_eq_prefix: "strncmp_eq s m (length m) \<longleftrightarrow> prefix m s"
  by (auto simp: strncmp_eq_def prefix_def) (metis append_take_drop_id)

section \<open>Numbers\<close>

text \<open>
  \<open>atoi\<close> as glibc documents it, \<open>(int) strtol(s, NULL, 10)\<close>: leading white space, a sign, the
  longest run of digits, saturated to a 64-bit \<open>long\<close> and truncated to a 32-bit \<open>int\<close>.
\<close>

definition isdigit_c :: "char \<Rightarrow> bool" where
  "isdigit_c c \<longleftrightarrow> 48 \<le> (of_char c :: nat) \<and> (of_char c :: nat) \<le> 57"

definition digit_val :: "char \<Rightarrow> int" where
  "digit_val c = int (of_char c) - 48"

fun digits_val :: "int \<Rightarrow> string \<Rightarrow> int" where
  "digits_val acc [] = acc"
| "digits_val acc (c # cs) = (if isdigit_c c then digits_val (10 * acc + digit_val c) cs else acc)"

definition strtol10 :: "string \<Rightarrow> int" where
  "strtol10 s =
     (let t = dropWhile isspace_c s;
          v = (case t of
                 [] \<Rightarrow> 0
               | c # cs \<Rightarrow> if c = CHR ''-'' then - digits_val 0 cs
                           else if c = CHR ''+'' then digits_val 0 cs
                           else digits_val 0 t)
      in max (- (2 ^ 63)) (min (2 ^ 63 - 1) v))"

definition atoi :: "string \<Rightarrow> int" where
  "atoi s = sint (word_of_int (strtol10 s) :: 32 word)"

fun show_nat :: "nat \<Rightarrow> string" where
  "show_nat n = (if n < 10 then [char_of (48 + n)] else show_nat (n div 10) @ [char_of (48 + n mod 10)])"

declare show_nat.simps [simp del]

definition show_int :: "int \<Rightarrow> string" where
  "show_int i = (if i < 0 then CHR ''-'' # show_nat (nat (- i)) else show_nat (nat i))"

text \<open>
  A text given to a function of the \<open>printf\<close> family as the format, without arguments: every
  conversion but \<open>%%\<close> fetches an argument that is not there.
\<close>

fun fmt_text :: "string \<Rightarrow> string res" where
  "fmt_text [] = Ok []"
| "fmt_text [c] = (if c = CHR ''%'' then Fault OutOfBounds else Ok [c])"
| "fmt_text (c # d # r) =
     (if c = CHR ''%'' then
        (if d = CHR ''%'' then rbind (fmt_text r) (\<lambda>s. Ok (c # s)) else Fault OutOfBounds)
      else rbind (fmt_text (d # r)) (\<lambda>s. Ok (c # s)))"

lemma fmt_text_plain: "CHR ''%'' \<notin> set s \<Longrightarrow> fmt_text s = Ok s"
  by (induction s rule: fmt_text.induct) auto

text \<open>\<open>%s\<close> prints a NULL argument as \<open>(null)\<close> (glibc).\<close>

definition fmt_s :: "cstr \<Rightarrow> string" where
  "fmt_s p = (case p of None \<Rightarrow> ''(null)'' | Some s \<Rightarrow> s)"

lemma fmt_s_simps [simp]: "fmt_s None = ''(null)''" "fmt_s (Some s) = s"
  by (simp_all add: fmt_s_def)

end
