(* ===== verification/Util.thy ===== *)
theory Util
  imports Prelude
begin

text \<open>
  \<^verbatim>\<open>src/src/util.c\<close> and the matcher of \<^verbatim>\<open>src/src/troll_lib.c\<close>: case-insensitive comparison, the
  two wildcard matchers (with the declarative meaning they are checked against), trimming and
  splitting of strings, string arrays and the singly linked list \<open>struct slist\<close>.
\<close>

section \<open>Case-insensitive comparison\<close>

fun tstrcasecmp :: "string \<Rightarrow> string \<Rightarrow> int" where
  "tstrcasecmp (f # fs) [] = 1"
| "tstrcasecmp (f # fs) (s # ss) = (if tolower_c f \<noteq> tolower_c s then 1 else tstrcasecmp fs ss)"
| "tstrcasecmp [] ss = (if ss \<noteq> [] then 1 else 0)"

text \<open>\<open>check_size\<close> counts down with the pointers; the loop also stops when it reaches 0.\<close>

fun tstrncasecmp :: "string \<Rightarrow> string \<Rightarrow> int \<Rightarrow> int" where
  "tstrncasecmp (f # fs) second check_size =
     (if check_size > 0 then
        (case second of
           [] \<Rightarrow> 1
         | s # ss \<Rightarrow> if tolower_c f \<noteq> tolower_c s then 1 else tstrncasecmp fs ss (check_size - 1))
      else 1)"
| "tstrncasecmp [] second check_size = (if second \<noteq> [] then 1 else 0)"

text \<open>The call on pointers that may be NULL: both are read at once.\<close>

definition tstrcasecmp_p :: "cstr \<Rightarrow> cstr \<Rightarrow> int res" where
  "tstrcasecmp_p first second =
     (case first of
        None \<Rightarrow> Fault NullDeref
      | Some f \<Rightarrow> (case second of None \<Rightarrow> Fault NullDeref | Some s \<Rightarrow> Ok (tstrcasecmp f s)))"

lemma tstrcasecmp_p_Some [simp]: "tstrcasecmp_p (Some a) (Some b) = Inr (tstrcasecmp a b)"
  by (simp add: tstrcasecmp_p_def)

lemma tstrcasecmp_range: "tstrcasecmp a b = 0 \<or> tstrcasecmp a b = 1"
  by (induction a b rule: tstrcasecmp.induct) auto

lemma tstrcasecmp_0_iff: "tstrcasecmp a b = 0 \<longleftrightarrow> lower a = lower b"
  by (induction a b rule: tstrcasecmp.induct) auto

lemma tstrcasecmp_refl [simp]: "tstrcasecmp a a = 0"
  by (simp add: tstrcasecmp_0_iff)

lemma tstrncasecmp_0_iff:
  "tstrncasecmp a b n = 0 \<longleftrightarrow> lower a = lower b \<and> (a = [] \<or> int (length a) \<le> n)"
  by (induction a b n rule: tstrncasecmp.induct) (auto split: list.splits)

section \<open>Wildcard matching\<close>

subsection \<open>\<open>troll_matchwilds\<close>\<close>

text \<open>
  One step of the scan is one recursive call; the arguments are the two pointers (needle first)
  and the flag \<open>escaped\<close>. \<open>*(needle+1)\<close> is \<open>None\<close> at the terminating NUL, which no byte of the
  haystack equals. The result is 0 for a match and 1 otherwise, as in C.
\<close>

text \<open>The inner loop of \<open>*\<close> and the one of \<open>%\<close>.\<close>

definition skip_star :: "string \<Rightarrow> string \<Rightarrow> string" where
  "skip_star rest h = dropWhile (\<lambda>c. Some c \<noteq> next_char rest) h"

definition skip_word :: "string \<Rightarrow> string \<Rightarrow> string" where
  "skip_word rest h = dropWhile (\<lambda>c. \<not> isspace_c c \<and> Some c \<noteq> next_char rest) h"

text \<open>The comparison of two characters, after an escape or between two ordinary ones.\<close>

fun troll_match_loop :: "string \<Rightarrow> string \<Rightarrow> int" where
  "troll_match_loop [] h = (if h = [] then 0 else 1)"
| "troll_match_loop (n # ns) [] = (if n = CHR ''*'' \<and> ns = [] then 0 else 1)"
| "troll_match_loop (n # ns) (h # hs) =
     (if n = BACKSLASH then
        (case ns of
           [] \<Rightarrow> 1
         | e # es \<Rightarrow> if e \<noteq> h then 1 else troll_match_loop es hs)
      else if n = CHR ''?'' then troll_match_loop ns hs
      else if n = CHR ''*'' then troll_match_loop ns (skip_star ns (h # hs))
      else if n = CHR ''%'' then troll_match_loop ns (skip_word ns (h # hs))
      else if n = CHR ''~'' then
        (if isspace_c h then troll_match_loop ns (dropWhile isspace_c hs) else 1)
      else if n \<noteq> h then 1
      else troll_match_loop ns hs)"

definition troll_matchwilds :: "cstr \<Rightarrow> cstr \<Rightarrow> int" where
  "troll_matchwilds haystack needle =
     (case needle of
        None \<Rightarrow> 1
      | Some n \<Rightarrow> (case haystack of None \<Rightarrow> 1 | Some h \<Rightarrow> troll_match_loop n h))"

subsection \<open>\<open>matchwilds\<close>\<close>

text \<open>
  \<open>util.c\<close> has a second matcher that remembers one place to go back to: \<open>bk\<close> is
  \<open>(lasthay, lastneedle)\<close>. \<open>escaped\<close> survives a jump back, as in C.
\<close>

definition matchwilds_measure :: "string \<times> string \<times> bool \<times> (string \<times> string) option \<Rightarrow> nat" where
  "matchwilds_measure s =
     (case s of (n, h, e, l) \<Rightarrow>
        (case l of None \<Rightarrow> 2 * length h | Some (lh, ln) \<Rightarrow> 2 * max (length lh) (length h - 1) + 1))"

lemma skip_star_length: "length (skip_star ns h) \<le> length h"
  by (simp add: skip_star_def length_dropWhile_le)

lemma skip_word_length: "length (skip_word ns h) \<le> length h"
  by (simp add: skip_word_def length_dropWhile_le)

lemma matchwilds_measure_mono:
  "length h' \<le> length h \<Longrightarrow> matchwilds_measure (n', h', e', l) \<le> matchwilds_measure (n, h, e, l)"
  by (auto simp: matchwilds_measure_def split: option.splits)

lemma matchwilds_measure_back:
  "matchwilds_measure (ln, lh, e', None) < matchwilds_measure (n, h, e, Some (lh, ln'))"
  by (simp add: matchwilds_measure_def)

lemma matchwilds_measure_star:
  "length h' \<le> length h \<Longrightarrow> h \<noteq> [] \<Longrightarrow>
   matchwilds_measure (n', h', e', Some (tl h', ln)) \<le> matchwilds_measure (n, h, e, l)"
  by (cases h) (auto simp: matchwilds_measure_def split: option.splits)

function matchwilds_loop ::
  "string \<Rightarrow> string \<Rightarrow> bool \<Rightarrow> (string \<times> string) option \<Rightarrow> int" where
  "matchwilds_loop [] h escaped bk = (if h = [] then 0 else 1)"
| "matchwilds_loop (n # ns) [] escaped bk =
     (if n = CHR ''*'' \<and> ns = [] \<and> \<not> escaped then 0 else 1)"
| "matchwilds_loop (n # ns) (h # hs) escaped bk =
     (let esc = (escaped \<or> n = BACKSLASH);
          needle = (if n = BACKSLASH then ns else n # ns)
      in case needle of
           [] \<Rightarrow> (case bk of
                    None \<Rightarrow> 1
                  | Some (lh, ln) \<Rightarrow> matchwilds_loop ln lh esc None)
         | m # ms \<Rightarrow>
             if m = CHR ''?'' \<and> \<not> esc then matchwilds_loop ms hs esc bk
             else if m = CHR ''*'' \<and> \<not> esc then
               matchwilds_loop ms (skip_star ms (h # hs)) esc
                 (Some (tl (skip_star ms (h # hs)), m # ms))
             else if m = CHR ''%'' \<and> \<not> esc then
               matchwilds_loop ms (skip_word ms (h # hs)) esc bk
             else if m = CHR ''~'' \<and> \<not> esc then
               (if isspace_c h then matchwilds_loop ms (dropWhile isspace_c hs) esc bk else 1)
             else if m \<noteq> h then
               (case bk of
                  None \<Rightarrow> 1
                | Some (lh, ln) \<Rightarrow> matchwilds_loop ln lh esc None)
             else matchwilds_loop ms hs False bk)"
  by pat_completeness auto
termination
proof (relation "matchwilds_measure <*mlex*> measure (\<lambda>(n, h, e, l). length n)", goal_cases)
  case 1
  show ?case by (intro wf_mlex wf_measure)
next
  case (3 n ns h hs escaped bk x xa m ms)
  then have "length ms < length (n # ns)" by (auto split: if_splits)
  then show ?case by (intro mlex_leq matchwilds_measure_mono) auto
next
  case (4 n ns h hs escaped bk x xa m ms)
  then have "length ms < length (n # ns)" by (auto split: if_splits)
  then show ?case by (intro mlex_leq matchwilds_measure_star skip_star_length) auto
next
  case (5 n ns h hs escaped bk x xa m ms)
  then have "length ms < length (n # ns)" by (auto split: if_splits)
  then show ?case by (intro mlex_leq matchwilds_measure_mono skip_word_length) auto
next
  case (6 n ns h hs escaped bk x xa m ms)
  then have "length ms < length (n # ns)" by (auto split: if_splits)
  then show ?case
    by (intro mlex_leq matchwilds_measure_mono) (auto simp: length_dropWhile_le le_SucI)
next
  case (8 n ns h hs escaped bk x xa m ms)
  then have "length ms < length (n # ns)" by (auto split: if_splits)
  then show ?case by (intro mlex_leq matchwilds_measure_mono) auto
qed (metis mlex_less matchwilds_measure_back)+


definition matchwilds :: "cstr \<Rightarrow> cstr \<Rightarrow> int" where
  "matchwilds haystack needle =
     (case needle of
        None \<Rightarrow> 1
      | Some n \<Rightarrow> (case haystack of None \<Rightarrow> 1 | Some h \<Rightarrow> matchwilds_loop n h False None))"

subsection \<open>What a mask means\<close>

text \<open>
  The comment above both matchers, as a specification: a mask is a list of tokens, and a token
  list matches a string if the string splits accordingly.
\<close>

datatype wtoken = Lit char | AnyChar | Many | Word | Blanks | Never

fun mask_tokens :: "string \<Rightarrow> wtoken list" where
  "mask_tokens [] = []"
| "mask_tokens (c # cs) =
     (if c = BACKSLASH then (case cs of [] \<Rightarrow> [Never] | e # es \<Rightarrow> Lit e # mask_tokens es)
      else (if c = CHR ''?'' then AnyChar
            else if c = CHR ''*'' then Many
            else if c = CHR ''%'' then Word
            else if c = CHR ''~'' then Blanks
            else Lit c) # mask_tokens cs)"

inductive wmatch :: "wtoken list \<Rightarrow> string \<Rightarrow> bool" where
  wm_nil: "wmatch [] []"
| wm_lit: "wmatch ts s \<Longrightarrow> wmatch (Lit c # ts) (c # s)"
| wm_any: "wmatch ts s \<Longrightarrow> wmatch (AnyChar # ts) (c # s)"
| wm_many: "wmatch ts s \<Longrightarrow> wmatch (Many # ts) (a @ s)"
| wm_word: "wmatch ts s \<Longrightarrow> \<forall>c \<in> set a. \<not> isspace_c c \<Longrightarrow> wmatch (Word # ts) (a @ s)"
| wm_blanks: "wmatch ts s \<Longrightarrow> a \<noteq> [] \<Longrightarrow> \<forall>c \<in> set a. isspace_c c \<Longrightarrow> wmatch (Blanks # ts) (a @ s)"

inductive_simps wmatch_Nil [simp]: "wmatch [] s"
inductive_simps wmatch_Lit: "wmatch (Lit c # ts) s"
inductive_simps wmatch_AnyChar: "wmatch (AnyChar # ts) s"
inductive_simps wmatch_Many: "wmatch (Many # ts) s"
inductive_cases wmatch_NeverE [elim!]: "wmatch (Never # ts) s"

lemma skip_star_split: "\<exists>a. h = a @ skip_star ns h"
  by (metis skip_star_def takeWhile_dropWhile_id)

lemma skip_word_split: "\<exists>a. h = a @ skip_word ns h \<and> (\<forall>c \<in> set a. \<not> isspace_c c)"
proof -
  let ?P = "\<lambda>c. \<not> isspace_c c \<and> Some c \<noteq> next_char ns"
  have "h = takeWhile ?P h @ skip_word ns h" by (simp add: skip_word_def)
  moreover have "\<forall>c \<in> set (takeWhile ?P h). \<not> isspace_c c" by (metis set_takeWhileD)
  ultimately show ?thesis by blast
qed

lemma wmatch_many_skip: "wmatch ts (skip_star ns h) \<Longrightarrow> wmatch (Many # ts) h"
  by (metis skip_star_split wm_many)

lemma wmatch_word_skip: "wmatch ts (skip_word ns h) \<Longrightarrow> wmatch (Word # ts) h"
  by (metis skip_word_split wm_word)

lemma wmatch_many_tl: "wmatch (Many # ts) (tl h) \<Longrightarrow> wmatch (Many # ts) h"
proof (cases h)
  case (Cons c cs)
  assume "wmatch (Many # ts) (tl h)"
  then obtain a s where "cs = a @ s" "wmatch ts s" by (auto simp: Cons wmatch_Many)
  then show ?thesis using wm_many [of ts s "c # a"] by (simp add: Cons)
qed simp

lemma wmatch_many_skip2: "wmatch (Many # ts) (skip_star ns h) \<Longrightarrow> wmatch (Many # ts) h"
proof -
  assume "wmatch (Many # ts) (skip_star ns h)"
  then obtain a s where "skip_star ns h = a @ s" "wmatch ts s" by (auto simp: wmatch_Many)
  moreover obtain b where "h = b @ skip_star ns h" using skip_star_split by blast
  ultimately show ?thesis by (metis append_assoc wm_many)
qed

lemma wmatch_blanks_skip:
  "isspace_c c \<Longrightarrow> wmatch ts (dropWhile isspace_c cs) \<Longrightarrow> wmatch (Blanks # ts) (c # cs)"
  using wm_blanks [of ts "dropWhile isspace_c cs" "c # takeWhile isspace_c cs"]
  by (auto dest: set_takeWhileD)

lemma wmatch_many_literal: "wmatch ts s \<Longrightarrow> wmatch (Many # ts) (c # s)"
  using wm_many [of ts s "[c]"] by simp

lemmas wmatch_intros =
  wm_nil wm_lit wm_any wmatch_many_skip wmatch_word_skip wmatch_blanks_skip

lemma troll_match_loop_sound:
  "troll_match_loop n h = 0 \<Longrightarrow> wmatch (mask_tokens n) h"
proof (induction n h rule: troll_match_loop.induct)
  case (2 n ns)
  then show ?case using wm_many [of "[]" "[]" "[]"] by (auto split: if_splits)
next
  case (3 n ns h hs)
  then show ?case
    by (auto split: if_splits list.splits intro: wmatch_intros)
qed (auto split: if_splits)

text \<open>
  A jump back restarts at a \<open>*\<close>, and only then can \<open>escaped\<close> be left set; the invariant of the
  scan of \<open>matchwilds\<close>.
\<close>

definition matchwilds_inv :: "string \<Rightarrow> bool \<Rightarrow> (string \<times> string) option \<Rightarrow> bool" where
  "matchwilds_inv n e bk \<longleftrightarrow>
     (e \<longrightarrow> next_char n = Some (CHR ''*'')) \<and>
     (\<forall>lh ln. bk = Some (lh, ln) \<longrightarrow> next_char ln = Some (CHR ''*''))"

lemma matchwilds_loop_sound:
  "matchwilds_loop n h e bk = 0 \<Longrightarrow> matchwilds_inv n e bk \<Longrightarrow>
   wmatch (mask_tokens n) h \<or>
   (\<exists>lh ln. bk = Some (lh, ln) \<and> wmatch (mask_tokens ln) lh)"
proof (induction n h e bk rule: matchwilds_loop.induct)
  case (2 n ns e bk)
  then show ?case using wm_many [of "[]" "[]" "[]"] by (auto split: if_splits)
next
  case (3 n ns h hs e bk)
  show ?case
  proof (cases "n = BACKSLASH")
    case True
    with "3.prems"(2) have e: "\<not> e" by (auto simp: matchwilds_inv_def next_char_def)
    show ?thesis
    proof (cases ns)
      case Nil
      with 3 True e show ?thesis by (auto simp: matchwilds_inv_def split: option.splits)
    next
      case (Cons m ms)
      with 3 True e show ?thesis
        by (auto simp: matchwilds_inv_def split: option.splits if_splits intro: wmatch_intros)
    qed
  next
    case notbs: False
    show ?thesis
    proof (cases e)
      case True
      with "3.prems"(2) have "n = CHR ''*''" by (simp add: matchwilds_inv_def next_char_def)
      with 3 True show ?thesis
        by (auto simp: matchwilds_inv_def next_char_def split: option.splits if_splits
            intro: wmatch_many_literal)
    next
      case e: False
      consider "n = CHR ''*''" | "n = CHR ''?''" | "n = CHR ''%''" | "n = CHR ''~''" | (lit)
          "n \<noteq> CHR ''*'' \<and> n \<noteq> CHR ''?'' \<and> n \<noteq> CHR ''%'' \<and> n \<noteq> CHR ''~''"
        by blast
      then show ?thesis
      proof cases
        case 1
        with 3 e have "wmatch (mask_tokens ns) (skip_star ns (h # hs)) \<or>
            wmatch (Many # mask_tokens ns) (tl (skip_star ns (h # hs)))"
          by (auto simp: matchwilds_inv_def next_char_def)
        with 1 show ?thesis
          by (auto intro: wmatch_many_skip wmatch_many_skip2 wmatch_many_tl)
      next
        case 2
        with 3 e show ?thesis by (auto simp: matchwilds_inv_def intro: wm_any)
      next
        case 3
        with "3.IH"(4) "3.prems" e show ?thesis
          by (auto simp: matchwilds_inv_def intro: wmatch_word_skip)
      next
        case 4
        with "3.IH"(5) "3.prems" e show ?thesis
          by (auto simp: matchwilds_inv_def split: if_splits intro: wmatch_blanks_skip)
      next
        case lit
        with 3 e notbs show ?thesis
          by (auto simp: matchwilds_inv_def split: option.splits if_splits intro: wm_lit)
      qed
    qed
  qed
qed (auto split: if_splits)

text \<open>
  On masks of ordinary characters and \<open>?\<close>, possibly ended by one \<open>*\<close>, the scan is exact; every
  mask that \<open>add_default_triggers\<close> binds is of this kind, the one with two stars aside.
\<close>

fun simple_tokens :: "wtoken list \<Rightarrow> bool" where
  "simple_tokens [] = True"
| "simple_tokens (t # ts) =
     (case t of Lit c \<Rightarrow> simple_tokens ts | AnyChar \<Rightarrow> simple_tokens ts | Many \<Rightarrow> ts = [] | _ \<Rightarrow> False)"

lemma skip_star_all [simp]: "skip_star [] h = []"
  by (simp add: skip_star_def next_char_def)

lemma mask_tokens_Nil_iff [simp]: "mask_tokens n = [] \<longleftrightarrow> n = []"
  by (cases n) (auto split: list.splits)

lemma troll_match_loop_complete:
  "simple_tokens (mask_tokens n) \<Longrightarrow> wmatch (mask_tokens n) h \<Longrightarrow> troll_match_loop n h = 0"
proof (induction n h rule: troll_match_loop.induct)
  case (2 n ns)
  then show ?case
    by (cases "n = BACKSLASH")
      (auto simp: wmatch_Lit wmatch_AnyChar split: if_splits list.splits)
next
  case (3 n ns h hs)
  consider "n = BACKSLASH" | "n = CHR ''?''" | "n = CHR ''*''" | "n = CHR ''%''" | "n = CHR ''~''"
    | (lit) "n \<noteq> BACKSLASH \<and> n \<noteq> CHR ''?'' \<and> n \<noteq> CHR ''*'' \<and> n \<noteq> CHR ''%'' \<and> n \<noteq> CHR ''~''"
    by blast
  then show ?case
  proof cases
    case 1
    with "3.IH"(1) "3.prems" show ?thesis by (cases ns) (auto simp: wmatch_Lit)
  next
    case 2
    with "3.IH"(2) "3.prems" show ?thesis by (auto simp: wmatch_AnyChar)
  next
    case lit
    with "3.IH"(6) "3.prems" show ?thesis by (auto simp: wmatch_Lit)
  qed (use "3.prems" in auto)
qed simp

section \<open>Strings and string arrays\<close>

text \<open>
  \<open>tstrtrim\<close>. The first loop moves \<open>data\<close> over leading white space; the second shortens the end
  while \<open>*end\<close> is a space (its other three tests look at \<open>*data\<close>, which is not white space any
  more). On the empty string \<open>&data[strlen(data)-1]\<close> lies before the string, and on a string of
  spaces only \<open>end\<close> runs past its start.
\<close>

definition trim_char :: "char \<Rightarrow> bool" where
  "trim_char c \<longleftrightarrow> c = SPC \<or> c = TAB \<or> c = CR \<or> c = NL"

definition drop_trailing :: "char \<Rightarrow> string \<Rightarrow> string" where
  "drop_trailing c s = rev (dropWhile (\<lambda>x. x = c) (rev s))"

definition tstrtrim :: "string \<Rightarrow> string res" where
  "tstrtrim data =
     (let rest = drop_trailing SPC data in
      if rest = [] then Fault OutOfBounds else Ok (dropWhile trim_char rest))"

fun tstrcount :: "string list option \<Rightarrow> int" where
  "tstrcount None = -1"
| "tstrcount (Some xs) = int (length xs)"

text \<open>\<open>tstrarrayserialize\<close> concatenates; it reserves a byte per entry and one for the NUL.\<close>

definition tstrarrayserialize_size :: "string list \<Rightarrow> nat" where
  "tstrarrayserialize_size ptr = sum_list (map (\<lambda>esp. length esp + 1) ptr) + 1"

definition tstrarrayserialize :: "string list \<Rightarrow> string" where
  "tstrarrayserialize ptr = foldl (\<lambda>ret esp. ret @ esp) [] ptr"

lemma tstrarrayserialize_concat: "tstrarrayserialize ptr = concat ptr"
proof -
  have "foldl (\<lambda>ret esp. ret @ esp) acc ptr = acc @ concat ptr" for acc
    by (induction ptr arbitrary: acc) auto
  then show ?thesis by (simp add: tstrarrayserialize_def)
qed

lemma tstrarrayserialize_fits: "length (tstrarrayserialize ptr) < tstrarrayserialize_size ptr"
  by (induction ptr) (simp_all add: tstrarrayserialize_concat tstrarrayserialize_size_def)

text \<open>
  \<open>tcrealloc0(ptr, newsize, &bufsize)\<close> on a buffer given by the string in it and the number of its bytes
  that are initialised, those behind the string being zero. It clears from the last byte of the old
  size on.
\<close>

definition tcrealloc0 :: "string \<times> nat \<Rightarrow> nat \<Rightarrow> nat \<Rightarrow> string \<times> nat" where
  "tcrealloc0 ptr newsize bufsize =
     (case ptr of (s, zeroed) \<Rightarrow>
        if bufsize < newsize then (take (bufsize - 1) s, if zeroed < bufsize - 1 then zeroed else newsize - 1)
        else (s, min zeroed newsize))"

subsection \<open>\<open>tssv_split\<close>\<close>

text \<open>
  The first pass counts: \<open>count_entries\<close> is the \<open>while (*sch)\<close> loop from the first byte that is not
  blank, plus the last entry. The second pass cuts that many entries off. \<open>tssv_alloc\<close> is what
  \<open>tmalloc0((sizeof(char *) * list_size) + 1)\<close> reserves for the array.
\<close>

definition blank :: "char \<Rightarrow> bool" where
  "blank c \<longleftrightarrow> c = SPC \<or> c = TAB"

function count_entries :: "string \<Rightarrow> nat" where
  "count_entries [] = 1"
| "count_entries (c # cs) =
     (if blank c then Suc (count_entries (dropWhile blank cs)) else count_entries cs)"
  by pat_completeness auto
termination
  by (relation "measure length") (auto simp: length_dropWhile_le le_imp_less_Suc)

fun cut_entries :: "nat \<Rightarrow> string \<Rightarrow> string list" where
  "cut_entries 0 sch = []"
| "cut_entries (Suc n) sch =
     takeWhile (\<lambda>c. \<not> blank c) sch #
     cut_entries n (dropWhile blank (dropWhile (\<lambda>c. \<not> blank c) sch))"

definition tssv_split :: "string \<Rightarrow> string list option" where
  "tssv_split ptr =
     (let sch = dropWhile blank ptr in
      if sch = [] then None else Some (cut_entries (count_entries sch) sch))"

definition tssv_alloc :: "nat \<Rightarrow> nat" where
  "tssv_alloc list_size = 8 * list_size + 1"

lemma length_cut_entries: "length (cut_entries n s) = n"
  by (induction n arbitrary: s) auto

lemma count_entries_word:
  "\<forall>c \<in> set w. \<not> blank c \<Longrightarrow> count_entries (w @ r) = count_entries r"
  by (induction w) auto

lemma dropWhile_blank_id: "\<forall>c \<in> set b. blank c \<Longrightarrow> dropWhile blank (b @ r) = dropWhile blank r"
  by (induction b) auto

text \<open>Words joined by one blank each.\<close>

fun join_blank :: "string list \<Rightarrow> string" where
  "join_blank [] = []"
| "join_blank [w] = w"
| "join_blank (w # v # ws) = w @ SPC # join_blank (v # ws)"

definition word_ok :: "string \<Rightarrow> bool" where
  "word_ok w \<longleftrightarrow> w \<noteq> [] \<and> list_all (\<lambda>c. \<not> blank c) w"

lemma word_ok_takeWhile:
  assumes "word_ok w"
  shows "takeWhile (\<lambda>c. \<not> blank c) (w @ SPC # r) = w"
    and "dropWhile (\<lambda>c. \<not> blank c) (w @ SPC # r) = SPC # r"
    and "takeWhile (\<lambda>c. \<not> blank c) w = w" and "dropWhile (\<lambda>c. \<not> blank c) w = []"
    and "dropWhile blank (w @ r) = w @ r" and "w \<noteq> []"
proof -
  from assms have a: "\<And>c. c \<in> set w \<Longrightarrow> \<not> blank c" and ne: "w \<noteq> []"
    by (auto simp: word_ok_def list_all_iff)
  have s: "blank SPC" by (simp add: blank_def)
  show "takeWhile (\<lambda>c. \<not> blank c) (w @ SPC # r) = w" "dropWhile (\<lambda>c. \<not> blank c) (w @ SPC # r) = SPC # r"
    using a s by (simp_all add: takeWhile_append2 dropWhile_append2)
  show "takeWhile (\<lambda>c. \<not> blank c) w = w" "dropWhile (\<lambda>c. \<not> blank c) w = []"
    using a by (simp_all add: takeWhile_eq_all_conv dropWhile_eq_Nil_conv)
  show "dropWhile blank (w @ r) = w @ r" "w \<noteq> []" using a ne by (cases w; auto)+
qed

lemma join_blank_head: "list_all word_ok (w # ws) \<Longrightarrow> dropWhile blank (join_blank (w # ws)) = join_blank (w # ws)"
  by (cases ws) (auto simp: word_ok_takeWhile(5) dest: word_ok_takeWhile(5) [where r = "[]"])

lemma count_entries_join: "ws \<noteq> [] \<Longrightarrow> list_all word_ok ws \<Longrightarrow> count_entries (join_blank ws) = length ws"
proof (induction ws rule: join_blank.induct)
  case (2 w)
  then show ?case using count_entries_word [of w "[]"] by (auto simp: word_ok_def list_all_iff)
next
  case (3 w v ws)
  then have w: "\<forall>c \<in> set w. \<not> blank c" by (auto simp: word_ok_def list_all_iff)
  have "count_entries (join_blank (w # v # ws)) = count_entries (SPC # join_blank (v # ws))"
    using count_entries_word [OF w] by simp
  also have "\<dots> = Suc (count_entries (join_blank (v # ws)))"
    using 3 join_blank_head [of v ws] by (simp add: blank_def)
  finally show ?case using 3 by simp
qed simp

lemma cut_entries_join: "list_all word_ok ws \<Longrightarrow> ws \<noteq> [] \<Longrightarrow> cut_entries (length ws) (join_blank ws) = ws"
proof (induction ws rule: join_blank.induct)
  case (2 w)
  then show ?case by (simp add: word_ok_takeWhile)
next
  case (3 w v ws)
  have "dropWhile blank (SPC # join_blank (v # ws)) = join_blank (v # ws)"
    using 3 join_blank_head [of v ws] by (simp add: blank_def)
  with 3 show ?case by (simp add: word_ok_takeWhile)
qed simp

lemma tssv_split_join:
  "list_all word_ok ws \<Longrightarrow> ws \<noteq> [] \<Longrightarrow> tssv_split (join_blank ws) = Some ws"
proof -
  assume a: "list_all word_ok ws" "ws \<noteq> []"
  then obtain w vs where ws: "ws = w # vs" by (cases ws) auto
  have d: "dropWhile blank (join_blank ws) = join_blank ws"
    using a join_blank_head [of w vs] by (simp add: ws)
  moreover have "join_blank ws \<noteq> []" using a ws by (cases vs) (auto simp: word_ok_def)
  ultimately show ?thesis
    using a by (simp add: tssv_split_def count_entries_join cut_entries_join)
qed

section \<open>\<open>struct slist\<close>\<close>

text \<open>
  A node is its address with its data; the nodes are listed from \<open>head\<close>. \<open>sl_destroy\<close> says whether
  the list has a \<open>destroy\<close> function. A fresh node's address is an argument, since \<open>tmalloc\<close> gives
  it out.
\<close>

record 'a slist =
  sl_size :: int
  sl_nodes :: "(nat \<times> 'a) list"
  sl_tail :: "nat option"
  sl_destroy :: bool

definition slist_init :: "bool \<Rightarrow> 'a slist" where
  "slist_init destroy = \<lparr>sl_size = 0, sl_nodes = [], sl_tail = None, sl_destroy = destroy\<rparr>"

fun insert_after :: "nat \<Rightarrow> nat \<times> 'a \<Rightarrow> (nat \<times> 'a) list \<Rightarrow> (nat \<times> 'a) list res" where
  "insert_after a new [] = Fault UseAfterFree"
| "insert_after a new (x # xs) =
     (if fst x = a then Ok (x # new # xs) else rbind (insert_after a new xs) (\<lambda>ys. Ok (x # ys)))"

text \<open>
  Inserting after a node tests \<open>newnode->next\<close> before it is set; whether that byte pattern happens
  to be NULL is the argument \<open>junk_null\<close>.
\<close>

definition slist_insert_next :: "'a slist \<Rightarrow> nat option \<Rightarrow> 'a \<Rightarrow> nat \<Rightarrow> bool \<Rightarrow> 'a slist res" where
  "slist_insert_next list node data newnode junk_null =
     (case node of
        None \<Rightarrow>
          Ok (list\<lparr>sl_tail := (if sl_size list = 0 then Some newnode else sl_tail list),
                   sl_nodes := (newnode, data) # sl_nodes list,
                   sl_size := sl_size list + 1\<rparr>)
      | Some a \<Rightarrow>
          rbind (insert_after a (newnode, data) (sl_nodes list)) (\<lambda>ns.
            Ok (list\<lparr>sl_tail := (if junk_null then Some newnode else sl_tail list),
                     sl_nodes := ns,
                     sl_size := sl_size list + 1\<rparr>)))"

fun remove_after :: "nat \<Rightarrow> (nat \<times> 'a) list \<Rightarrow> ((nat \<times> 'a) list \<times> 'a \<times> bool) option res" where
  "remove_after a [] = Fault UseAfterFree"
| "remove_after a (x # xs) =
     (if fst x = a then
        (case xs of [] \<Rightarrow> Ok None | y # ys \<Rightarrow> Ok (Some (x # ys, snd y, ys = [])))
      else rbind (remove_after a xs) (\<lambda>r. Ok (map_option (\<lambda>(ns, d, e). (x # ns, d, e)) r)))"

text \<open>The result is the return value, \<open>*data\<close> if it was set, and the list.\<close>

definition slist_remove_next :: "'a slist \<Rightarrow> nat option \<Rightarrow> (int \<times> 'a option \<times> 'a slist) res" where
  "slist_remove_next list node =
     (if sl_size list = 0 then Ok (-1, None, list)
      else case node of
        None \<Rightarrow>
          (case sl_nodes list of
             [] \<Rightarrow> Fault NullDeref
           | oldnode # rest \<Rightarrow>
               Ok (0, Some (snd oldnode),
                   list\<lparr>sl_nodes := rest,
                        sl_tail := (if sl_size list = 1 then None else sl_tail list),
                        sl_size := sl_size list - 1\<rparr>))
      | Some a \<Rightarrow>
          rbind (remove_after a (sl_nodes list)) (\<lambda>r.
            case r of
              None \<Rightarrow> Ok (-1, None, list)
            | Some (ns, d, at_end) \<Rightarrow>
                Ok (0, Some d,
                    list\<lparr>sl_nodes := ns,
                         sl_tail := (if at_end then Some a else sl_tail list),
                         sl_size := sl_size list - 1\<rparr>)))"

text \<open>\<open>slist_remove\<close> searches by node or by data. It leaves \<open>size\<close> as it is.\<close>

fun find_split ::
  "nat option \<Rightarrow> nat option \<Rightarrow> 'a option \<Rightarrow> (nat \<times> 'a) list \<Rightarrow>
   ((nat \<times> 'a) list \<times> nat option \<times> (nat \<times> 'a) \<times> (nat \<times> 'a) list) option" where
  "find_split lnode node data [] = None"
| "find_split lnode node data (s # ss) =
     (if (node \<noteq> None \<and> node = Some (fst s)) \<or> (data \<noteq> None \<and> data = Some (snd s))
      then Some ([], lnode, s, ss)
      else map_option (\<lambda>(pre, l, x, post). (s # pre, l, x, post))
             (find_split (Some (fst s)) node data ss))"

definition slist_remove :: "'a slist \<Rightarrow> nat option \<Rightarrow> 'a option \<Rightarrow> 'a option \<times> 'a slist" where
  "slist_remove list node data =
     (case find_split None node data (sl_nodes list) of
        None \<Rightarrow> (None, list)
      | Some (pre, lnode, s, post) \<Rightarrow>
          (if sl_destroy list then None else Some (snd s),
           list\<lparr>sl_nodes := pre @ post, sl_tail := (if post = [] then lnode else sl_tail list)\<rparr>))"

text \<open>
  \<open>slist_destroy\<close> loops while \<open>size > 0\<close>; the result lists the data handed to \<open>destroy\<close>. \<open>None\<close>
  would be a loop that does not end.
\<close>

partial_function (option) slist_destroy :: "'a slist \<Rightarrow> ('a list \<times> 'a slist) res option" where
  "slist_destroy list =
     (if sl_size list > 0 then
        (case slist_remove_next list None of
           Inl e \<Rightarrow> Some (Fault e)
         | Inr (r, d, list') \<Rightarrow>
             Option.bind (slist_destroy list') (\<lambda>res.
               Some (rbind res (\<lambda>(ds, l). Ok ((if r = 0 then the d # ds else ds), l)))))
      else Some (Ok ([], list)))"

definition wf_slist :: "'a slist \<Rightarrow> bool" where
  "wf_slist l \<longleftrightarrow>
     sl_size l = int (length (sl_nodes l)) \<and>
     distinct (map fst (sl_nodes l)) \<and>
     sl_tail l = (if sl_nodes l = [] then None else Some (fst (last (sl_nodes l))))"

lemma wf_slist_init: "wf_slist (slist_init d)"
  by (simp add: wf_slist_def slist_init_def)

lemma wf_slist_insert_head:
  assumes "wf_slist l" and "a \<notin> fst ` set (sl_nodes l)"
  shows "\<exists>l'. slist_insert_next l None x a j = Ok l' \<and> wf_slist l' \<and> sl_nodes l' = (a, x) # sl_nodes l
              \<and> sl_destroy l' = sl_destroy l"
  using assms by (auto simp: wf_slist_def slist_insert_next_def)

lemma wf_slist_remove_head:
  assumes "wf_slist l" and "sl_nodes l = (a, x) # rest"
  shows "\<exists>l'. slist_remove_next l None = Ok (0, Some x, l') \<and> wf_slist l' \<and> sl_nodes l' = rest"
  using assms by (cases rest) (auto simp: wf_slist_def slist_remove_next_def)

lemma slist_destroy_all:
  "wf_slist l \<Longrightarrow> \<exists>l'. slist_destroy l = Some (Ok (map snd (sl_nodes l), l')) \<and> sl_nodes l' = []
     \<and> sl_size l' = 0"
proof (induction "sl_nodes l" arbitrary: l)
  case Nil
  then show ?case by (subst slist_destroy.simps) (auto simp: wf_slist_def)
next
  case (Cons n rest)
  obtain a x where n: "n = (a, x)" by (cases n)
  from wf_slist_remove_head [OF Cons.prems, of a x rest] Cons.hyps(2) n
  obtain l1 where l1: "slist_remove_next l None = Ok (0, Some x, l1)" "wf_slist l1" "sl_nodes l1 = rest"
    by auto
  from Cons.hyps(1) [of l1] l1 obtain l2 where
    "slist_destroy l1 = Some (Ok (map snd rest, l2))" "sl_nodes l2 = []" "sl_size l2 = 0" by auto
  moreover have "sl_size l > 0" using Cons.prems Cons.hyps(2) by (metis wf_slist_def length_greater_0_conv list.distinct(1) of_nat_0_less_iff)
  ultimately show ?case
    using l1 Cons.hyps(2) n by (subst slist_destroy.simps) (auto simp flip: Cons.hyps(2))
qed

text \<open>With \<open>size\<close> larger than the number of nodes the loop reads through a NULL \<open>head\<close>.\<close>

lemma slist_destroy_oversized:
  "sl_size l > int (length (sl_nodes l)) \<Longrightarrow> slist_destroy l = Some (Fault NullDeref)"
proof (induction "sl_nodes l" arbitrary: l)
  case Nil
  then show ?case by (subst slist_destroy.simps) (simp add: slist_remove_next_def)
next
  case (Cons n rest)
  define l1 where "l1 = l\<lparr>sl_nodes := rest, sl_tail := (if sl_size l = 1 then None else sl_tail l),
    sl_size := sl_size l - 1\<rparr>"
  have size: "sl_size l > 1 + int (length rest)"
    using Cons.prems by (simp flip: Cons.hyps(2))
  have "slist_destroy l1 = Some (Fault NullDeref)"
    by (rule Cons.hyps(1)) (use size in \<open>simp_all add: l1_def\<close>)
  moreover have "slist_remove_next l None = Ok (0, Some (snd n), l1)"
    using size by (simp add: slist_remove_next_def l1_def flip: Cons.hyps(2))
  ultimately show ?case using size by (subst slist_destroy.simps) simp
qed

lemma find_split_append:
  "find_split l n d ss = Some (pre, ln, s, post) \<Longrightarrow> ss = pre @ s # post"
  by (induction l n d ss arbitrary: pre ln rule: find_split.induct) (auto split: if_splits)

end
