(* ===== verification/Dlist.thy ===== *)
theory Dlist
  imports Prelude
begin

text \<open>
  The doubly linked lists that the bot keeps its users, channels, channel users, bans, networks,
  servers, triggers, timers and sessions in. Every \<open>*_list_add\<close> and \<open>*_list_del\<close> of the sources is
  the same code for another node type. The file has it twice: over a heap of nodes, pointer by
  pointer, and over cursor lists, which the components use; the first refines the second.
\<close>

section \<open>Cursor lists\<close>

text \<open>
  A pointer to a node of a list sees the nodes before it through \<open>prev\<close> and those from it on through
  \<open>next\<close>. \<open>dl_before\<close> has the nearest node first. NULL is \<open>DList [] []\<close>.
\<close>

datatype 'a dlist = DList (dl_before: "'a list") (dl_from: "'a list")

abbreviation dl_null :: "'a dlist" where
  "dl_null \<equiv> DList [] []"

definition dl_all :: "'a dlist \<Rightarrow> 'a list" where
  "dl_all d = rev (dl_before d) @ dl_from d"

text \<open>A pointer that is not NULL points at a node; a head pointer at the first one.\<close>

definition dl_wf :: "'a dlist \<Rightarrow> bool" where
  "dl_wf d \<longleftrightarrow> (dl_from d = [] \<longrightarrow> dl_before d = [])"

definition dl_head :: "'a dlist \<Rightarrow> bool" where
  "dl_head d \<longleftrightarrow> dl_before d = []"

definition dl_of_list :: "'a list \<Rightarrow> 'a dlist" where
  "dl_of_list xs = DList [] xs"

definition dl_add :: "'a dlist \<Rightarrow> 'a \<Rightarrow> 'a dlist" where
  "dl_add users add =
     (if dl_from users = [] then DList [] [add]
      else DList (dl_before users) (dl_from users @ [add]))"

text \<open>The node to delete is given by its distance from the pointer, \<open>None\<close> when it is not there.\<close>

definition dl_del :: "'a dlist \<Rightarrow> nat option \<Rightarrow> 'a dlist" where
  "dl_del users del =
     (case del of
        None \<Rightarrow> users
      | Some i \<Rightarrow>
          if length (dl_from users) \<le> i then users
          else (case rev (take i (dl_from users)) @ dl_before users of
                  p # ps \<Rightarrow> DList ps (p # drop (Suc i) (dl_from users))
                | [] \<Rightarrow> DList [] (drop (Suc i) (dl_from users))))"

text \<open>\<open>while (p->prev != NULL) p = p->prev\<close>, which reads through \<open>p\<close>.\<close>

definition dl_rewind :: "'a dlist \<Rightarrow> 'a dlist res" where
  "dl_rewind d = (if dl_from d = [] then Fault NullDeref else Ok (DList [] (dl_all d)))"

text \<open>The first node from the pointer on that passes a test, as a distance and as a value.\<close>

fun find_index :: "('a \<Rightarrow> bool) \<Rightarrow> 'a list \<Rightarrow> nat option" where
  "find_index P [] = None"
| "find_index P (x # xs) = (if P x then Some 0 else map_option Suc (find_index P xs))"

definition dl_find :: "('a \<Rightarrow> bool) \<Rightarrow> 'a dlist \<Rightarrow> 'a option" where
  "dl_find P d = find P (dl_from d)"

text \<open>Writing to the fields of the node at a distance.\<close>

definition dl_update :: "nat \<Rightarrow> ('a \<Rightarrow> 'a) \<Rightarrow> 'a dlist \<Rightarrow> 'a dlist" where
  "dl_update i f d = DList (dl_before d) ((dl_from d)[i := f (dl_from d ! i)])"

text \<open>The same for the node at a position of the whole list.\<close>

definition dl_update_all :: "nat \<Rightarrow> ('a \<Rightarrow> 'a) \<Rightarrow> 'a dlist \<Rightarrow> 'a dlist" where
  "dl_update_all i f d =
     (let xs = (dl_all d)[i := f (dl_all d ! i)]; n = length (dl_before d) in
      DList (rev (take n xs)) (drop n xs))"

lemma dl_all_DList [simp]: "dl_all (DList b f) = rev b @ f"
  by (simp add: dl_all_def)

lemma dl_of_list_simps [simp]:
  "dl_from (dl_of_list xs) = xs" "dl_before (dl_of_list xs) = []" "dl_all (dl_of_list xs) = xs"
  by (simp_all add: dl_of_list_def)

lemma dl_all_add [simp]: "dl_wf d \<Longrightarrow> dl_all (dl_add d x) = dl_all d @ [x]"
  by (cases d) (auto simp: dl_add_def dl_wf_def)

lemma dl_from_add [simp]: "dl_from (dl_add d x) = dl_from d @ [x]"
  by (cases d) (auto simp: dl_add_def)

lemma dl_wf_add [simp]: "dl_wf (dl_add d x)"
  by (cases d) (auto simp: dl_add_def dl_wf_def)

lemma dl_head_add [simp]: "dl_head d \<Longrightarrow> dl_head (dl_add d x)"
  by (cases d) (auto simp: dl_add_def dl_head_def)

lemma dl_del_None [simp]: "dl_del d None = d"
  by (simp add: dl_del_def)

lemma dl_wf_del [simp]: "dl_wf d \<Longrightarrow> dl_wf (dl_del d i)"
  by (cases d) (auto simp: dl_del_def dl_wf_def split: option.splits list.splits)

text \<open>Deletion removes exactly the node, whatever the pointer it returns.\<close>

lemma dl_all_del:
  "i < length (dl_from d) \<Longrightarrow>
   dl_all (dl_del d (Some i)) = rev (dl_before d) @ take i (dl_from d) @ drop (Suc i) (dl_from d)"
proof -
  assume i: "i < length (dl_from d)"
  show ?thesis
  proof (cases "rev (take i (dl_from d)) @ dl_before d")
    case Nil
    then show ?thesis using i by (cases "dl_from d") (auto simp: dl_del_def)
  next
    case (Cons p ps)
    then have "rev (p # ps) = rev (dl_before d) @ take i (dl_from d)"
      by (metis rev_append rev_rev_ident)
    then have "rev ps @ [p] = rev (dl_before d) @ take i (dl_from d)" by simp
    then show ?thesis using i Cons by (simp add: dl_del_def flip: append_assoc)
  qed
qed

text \<open>Deleting the node a head pointer points at keeps a head pointer.\<close>

lemma dl_del_0: "dl_del (DList [] (x # xs)) (Some 0) = DList [] xs"
  by (simp add: dl_del_def)

text \<open>Deleting any other node returns its predecessor, and the nodes before that are out of sight.\<close>

lemma dl_del_Suc:
  "Suc i < length xs \<Longrightarrow> dl_del (DList [] xs) (Some (Suc i)) = DList (rev (take i xs)) (xs ! i # drop (Suc (Suc i)) xs)"
  by (simp add: dl_del_def take_Suc_conv_app_nth)

lemma find_index_None_iff: "find_index P xs = None \<longleftrightarrow> (\<forall>x \<in> set xs. \<not> P x)"
  by (induction xs) auto

lemma find_index_Some:
  "find_index P xs = Some i \<Longrightarrow> i < length xs \<and> P (xs ! i) \<and> (\<forall>j < i. \<not> P (xs ! j))"
  by (induction xs arbitrary: i) (auto split: if_splits simp: nth_Cons' less_Suc_eq_0_disj)

lemma find_find_index: "find P xs = map_option ((!) xs) (find_index P xs)"
  by (induction xs) (auto simp: option.map_comp comp_def)

lemma find_index_cong: "(\<And>x. x \<in> set xs \<Longrightarrow> P x = Q x) \<Longrightarrow> find_index P xs = find_index Q xs"
  by (induction xs) auto

lemma find_index_map: "find_index P xs = find_index (\<lambda>b. b) (map P xs)"
  by (induction xs) auto

lemma find_index_update:
  assumes "P (f (xs ! i)) = P (xs ! i)"
  shows "find_index P (xs[i := f (xs ! i)]) = find_index P xs"
proof -
  have "map P (xs[i := f (xs ! i)]) = map P xs"
    using assms by (cases "i < length xs") (simp_all add: map_update list_update_same_conv list_update_beyond)
  then show ?thesis by (simp add: find_index_map [of P])
qed

lemma in_set_update_cases: "x \<in> set (xs[i := y]) \<Longrightarrow> x = y \<or> x \<in> set xs"
  using set_update_subset_insert [of xs i y] by auto

lemma find_append: "find P (xs @ ys) = (case find P xs of None \<Rightarrow> find P ys | Some x \<Rightarrow> Some x)"
  by (induction xs) auto

lemma find_SomeD: "find P xs = Some x \<Longrightarrow> P x \<and> x \<in> set xs"
  by (induction xs) (auto split: if_splits)

lemma dl_find_add: "dl_find P (dl_add d x) = (case dl_find P d of None \<Rightarrow> (if P x then Some x else None) | Some y \<Rightarrow> Some y)"
  by (cases "find P (dl_from d)") (simp_all add: dl_find_def find_append)

lemma dl_all_update_all [simp]: "dl_all (dl_update_all i f d) = (dl_all d)[i := f (dl_all d ! i)]"
  by (simp add: dl_update_all_def Let_def)

lemma dl_wf_update_all [simp]: "dl_wf d \<Longrightarrow> dl_wf (dl_update_all i f d)"
  by (cases d) (auto simp: dl_update_all_def dl_wf_def Let_def)

lemma dl_head_update_all [simp]: "dl_head d \<Longrightarrow> dl_head (dl_update_all i f d)"
  by (simp add: dl_update_all_def dl_head_def Let_def)

lemma dl_update_length [simp]: "length (dl_from (dl_update i f d)) = length (dl_from d)"
  by (simp add: dl_update_def)

section \<open>Finding by key\<close>

text \<open>
  What the components rely on: a store of records that is searched by a key that is compared up to
  an equivalence (case, for nicks, channels and masks), and to which a record is added at the end.
\<close>

locale keyed_list =
  fixes key :: "'v \<Rightarrow> 'k"
    and same :: "'k \<Rightarrow> 'k \<Rightarrow> bool"
    and lookup :: "'k \<Rightarrow> 's \<Rightarrow> 'v option"
    and add :: "'s \<Rightarrow> 'v \<Rightarrow> 's"
    and visible :: "'s \<Rightarrow> 'v list"
  assumes same_sym: "same a b \<Longrightarrow> same b a"
    and same_trans: "same a b \<Longrightarrow> same b c \<Longrightarrow> same a c"
    and lookup_visible: "lookup k s = find (\<lambda>v. same (key v) k) (visible s)"
    and visible_add: "visible (add s v) = visible s @ [v]"
begin

lemma lookup_add:
  "lookup k (add s v) = (case lookup k s of None \<Rightarrow> (if same (key v) k then Some v else None) | Some w \<Rightarrow> Some w)"
  by (cases "lookup k s") (auto simp: lookup_visible visible_add find_append)

lemma lookup_add_other: "\<not> same (key v) k \<Longrightarrow> lookup k (add s v) = lookup k s"
  by (simp add: lookup_add split: option.split)

lemma lookup_key: "lookup k s = Some v \<Longrightarrow> same (key v) k"
  by (auto simp: lookup_visible dest: find_SomeD)

lemma lookup_same: "same k l \<Longrightarrow> lookup k s = lookup l s"
proof -
  assume kl: "same k l"
  have "same (key v) k = same (key v) l" for v
    by (rule iffI) (rule same_trans [OF _ kl], assumption, rule same_trans [OF _ same_sym [OF kl]], assumption)
  then show ?thesis by (simp add: lookup_visible)
qed

text \<open>No two visible records have the same key.\<close>

definition unique_keys :: "'s \<Rightarrow> bool" where
  "unique_keys s \<longleftrightarrow> sorted_wrt (\<lambda>v w. \<not> same (key v) (key w)) (visible s)"

text \<open>Adding only what is not there, as the callers do, keeps keys unique.\<close>

lemma unique_keys_add:
  assumes "unique_keys s" and "lookup (key v) s = None"
  shows "unique_keys (add s v)"
  using assms by (auto simp: unique_keys_def lookup_visible visible_add sorted_wrt_append find_None_iff)

lemma unique_keys_lookup:
  assumes "unique_keys s" and "v \<in> set (visible s)" and "same (key v) k"
  shows "lookup k s = Some v"
proof -
  from assms(2) obtain a b where v: "visible s = a @ v # b" by (auto simp: in_set_conv_decomp)
  have "\<not> same (key w) k" if w: "w \<in> set a" for w
  proof
    assume "same (key w) k"
    from same_trans [OF this same_sym [OF assms(3)]] show False
      using assms(1) w by (auto simp: unique_keys_def v sorted_wrt_append)
  qed
  then have "find (\<lambda>v. same (key v) k) a = None" by (auto simp: find_None_iff)
  then show ?thesis using assms(3) by (simp add: lookup_visible v find_append)
qed

end

section \<open>The heap of nodes\<close>

record 'a hnode =
  hn_data :: 'a
  hn_prev :: "nat option"
  hn_next :: "nat option"

type_synonym 'a heap = "nat \<Rightarrow> 'a hnode option"

text \<open>Reading through a dangling pointer is a fault; a loop that does not end is \<open>None\<close>.\<close>

definition load :: "'a heap \<Rightarrow> nat \<Rightarrow> 'a hnode res" where
  "load h p = (case h p of None \<Rightarrow> Fault UseAfterFree | Some n \<Rightarrow> Ok n)"

definition set_next :: "nat option \<Rightarrow> nat option \<Rightarrow> 'a heap \<Rightarrow> 'a heap res" where
  "set_next p v h =
     (case p of
        None \<Rightarrow> Fault NullDeref
      | Some a \<Rightarrow> rbind (load h a) (\<lambda>n. Ok (h(a \<mapsto> n\<lparr>hn_next := v\<rparr>))))"

definition set_prev :: "nat option \<Rightarrow> nat option \<Rightarrow> 'a heap \<Rightarrow> 'a heap res" where
  "set_prev p v h =
     (case p of
        None \<Rightarrow> Fault NullDeref
      | Some a \<Rightarrow> rbind (load h a) (\<lambda>n. Ok (h(a \<mapsto> n\<lparr>hn_prev := v\<rparr>))))"

text \<open>\<open>while (tmp->next != NULL) tmp = tmp->next\<close>.\<close>

partial_function (option) walk_last :: "'a heap \<Rightarrow> nat \<Rightarrow> nat res option" where
  "walk_last h tmp =
     (case load h tmp of
        Inl e \<Rightarrow> Some (Fault e)
      | Inr n \<Rightarrow> (case hn_next n of None \<Rightarrow> Some (Ok tmp) | Some nx \<Rightarrow> walk_last h nx))"

definition heap_list_add :: "'a heap \<Rightarrow> nat option \<Rightarrow> nat \<Rightarrow> ('a heap \<times> nat option) res option" where
  "heap_list_add h users add =
     (case users of
        None \<Rightarrow> Some (Ok (h, Some add))
      | Some u \<Rightarrow>
          map_option (\<lambda>r. rbind r (\<lambda>tmp.
              rbind (set_next (Some tmp) (Some add) h) (\<lambda>h1.
              rbind (set_prev (Some add) (Some tmp) h1) (\<lambda>h2. Ok (h2, users)))))
            (walk_last h u))"

text \<open>The unlinking of the node \<open>del\<close>, once the walk has found it.\<close>

definition heap_unlink :: "'a heap \<Rightarrow> nat \<Rightarrow> ('a heap \<times> nat option) res" where
  "heap_unlink h del =
     rbind (load h del) (\<lambda>tmp.
     rbind (if hn_prev tmp \<noteq> None then set_next (hn_prev tmp) (hn_next tmp) h else Ok h) (\<lambda>h1.
     rbind (if hn_next tmp \<noteq> None then set_prev (hn_next tmp) (hn_prev tmp) h1 else Ok h1) (\<lambda>h2.
       Ok (h2, if hn_prev tmp \<noteq> None then hn_prev tmp else hn_next tmp))))"

partial_function (option) heap_del_walk ::
  "'a heap \<Rightarrow> nat option \<Rightarrow> nat option \<Rightarrow> nat option \<Rightarrow> ('a heap \<times> nat option) res option" where
  "heap_del_walk h users tmp del =
     (case tmp of
        None \<Rightarrow> Some (Ok (h, users))
      | Some t \<Rightarrow>
          if del = Some t then Some (heap_unlink h t)
          else (case load h t of
                  Inl e \<Rightarrow> Some (Fault e)
                | Inr n \<Rightarrow> heap_del_walk h users (hn_next n) del))"

definition heap_list_del :: "'a heap \<Rightarrow> nat option \<Rightarrow> nat option \<Rightarrow> ('a heap \<times> nat option) res option" where
  "heap_list_del h users del = heap_del_walk h users users del"

text \<open>
  \<open>dseg h pv cells nx\<close>: the cells (address and data) are linked both ways in \<open>h\<close>, between \<open>pv\<close> and
  \<open>nx\<close>. A pointer into a list is a cursor list of cells.
\<close>

definition first_addr :: "(nat \<times> 'a) list \<Rightarrow> nat option \<Rightarrow> nat option" where
  "first_addr xs nx = (case xs of [] \<Rightarrow> nx | x # _ \<Rightarrow> Some (fst x))"

definition last_addr :: "nat option \<Rightarrow> (nat \<times> 'a) list \<Rightarrow> nat option" where
  "last_addr pv xs = (if xs = [] then pv else Some (fst (last xs)))"

fun dseg :: "'a heap \<Rightarrow> nat option \<Rightarrow> (nat \<times> 'a) list \<Rightarrow> nat option \<Rightarrow> bool" where
  "dseg h pv [] nx = True"
| "dseg h pv (x # xs) nx =
     (h (fst x) = Some \<lparr>hn_data = snd x, hn_prev = pv, hn_next = first_addr xs nx\<rparr> \<and>
      dseg h (Some (fst x)) xs nx)"

definition represents :: "'a heap \<Rightarrow> nat option \<Rightarrow> (nat \<times> 'a) dlist \<Rightarrow> bool" where
  "represents h p d \<longleftrightarrow>
     dl_wf d \<and> distinct (map fst (dl_all d)) \<and> dseg h None (dl_all d) None \<and>
     p = first_addr (dl_from d) None"

lemma first_addr_simps [simp]: "first_addr [] nx = nx" "first_addr (x # xs) nx = Some (fst x)"
  by (simp_all add: first_addr_def)

lemma last_addr_simps [simp]:
  "last_addr pv [] = pv" "last_addr pv (xs @ ys) = last_addr (last_addr pv xs) ys"
  "last_addr pv (x # xs) = last_addr (Some (fst x)) xs"
  by (simp_all add: last_addr_def)

lemma first_addr_append [simp]: "first_addr (xs @ ys) nx = first_addr xs (first_addr ys nx)"
  by (cases xs) simp_all

lemma dseg_append:
  "dseg h pv (xs @ ys) nx \<longleftrightarrow> dseg h pv xs (first_addr ys nx) \<and> dseg h (last_addr pv xs) ys nx"
  by (induction xs arbitrary: pv) auto

lemma dseg_frame: "a \<notin> fst ` set xs \<Longrightarrow> dseg (h(a := v)) pv xs nx = dseg h pv xs nx"
  by (induction xs arbitrary: pv) auto

text \<open>Writing the \<open>next\<close> of the last cell, or the \<open>prev\<close> of the first one.\<close>

lemma dseg_set_next:
  assumes "dseg h pv (xs @ [x]) nx" and "distinct (map fst (xs @ [x]))"
  shows "\<exists>h'. set_next (Some (fst x)) nx' h = Ok h' \<and> dseg h' pv (xs @ [x]) nx' \<and>
              (\<forall>a. a \<noteq> fst x \<longrightarrow> h' a = h a)"
  using assms by (auto simp: dseg_append set_next_def load_def dseg_frame)

lemma dseg_set_prev:
  assumes "dseg h pv (x # xs) nx" and "distinct (map fst (x # xs))"
  shows "\<exists>h'. set_prev (Some (fst x)) pv' h = Ok h' \<and> dseg h' pv' (x # xs) nx \<and>
              (\<forall>a. a \<noteq> fst x \<longrightarrow> h' a = h a)"
  using assms by (auto simp: set_prev_def load_def dseg_frame)

lemma dseg_other:
  "(\<And>b. b \<noteq> a \<Longrightarrow> h' b = h b) \<Longrightarrow> a \<notin> fst ` set xs \<Longrightarrow> dseg h' pv xs nx = dseg h pv xs nx"
  by (induction xs arbitrary: pv) auto

lemma walk_last_dseg:
  "dseg h pv (xs @ [x]) None \<Longrightarrow> first_addr (xs @ [x]) None = Some p \<Longrightarrow> walk_last h p = Some (Ok (fst x))"
proof (induction xs arbitrary: pv p)
  case Nil
  then show ?case by (subst walk_last.simps) (simp add: load_def)
next
  case (Cons y ys)
  obtain q where q: "first_addr (ys @ [x]) None = Some q" by (cases ys) auto
  have "dseg h (Some (fst y)) (ys @ [x]) None" using Cons.prems by simp
  then have "walk_last h q = Some (Ok (fst x))" using Cons.IH q by blast
  then show ?case using Cons.prems q by (subst walk_last.simps) (simp add: load_def)
qed

lemma heap_list_add_refines:
  assumes r: "represents h p d" and a: "a \<notin> fst ` set (dl_all d)"
    and fresh: "h a = Some \<lparr>hn_data = x, hn_prev = None, hn_next = None\<rparr>"
  shows "\<exists>h' p'. heap_list_add h p a = Some (Ok (h', p')) \<and> represents h' p' (dl_add d (a, x))"
proof (cases "dl_from d")
  case Nil
  then show ?thesis
    using r fresh by (auto simp: represents_def dl_wf_def heap_list_add_def dl_add_def)
next
  case (Cons y ys)
  then obtain fs l where fl: "dl_from d = fs @ [l]" by (metis append_butlast_last_id list.distinct(1))
  let ?b = "rev (dl_before d)"
  from Cons r obtain q where p: "p = Some q" by (auto simp: represents_def)
  from r fl have s: "dseg h None (?b @ fs @ [l]) None" and dis: "distinct (map fst ((?b @ fs) @ [l]))"
    and pq: "first_addr (fs @ [l]) None = Some q"
    using p by (auto simp: represents_def dl_all_def)
  have wl: "walk_last h q = Some (Ok (fst l))"
    using s pq by (intro walk_last_dseg [of _ "last_addr None ?b"]) (simp_all add: dseg_append)
  obtain h1 where h1: "set_next (Some (fst l)) (Some a) h = Ok h1"
      "dseg h1 None ((?b @ fs) @ [l]) (Some a)" "\<And>b. b \<noteq> fst l \<Longrightarrow> h1 b = h b"
    using dseg_set_next [of h None "?b @ fs" l None "Some a"] s dis by auto
  have al: "a \<noteq> fst l" using a fl by (auto simp: dl_all_def)
  have h1a: "dseg h1 None [(a, x)] None" using h1(3) [OF al] fresh by simp
  obtain h2 where h2: "set_prev (Some a) (Some (fst l)) h1 = Ok h2"
      "dseg h2 (Some (fst l)) [(a, x)] None" "\<And>b. b \<noteq> a \<Longrightarrow> h2 b = h1 b"
    using dseg_set_prev [OF h1a, of "Some (fst l)"] by auto
  have "dseg h2 None ((?b @ fs) @ [l]) (Some a)"
    using h1(2) a by (subst dseg_other [OF h2(3)]) (auto simp: fl dl_all_def)
  then have "dseg h2 None (((?b @ fs) @ [l]) @ [(a, x)]) None"
    using h2(2) by (subst dseg_append) simp
  moreover have "distinct (map fst (((?b @ fs) @ [l]) @ [(a, x)]))"
    using dis a by (auto simp: fl dl_all_def)
  moreover have "first_addr (fs @ [l, (a, x)]) None = Some q" using pq by (cases fs) auto
  ultimately have "represents h2 p (dl_add d (a, x))"
    using r fl p by (simp add: represents_def dl_add_def dl_wf_def)
  then show ?thesis using wl h1 h2 p by (simp add: heap_list_add_def)
qed

text \<open>The unlinking: what is left is linked, and the pointer is the one of the cursor list.\<close>

lemma heap_unlink_dseg:
  assumes s: "dseg h None (as @ t # bs) None" and d: "distinct (map fst (as @ t # bs))"
  shows "\<exists>h'. heap_unlink h (fst t) = Ok (h', last_addr (first_addr bs None) as) \<and>
              dseg h' None (as @ bs) None"
proof -
  have ht: "load h (fst t) = Ok \<lparr>hn_data = snd t, hn_prev = last_addr None as, hn_next = first_addr bs None\<rparr>"
    using s by (simp add: load_def dseg_append)
  obtain h1 where h1: "(if as \<noteq> [] then set_next (last_addr None as) (first_addr bs None) h else Ok h) = Ok h1"
      "dseg h1 None as (first_addr bs None)" "dseg h1 (Some (fst t)) bs None"
  proof (cases as rule: rev_exhaust)
    case Nil
    then show ?thesis using s that by auto
  next
    case (snoc cs c)
    obtain h1 where h1: "set_next (Some (fst c)) (first_addr bs None) h = Ok h1"
        "dseg h1 None (cs @ [c]) (first_addr bs None)" "\<And>b. b \<noteq> fst c \<Longrightarrow> h1 b = h b"
      using dseg_set_next [of h None cs c "Some (fst t)" "first_addr bs None"] s d snoc
      by (auto simp: dseg_append)
    have "dseg h1 (Some (fst t)) bs None"
      using s d snoc by (subst dseg_other [OF h1(3)]) (auto simp: dseg_append)
    then show ?thesis using h1 that snoc by simp
  qed
  obtain h2 where h2: "(if bs \<noteq> [] then set_prev (first_addr bs None) (last_addr None as) h1 else Ok h1) = Ok h2"
      "dseg h2 (last_addr None as) bs None" "dseg h2 None as (first_addr bs None)"
  proof (cases bs)
    case Nil
    then show ?thesis using h1 that by auto
  next
    case (Cons c cs)
    obtain h2 where h2: "set_prev (Some (fst c)) (last_addr None as) h1 = Ok h2"
        "dseg h2 (last_addr None as) (c # cs) None" "\<And>b. b \<noteq> fst c \<Longrightarrow> h2 b = h1 b"
      using dseg_set_prev [of h1 "Some (fst t)" c cs None "last_addr None as"] h1 d Cons by auto
    have "dseg h2 None as (Some (fst c))"
      using h1 d Cons by (subst dseg_other [OF h2(3)]) auto
    then show ?thesis using h2 that Cons by simp
  qed
  have "(last_addr None as = None) = (as = [])" "(first_addr bs None = None) = (bs = [])"
    by (auto simp: last_addr_def first_addr_def split: list.split)
  then have "heap_unlink h (fst t) = Ok (h2, last_addr (first_addr bs None) as)"
    using ht h1(1) h2(1) by (auto simp: heap_unlink_def last_addr_def)
  then show ?thesis using h2 by (auto simp: dseg_append)
qed

lemma heap_del_walk_found:
  "dseg h pv (xs @ t # ys) None \<Longrightarrow> fst t \<notin> fst ` set xs \<Longrightarrow>
   heap_del_walk h u (first_addr (xs @ t # ys) None) (Some (fst t)) = Some (heap_unlink h (fst t))"
proof (induction xs arbitrary: pv)
  case Nil
  then show ?case by (subst heap_del_walk.simps) simp
next
  case (Cons y xs)
  then have "dseg h (Some (fst y)) (xs @ t # ys) None" by simp
  then have "heap_del_walk h u (first_addr (xs @ t # ys) None) (Some (fst t)) = Some (heap_unlink h (fst t))"
    using Cons by simp
  then show ?case using Cons.prems by (subst heap_del_walk.simps) (simp add: load_def)
qed

lemma heap_del_walk_missing:
  "dseg h pv xs None \<Longrightarrow> (\<And>a. del = Some a \<Longrightarrow> a \<notin> fst ` set xs) \<Longrightarrow>
   heap_del_walk h u (first_addr xs None) del = Some (Ok (h, u))"
proof (induction xs arbitrary: pv)
  case Nil
  then show ?case by (subst heap_del_walk.simps) simp
next
  case (Cons y xs)
  then have "dseg h (Some (fst y)) xs None" by simp
  moreover have "\<And>a. del = Some a \<Longrightarrow> a \<notin> fst ` set xs" using Cons.prems by auto
  ultimately have "heap_del_walk h u (first_addr xs None) del = Some (Ok (h, u))"
    using Cons.IH by blast
  moreover have "del \<noteq> Some (fst y)" using Cons.prems(2) [of "fst y"] by auto
  ultimately show ?case using Cons.prems by (subst heap_del_walk.simps) (auto simp: load_def)
qed

lemma first_addr_take_drop:
  "first_addr xs None = first_addr (take i xs @ drop i xs) None"
  by simp

lemma heap_list_del_refines:
  assumes r: "represents h p d" and i: "i < length (dl_from d)"
  shows "\<exists>h' p'. heap_list_del h p (Some (fst (dl_from d ! i))) = Some (Ok (h', p')) \<and>
                 represents h' p' (dl_del d (Some i))"
proof -
  let ?b = "rev (dl_before d)" and ?t = "dl_from d ! i"
  let ?x = "take i (dl_from d)" and ?y = "drop (Suc i) (dl_from d)"
  have f: "dl_from d = ?x @ ?t # ?y" using i by (simp add: id_take_nth_drop)
  have all: "dl_all d = (?b @ ?x) @ ?t # ?y" using f by (simp add: dl_all_def)
  have s: "dseg h None ((?b @ ?x) @ ?t # ?y) None" and dis: "distinct (map fst ((?b @ ?x) @ ?t # ?y))"
    and p: "p = first_addr (?x @ ?t # ?y) None"
    using r all f by (auto simp: represents_def)
  have "dseg h (last_addr None ?b) (?x @ ?t # ?y) None" using s by (simp add: dseg_append)
  then have w: "heap_del_walk h p p (Some (fst ?t)) = Some (heap_unlink h (fst ?t))"
    using dis unfolding p by (intro heap_del_walk_found) auto
  obtain h' where u: "heap_unlink h (fst ?t) = Ok (h', last_addr (first_addr ?y None) (?b @ ?x))"
      "dseg h' None ((?b @ ?x) @ ?y) None"
    using heap_unlink_dseg [OF s dis] by auto
  have all': "dl_all (dl_del d (Some i)) = (?b @ ?x) @ ?y" using dl_all_del [OF i] by simp
  have "first_addr (dl_from (dl_del d (Some i))) None = last_addr (first_addr ?y None) (?b @ ?x)"
  proof (cases "?b @ ?x" rule: rev_exhaust)
    case Nil
    then show ?thesis using i by (cases "dl_from d") (auto simp: dl_del_def)
  next
    case (snoc cs c)
    then have "rev ?x @ dl_before d = c # rev cs" by (metis rev_append rev_rev_ident rev_eq_Cons_iff)
    then show ?thesis using i snoc by (simp add: dl_del_def)
  qed
  then have "represents h' (last_addr (first_addr ?y None) (?b @ ?x)) (dl_del d (Some i))"
    using r u(2) all' dis by (auto simp: represents_def)
  then show ?thesis using w u(1) by (simp add: heap_list_del_def)
qed

lemma heap_list_del_missing:
  assumes "represents h p d" and "\<And>a. del = Some a \<Longrightarrow> a \<notin> fst ` set (dl_from d)"
  shows "heap_list_del h p del = Some (Ok (h, p))"
proof -
  have "dseg h (last_addr None (rev (dl_before d))) (dl_from d) None"
    using assms(1) by (auto simp: represents_def dl_all_def dseg_append)
  then show ?thesis
    using assms heap_del_walk_missing unfolding heap_list_del_def represents_def by blast
qed

end
