(* ===== verification/Tconfig.thy ===== *)
theory Tconfig
  imports Dlist
begin

text \<open>
  \<^verbatim>\<open>src/src/tconfig.c\<close>: the configuration tree, its parser and its writer, the searches and
  traversals, the freeing of a tree, and the merge of one tree into another.
\<close>

section \<open>Blocks\<close>

text \<open>
  A level of the tree is the list of its blocks in the order of \<open>next\<close>; NULL is the empty list. The
  field \<open>parent\<close> is set in the first block of a level only, and where it points is where the block
  is; \<open>tb_parent\<close> says whether it is set.
\<close>

datatype tblock = TB (tb_key: cstr) (tb_value: cstr) (tb_parent: bool) (tb_child: "tblock list")

definition tconfig_block_new :: tblock where
  "tconfig_block_new = TB None None False []"

text \<open>
  A \<open>struct tconfig_block *\<close> into a tree: the blocks before it on its level (nearest first), the block,
  the blocks after it, and the same for the blocks it is below, innermost first.
\<close>

type_synonym tframe = "tblock list \<times> cstr \<times> cstr \<times> bool \<times> tblock list"

datatype tzip = TZ (tz_left: "tblock list") (tz_cur: tblock) (tz_right: "tblock list") (tz_up: "tframe list")

definition tz_level :: "tzip \<Rightarrow> tblock list" where
  "tz_level z = rev (tz_left z) @ tz_cur z # tz_right z"

fun plug :: "tblock list \<Rightarrow> tframe list \<Rightarrow> tblock list" where
  "plug level [] = level"
| "plug level ((l, k, v, p, r) # up) = plug (rev l @ TB k v p level # r) up"

definition tz_top :: "tzip \<Rightarrow> tblock list" where
  "tz_top z = plug (tz_level z) (tz_up z)"

definition tz_of_list :: "tblock list \<Rightarrow> tframe list \<Rightarrow> tzip option" where
  "tz_of_list bs up = (case bs of [] \<Rightarrow> None | b # r \<Rightarrow> Some (TZ [] b r up))"

text \<open>The four links of a block.\<close>

fun tz_next :: "tzip \<Rightarrow> tzip option" where
  "tz_next (TZ l c [] up) = None"
| "tz_next (TZ l c (r # rs) up) = Some (TZ (c # l) r rs up)"

fun tz_prev :: "tzip \<Rightarrow> tzip option" where
  "tz_prev (TZ [] c r up) = None"
| "tz_prev (TZ (l # ls) c r up) = Some (TZ ls l (c # r) up)"

fun tz_child :: "tzip \<Rightarrow> tzip option" where
  "tz_child (TZ l (TB k v p cs) r up) = tz_of_list cs ((l, k, v, p, r) # up)"

fun tz_parent :: "tzip \<Rightarrow> tzip option" where
  "tz_parent (TZ l c r []) = None"
| "tz_parent (TZ l c r ((l', k, v, p, r') # up)) =
     (if tb_parent c then Some (TZ l' (TB k v p (rev l @ c # r)) r' up) else None)"

fun tz_first :: "tzip \<Rightarrow> tzip" where
  "tz_first (TZ l c r up) =
     (case rev l @ c # r of [] \<Rightarrow> TZ l c r up | b # bs \<Rightarrow> TZ [] b bs up)"

section \<open>Reading a file\<close>

text \<open>
  The text is what \<open>fread\<close> put before the terminating NUL. Every \<open>exit(EXIT_FAILURE)\<close> of the parser
  is \<open>Fault ExitFailure\<close>. The line counter only goes into the messages and is left out.
\<close>

text \<open>
  After \<open>/*\<close>. \<open>None\<close>: the scan stopped at the NUL, and the loop then steps over it.
\<close>

fun skip_c_comment :: "string \<Rightarrow> string option res" where
  "skip_c_comment [] = Ok None"
| "skip_c_comment [c] = Fault ExitFailure"
| "skip_c_comment (c # d # r) =
     (if c = CHR ''*'' \<and> d = CHR ''/'' then Ok (Some r)
      else if c = CR \<and> d = NL then skip_c_comment r
      else skip_c_comment (d # r))"

text \<open>After \<open>//\<close>. \<open>None\<close>: the file ends here and the tree is returned.\<close>

fun skip_line_comment :: "string \<Rightarrow> string option" where
  "skip_line_comment [] = None"
| "skip_line_comment (c # r) =
     (if c = CR then
        (case r of
           [] \<Rightarrow> None
         | d # r' \<Rightarrow> if d \<noteq> NL then Some r' else Some r)
      else if c = NL then Some r
      else skip_line_comment r)"

text \<open>A key and what follows it; a value and what follows it, starting at its terminator.\<close>

definition quoted_char :: "char \<Rightarrow> bool" where
  "quoted_char c \<longleftrightarrow> c \<noteq> NL \<and> c \<noteq> CR \<and> c \<noteq> DQUOTE"

definition scan_quoted :: "string \<Rightarrow> (string \<times> string) res" where
  "scan_quoted s =
     (case dropWhile quoted_char s of
        [] \<Rightarrow> Fault ExitFailure
      | c # r \<Rightarrow> if c \<noteq> DQUOTE then Fault ExitFailure else Ok (takeWhile quoted_char s, c # r))"

definition scan_plain :: "(char \<Rightarrow> bool) \<Rightarrow> string \<Rightarrow> (string \<times> string) res" where
  "scan_plain stop s =
     (if dropWhile (\<lambda>c. \<not> stop c) s = [] then Fault ExitFailure
      else Ok (takeWhile (\<lambda>c. \<not> stop c) s, dropWhile (\<lambda>c. \<not> stop c) s))"

definition key_stop :: "char \<Rightarrow> bool" where
  "key_stop c \<longleftrightarrow> c = SPC \<or> c = TAB"

definition value_stop :: "char \<Rightarrow> bool" where
  "value_stop c \<longleftrightarrow> c = SPC \<or> c = TAB \<or> c = CR \<or> c = NL"

definition scan_word :: "(char \<Rightarrow> bool) \<Rightarrow> string \<Rightarrow> (string \<times> string) res" where
  "scan_word stop s =
     (case s of
        [] \<Rightarrow> scan_plain stop s
      | c # cs \<Rightarrow> if c = DQUOTE then scan_quoted cs else scan_plain stop s)"

definition skip_quote :: "string \<Rightarrow> string" where
  "skip_quote s = (case s of [] \<Rightarrow> [] | c # cs \<Rightarrow> if c = DQUOTE then cs else s)"

definition skip_blanks :: "string \<Rightarrow> string res" where
  "skip_blanks s =
     (case dropWhile key_stop s of
        [] \<Rightarrow> Fault ExitFailure
      | c # cs \<Rightarrow> if c = CR \<or> c = NL then Fault ExitFailure else Ok (c # cs))"

definition scan_pair :: "string \<Rightarrow> (string \<times> string \<times> string) res" where
  "scan_pair s =
     rbind (scan_word key_stop s) (\<lambda>(key, r).
     rbind (skip_blanks (skip_quote r)) (\<lambda>r'.
     rbind (scan_word value_stop r') (\<lambda>(val, r'').
       Ok (key, val, tl r''))))"

text \<open>
  Attaching a pair: jump to the block of the level that has it; otherwise fill the last block of the
  level if it is empty, or add a block after it.
\<close>

definition same_pair :: "string \<Rightarrow> string \<Rightarrow> tblock \<Rightarrow> bool" where
  "same_pair k v b \<longleftrightarrow> tb_key b = Some k \<and> tb_value b = Some v"

definition put_pair :: "string \<Rightarrow> string \<Rightarrow> tzip \<Rightarrow> tzip" where
  "put_pair k v z =
     (let level = tz_level z in
      case find_index (same_pair k v) level of
        Some i \<Rightarrow> TZ (rev (take i level)) (level ! i) (drop (Suc i) level) (tz_up z)
      | None \<Rightarrow>
          (let block = last level in
           if tb_key block = None \<and> tb_value block = None
           then TZ (rev (butlast level)) (TB (Some k) (Some v) (tb_parent block) (tb_child block)) [] (tz_up z)
           else TZ (rev level) (TB (Some k) (Some v) False []) [] (tz_up z)))"

definition open_block :: "tzip \<Rightarrow> tzip" where
  "open_block z =
     (case tz_child z of
        Some z' \<Rightarrow> z'
      | None \<Rightarrow> (case z of TZ l (TB k v p cs) r up \<Rightarrow> TZ [] (TB None None True []) [] ((l, k, v, p, r) # up)))"

definition close_block :: "tzip \<Rightarrow> tzip res" where
  "close_block z = (case tz_parent (tz_first z) of None \<Rightarrow> Fault ExitFailure | Some z' \<Rightarrow> Ok z')"

lemma skip_c_comment_length: "skip_c_comment s = Ok (Some r) \<Longrightarrow> length r < length s"
  by (induction s rule: skip_c_comment.induct) (auto split: if_splits)

lemma skip_line_comment_length: "skip_line_comment s = Some r \<Longrightarrow> length r < length s"
  by (induction s rule: skip_line_comment.induct) (auto split: if_splits list.splits)

lemma scan_word_length: "scan_word stop s = Ok (w, r) \<Longrightarrow> length r \<le> length s"
  by (auto simp: scan_word_def scan_plain_def scan_quoted_def intro: le_SucI length_dropWhile_le
      split: list.splits if_splits)

lemma scan_word_nonempty: "scan_word stop s = Ok (w, r) \<Longrightarrow> r \<noteq> []"
  by (auto simp: scan_word_def scan_plain_def scan_quoted_def split: list.splits if_splits)

lemma skip_blanks_length: "skip_blanks s = Ok r \<Longrightarrow> length r \<le> length s"
  by (auto simp: skip_blanks_def intro: length_dropWhile_le split: list.splits if_splits)

lemma skip_quote_length: "length (skip_quote s) \<le> length s"
  by (auto simp: skip_quote_def split: list.splits)

lemma scan_pair_length: "scan_pair s = Ok (k, v, r) \<Longrightarrow> length r < length s"
proof -
  assume "scan_pair s = Ok (k, v, r)"
  then obtain r1 r2 r3 where a: "scan_word key_stop s = Ok (k, r1)" "skip_blanks (skip_quote r1) = Ok r2"
      "scan_word value_stop r2 = Ok (v, r3)" "r = tl r3"
    by (auto simp: scan_pair_def rbind_Ok_iff)
  then show ?thesis
    using scan_word_length [OF a(1)] scan_word_length [OF a(3)] scan_word_nonempty [OF a(3)]
      skip_blanks_length [OF a(2)] skip_quote_length [of r1]
    by (cases r3) auto
qed

text \<open>
  The main loop. \<open>slack\<close>: there is a zero byte after the NUL, so that stepping over it ends the loop.
\<close>

function parse_blocks :: "bool \<Rightarrow> tzip \<Rightarrow> string \<Rightarrow> tzip res" where
  "parse_blocks slack block [] = Ok block"
| "parse_blocks slack block (c # cs) =
     (if c = CHR ''{'' then parse_blocks slack (open_block block) cs
      else if c = CHR ''}'' then rbind (close_block block) (\<lambda>b. parse_blocks slack b cs)
      else if c = CHR ''/'' then
        (case cs of
           [] \<Rightarrow> Fault ExitFailure
         | d # ds \<Rightarrow>
             if d \<noteq> CHR ''*'' \<and> d \<noteq> CHR ''/'' then Fault ExitFailure
             else if d = CHR ''*'' then
               rbind (skip_c_comment ds) (\<lambda>r.
                 case r of
                   None \<Rightarrow> if slack then Ok block else Fault OutOfBounds
                 | Some r' \<Rightarrow> parse_blocks slack block r')
             else
               (case skip_line_comment ds of
                  None \<Rightarrow> Ok block
                | Some r' \<Rightarrow> parse_blocks slack block r'))
      else if c = CR then
        parse_blocks slack block (case cs of [] \<Rightarrow> [] | d # ds \<Rightarrow> if d = NL then ds else cs)
      else if c = NL \<or> c = TAB \<or> c = SPC then parse_blocks slack block cs
      else rbind (scan_pair (c # cs)) (\<lambda>(k, v, r). parse_blocks slack (put_pair k v block) r))"
  by pat_completeness auto
termination
  by (relation "measure (\<lambda>(slack, block, s). length s)")
     (auto dest!: skip_c_comment_length skip_line_comment_length scan_pair_length split: list.splits)

text \<open>
  \<open>file\<close> is the content, \<open>None\<close> if the file cannot be opened. A file shorter than \<open>BUFFER_SIZE - 1\<close>
  leaves a zero byte of \<open>tmalloc0(BUFFER_SIZE)\<close> behind the NUL.
\<close>

definition file_to_tconfig :: "cstr \<Rightarrow> tblock list res" where
  "file_to_tconfig file =
     (case file of
        None \<Rightarrow> Ok []
      | Some fbuf \<Rightarrow>
          rbind (parse_blocks (length fbuf < 1023) (TZ [] tconfig_block_new [] []) fbuf) (\<lambda>z. Ok (tz_top z)))"

section \<open>Writing a tree\<close>

definition indent :: "nat \<Rightarrow> string" where
  "indent depth = replicate (depth * 2) SPC"

definition quote_if :: "string \<Rightarrow> string" where
  "quote_if s =
     (if strchr s SPC \<noteq> None \<or> strchr s TAB \<noteq> None then DQUOTE # s @ [DQUOTE] else s)"

text \<open>\<open>strchr\<close> reads the key and the value, which are NULL in an empty block.\<close>

definition write_line :: "nat \<Rightarrow> tblock \<Rightarrow> string res" where
  "write_line depth tmp =
     rbind (deref (tb_key tmp)) (\<lambda>k.
     rbind (deref (tb_value tmp)) (\<lambda>v.
       Ok (indent depth @ quote_if k @ TAB # quote_if v @ [NL])))"

text \<open>\<open>while (tmp->parent == NULL) tmp = tmp->prev\<close>, and the parent.\<close>

fun walk_parent :: "tblock list \<Rightarrow> tblock \<Rightarrow> tblock list \<Rightarrow> tframe list \<Rightarrow> tzip res" where
  "walk_parent [] c r up =
     (case tz_parent (TZ [] c r up) of None \<Rightarrow> Fault NullDeref | Some z \<Rightarrow> Ok z)"
| "walk_parent (l # ls) c r up =
     (case tz_parent (TZ (l # ls) c r up) of Some z \<Rightarrow> Ok z | None \<Rightarrow> walk_parent ls l (c # r) up)"

definition to_parent :: "tzip \<Rightarrow> tzip res" where
  "to_parent z = (case z of TZ l c r up \<Rightarrow> walk_parent l c r up)"

text \<open>The climb after a last leaf: where the writing goes on, \<open>None\<close> if it is done.\<close>

fun write_up :: "nat \<Rightarrow> string \<Rightarrow> tzip \<Rightarrow> (string \<times> (nat \<times> tzip) option) res" where
  "write_up 0 out tmp =
     (case tz_next tmp of None \<Rightarrow> Ok (out, None) | Some n \<Rightarrow> Ok (out, Some (0, n)))"
| "write_up (Suc d) out tmp =
     (case tz_next tmp of
        Some n \<Rightarrow> Ok (out, Some (Suc d, n))
      | None \<Rightarrow> rbind (to_parent tmp) (\<lambda>p. write_up d (out @ indent d @ [CHR ''}'', NL, NL]) p))"

partial_function (option) tconfig_r_depth_first_write ::
  "nat \<Rightarrow> string \<Rightarrow> tzip option \<Rightarrow> string res option" where
  "tconfig_r_depth_first_write depth out tmp =
     (case tmp of
        None \<Rightarrow> Some (Ok out)
      | Some z \<Rightarrow>
          (case tz_child z of
             Some c \<Rightarrow>
               (case write_line depth (tz_cur z) of
                  Inl e \<Rightarrow> Some (Fault e)
                | Inr s \<Rightarrow>
                    tconfig_r_depth_first_write (Suc depth)
                      (out @ NL # s @ indent depth @ [CHR ''{'', NL]) (Some c))
           | None \<Rightarrow>
               (case tz_next z of
                  Some n \<Rightarrow>
                    (case write_line depth (tz_cur z) of
                       Inl e \<Rightarrow> Some (Fault e)
                     | Inr s \<Rightarrow> tconfig_r_depth_first_write depth (out @ s) (Some n))
                | None \<Rightarrow>
                    (case write_line depth (tz_cur z) of
                       Inl e \<Rightarrow> Some (Fault e)
                     | Inr s \<Rightarrow>
                         if depth > 0 then
                           (case write_up depth (out @ s) z of
                              Inl e \<Rightarrow> Some (Fault e)
                            | Inr (o', None) \<Rightarrow> Some (Ok o')
                            | Inr (o', Some (d, n)) \<Rightarrow> tconfig_r_depth_first_write d o' (Some n))
                         else Some (Ok (out @ s))))))"

text \<open>
  The content written, \<open>None\<close> inside if no file is written; \<open>opens\<close> is whether \<open>fopen\<close> succeeds.
\<close>

definition tconfig_to_file :: "tblock list \<Rightarrow> bool \<Rightarrow> cstr res option" where
  "tconfig_to_file tcfg opens =
     (case tz_of_list tcfg [] of
        None \<Rightarrow> Some (Ok None)
      | Some tmp \<Rightarrow>
          if \<not> opens then Some (Ok None)
          else map_option (\<lambda>r. rbind r (\<lambda>s. Ok (Some s)))
                 (tconfig_r_depth_first_write 0 [] (Some tmp)))"

subsection \<open>The writer by recursion on the tree\<close>

lemma forest_induct [case_names Nil Cons]:
  assumes "P []" and "\<And>k v p cs r. P cs \<Longrightarrow> P r \<Longrightarrow> P (TB k v p cs # r)"
  shows "P bs"
proof (induction "size_list size bs" arbitrary: bs rule: less_induct)
  case less
  show ?case
  proof (cases bs)
    case Nil
    then show ?thesis using assms(1) by simp
  next
    case (Cons b r)
    then obtain k v p cs where b: "b = TB k v p cs" by (cases b)
    have "P cs" "P r" using less Cons b by (auto intro!: less)
    then show ?thesis using assms(2) Cons b by simp
  qed
qed

fun write_blocks :: "nat \<Rightarrow> tblock list \<Rightarrow> string res" where
  "write_blocks d [] = Ok []"
| "write_blocks d (TB k v p cs # r) =
     rbind (write_line d (TB k v p cs)) (\<lambda>s.
       if cs = [] then rbind (write_blocks d r) (\<lambda>u. Ok (s @ u))
       else rbind (write_blocks (Suc d) cs) (\<lambda>t.
            rbind (write_blocks d r) (\<lambda>u.
              Ok (NL # s @ indent d @ [CHR ''{'', NL] @ t @ indent d @ [CHR ''}'', NL, NL] @ u))))"

text \<open>The first block of every level below another block points to that block.\<close>

fun linked :: "tblock \<Rightarrow> bool" where
  "linked (TB k v p cs) = ((case cs of [] \<Rightarrow> True | c # _ \<Rightarrow> tb_parent c) \<and> list_all linked cs)"

lemma hd_snoc2 [simp]: "hd (xs @ [a, c]) = hd (xs @ [a])"
  by (cases xs) auto

lemma walk_parent_level:
  assumes "tb_parent (hd (rev l @ [c]))"
  shows "walk_parent l c r ((l', k, v, p, r') # up) = Ok (TZ l' (TB k v p (rev l @ c # r)) r' up)"
  using assms by (induction l arbitrary: c r) auto

definition write_rest :: "nat \<Rightarrow> string \<Rightarrow> tzip \<Rightarrow> string res option" where
  "write_rest d out z =
     (case write_up d out z of
        Inl e \<Rightarrow> Some (Fault e)
      | Inr (o', None) \<Rightarrow> Some (Ok o')
      | Inr (o', Some (d', n)) \<Rightarrow> tconfig_r_depth_first_write d' o' (Some n))"

definition last_of :: "tblock list \<Rightarrow> tblock list \<Rightarrow> tframe list \<Rightarrow> tzip" where
  "last_of l bs up = TZ (rev (butlast bs) @ l) (last bs) [] up"

lemma last_of_Cons: "bs \<noteq> [] \<Longrightarrow> last_of l (b # bs) up = last_of (b # l) bs up"
  by (simp add: last_of_def)

lemma write_rest_leave:
  assumes "cs \<noteq> []" and "tb_parent (hd cs)"
  shows "write_rest (Suc d) out (last_of [] cs ((l, k, v, p, r) # up)) =
         write_rest d (out @ indent d @ [CHR ''}'', NL, NL]) (TZ l (TB k v p cs) r up)"
proof -
  have "rev (rev (butlast cs)) @ [last cs] = cs" using assms(1) by simp
  then have "walk_parent (rev (butlast cs)) (last cs) [] ((l, k, v, p, r) # up) = Ok (TZ l (TB k v p cs) r up)"
    using assms(2) by (subst walk_parent_level) auto
  then show ?thesis by (simp add: write_rest_def last_of_def to_parent_def)
qed

lemma write_up_next: "tz_next z = Some n \<Longrightarrow> write_up d out z = Ok (out, Some (d, n))"
  by (cases d) simp_all

lemma write_up_last0: "tz_next z = None \<Longrightarrow> write_up 0 out z = Ok (out, None)"
  by simp

lemma write_rest_next:
  "write_rest d out (TZ l b (c # r) up) = tconfig_r_depth_first_write d out (Some (TZ (b # l) c r up))"
  by (simp add: write_rest_def write_up_next)

text \<open>
  From a block on, the loop writes what \<open>write_blocks\<close> writes for the rest of the level and goes on
  with the levels above.
\<close>

lemma writer_level:
  "list_all linked bs \<Longrightarrow> bs \<noteq> [] \<Longrightarrow>
   tconfig_r_depth_first_write d out (Some (TZ l (hd bs) (tl bs) up)) =
     (case write_blocks d bs of
        Inl e \<Rightarrow> Some (Fault e)
      | Inr s \<Rightarrow> write_rest d (out @ s) (last_of l bs up))"
proof (induction bs arbitrary: d out l up rule: forest_induct)
  case Nil
  then show ?case by simp
next
  case (Cons k v p cs r)
  let ?b = "TB k v p cs"
  have lr: "list_all linked r" using Cons.prems by simp
  have go_on: "write_rest d o' (TZ l ?b r up) =
      (case write_blocks d r of Inl e \<Rightarrow> Some (Fault e)
       | Inr s \<Rightarrow> write_rest d (o' @ s) (last_of l (?b # r) up))" for o'
  proof (cases r)
    case Nil
    then show ?thesis by (simp add: last_of_def)
  next
    case (Cons c r')
    then show ?thesis
      using Cons.IH(2) [OF lr, of d o' "?b # l" up] last_of_Cons [of r l ?b up]
      by (cases "write_blocks d r") (simp_all add: write_rest_next)
  qed
  show ?case
  proof (cases "write_line d ?b")
    case (Inl e)
    then show ?thesis
      by (subst tconfig_r_depth_first_write.simps)
         (cases cs; cases r; simp add: tz_of_list_def)
  next
    case (Inr s)
    show ?thesis
    proof (cases cs)
      case Nil
      have "tconfig_r_depth_first_write d out (Some (TZ l ?b r up)) = write_rest d (out @ s) (TZ l ?b r up)"
        using Nil Inr
        by (subst tconfig_r_depth_first_write.simps)
           (cases r; cases d; simp add: tz_of_list_def write_rest_def)
      then show ?thesis using go_on [of "out @ s"] Inr Nil by (cases "write_blocks d r") simp_all
    next
      case (Cons c cs')
      let ?o = "out @ NL # s @ indent d @ [CHR ''{'', NL]"
      have step: "tconfig_r_depth_first_write d out (Some (TZ l ?b r up)) =
          tconfig_r_depth_first_write (Suc d) ?o (Some (TZ [] c cs' ((l, k, v, p, r) # up)))"
        using Cons Inr by (subst tconfig_r_depth_first_write.simps) (simp add: tz_of_list_def)
      have kids: "list_all linked cs" and pc: "tb_parent (hd cs)" and ne: "cs \<noteq> []"
        using Cons.prems Cons by auto
      show ?thesis
        using step Cons.IH(1) [OF kids ne, of "Suc d" ?o "[]" "(l, k, v, p, r) # up"] Inr Cons
          write_rest_leave [OF ne pc] go_on
        by (cases "write_blocks (Suc d) cs"; cases "write_blocks d r") simp_all
    qed
  qed
qed

lemma writer_structural:
  assumes "list_all linked bs" and "bs \<noteq> []"
  shows "tconfig_r_depth_first_write 0 [] (tz_of_list bs []) = Some (write_blocks 0 bs)"
proof -
  have "write_rest 0 s (last_of [] bs []) = Some (Ok s)" for s
    by (simp add: write_rest_def last_of_def)
  then show ?thesis
    using writer_level [OF assms, of 0 "[]" "[]" "[]"] assms(2)
    by (cases bs; cases "write_blocks 0 bs") (simp_all add: tz_of_list_def)
qed

section \<open>Reading back what was written\<close>

text \<open>Keys and values that survive a round trip, and levels without two equal pairs.\<close>

definition key_ok :: "string \<Rightarrow> bool" where
  "key_ok k \<longleftrightarrow> k \<noteq> [] \<and> list_all quoted_char k \<and>
     hd k \<noteq> CHR ''{'' \<and> hd k \<noteq> CHR ''}'' \<and> hd k \<noteq> CHR ''/''"

definition value_ok :: "string \<Rightarrow> bool" where
  "value_ok v \<longleftrightarrow> v \<noteq> [] \<and> list_all quoted_char v"

definition pair_of :: "tblock \<Rightarrow> cstr \<times> cstr" where
  "pair_of b = (tb_key b, tb_value b)"

lemma pair_of_TB [simp]: "pair_of (TB k v p cs) = (k, v)"
  by (simp add: pair_of_def)

fun storable :: "bool \<Rightarrow> tblock list \<Rightarrow> bool" where
  "storable first [] = True"
| "storable first (TB k v p cs # r) =
     ((case k of None \<Rightarrow> False | Some k' \<Rightarrow> key_ok k') \<and>
      (case v of None \<Rightarrow> False | Some v' \<Rightarrow> value_ok v') \<and>
      p = first \<and> storable True cs \<and> storable False r \<and> distinct (map pair_of (TB k v p cs # r)) \<and>
      distinct (map pair_of cs))"

lemma quote_if_iff: "quote_if s = (if SPC \<in> set s \<or> TAB \<in> set s then DQUOTE # s @ [DQUOTE] else s)"
  by (auto simp: quote_if_def strchr_None_iff)

lemma scan_quoted_word:
  assumes "list_all quoted_char w"
  shows "scan_quoted (w @ DQUOTE # x) = Ok (w, DQUOTE # x)"
proof -
  have q: "\<not> quoted_char DQUOTE" by (simp add: quoted_char_def)
  have "takeWhile quoted_char (w @ DQUOTE # x) = w" "dropWhile quoted_char (w @ DQUOTE # x) = DQUOTE # x"
    using assms q by (simp_all add: list_all_iff takeWhile_append2 dropWhile_append2)
  then show ?thesis by (simp add: scan_quoted_def)
qed

lemma scan_plain_word:
  assumes "\<forall>c \<in> set w. \<not> stop c" and "stop d"
  shows "scan_plain stop (w @ d # x) = Ok (w, d # x)"
proof -
  have "takeWhile (\<lambda>c. \<not> stop c) (w @ d # x) = w" "dropWhile (\<lambda>c. \<not> stop c) (w @ d # x) = d # x"
    using assms by (simp_all add: takeWhile_append2 dropWhile_append2)
  then show ?thesis by (simp add: scan_plain_def)
qed

lemma quoted_char_not_DQUOTE: "list_all quoted_char w \<Longrightarrow> w \<noteq> [] \<Longrightarrow> hd w \<noteq> DQUOTE"
  by (cases w) (auto simp: quoted_char_def)

lemma scan_key:
  assumes "key_ok k"
  shows "\<exists>r. scan_word key_stop (quote_if k @ TAB # x) = Ok (k, r) \<and> skip_quote r = TAB # x"
proof (cases "SPC \<in> set k \<or> TAB \<in> set k")
  case True
  then show ?thesis
    using assms scan_quoted_word [of k "TAB # x"]
    by (simp add: quote_if_iff scan_word_def key_ok_def skip_quote_def)
next
  case False
  obtain c cs where k: "k = c # cs" using assms by (cases k) (auto simp: key_ok_def)
  have "c \<noteq> DQUOTE" using assms k quoted_char_not_DQUOTE [of k] by (simp add: key_ok_def)
  moreover have "scan_plain key_stop (k @ TAB # x) = Ok (k, TAB # x)"
    using False by (intro scan_plain_word) (auto simp: key_stop_def)
  ultimately show ?thesis using False k by (auto simp: quote_if_iff scan_word_def skip_quote_def)
qed

lemma skip_blanks_value:
  assumes "value_ok v"
  shows "skip_blanks (TAB # quote_if v @ x) = Ok (quote_if v @ x)"
proof -
  obtain c cs where v: "v = c # cs" using assms by (cases v) (auto simp: value_ok_def)
  then have "c \<noteq> NL" "c \<noteq> CR" using assms by (auto simp: value_ok_def quoted_char_def)
  then show ?thesis using v by (auto simp: skip_blanks_def quote_if_iff key_stop_def)
qed

lemma scan_value:
  assumes "value_ok v"
  shows "\<exists>r. scan_word value_stop (quote_if v @ NL # x) = Ok (v, r) \<and> (tl r = x \<or> tl r = NL # x)"
proof (cases "SPC \<in> set v \<or> TAB \<in> set v")
  case True
  then show ?thesis
    using assms scan_quoted_word [of v "NL # x"]
    by (simp add: quote_if_iff scan_word_def value_ok_def)
next
  case False
  obtain c cs where v: "v = c # cs" using assms by (cases v) (auto simp: value_ok_def)
  have "c \<noteq> DQUOTE" using assms v quoted_char_not_DQUOTE [of v] by (simp add: value_ok_def)
  moreover have "scan_plain value_stop (v @ NL # x) = Ok (v, NL # x)"
    using False assms by (intro scan_plain_word) (auto simp: value_stop_def value_ok_def quoted_char_def list_all_iff)
  ultimately show ?thesis using False v by (auto simp: quote_if_iff scan_word_def)
qed

lemma parse_blank:
  "c = NL \<or> c = TAB \<or> c = SPC \<Longrightarrow> parse_blocks slack z (c # s) = parse_blocks slack z s"
  by auto

lemma parse_indent: "parse_blocks slack z (indent d @ s) = parse_blocks slack z s"
proof -
  have "parse_blocks slack z (replicate n SPC @ s) = parse_blocks slack z s" for n
    by (induction n) simp_all
  then show ?thesis by (simp only: indent_def)
qed

lemma parse_key_char:
  assumes "key_ok k"
  shows "\<exists>c cs. quote_if k @ x = c # cs \<and> c \<noteq> CHR ''{'' \<and> c \<noteq> CHR ''}'' \<and> c \<noteq> CHR ''/'' \<and>
     c \<noteq> CR \<and> c \<noteq> NL \<and> c \<noteq> TAB \<and> c \<noteq> SPC"
proof -
  obtain c cs where k: "k = c # cs" using assms by (cases k) (auto simp: key_ok_def)
  then show ?thesis using assms by (auto simp: quote_if_iff key_ok_def quoted_char_def)
qed

lemma parse_line:
  assumes "key_ok k" and "value_ok v"
  shows "parse_blocks slack z (indent d @ quote_if k @ TAB # quote_if v @ NL # x) =
         parse_blocks slack (put_pair k v z) x"
proof -
  let ?rest = "TAB # quote_if v @ NL # x"
  obtain r1 where r1: "scan_word key_stop (quote_if k @ ?rest) = Ok (k, r1)" "skip_quote r1 = ?rest"
    using scan_key [OF assms(1)] by blast
  obtain r2 where r2: "scan_word value_stop (quote_if v @ NL # x) = Ok (v, r2)" "tl r2 = x \<or> tl r2 = NL # x"
    using scan_value [OF assms(2)] by blast
  have "scan_pair (quote_if k @ ?rest) = Ok (k, v, tl r2)"
    using r1 r2(1) skip_blanks_value [OF assms(2), of "NL # x"] by (simp add: scan_pair_def)
  moreover obtain c cs where "quote_if k @ ?rest = c # cs"
      "c \<noteq> CHR ''{''" "c \<noteq> CHR ''}''" "c \<noteq> CHR ''/''" "c \<noteq> CR" "c \<noteq> NL" "c \<noteq> TAB" "c \<noteq> SPC"
    using parse_key_char [OF assms(1)] by blast
  ultimately have "parse_blocks slack z (quote_if k @ ?rest) = parse_blocks slack (put_pair k v z) (tl r2)"
    by simp
  also have "\<dots> = parse_blocks slack (put_pair k v z) x"
    using r2(2) by (elim disjE) (simp_all add: parse_blank)
  finally show ?thesis by (simp only: parse_indent)
qed

text \<open>Where the parser is after reading the blocks \<open>L\<close> of a level.\<close>

definition level_zip :: "bool \<Rightarrow> tblock list \<Rightarrow> tframe list \<Rightarrow> tzip" where
  "level_zip first L up =
     (if L = [] then TZ [] (TB None None first []) [] up else TZ (rev (butlast L)) (last L) [] up)"

definition keyed :: "tblock list \<Rightarrow> bool" where
  "keyed L \<longleftrightarrow> (\<forall>b \<in> set L. tb_key b \<noteq> None)"

lemma tz_level_level_zip [simp]:
  "tz_level (level_zip first L up) = (if L = [] then [TB None None first []] else L)"
  by (simp add: level_zip_def tz_level_def)

lemma put_pair_level_zip:
  assumes "keyed L" and "(Some k, Some v) \<notin> pair_of ` set L"
  shows "put_pair k v (level_zip first L up) =
         level_zip first (L @ [TB (Some k) (Some v) (first \<and> L = []) []]) up"
proof (cases "L = []")
  case True
  then show ?thesis by (simp add: put_pair_def same_pair_def Let_def) (simp add: level_zip_def)
next
  case False
  have "find_index (same_pair k v) L = None"
    using assms(2) by (auto simp: find_index_None_iff same_pair_def pair_of_def image_iff)
  moreover have "tb_key (last L) \<noteq> None" using assms(1) False by (simp add: keyed_def)
  moreover have "tz_up (level_zip first L up) = up" by (simp add: level_zip_def)
  ultimately have "put_pair k v (level_zip first L up) = TZ (rev L) (TB (Some k) (Some v) False []) [] up"
    using False by (auto simp add: put_pair_def Let_def)
  then show ?thesis using False by (simp add: level_zip_def)
qed

lemma open_block_level_zip:
  "open_block (level_zip first (L @ [TB k v p []]) up) = level_zip True [] ((rev L, k, v, p, []) # up)"
  by (simp add: open_block_def level_zip_def tz_of_list_def)

lemma close_block_level_zip:
  assumes "cs \<noteq> []" and "tb_parent (hd cs)"
  shows "close_block (level_zip True cs ((rev L, k, v, p, []) # up)) =
         Ok (level_zip first (L @ [TB k v p cs]) up)"
proof -
  obtain c r where cs: "cs = c # r" using assms(1) by (cases cs) auto
  have "rev (rev (butlast cs)) @ [last cs] = c # r" using assms(1) cs by simp
  then show ?thesis
    using assms cs by (simp add: close_block_def level_zip_def)
qed

lemma storable_hd: "storable True cs \<Longrightarrow> cs \<noteq> [] \<Longrightarrow> tb_parent (hd cs)"
  by (cases "(True, cs)" rule: storable.cases) simp_all

lemma storable_linked: "storable first bs \<Longrightarrow> list_all linked bs"
proof (induction bs arbitrary: first rule: forest_induct)
  case (Cons k v p cs r)
  then show ?case using storable_hd [of cs] by (auto split: list.split)
qed simp

lemma storable_distinct: "storable first bs \<Longrightarrow> distinct (map pair_of bs)"
  by (induction bs arbitrary: first rule: forest_induct) auto

lemma storable_writes: "storable first bs \<Longrightarrow> \<exists>s. write_blocks d bs = Ok s"
proof (induction bs arbitrary: first d rule: forest_induct)
  case (Cons k v p cs r)
  obtain s where "write_blocks d r = Ok s" using Cons.IH(2) [of False d] Cons.prems by auto
  moreover obtain t where "write_blocks (Suc d) cs = Ok t" using Cons.IH(1) [of True "Suc d"] Cons.prems by auto
  ultimately show ?case using Cons.prems by (auto simp: write_line_def split: option.splits)
qed simp

lemma parse_write_blocks:
  "storable (first \<and> L = []) bs \<Longrightarrow> keyed L \<Longrightarrow> distinct (map pair_of (L @ bs)) \<Longrightarrow>
   write_blocks d bs = Ok s \<Longrightarrow>
   parse_blocks slack (level_zip first L up) (s @ x) = parse_blocks slack (level_zip first (L @ bs) up) x"
proof (induction bs arbitrary: first L up d s x rule: forest_induct)
  case (Cons ko vo p cs r)
  from Cons.prems(1) obtain k v where kv: "ko = Some k" "vo = Some v" "key_ok k" "value_ok v"
    by (auto split: option.splits)
  let ?b = "\<lambda>cs. TB (Some k) (Some v) p cs"
  let ?line = "indent d @ quote_if k @ TAB # quote_if v @ [NL]"
  have p: "p = (first \<and> L = [])" and st: "storable True cs" "storable False r" "distinct (map pair_of cs)"
    using Cons.prems(1) by auto
  have line: "write_line d (?b c) = Ok ?line" for c
    by (simp add: write_line_def)
  have put: "parse_blocks slack (level_zip first L up) (?line @ y) =
      parse_blocks slack (level_zip first (L @ [?b []]) up) y" for y
  proof -
    have "(Some k, Some v) \<notin> pair_of ` set L" using Cons.prems(3) kv by auto
    then show ?thesis
      using parse_line [OF kv(3,4), of slack "level_zip first L up" d y]
        put_pair_level_zip [OF Cons.prems(2)] p by simp
  qed
  have kL: "keyed (L @ [?b c])" for c using Cons.prems(2) by (simp add: keyed_def)
  have dis: "distinct (map pair_of ((L @ [?b c]) @ r))" for c
    using Cons.prems(3) kv by simp
  from Cons.prems(4) kv line obtain u where u: "write_blocks d r = Ok u"
    by (auto simp: rbind_Ok_iff split: if_splits)
  have rest: "parse_blocks slack (level_zip first (L @ [?b c]) up) (u @ x) =
      parse_blocks slack (level_zip first (L @ ?b c # r) up) x" for c
    using Cons.IH(2) [OF _ kL dis u, of first] st(2) by simp
  show ?case
  proof (cases "cs = []")
    case True
    then have "s = ?line @ u" using Cons.prems(4) kv line u by simp
    then show ?thesis using put rest True kv by simp
  next
    case False
    from Cons.prems(4) kv line u False obtain t where t: "write_blocks (Suc d) cs = Ok t"
      by (auto simp: rbind_Ok_iff)
    let ?up = "(rev L, Some k, Some v, p, []) # up"
    let ?close = "indent d @ [CHR ''}'', NL, NL] @ u @ x"
    have s: "s = NL # ?line @ indent d @ [CHR ''{'', NL] @ t @ indent d @ [CHR ''}'', NL, NL] @ u"
      using Cons.prems(4) kv line u t False by simp
    have "parse_blocks slack (level_zip first L up) (s @ x) =
        parse_blocks slack (level_zip first (L @ [?b []]) up) (indent d @ [CHR ''{'', NL] @ t @ ?close)"
      unfolding s using put [of "indent d @ [CHR ''{'', NL] @ t @ ?close"] by (simp add: parse_blank)
    also have "\<dots> = parse_blocks slack (level_zip True [] ?up) (t @ ?close)"
      by (simp add: parse_indent open_block_level_zip)
    also have "\<dots> = parse_blocks slack (level_zip True cs ?up) ?close"
      using Cons.IH(1) [of True "[]" "Suc d" t ?up ?close] st t by (simp add: keyed_def)
    also have "\<dots> = parse_blocks slack (level_zip first (L @ [?b cs]) up) (u @ x)"
      using close_block_level_zip [OF False storable_hd [OF st(1) False], of L "Some k" "Some v" p up first]
      by (simp add: parse_indent)
    finally show ?thesis using rest kv by simp
  qed
qed simp

theorem tconfig_roundtrip:
  assumes "storable False bs" and "bs \<noteq> []"
  shows "\<exists>s. tconfig_to_file bs True = Some (Ok (Some s)) \<and> file_to_tconfig (Some s) = Ok bs"
proof -
  obtain s where s: "write_blocks 0 bs = Ok s" using storable_writes [OF assms(1)] by blast
  have dis: "distinct (map pair_of bs)" using storable_distinct [OF assms(1)] .
  have "parse_blocks slack (level_zip False [] []) (s @ []) = parse_blocks slack (level_zip False ([] @ bs) []) []" for slack
    using assms(1) dis s by (intro parse_write_blocks) (simp_all add: keyed_def)
  then have "file_to_tconfig (Some s) = Ok (tz_top (level_zip False bs []))"
    by (simp add: file_to_tconfig_def tconfig_block_new_def level_zip_def)
  moreover have "tz_top (level_zip False bs []) = bs"
    using assms(2) tz_level_level_zip [of False bs "[]"] by (simp add: tz_top_def level_zip_def)
  moreover have "tconfig_to_file bs True = Some (Ok (Some s))"
    using writer_structural [OF storable_linked [OF assms(1)] assms(2)] s assms(2)
    by (cases bs) (simp_all add: tconfig_to_file_def tz_of_list_def)
  ultimately show ?thesis by simp
qed

section \<open>Searching and traversing\<close>

fun search_key :: "string \<Rightarrow> tblock list \<Rightarrow> cstr res" where
  "search_key search [] = Ok None"
| "search_key search (b # bs) =
     rbind (deref (tb_key b)) (\<lambda>k. if k = search then Ok (tb_value b) else search_key search bs)"

definition tconfig_get_subparam :: "tblock option \<Rightarrow> string \<Rightarrow> cstr res" where
  "tconfig_get_subparam tcfg search = rbind (deref tcfg) (\<lambda>b. search_key search (tb_child b))"

lemma search_key_keyed:
  "keyed bs \<Longrightarrow> search_key k bs = Ok (case find (\<lambda>b. tb_key b = Some k) bs of None \<Rightarrow> None | Some b \<Rightarrow> tb_value b)"
  by (induction bs) (auto simp: keyed_def)

text \<open>
  The callbacks see the block they are at, and thread a state; they do not change the tree. A true
  result is a nonzero one.
\<close>

fun tconfig_foreach_length :: "(tblock \<Rightarrow> 's \<Rightarrow> bool \<times> 's) \<Rightarrow> tblock list \<Rightarrow> 's \<Rightarrow> 's" where
  "tconfig_foreach_length cback [] s = s"
| "tconfig_foreach_length cback (b # bs) s =
     (case cback b s of (r, s') \<Rightarrow> if r then s' else tconfig_foreach_length cback bs s')"

function tconfig_foreach_child :: "(tblock \<Rightarrow> 's \<Rightarrow> bool \<times> 's) \<Rightarrow> tblock list \<Rightarrow> 's \<Rightarrow> 's" where
  "tconfig_foreach_child cback [] s = s"
| "tconfig_foreach_child cback (TB k v p cs # bs) s =
     (case cback (TB k v p cs) s of (r, s') \<Rightarrow> if \<not> r then s' else tconfig_foreach_child cback cs s')"
  by pat_completeness auto
termination
  by (relation "measure (\<lambda>(cback, bs, s). size_list size bs)") auto

text \<open>The climb of the depth-first traversal after a leaf without a next block.\<close>

lemma walk_parent_up: "walk_parent l c r up = Ok z \<Longrightarrow> length (tz_up z) < length up"
  by (induction l c r up rule: walk_parent.induct; case_tac up) (auto split: option.splits if_splits)

lemma to_parent_up: "to_parent z = Ok z' \<Longrightarrow> length (tz_up z') < length (tz_up z)"
  by (cases z) (auto simp: to_parent_def dest: walk_parent_up)

function foreach_climb :: "int \<Rightarrow> tzip \<Rightarrow> (int \<times> tzip) res" where
  "foreach_climb depth z =
     (if tz_next z \<noteq> None then Ok (depth, z)
      else rbind (to_parent z) (\<lambda>p.
        if depth - 1 = 0 then Ok (0, p) else foreach_climb (depth - 1) p))"
  by pat_completeness auto
termination
  by (relation "measure (\<lambda>(depth, z). length (tz_up z))") (auto dest: to_parent_up)

declare foreach_climb.simps [simp del]

partial_function (option) foreach_loop ::
  "(tblock \<Rightarrow> int \<Rightarrow> 's \<Rightarrow> bool \<times> 's) \<Rightarrow> int \<Rightarrow> tzip option \<Rightarrow> 's \<Rightarrow> 's res option" where
  "foreach_loop cback depth tcfg s =
     (case tcfg of
        None \<Rightarrow> Some (Ok s)
      | Some z \<Rightarrow>
          (case cback (tz_cur z) depth s of
             (r, s') \<Rightarrow>
               if \<not> r then Some (Ok s')
               else (case tz_child z of
                       Some c \<Rightarrow> foreach_loop cback (depth + 1) (Some c) s'
                     | None \<Rightarrow>
                         (case tz_next z of
                            Some n \<Rightarrow> foreach_loop cback depth (Some n) s'
                          | None \<Rightarrow>
                              (case foreach_climb depth z of
                                 Inl e \<Rightarrow> Some (Fault e)
                               | Inr (d, y) \<Rightarrow> foreach_loop cback d (tz_next y) s')))))"

definition tconfig_foreach_depth_first ::
  "tblock list \<Rightarrow> (tblock \<Rightarrow> int \<Rightarrow> 's \<Rightarrow> bool \<times> 's) \<Rightarrow> 's \<Rightarrow> 's res option" where
  "tconfig_foreach_depth_first tcfg cback extra = foreach_loop cback 0 (tz_of_list tcfg []) extra"

text \<open>The blocks in the order of the traversal, with their depth, and a fold that can be stopped.\<close>

fun preorder :: "int \<Rightarrow> tblock list \<Rightarrow> (tblock \<times> int) list" where
  "preorder d [] = []"
| "preorder d (TB k v p cs # r) = (TB k v p cs, d) # preorder (d + 1) cs @ preorder d r"

fun fold_until :: "('a \<Rightarrow> 's \<Rightarrow> bool \<times> 's) \<Rightarrow> 'a list \<Rightarrow> 's \<Rightarrow> bool \<times> 's" where
  "fold_until f [] s = (True, s)"
| "fold_until f (x # xs) s = (case f x s of (r, s') \<Rightarrow> if r then fold_until f xs s' else (False, s'))"

lemma fold_until_append:
  "fold_until f (xs @ ys) s = (case fold_until f xs s of (r, s') \<Rightarrow> if r then fold_until f ys s' else (False, s'))"
  by (induction xs arbitrary: s) (auto split: prod.splits)

definition visit_rest :: "(tblock \<Rightarrow> int \<Rightarrow> 's \<Rightarrow> bool \<times> 's) \<Rightarrow> nat \<Rightarrow> tzip \<Rightarrow> 's \<Rightarrow> 's res option" where
  "visit_rest cback d z s =
     (case foreach_climb (int d) z of
        Inl e \<Rightarrow> Some (Fault e)
      | Inr (d', y) \<Rightarrow> foreach_loop cback d' (tz_next y) s)"

text \<open>After the last block of a level below the top, and after the last block of the top level.\<close>

definition visit_after ::
  "(tblock \<Rightarrow> int \<Rightarrow> 's \<Rightarrow> bool \<times> 's) \<Rightarrow> nat \<Rightarrow> tblock list \<Rightarrow> tblock list \<Rightarrow> tframe list \<Rightarrow> 's \<Rightarrow> 's res option" where
  "visit_after cback d l bs up s =
     (if d = 0 \<and> tb_child (last bs) \<noteq> [] then Some (Ok s) else visit_rest cback d (last_of l bs up) s)"

lemma visit_after_Suc [simp]:
  "visit_after cback (Suc d) l bs up s = visit_rest cback (Suc d) (last_of l bs up) s"
  by (simp add: visit_after_def)

lemma visit_rest_leave:
  assumes "cs \<noteq> []" and "tb_parent (hd cs)"
  shows "visit_rest cback (Suc d) (last_of [] cs ((l, k, v, p, r) # up)) s =
    (let y = TZ l (TB k v p cs) r up in
     if d = 0 \<or> r \<noteq> [] then foreach_loop cback (int d) (tz_next y) s else visit_rest cback d y s)"
proof -
  have "rev (rev (butlast cs)) @ [last cs] = cs" using assms(1) by simp
  then have "walk_parent (rev (butlast cs)) (last cs) [] ((l, k, v, p, r) # up) = Ok (TZ l (TB k v p cs) r up)"
    using assms(2) by (subst walk_parent_level) auto
  then have tp: "to_parent (last_of [] cs ((l, k, v, p, r) # up)) = Ok (TZ l (TB k v p cs) r up)"
    by (simp add: last_of_def to_parent_def)
  have nx: "tz_next (last_of [] cs ((l, k, v, p, r) # up)) = None" by (simp add: last_of_def)
  have "foreach_climb (int (Suc d)) (last_of [] cs ((l, k, v, p, r) # up)) =
      (if d = 0 then Ok (0, TZ l (TB k v p cs) r up) else foreach_climb (int d) (TZ l (TB k v p cs) r up))"
    using tp nx by (subst foreach_climb.simps) simp
  moreover have "foreach_climb (int d) (TZ l (TB k v p cs) r up) = Ok (int d, TZ l (TB k v p cs) r up)"
    if "r \<noteq> []"
    using that by (subst foreach_climb.simps) (cases r; simp)
  ultimately show ?thesis by (simp add: visit_rest_def Let_def)
qed

lemma foreach_level:
  "list_all linked bs \<Longrightarrow> bs \<noteq> [] \<Longrightarrow>
   foreach_loop cback (int d) (Some (TZ l (hd bs) (tl bs) up)) s =
     (case fold_until (\<lambda>(b, d). cback b d) (preorder (int d) bs) s of
        (r, s') \<Rightarrow> if \<not> r then Some (Ok s') else visit_after cback d l bs up s')"
proof (induction bs arbitrary: d s l up rule: forest_induct)
  case Nil
  then show ?case by simp
next
  case (Cons k v p cs r)
  let ?b = "TB k v p cs" and ?f = "\<lambda>(b, d). cback b d"
  have lr: "list_all linked r" using Cons.prems by simp
  have last_r: "last_of (?b # l) r up = last_of l (?b # r) up" if "r \<noteq> []"
    using last_of_Cons [OF that, of l ?b up] by simp
  have on_r: "foreach_loop cback (int d) (tz_next (TZ l ?b r up)) s' =
      (case fold_until ?f (preorder (int d) r) s' of
         (q, s'') \<Rightarrow> if \<not> q then Some (Ok s'') else visit_after cback d l (?b # r) up s'')"
    if ne: "r \<noteq> []" for s'
  proof -
    have "tz_next (TZ l ?b r up) = Some (TZ (?b # l) (hd r) (tl r) up)" using ne by (cases r) auto
    moreover have "visit_after cback d (?b # l) r up x = visit_after cback d l (?b # r) up x" for x
      using last_r [OF ne] ne by (simp add: visit_after_def)
    ultimately show ?thesis
      using Cons.IH(2) [OF lr ne, of d "?b # l" up s'] by (auto split: prod.splits)
  qed
  obtain q s1 where c: "cback ?b (int d) s = (q, s1)" by (cases "cback ?b (int d) s")
  show ?case
  proof (cases q)
    case False
    then show ?thesis using c by (subst foreach_loop.simps) simp
  next
    case q: True
    show ?thesis
    proof (cases cs)
      case Nil
      have step: "foreach_loop cback (int d) (Some (TZ l ?b r up)) s =
          (if r \<noteq> [] then foreach_loop cback (int d) (tz_next (TZ l ?b r up)) s1
           else visit_rest cback d (TZ l ?b [] up) s1)"
        using Nil c q by (subst foreach_loop.simps) (cases r; simp add: tz_of_list_def visit_rest_def)
      show ?thesis
      proof (cases "r = []")
        case True
        then show ?thesis using step c q Nil by (simp add: visit_after_def last_of_def)
      next
        case False
        then show ?thesis using step on_r c q Nil by simp
      qed
    next
      case (Cons c' cs')
      have step: "foreach_loop cback (int d) (Some (TZ l ?b r up)) s =
          foreach_loop cback (int (Suc d)) (Some (TZ [] c' cs' ((l, k, v, p, r) # up))) s1"
        using Cons c q by (subst foreach_loop.simps) (simp add: tz_of_list_def add.commute)
      have kids: "list_all linked cs" and pc: "tb_parent (hd cs)" and ne: "cs \<noteq> []"
        using Cons.prems Cons by auto
      have down: "foreach_loop cback (int d) (Some (TZ l ?b r up)) s =
          (case fold_until ?f (preorder (int (Suc d)) cs) s1 of
             (q, s'') \<Rightarrow> if \<not> q then Some (Ok s'')
                        else visit_rest cback (Suc d) (last_of [] cs ((l, k, v, p, r) # up)) s'')"
        using step Cons.IH(1) [OF kids ne, of "Suc d" "[]" "(l, k, v, p, r) # up" s1] Cons
        by (auto split: prod.splits)
      show ?thesis
      proof (cases "r = []")
        case True
        have "visit_rest cback (Suc d) (last_of [] cs ((l, k, v, p, r) # up)) s'' =
            visit_after cback d l (?b # r) up s''" for s''
          using visit_rest_leave [OF ne pc, of cback d l k v p r up s''] True ne
          by (simp add: visit_after_def last_of_def Let_def foreach_loop.simps [of cback 0 None])
        then show ?thesis using down c q True
          by (auto simp: add.commute split: prod.splits)
      next
        case False
        have "visit_rest cback (Suc d) (last_of [] cs ((l, k, v, p, r) # up)) s'' =
            foreach_loop cback (int d) (tz_next (TZ l ?b r up)) s''" for s''
          using visit_rest_leave [OF ne pc, of cback d l k v p r up s''] False by (simp add: Let_def)
        then show ?thesis using down c q on_r [OF False]
          by (auto simp: add.commute fold_until_append split: prod.splits)
      qed
    qed
  qed
qed

text \<open>
  The traversal visits every block in preorder with its depth; but when the last block of the top
  level is a leaf, the climb after it runs off the front of the top level.
\<close>

lemma foreach_depth_first_spec:
  assumes "list_all linked bs" and "bs \<noteq> []" and "list_all (\<lambda>b. \<not> tb_parent b) bs"
  shows "tconfig_foreach_depth_first bs cback s =
     (case fold_until (\<lambda>(b, d). cback b d) (preorder 0 bs) s of
        (r, s') \<Rightarrow> Some (if r \<and> tb_child (last bs) = [] then Fault NullDeref else Ok s'))"
proof -
  have "walk_parent l c r [] = Fault NullDeref" for l c r
    by (induction l arbitrary: c r) simp_all
  then have "visit_rest cback 0 (last_of [] bs []) s' = Some (Fault NullDeref)" for s'
    unfolding visit_rest_def last_of_def by (subst foreach_climb.simps) (simp add: to_parent_def)
  then show ?thesis
    using foreach_level [OF assms(1,2), of cback 0 "[]" "[]" s] assms(2)
    by (cases bs) (auto simp: tconfig_foreach_depth_first_def tz_of_list_def visit_after_def split: prod.splits)
qed

end
