(* ===== verification/Tconfig_Merge.thy ===== *)
theory Tconfig_Merge
  imports Tconfig "HOL-Library.Multiset"
begin

text \<open>
  The operations of \<^verbatim>\<open>src/src/tconfig.c\<close> that take a tree apart or change one: freeing, isolating a
  block, and merging the defaults into a configuration.
\<close>

section \<open>Freeing\<close>

text \<open>
  What is freed is recorded as the pairs of the blocks, in order. A block whose children were freed
  has no children here; \<open>child\<close> then dangles, and the loop does not read it again.
\<close>

fun free_left :: "tblock list \<Rightarrow> tblock \<Rightarrow> (cstr \<times> cstr) list \<Rightarrow> tblock option \<times> (cstr \<times> cstr) list" where
  "free_left [] c freed = (if tb_parent c then (Some c, freed) else (None, freed @ [pair_of c]))"
| "free_left (l # ls) c freed =
     (if tb_parent c then (Some c, freed) else free_left ls l (freed @ [pair_of c]))"

function free_climb :: "tzip \<Rightarrow> (cstr \<times> cstr) list \<Rightarrow> tzip option \<times> (cstr \<times> cstr) list" where
  "free_climb z freed =
     (if tz_next z \<noteq> None then (tz_next z, freed)
      else case free_left (tz_left z) (tz_cur z) freed of
             (None, f) \<Rightarrow> (None, f)
           | (Some c, f) \<Rightarrow>
               (case tz_up z of
                  [] \<Rightarrow> (None, f @ [pair_of c])
                | (l, k, v, p, r) # up \<Rightarrow> free_climb (TZ l (TB k v p []) r up) (f @ [pair_of c])))"
  by pat_completeness auto
termination
  by (relation "measure (\<lambda>(z, f). length (tz_up z))") auto

declare free_climb.simps [simp del]

partial_function (option) free_loop :: "tzip option \<Rightarrow> (cstr \<times> cstr) list \<Rightarrow> (cstr \<times> cstr) list option" where
  "free_loop tcfg freed =
     (case tcfg of
        None \<Rightarrow> Some freed
      | Some z \<Rightarrow>
          (case tz_child z of
             Some c \<Rightarrow> free_loop (Some c) freed
           | None \<Rightarrow>
               (case tz_next z of
                  Some n \<Rightarrow> free_loop (Some n) freed
                | None \<Rightarrow> (case free_climb z freed of (z', f) \<Rightarrow> free_loop z' f))))"

definition free_tconfig :: "tblock list \<Rightarrow> (cstr \<times> cstr) list option" where
  "free_tconfig tcfg = free_loop (tz_of_list tcfg []) []"

text \<open>The same by recursion: the levels below, then the level from right to left.\<close>

fun free_below :: "tblock list \<Rightarrow> (cstr \<times> cstr) list" where
  "free_below [] = []"
| "free_below (TB k v p cs # r) = free_below cs @ rev (map pair_of cs) @ free_below r"

definition childless :: "tblock \<Rightarrow> tblock" where
  "childless b = TB (tb_key b) (tb_value b) (tb_parent b) []"

definition free_rest :: "tzip \<Rightarrow> (cstr \<times> cstr) list \<Rightarrow> (cstr \<times> cstr) list option" where
  "free_rest z freed = (case free_climb z freed of (z', f) \<Rightarrow> free_loop z' f)"

text \<open>Blocks as the loop meets them: only the first of a level below another has a parent.\<close>

fun linked1 :: "bool \<Rightarrow> tblock list \<Rightarrow> bool" where
  "linked1 first [] = True"
| "linked1 first (TB k v p cs # r) = (p = first \<and> linked1 True cs \<and> linked1 False r)"

lemma childless_simps [simp]:
  "tb_parent (childless b) = tb_parent b" "pair_of (childless b) = pair_of b"
  "childless (TB k v p cs) = TB k v p []"
  by (simp_all add: childless_def pair_of_def)

lemma linked1_False: "linked1 False bs \<Longrightarrow> b \<in> set bs \<Longrightarrow> \<not> tb_parent b"
  by (induction bs rule: forest_induct) auto

lemma free_left_level:
  "list_all (\<lambda>b. \<not> tb_parent b) (butlast (c # l)) \<Longrightarrow>
   free_left l c f =
     (if tb_parent (last (c # l)) then (Some (last (c # l)), f @ map pair_of (butlast (c # l)))
      else (None, f @ map pair_of (c # l)))"
  by (induction l arbitrary: c f) auto

lemma free_climb_next: "tz_next z = Some n \<Longrightarrow> free_climb z f = (Some n, f)"
  by (subst free_climb.simps) simp

lemma free_climb_level:
  assumes "bs \<noteq> []" and "linked1 True bs" and "up = (l, k, v, p, r) # up'"
  shows "free_rest (TZ (rev (map childless (butlast bs))) (childless (last bs)) [] up) f =
         (if r \<noteq> [] then free_loop (tz_next (TZ l (TB k v p []) r up')) (f @ rev (map pair_of bs))
          else free_rest (TZ l (TB k v p []) [] up') (f @ rev (map pair_of bs)))"
proof -
  obtain b r' where bs: "bs = b # r'" using assms(1) by (cases bs) auto
  then have b: "tb_parent b" and r': "list_all (\<lambda>b. \<not> tb_parent b) r'"
    using assms(2) linked1_False [of r'] by (cases b; auto simp: list_all_iff)+
  have rev: "childless (last bs) # rev (map childless (butlast bs)) = rev (map childless bs)"
    using assms(1) by (cases bs rule: rev_exhaust) simp_all
  have lst: "last (rev (map childless bs)) = childless b" using bs by simp
  have bl: "butlast (rev (map childless bs)) = rev (map childless r')" using bs by simp
  have fl: "free_left (rev (map childless (butlast bs))) (childless (last bs)) f =
      (Some (childless b), f @ rev (map pair_of r'))"
    using free_left_level [of "childless (last bs)" "rev (map childless (butlast bs))" f] b r'
    unfolding rev lst bl by (simp add: list_all_iff rev_map comp_def)
  then have "free_climb (TZ (rev (map childless (butlast bs))) (childless (last bs)) [] up) f =
      free_climb (TZ l (TB k v p []) r up') (f @ rev (map pair_of bs))"
    using assms(3) bs by (subst free_climb.simps) simp
  then show ?thesis by (cases r) (simp_all add: free_rest_def free_climb_next)
qed

lemma free_level:
  "linked1 first bs \<Longrightarrow> bs \<noteq> [] \<Longrightarrow>
   free_loop (Some (TZ l (hd bs) (tl bs) up)) f =
     free_rest (TZ (rev (map childless (butlast bs)) @ l) (childless (last bs)) [] up) (f @ free_below bs)"
proof (induction bs arbitrary: first l up f rule: forest_induct)
  case Nil
  then show ?case by simp
next
  case (Cons k v p cs r)
  let ?b = "TB k v p []" and ?g = "f @ free_below cs @ rev (map pair_of cs)"
  have go_on: "free_loop (tz_next (TZ l ?b r up)) g =
      free_rest (TZ (rev (map childless (butlast (TB k v p cs # r))) @ l) (childless (last (TB k v p cs # r))) [] up)
        (g @ free_below r)" if ne: "r \<noteq> []" for g
  proof -
    have "tz_next (TZ l ?b r up) = Some (TZ (?b # l) (hd r) (tl r) up)" using ne by (cases r) auto
    then show ?thesis using Cons.IH(2) [of False "?b # l" up g] Cons.prems ne by simp
  qed
  show ?case
  proof (cases "cs = []")
    case True
    have "free_loop (Some (TZ l (TB k v p cs) r up)) f =
        (if r \<noteq> [] then free_loop (tz_next (TZ l ?b r up)) f else free_rest (TZ l ?b [] up) f)"
      using True by (subst free_loop.simps) (cases r; simp add: tz_of_list_def free_rest_def)
    then show ?thesis using go_on [of f] True by (cases "r = []") simp_all
  next
    case False
    then obtain c cs' where cs: "cs = c # cs'" by (cases cs) auto
    have kids: "linked1 True cs" using Cons.prems by simp
    have "free_loop (Some (TZ l (TB k v p cs) r up)) f =
        free_loop (Some (TZ [] (hd cs) (tl cs) ((l, k, v, p, r) # up))) f"
      using cs by (subst free_loop.simps) (simp add: tz_of_list_def)
    also have "\<dots> = (if r \<noteq> [] then free_loop (tz_next (TZ l ?b r up)) ?g else free_rest (TZ l ?b [] up) ?g)"
      using Cons.IH(1) [OF kids False, of "[]" "(l, k, v, p, r) # up" f]
        free_climb_level [OF False kids refl, of l k v p r up "f @ free_below cs"] by simp
    finally show ?thesis using go_on [of ?g] by (cases "r = []") simp_all
  qed
qed

fun all_blocks :: "tblock list \<Rightarrow> tblock list" where
  "all_blocks [] = []"
| "all_blocks (TB k v p cs # r) = TB k v p cs # all_blocks cs @ all_blocks r"

lemma free_tconfig_order:
  assumes "linked1 False bs"
  shows "free_tconfig bs = Some (free_below bs @ rev (map pair_of bs))"
proof (cases "bs = []")
  case True
  then show ?thesis by (simp add: free_tconfig_def tz_of_list_def free_loop.simps)
next
  case False
  let ?cs = "rev (map childless bs)"
  have cs: "childless (last bs) # rev (map childless (butlast bs)) = ?cs"
    using False by (cases bs rule: rev_exhaust) simp_all
  have "list_all (\<lambda>b. \<not> tb_parent b) ?cs"
    using linked1_False [OF assms] by (simp add: list_all_iff)
  then have "free_left (rev (map childless (butlast bs))) (childless (last bs)) f = (None, f @ map pair_of ?cs)" for f
    using free_left_level [of "childless (last bs)" "rev (map childless (butlast bs))" f] False
    unfolding cs by (cases bs; auto simp: list_all_iff last_rev hd_map)
  then have "free_rest (TZ (rev (map childless (butlast bs))) (childless (last bs)) [] []) f =
      Some (f @ rev (map pair_of bs))" for f
    unfolding free_rest_def
    by (subst free_climb.simps) (simp add: rev_map comp_def free_loop.simps [of None])
  then show ?thesis
    using free_level [OF assms False, of "[]" "[]" "[]"] False
    by (cases bs) (simp_all add: free_tconfig_def tz_of_list_def)
qed

lemma free_below_mset: "mset (free_below bs @ rev (map pair_of bs)) = mset (map pair_of (all_blocks bs))"
  by (induction bs rule: forest_induct) simp_all

text \<open>Every block of a tree is freed exactly once.\<close>

lemma free_tconfig_all:
  "linked1 False bs \<Longrightarrow>
   \<exists>freed. free_tconfig bs = Some freed \<and> mset freed = mset (map pair_of (all_blocks bs))"
  using free_tconfig_order free_below_mset by blast

section \<open>Isolating a block\<close>

text \<open>
  The block with its children, and what the root still reaches. The first block of a level takes the
  rest of the level with it: \<open>parent->child\<close> becomes NULL.
\<close>

definition tconfig_isolate :: "tzip \<Rightarrow> tblock \<times> tblock list" where
  "tconfig_isolate tcfg =
     (TB (tb_key (tz_cur tcfg)) (tb_value (tz_cur tcfg)) False (tb_child (tz_cur tcfg)),
      if tb_parent (tz_cur tcfg) then plug [] (tz_up tcfg)
      else plug (rev (tz_left tcfg) @ tz_right tcfg) (tz_up tcfg))"

section \<open>Merging\<close>

text \<open>
  \<open>tconfig_merge\<close> walks over \<open>src\<close> and moves a pointer \<open>dst\<close> along. Of \<open>src\<close> the walk needs what is left
  of the level, and for the levels above (innermost first) whether the first block of the level
  entered has its \<open>parent\<close> and what comes after the block that was entered; \<open>depth\<close> is the number of
  these. \<open>dst\<close> is a pointer into the tree that is changed, \<open>dst_null\<close> says that it has become NULL.
\<close>

text \<open>The search for a block with the key and the value of \<open>src\<close>; \<open>strcmp\<close> reads them.\<close>

fun merge_match :: "tblock \<Rightarrow> tblock list \<Rightarrow> nat option res" where
  "merge_match src [] = Ok None"
| "merge_match src (tmp # r) =
     (if tb_key tmp \<noteq> None then
        rbind (strcmp_p (tb_key src) (tb_key tmp)) (\<lambda>same_key.
          if same_key then
            rbind (strcmp_p (tb_value src) (tb_value tmp)) (\<lambda>same_value.
              if same_value then Ok (Some 0)
              else rbind (merge_match src r) (\<lambda>m. Ok (map_option Suc m)))
          else rbind (merge_match src r) (\<lambda>m. Ok (map_option Suc m)))
      else rbind (merge_match src r) (\<lambda>m. Ok (map_option Suc m)))"

text \<open>The search for a block with the key of a leaf, which an \<open>@\<close> in front switches off.\<close>

fun merge_dupe :: "tblock \<Rightarrow> tblock list \<Rightarrow> bool res" where
  "merge_dupe src [] = Ok False"
| "merge_dupe src (tmp # r) =
     (if tb_key tmp \<noteq> None then
        rbind (strcmp_p (tb_key src) (tb_key tmp)) (\<lambda>same_key.
          if same_key \<and> (case tb_key src of None \<Rightarrow> True | Some k \<Rightarrow> next_char k \<noteq> Some (CHR ''@''))
          then Ok True else merge_dupe src r)
      else merge_dupe src r)"

text \<open>\<open>while (dst->next != NULL && dst->key != NULL) dst = dst->next\<close>.\<close>

fun go_end :: "tblock list \<Rightarrow> tblock \<Rightarrow> tblock list \<Rightarrow> tframe list \<Rightarrow> tzip" where
  "go_end l c [] up = TZ l c [] up"
| "go_end l c (n # ns) up = (if tb_key c \<noteq> None then go_end (c # l) n ns up else TZ l c (n # ns) up)"

text \<open>A new block for \<open>src\<close>, with an empty child the pointer then moves to.\<close>

definition merge_new :: "tblock \<Rightarrow> tzip \<Rightarrow> tzip" where
  "merge_new src dst =
     (case dst of TZ l0 c0 r0 up \<Rightarrow>
      (case go_end l0 c0 r0 up of TZ l c r up \<Rightarrow>
         (let below = TB None None True [] in
          if tb_key c \<noteq> None then TZ [] below [] ((c # l, tb_key src, tb_value src, False, []) # up)
          else TZ [] below [] ((l, tb_key src, tb_value src, False, r) # up))))"

definition merge_leaf :: "tblock \<Rightarrow> tzip \<Rightarrow> tzip res" where
  "merge_leaf src dst =
     rbind (merge_dupe src (tz_level dst)) (\<lambda>dupe.
       if dupe then Ok dst
       else rbind (deref (tb_key src)) (\<lambda>k.
         let key = (if next_char k = Some (CHR ''@'') then tl k else k) in
         case dst of TZ l0 c0 r0 up \<Rightarrow>
         (case go_end l0 c0 r0 up of TZ l c r up \<Rightarrow>
            if tb_key c \<noteq> None then Ok (TZ (c # l) (TB (Some key) (tb_value src) False []) [] up)
            else Ok (TZ l (TB (Some key) (tb_value src) (tb_parent c) (tb_child c)) [] up))))"

text \<open>
  The end of a round: on to the next block of \<open>src\<close>, up as many levels as it takes. \<open>None\<close> returns.
\<close>

type_synonym merge_stack = "(bool \<times> tblock list) list"

fun merge_up ::
  "tblock list \<Rightarrow> merge_stack \<Rightarrow> tzip \<Rightarrow> bool \<Rightarrow> (tzip \<times> (bool \<times> tblock list \<times> merge_stack) option) res" where
  "merge_up (n # ns) stk dst dst_null = Ok (dst, Some (dst_null, n # ns, stk))"
| "merge_up [] [] dst dst_null = Ok (dst, None)"
| "merge_up [] ((linked_level, after) # stk) dst dst_null =
     (if dst_null then Fault NullDeref
      else if \<not> linked_level then Fault NullDeref
      else case tz_parent (tz_first dst) of
             Some p \<Rightarrow> merge_up after stk p False
           | None \<Rightarrow> merge_up after stk dst True)"

definition merge_size :: "tblock list \<Rightarrow> merge_stack \<Rightarrow> nat" where
  "merge_size src stk = size_list size src + sum_list (map (size_list size \<circ> snd) stk)"

lemma merge_up_size:
  "merge_up src stk dst nl = Ok (dst', Some (nl', src', stk')) \<Longrightarrow> merge_size src' stk' \<le> merge_size src stk"
  by (induction src stk dst nl rule: merge_up.induct) (auto simp: merge_size_def split: if_splits option.splits)

definition replace_level :: "tzip \<Rightarrow> tblock list \<Rightarrow> tzip" where
  "replace_level z level =
     (let n = length (tz_left z) in TZ (rev (take n level)) (level ! n) (drop (Suc n) level) (tz_up z))"

function tconfig_merge_loop :: "tblock list \<Rightarrow> merge_stack \<Rightarrow> tzip \<Rightarrow> bool \<Rightarrow> tblock list res" where
  "tconfig_merge_loop [] stk dst dst_null = Ok (tz_top dst)"
| "tconfig_merge_loop (TB k v p cs # after) stk dst dst_null =
     (let src = TB k v p cs in
      if dst_null then Fault NullDeref
      else if cs \<noteq> [] then
        if v = Some ''*'' then
          rbind (mapM_res
                  (\<lambda>tmp.
                     if tb_key tmp \<noteq> None then
                       rbind (strcmp_p k (tb_key tmp)) (\<lambda>same_key.
                         if same_key then
                           (let below = (if tb_child tmp = [] then [TB None None True []] else tb_child tmp) in
                            rbind (tconfig_merge_loop cs [] (TZ [] (hd below) (tl below) []) False) (\<lambda>kids.
                              Ok (TB (tb_key tmp) (tb_value tmp) (tb_parent tmp) kids)))
                         else Ok tmp)
                     else Ok tmp)
                  (tz_level dst))
                (\<lambda>level. tconfig_merge_loop after stk (replace_level dst level) False)
        else
          rbind (merge_match src (tz_level dst)) (\<lambda>m.
            let stk' = (tb_parent (hd cs), after) # stk in
            case m of
              Some i \<Rightarrow>
                (let b = tz_level dst ! i in
                 case tb_child b of
                   [] \<Rightarrow> tconfig_merge_loop cs stk' dst True
                 | c # r \<Rightarrow>
                     tconfig_merge_loop cs stk'
                       (TZ [] c r ((rev (take i (tz_level dst)), tb_key b, tb_value b, tb_parent b,
                                    drop (Suc i) (tz_level dst)) # tz_up dst)) False)
            | None \<Rightarrow> tconfig_merge_loop cs stk' (merge_new src dst) False)
      else
        rbind (merge_leaf src dst) (\<lambda>dst'.
        rbind (merge_up after stk dst' False) (\<lambda>(d, go).
          case go of
            None \<Rightarrow> Ok (tz_top d)
          | Some (nl, src', stk') \<Rightarrow> tconfig_merge_loop src' stk' d nl)))"
  by pat_completeness auto
termination
  by (relation "measure (\<lambda>(src, stk, dst, nl). merge_size src stk)")
     (auto simp: merge_size_def dest!: merge_up_size)

text \<open>The call with the pointers \<open>src\<close> (with the blocks after it) and \<open>dst\<close>; the result is \<open>dst\<close>'s tree.\<close>

definition tconfig_merge :: "tblock list \<Rightarrow> tzip option \<Rightarrow> tblock list option res" where
  "tconfig_merge src dst =
     (case dst of
        None \<Rightarrow> Ok None
      | Some d \<Rightarrow> if src = [] then Ok (Some (tz_top d))
                  else rbind (tconfig_merge_loop src [] d False) (\<lambda>t. Ok (Some t)))"

subsection \<open>Merging flat defaults\<close>

definition plain_key :: "string \<Rightarrow> string" where
  "plain_key k = (if next_char k = Some (CHR ''@'') then tl k else k)"

definition is_leaf :: "tblock \<Rightarrow> bool" where
  "is_leaf b \<longleftrightarrow> tb_child b = [] \<and> tb_key b \<noteq> None"

text \<open>What one leaf does to a level all of whose blocks have a key.\<close>

definition merge_flat :: "tblock list \<Rightarrow> tblock \<Rightarrow> tblock list" where
  "merge_flat level src =
     (let k = the (tb_key src) in
      if next_char k \<noteq> Some (CHR ''@'') \<and> (\<exists>b \<in> set level. tb_key b = Some k) then level
      else level @ [TB (Some (plain_key k)) (tb_value src) False []])"

lemma merge_dupe_keyed:
  "keyed level \<Longrightarrow> tb_key src = Some k \<Longrightarrow>
   merge_dupe src level = Ok (next_char k \<noteq> Some (CHR ''@'') \<and> (\<exists>b \<in> set level. tb_key b = Some k))"
proof (induction level)
  case (Cons b r)
  then obtain kb where "tb_key b = Some kb" by (auto simp: keyed_def)
  moreover have "keyed r" using Cons.prems(1) by (simp add: keyed_def)
  ultimately show ?case using Cons by auto
qed simp

lemma go_end_keyed:
  "keyed (c # r) \<Longrightarrow> \<exists>l' c'. go_end l c r up = TZ l' c' [] up \<and> tb_key c' \<noteq> None \<and>
     rev l' @ [c'] = rev l @ c # r"
proof (induction r arbitrary: l c)
  case (Cons n ns)
  have "keyed (n # ns)" "tb_key c \<noteq> None" using Cons.prems by (simp_all add: keyed_def)
  then show ?case using Cons.IH [of n "c # l"] by simp
qed (simp add: keyed_def)

lemma merge_leaf_keyed:
  assumes "keyed (tz_level dst)" and "tb_key src = Some k"
  shows "\<exists>dst'. merge_leaf src dst = Ok dst' \<and> tz_level dst' = merge_flat (tz_level dst) src \<and>
                tz_up dst' = tz_up dst"
proof (cases dst)
  case (TZ l c r up)
  then have kc: "keyed (c # r)" using assms(1) by (simp add: tz_level_def keyed_def)
  obtain l' c' where g: "go_end l c r up = TZ l' c' [] up" "tb_key c' \<noteq> None" "rev l' @ [c'] = rev l @ c # r"
    using go_end_keyed [OF kc] by blast
  have lv: "rev l' @ [c'] = tz_level dst" using g(3) TZ by (simp add: tz_level_def)
  show ?thesis
  proof (cases "next_char k \<noteq> Some (CHR ''@'') \<and> (\<exists>b \<in> set (tz_level dst). tb_key b = Some k)")
    case True
    then show ?thesis
      using merge_dupe_keyed [OF assms] assms(2) by (simp add: merge_leaf_def merge_flat_def Let_def)
  next
    case False
    then have "merge_dupe src (tz_level dst) = Ok False" using merge_dupe_keyed [OF assms] by simp
    then have "merge_leaf src dst = Ok (TZ (c' # l') (TB (Some (plain_key k)) (tb_value src) False []) [] up)"
      using g assms(2) TZ by (simp add: merge_leaf_def plain_key_def Let_def)
    moreover have "merge_flat (tz_level dst) src =
        (rev l' @ [c']) @ [TB (Some (plain_key k)) (tb_value src) False []]"
      using False assms(2) lv by (auto simp add: merge_flat_def Let_def)
    ultimately show ?thesis using TZ by (simp add: tz_level_def)
  qed
qed

lemma merge_flat_keyed: "keyed level \<Longrightarrow> keyed (merge_flat level src)"
  by (auto simp: merge_flat_def keyed_def Let_def)

lemma merge_loop_flat:
  "list_all is_leaf src \<Longrightarrow> src \<noteq> [] \<Longrightarrow> keyed (tz_level dst) \<Longrightarrow>
   tconfig_merge_loop src [] dst False = Ok (plug (foldl merge_flat (tz_level dst) src) (tz_up dst))"
proof (induction src arbitrary: dst)
  case (Cons s after)
  obtain k v p where s: "s = TB (Some k) v p []"
    using Cons.prems(1) by (cases s) (auto simp: is_leaf_def)
  obtain dst' where d: "merge_leaf s dst = Ok dst'" "tz_level dst' = merge_flat (tz_level dst) s"
      "tz_up dst' = tz_up dst"
    using merge_leaf_keyed [OF Cons.prems(3), of s k] s by auto
  have kd: "keyed (tz_level dst')" using d(2) merge_flat_keyed Cons.prems(3) by simp
  show ?case
  proof (cases after)
    case Nil
    then show ?thesis using s d by (simp add: tz_top_def)
  next
    case (Cons n ns)
    then have "tconfig_merge_loop after [] dst' False =
        Ok (plug (foldl merge_flat (tz_level dst') after) (tz_up dst'))"
      using Cons.IH [OF _ _ kd] Cons.prems(1) by simp
    then show ?thesis using s d Cons by simp
  qed
qed simp

lemma find_merge_flat:
  "find (\<lambda>b. tb_key b = Some k) (merge_flat level src) =
     (case find (\<lambda>b. tb_key b = Some k) level of
        Some b \<Rightarrow> Some b
      | None \<Rightarrow> if plain_key (the (tb_key src)) = k
                then Some (TB (Some k) (tb_value src) False []) else None)"
proof (cases "next_char (the (tb_key src)) \<noteq> Some (CHR ''@'') \<and>
    (\<exists>b \<in> set level. tb_key b = Some (the (tb_key src)))")
  case True
  then have "merge_flat level src = level" and "plain_key (the (tb_key src)) = the (tb_key src)"
    by (simp_all only: merge_flat_def plain_key_def Let_def if_True if_False simp_thms)
  moreover have "k \<noteq> the (tb_key src)" if "find (\<lambda>b. tb_key b = Some k) level = None"
    using that True by (auto simp: find_None_iff)
  ultimately show ?thesis by (cases "find (\<lambda>b. tb_key b = Some k) level") auto
next
  case False
  then have "merge_flat level src =
      level @ [TB (Some (plain_key (the (tb_key src)))) (tb_value src) False []]"
    by (simp only: merge_flat_def Let_def if_False)
  then show ?thesis
    by (cases "find (\<lambda>b. tb_key b = Some k) level") (simp_all add: find_append)
qed

lemma find_foldl_merge_flat:
  "map_option tb_value (find (\<lambda>b. tb_key b = Some k) (foldl merge_flat level src)) =
     (case find (\<lambda>b. tb_key b = Some k) level of
        Some b \<Rightarrow> Some (tb_value b)
      | None \<Rightarrow> map_option tb_value (find (\<lambda>b. plain_key (the (tb_key b)) = k) src))"
  by (induction src arbitrary: level) (auto simp: find_merge_flat split: option.splits)

lemma prefix_merge_flat: "prefix level (foldl merge_flat level src)"
proof (induction src arbitrary: level)
  case (Cons s src)
  have "prefix level (merge_flat level s)" by (simp add: merge_flat_def Let_def)
  then show ?case using Cons [of "merge_flat level s"] by (auto intro: prefix_order.trans)
qed simp

lemma keyed_foldl: "keyed level \<Longrightarrow> keyed (foldl merge_flat level src)"
  by (induction src arbitrary: level) (simp_all add: merge_flat_keyed)

lemma search_key_find:
  "keyed bs \<Longrightarrow> search_key k bs =
     Ok (case map_option tb_value (find (\<lambda>b. tb_key b = Some k) bs) of None \<Rightarrow> None | Some v \<Rightarrow> v)"
  by (simp add: search_key_keyed split: option.split)

lemma merge_defaults:
  assumes "list_all is_leaf src" and "src \<noteq> []" and "keyed dst" and "dst \<noteq> []"
  shows "\<exists>t. tconfig_merge src (tz_of_list dst []) = Ok (Some t) \<and> prefix dst t \<and>
     (\<forall>k. search_key k t =
        (case find (\<lambda>b. tb_key b = Some k) dst of
           Some b \<Rightarrow> Ok (tb_value b)
         | None \<Rightarrow> Ok (case find (\<lambda>b. plain_key (the (tb_key b)) = k) src of
                          None \<Rightarrow> None | Some b \<Rightarrow> tb_value b)))"
proof -
  obtain c r where dst: "dst = c # r" using assms(4) by (cases dst) auto
  let ?t = "foldl merge_flat dst src"
  have "tconfig_merge src (tz_of_list dst []) = Ok (Some ?t)"
    using merge_loop_flat [OF assms(1,2), of "TZ [] c r []"] assms(2,3) dst
    by (simp add: tconfig_merge_def tz_of_list_def tz_level_def)
  moreover have "search_key k ?t =
        (case find (\<lambda>b. tb_key b = Some k) dst of
           Some b \<Rightarrow> Ok (tb_value b)
         | None \<Rightarrow> Ok (case find (\<lambda>b. plain_key (the (tb_key b)) = k) src of
                          None \<Rightarrow> None | Some b \<Rightarrow> tb_value b))" for k
    using search_key_find [OF keyed_foldl [OF assms(3)], of k src] find_foldl_merge_flat [of k dst src]
    by (simp split: option.splits)
  ultimately show ?thesis using prefix_merge_flat [of dst src] by (intro exI [of _ ?t] conjI allI)
qed

text \<open>A block with children that meets an equal block without children stops the program.\<close>

lemma merge_into_leaf_faults:
  assumes "cs \<noteq> []" and "v \<noteq> Some ''*''"
    and "merge_match (TB k v p cs) (tz_level dst) = Ok (Some i)" and "tb_child (tz_level dst ! i) = []"
  shows "tconfig_merge (TB k v p cs # after) (Some dst) = Fault NullDeref"
proof -
  obtain k' v' p' cs' r where cs: "cs = TB k' v' p' cs' # r" using assms(1) by (cases cs; cases "hd cs") auto
  show ?thesis using assms by (simp add: tconfig_merge_def cs Let_def)
qed

end
