(* ===== verification/Users.thy ===== *)
theory Users
  imports Util Tconfig_Merge
begin

text \<open>
  \<^verbatim>\<open>src/src/user.c\<close>: the user records, the list of a network's users, and their way to and from the
  blocks of a user file. The functions that go over the networks are in the theory of the network.
\<close>

section \<open>Records\<close>

record channel_flags =
  cf_chan :: cstr
  cf_flags :: cstr

text \<open>The pointer \<open>tcfg\<close> into the parsed user file, which is freed after loading, is left out.\<close>

record user =
  username :: cstr
  u_nick :: cstr
  passhash :: cstr
  hash_type :: cstr
  u_ident :: cstr
  realname :: cstr
  u_host :: cstr
  uhost :: cstr
  console :: cstr
  u_flags :: cstr
  chan_flags :: "channel_flags list"

definition new_user :: "cstr \<Rightarrow> cstr \<Rightarrow> cstr \<Rightarrow> cstr \<Rightarrow> cstr \<Rightarrow> cstr \<Rightarrow> cstr \<Rightarrow> user" where
  "new_user un ni ph ident rn ho fl =
     \<lparr>username = un, u_nick = ni, passhash = ph, hash_type = None, u_ident = ident, realname = rn,
      u_host = ho, uhost = None, console = None, u_flags = fl, chan_flags = []\<rparr>"

definition new_channel_flags :: "cstr \<Rightarrow> cstr \<Rightarrow> channel_flags" where
  "new_channel_flags chan flags = \<lparr>cf_chan = chan, cf_flags = flags\<rparr>"

definition user_list_add :: "user dlist \<Rightarrow> user \<Rightarrow> user dlist" where
  "user_list_add users add = dl_add users add"

definition user_list_del :: "user dlist \<Rightarrow> nat option \<Rightarrow> user dlist" where
  "user_list_del users del = (if dl_from users = [] then dl_null else dl_del users del)"

text \<open>The records that \<open>free_users\<close> frees: it goes to the front first.\<close>

definition free_users :: "user dlist \<Rightarrow> user list" where
  "free_users users = (if dl_from users = [] then [] else dl_all users)"

section \<open>To blocks\<close>

text \<open>
  \<open>users_to_tconfig\<close> appends an empty block after every field but the flags, so that without flags an
  empty one is left at the end. \<open>console\<close> is not among the fields that call for a child.
\<close>

definition user_fields :: "user \<Rightarrow> (string \<times> string) list" where
  "user_fields u =
     concat (map (\<lambda>(k, v). case v of None \<Rightarrow> [] | Some s \<Rightarrow> [(k, s)])
       [(''nick'', u_nick u), (''ident'', u_ident u), (''host'', u_host u), (''console'', console u),
        (''uhost'', uhost u), (''passhash'', passhash u), (''hash_type'', hash_type u)])"

fun field_level :: "bool \<Rightarrow> (string \<times> string) list \<Rightarrow> cstr \<Rightarrow> tblock list" where
  "field_level first [] flags =
     [case flags of None \<Rightarrow> TB None None first []
                  | Some f \<Rightarrow> TB (Some ''flags'') (Some f) first []]"
| "field_level first ((k, v) # r) flags = TB (Some k) (Some v) first [] # field_level False r flags"

definition user_block :: "user \<Rightarrow> tblock" where
  "user_block u =
     TB (Some ''user'') (username u) False
       (if u_nick u = None \<and> u_ident u = None \<and> u_host u = None \<and> uhost u = None \<and>
           passhash u = None \<and> hash_type u = None \<and> u_flags u = None
        then [] else field_level True (user_fields u) (u_flags u))"

definition users_to_tconfig :: "user dlist \<Rightarrow> tblock list" where
  "users_to_tconfig users = map user_block (dl_from users)"

section \<open>From blocks\<close>

definition or_else :: "cstr \<Rightarrow> cstr \<Rightarrow> cstr" where
  "or_else old new = (if old = None then new else old)"

lemma or_else_simps [simp]: "or_else None n = n" "or_else (Some x) n = Some x"
  by (simp_all add: or_else_def)

definition user_field :: "string \<Rightarrow> cstr \<Rightarrow> user \<Rightarrow> user" where
  "user_field k v u =
     (if k = ''nick'' then u\<lparr>u_nick := or_else (u_nick u) v\<rparr>
      else if k = ''passhash'' then u\<lparr>passhash := or_else (passhash u) v\<rparr>
      else if k = ''hash_type'' then u\<lparr>hash_type := or_else (hash_type u) v\<rparr>
      else if k = ''ident'' then u\<lparr>u_ident := or_else (u_ident u) v\<rparr>
      else if k = ''console'' then u\<lparr>console := or_else (console u) v\<rparr>
      else if k = ''realname'' then u\<lparr>realname := or_else (realname u) v\<rparr>
      else if k = ''host'' then u\<lparr>u_host := or_else (u_host u) v\<rparr>
      else if k = ''uhost'' then u\<lparr>uhost := or_else (uhost u) v\<rparr>
      else if k = ''flags'' then u\<lparr>u_flags := or_else (u_flags u) v\<rparr>
      else u)"

fun user_children :: "tblock list \<Rightarrow> user \<Rightarrow> user res" where
  "user_children [] u = Ok u"
| "user_children (child # r) u =
     rbind (deref (tb_key child)) (\<lambda>k. user_children r (user_field k (tb_value child) u))"

definition new_user_from_tconfig_block :: "tblock option \<Rightarrow> user option res" where
  "new_user_from_tconfig_block tcfg =
     (case tcfg of
        None \<Rightarrow> Ok None
      | Some b \<Rightarrow>
          rbind (deref (tb_key b)) (\<lambda>k.
            if k = ''user'' then
              rbind (user_children (tb_child b) (new_user (tb_value b) None None None None None None))
                (\<lambda>u. Ok (Some u))
            else Ok None))"

text \<open>The loop of \<open>user_init\<close> over the blocks of a user file.\<close>

fun load_users :: "tblock list \<Rightarrow> user dlist \<Rightarrow> user dlist res" where
  "load_users [] users = Ok users"
| "load_users (tmp # r) users =
     rbind (deref (tb_key tmp)) (\<lambda>k.
       if k = ''user'' then
         rbind (new_user_from_tconfig_block (Some tmp)) (\<lambda>u.
           load_users r (case u of None \<Rightarrow> users | Some u' \<Rightarrow> dl_add users u'))
       else load_users r users)"

subsection \<open>What a save keeps\<close>

definition saved_user :: "user \<Rightarrow> user" where
  "saved_user u = u\<lparr>realname := None, chan_flags := []\<rparr>"

lemma user_children_append:
  "user_children (a @ b) u = rbind (user_children a u) (\<lambda>u'. user_children b u')"
  by (induction a arbitrary: u) (simp_all add: rbind_assoc)

lemma user_children_fields:
  "user_children (field_level first fs (Some f)) u =
     Ok (user_field ''flags'' (Some f) (foldl (\<lambda>u (k, v). user_field k (Some v) u) u fs))"
  by (induction first fs "Some f" arbitrary: u rule: field_level.induct) auto

lemma fold_user_fields:
  "foldl (\<lambda>u (k, v). user_field k (Some v) u) (new_user (username u) None None None None None None) (user_fields u) =
     u\<lparr>realname := None, u_flags := None, chan_flags := []\<rparr>"
  by (cases "u_nick u"; cases "u_ident u"; cases "u_host u"; cases "console u"; cases "uhost u";
      cases "passhash u"; cases "hash_type u"; cases u)
     (simp_all add: user_fields_def user_field_def new_user_def)

lemma user_field_flags [simp]: "user_field ''flags'' v u = u\<lparr>u_flags := or_else (u_flags u) v\<rparr>"
  by (simp add: user_field_def)

lemma load_user_block:
  assumes "u_flags u \<noteq> None"
  shows "new_user_from_tconfig_block (Some (user_block u)) = Ok (Some (saved_user u))"
proof -
  obtain f where f: "u_flags u = Some f" using assms by auto
  then show ?thesis
    by (simp add: new_user_from_tconfig_block_def user_block_def user_children_fields fold_user_fields
        saved_user_def)
qed

lemma user_block_key [simp]: "tb_key (user_block u) = Some ''user''"
  by (simp add: user_block_def)

lemma load_users_saved:
  "list_all (\<lambda>u. u_flags u \<noteq> None) us \<Longrightarrow> dl_wf d \<Longrightarrow>
   \<exists>d'. load_users (map user_block us) d = Ok d' \<and> dl_all d' = dl_all d @ map saved_user us \<and> dl_wf d' \<and>
        (dl_head d \<longrightarrow> dl_head d')"
proof (induction us arbitrary: d)
  case (Cons u us)
  then show ?case
    using load_user_block [of u] Cons.IH [of "dl_add d (saved_user u)"] by auto
qed simp

text \<open>A user without flags but with another field leaves a block that the loader cannot read.\<close>

lemma field_level_no_flags: "user_children (field_level first fs None) u = Fault NullDeref"
  by (induction first fs "None :: cstr" arbitrary: u rule: field_level.induct) auto

lemma load_flagless_user:
  assumes "u_flags u = None" and "u_nick u \<noteq> None \<or> u_ident u \<noteq> None \<or> u_host u \<noteq> None \<or> uhost u \<noteq> None \<or>
           passhash u \<noteq> None \<or> hash_type u \<noteq> None"
  shows "new_user_from_tconfig_block (Some (user_block u)) = Fault NullDeref"
  using assms by (auto simp: new_user_from_tconfig_block_def user_block_def field_level_no_flags)

text \<open>So does the writer: \<open>strchr\<close> is called on the key of the empty block.\<close>

lemma write_field_level_no_flags: "write_blocks d (field_level first fs None) = Fault NullDeref"
proof (induction first fs "None :: cstr" rule: field_level.induct)
  case (2 first k v r)
  then show ?case by (simp add: write_line_def)
qed (simp add: write_line_def)

subsection \<open>Through the file\<close>

definition user_ok :: "user \<Rightarrow> bool" where
  "user_ok u \<longleftrightarrow>
     (case username u of None \<Rightarrow> False | Some n \<Rightarrow> value_ok n) \<and>
     (case u_flags u of None \<Rightarrow> False | Some f \<Rightarrow> value_ok f) \<and>
     list_all (\<lambda>(k, v). value_ok v) (user_fields u)"

lemma user_fields_keys: "(k, v) \<in> set (user_fields u) \<Longrightarrow> key_ok k \<and> k \<noteq> ''flags''"
  by (auto simp: user_fields_def key_ok_def quoted_char_def split: option.splits)

lemma user_fields_distinct: "distinct (map fst (user_fields u))"
  by (simp add: user_fields_def split: option.split)

lemma storable_field_level:
  "(\<forall>(k, v) \<in> set fs. key_ok k \<and> value_ok v \<and> k \<noteq> ''flags'') \<Longrightarrow> distinct (map fst fs) \<Longrightarrow> value_ok f \<Longrightarrow>
   storable first (field_level first fs (Some f)) \<and>
   fst ` pair_of ` set (field_level first fs (Some f)) = Some ` insert ''flags'' (fst ` set fs)"
proof (induction first fs "Some f" rule: field_level.induct)
  case (1 first)
  then show ?case by (simp add: key_ok_def quoted_char_def)
next
  case (2 first k v r)
  let ?r = "field_level False r (Some f)"
  have r: "storable False ?r" "fst ` pair_of ` set ?r = Some ` insert ''flags'' (fst ` set r)"
    using 2 by simp_all
  have "k \<notin> insert ''flags'' (fst ` set r)" using 2(2,3) by auto
  then have k: "Some k \<notin> fst ` pair_of ` set ?r" unfolding r(2) by (simp only: inj_image_mem_iff inj_Some not_False_eq_True)
  have nin: "(Some k, Some v) \<notin> pair_of ` set ?r"
  proof
    assume "(Some k, Some v) \<in> pair_of ` set ?r"
    from imageI [OF this, of fst] k show False by simp
  qed
  have kv: "key_ok k" "value_ok v" using 2(2) by auto
  have fl: "fst ` pair_of ` set (field_level first ((k, v) # r) (Some f)) = Some ` insert ''flags'' (fst ` set ((k, v) # r))"
    using r(2) by (simp add: insert_commute)
  have "storable first (field_level first ((k, v) # r) (Some f))"
    using r(1) nin kv storable_distinct [OF r(1)] by simp
  then show ?case using fl by (intro conjI)
qed

lemma storable_user_blocks:
  "list_all user_ok us \<Longrightarrow> distinct (map username us) \<Longrightarrow> storable False (map user_block us)"
proof (induction us)
  case (Cons u us)
  then obtain n f where nf: "username u = Some n" "value_ok n" "u_flags u = Some f" "value_ok f"
      "list_all (\<lambda>(k, v). value_ok v) (user_fields u)"
    by (auto simp: user_ok_def split: option.splits)
  let ?l = "field_level True (user_fields u) (Some f)"
  have l: "storable True ?l"
    using storable_field_level [of "user_fields u" f True] nf user_fields_keys user_fields_distinct
    by (fastforce simp: list_all_iff)
  have st: "storable False (map user_block us)" using Cons by simp
  have "pair_of (user_block u) \<notin> pair_of ` set (map user_block us)"
    using Cons.prems(2) by (auto simp: user_block_def image_iff)
  moreover have "user_block u = TB (Some ''user'') (Some n) False ?l"
    using nf by (simp add: user_block_def)
  ultimately show ?case
    using st l nf storable_distinct [OF l] storable_distinct [OF st]
    by (auto simp: key_ok_def quoted_char_def)
qed simp

lemma users_file_roundtrip:
  assumes "list_all user_ok us" and "distinct (map username us)" and "us \<noteq> []"
  shows "\<exists>out blocks users.
     tconfig_to_file (users_to_tconfig (dl_of_list us)) True = Some (Ok (Some out)) \<and>
     file_to_tconfig (Some out) = Ok blocks \<and>
     load_users blocks dl_null = Ok users \<and> dl_head users \<and> dl_from users = map saved_user us"
proof -
  let ?b = "map user_block us"
  obtain out where t: "tconfig_to_file ?b True = Some (Ok (Some out))" "file_to_tconfig (Some out) = Ok ?b"
    using tconfig_roundtrip [OF storable_user_blocks [OF assms(1,2)]] assms(3) by auto
  have "list_all (\<lambda>u. u_flags u \<noteq> None) us"
    using assms(1) by (auto simp: list_all_iff user_ok_def split: option.splits)
  then obtain d where d: "load_users ?b dl_null = Ok d" "dl_all d = map saved_user us" "dl_head d"
    using load_users_saved [of us dl_null] by (auto simp: dl_wf_def dl_head_def)
  then have "dl_from d = map saved_user us" by (simp add: dl_all_def dl_head_def)
  then show ?thesis using t d by (auto simp: users_to_tconfig_def)
qed

end
