(* ===== verification/Irc.thy ===== *)
theory Irc
  imports Util
begin

text \<open>
  \<^verbatim>\<open>src/src/irc.c\<close>: the parsing of a line into \<open>struct irc_data\<close>, and the framing of the received bytes
  into lines. What is done with the parsed line is in the theory of the dispatcher.
\<close>

section \<open>\<open>struct irc_data\<close>\<close>

record irc_prefix =
  servername :: cstr
  pnick :: cstr
  puser :: cstr
  phost :: cstr

record irc_data =
  prefix_of :: "irc_prefix option"
  command :: string
  c_params :: "string list option"
  c_params_str :: cstr
  rest :: "string list option"
  rest_str :: cstr

text \<open>
  Reading \<open>c_params[i]\<close> or \<open>rest[i]\<close>. The arrays are allocated with ten slots, filled with NULL, and
  always have a NULL after the last string.
\<close>

definition arr_get :: "string list option \<Rightarrow> nat \<Rightarrow> cstr res" where
  "arr_get a i =
     (case a of
        None \<Rightarrow> Fault NullDeref
      | Some xs \<Rightarrow> if i < length xs then Ok (Some (xs ! i))
                   else if i = length xs \<or> i < 10 then Ok None
                   else Fault OutOfBounds)"

text \<open>An element that is then read as a string.\<close>

definition arr_str :: "string list option \<Rightarrow> nat \<Rightarrow> string res" where
  "arr_str a i = rbind (arr_get a i) deref"

lemma arr_get_simps [simp]:
  "arr_get None i = Inl NullDeref"
  "i < length xs \<Longrightarrow> arr_get (Some xs) i = Inr (Some (xs ! i))"
  "arr_get (Some xs) (length xs) = Inr None"
  by (simp_all add: arr_get_def)

lemma arr_str_simps [simp]:
  "arr_str None i = Inl NullDeref"
  "i < length xs \<Longrightarrow> arr_str (Some xs) i = Inr (xs ! i)"
  by (simp_all add: arr_str_def)

section \<open>Parsing a line\<close>

text \<open>
  The loops for the prefix and the command look for a blank and do not stop at the NUL; nor does the
  loop for the user, which looks for \<open>@\<close>. Without one they run off the buffer.
\<close>

definition upto :: "char \<Rightarrow> string \<Rightarrow> (string \<times> string) res" where
  "upto d s =
     (case dropWhile (\<lambda>c. c \<noteq> d) s of
        [] \<Rightarrow> Fault OutOfBounds
      | _ # r \<Rightarrow> Ok (takeWhile (\<lambda>c. c \<noteq> d) s, r))"

text \<open>The prefix from the text before the first blank, which starts with \<open>:\<close>.\<close>

definition parse_prefix :: "cstr \<Rightarrow> string \<Rightarrow> irc_prefix res" where
  "parse_prefix net_nick tmp =
     (if CHR ''!'' \<notin> set tmp then
        rbind (strcmp_p (Some (tl tmp)) net_nick) (\<lambda>same.
          if same then Ok \<lparr>servername = None, pnick = Some (tl tmp), puser = None, phost = None\<rparr>
          else Ok \<lparr>servername = Some (tl tmp), pnick = None, puser = None, phost = None\<rparr>)
      else
        rbind (upto (CHR ''!'') (tl tmp)) (\<lambda>(nick, r).
        rbind (upto (CHR ''@'') r) (\<lambda>(user, host).
          Ok \<lparr>servername = None, pnick = Some nick, puser = Some user, phost = Some host\<rparr>)))"

text \<open>
  The parameters: the byte before, the rest of the line, the strings so far (the complete ones and
  the one being filled) and \<open>c_params_str\<close>. The result is the array, \<open>c_params_str\<close> and where the scan
  stopped. A blank at the very end makes an empty parameter and steps over the NUL, onto the zero
  byte that \<open>irc_in\<close> leaves behind it.
\<close>

type_synonym words_acc = "(string list \<times> string) option"

definition words_of :: "words_acc \<Rightarrow> string list option" where
  "words_of acc = map_option (\<lambda>(ws, w). ws @ [w]) acc"

definition words_started :: "words_acc \<Rightarrow> string list \<times> string" where
  "words_started acc = (case acc of None \<Rightarrow> ([], []) | Some a \<Rightarrow> a)"

fun params_loop :: "char \<Rightarrow> string \<Rightarrow> words_acc \<Rightarrow> string \<Rightarrow> string list option \<times> string \<times> string" where
  "params_loop before [] acc str = (words_of acc, str, [])"
| "params_loop before (c # cs) acc str =
     (if c = NL \<or> c = CR then (words_of acc, str, c # cs)
      else if c = CHR '':'' \<and> before = SPC then (words_of acc, str, c # cs)
      else
        (case words_started acc of (ws, w) \<Rightarrow>
           if c = SPC then
             (case cs of
                [] \<Rightarrow> (Some (ws @ [w, []]), str @ [SPC], [])
              | d # ds \<Rightarrow>
                  if d = CHR '':'' \<or> d = CR \<or> d = NL then (Some (ws @ [w]), str @ [SPC], d # ds)
                  else params_loop d ds (Some (ws @ [w], [d])) (str @ [SPC, d]))
           else params_loop c cs (Some (ws, w @ [c])) (str @ [c])))"

text \<open>The words after the colon.\<close>

fun rest_loop :: "string \<Rightarrow> words_acc \<Rightarrow> string \<Rightarrow> string list option \<times> string" where
  "rest_loop [] acc str = (words_of acc, str)"
| "rest_loop (c # cs) acc str =
     (if c = NL \<or> c = CR then (words_of acc, str)
      else
        (case words_started acc of (ws, w) \<Rightarrow>
           if c = SPC then
             (case cs of
                [] \<Rightarrow> (Some (ws @ [w]), str @ [SPC])
              | d # ds \<Rightarrow>
                  if d = CR \<or> d = NL then (Some (ws @ [w]), str @ [SPC])
                  else rest_loop ds (Some (ws @ [w], [d])) (str @ [SPC, d]))
           else rest_loop cs (Some (ws, w @ [c])) (str @ [c])))"

definition make_data :: "irc_prefix option \<Rightarrow> string \<Rightarrow> string \<Rightarrow> irc_data" where
  "make_data pre cmd s =
     (case params_loop SPC s None [] of (params, pstr, r) \<Rightarrow>
      (case rest_loop (case r of [] \<Rightarrow> [] | _ # r' \<Rightarrow> r') None [] of (words, rstr) \<Rightarrow>
         \<lparr>prefix_of = pre, command = cmd,
          c_params = params, c_params_str = map_option (\<lambda>_. pstr) params,
          rest = words, rest_str = map_option (\<lambda>_. rstr) words\<rparr>))"

definition parse_body :: "irc_prefix option \<Rightarrow> string \<Rightarrow> irc_data res" where
  "parse_body pre s = rbind (upto SPC s) (\<lambda>(cmd, s1). Ok (make_data pre cmd s1))"

definition parse_irc_data :: "cstr \<Rightarrow> string \<Rightarrow> irc_data res" where
  "parse_irc_data net_nick buffer =
     (if next_char buffer \<noteq> Some (CHR '':'') then parse_body None buffer
      else rbind (upto SPC buffer) (\<lambda>(tmp, s).
           rbind (parse_prefix net_nick tmp) (\<lambda>pre.
             parse_body (Some pre) s)))"

subsection \<open>When it stays in bounds\<close>

lemma upto_Cons:
  "upto d (c # cs) = (if c = d then Ok ([], cs) else rbind (upto d cs) (\<lambda>(w, r). Ok (c # w, r)))"
  by (cases "dropWhile (\<lambda>c. c \<noteq> d) cs") (simp_all add: upto_def del: dropWhile_eq_Nil_conv)

lemma upto_Nil: "upto d [] = Fault OutOfBounds"
  by (simp add: upto_def)

lemma upto_Ok_iff: "(\<exists>w r. upto d s = Ok (w, r)) \<longleftrightarrow> d \<in> set s"
  by (induction s) (auto simp: upto_Cons upto_Nil rbind_Ok_iff)

lemma upto_Fault_iff: "upto d s = Fault e \<longleftrightarrow> d \<notin> set s \<and> e = OutOfBounds"
  by (induction s) (auto simp: upto_Cons upto_Nil rbind_Fault_iff)

lemma upto_append: "d \<notin> set w \<Longrightarrow> upto d (w @ d # r) = Ok (w, r)"
  by (induction w) (auto simp: upto_Cons)

lemma parse_body_Ok_iff: "(\<exists>d. parse_body pre s = Ok d) \<longleftrightarrow> SPC \<in> set s"
  using upto_Ok_iff [of SPC s] by (auto simp: parse_body_def rbind_Ok_iff)

text \<open>The lines the parser survives.\<close>

definition line_ok :: "string \<Rightarrow> bool" where
  "line_ok s \<longleftrightarrow>
     (if next_char s = Some (CHR '':'') then
        (let tmp = takeWhile (\<lambda>c. c \<noteq> SPC) s; r = dropWhile (\<lambda>c. c \<noteq> SPC) s in
         r \<noteq> [] \<and> SPC \<in> set (tl r) \<and>
         (CHR ''!'' \<in> set tmp \<longrightarrow> CHR ''@'' \<in> set (dropWhile (\<lambda>c. c \<noteq> CHR ''!'') tmp)))
      else SPC \<in> set s)"

lemma upto_takeWhile:
  "upto d s = (if dropWhile (\<lambda>c. c \<noteq> d) s = [] then Fault OutOfBounds
               else Ok (takeWhile (\<lambda>c. c \<noteq> d) s, tl (dropWhile (\<lambda>c. c \<noteq> d) s)))"
  by (cases "dropWhile (\<lambda>c. c \<noteq> d) s") (simp_all add: upto_def del: dropWhile_eq_Nil_conv)

lemma parse_irc_data_Ok_iff:
  "(\<exists>d. parse_irc_data (Some nick) s = Ok d) \<longleftrightarrow> line_ok s"
proof (cases "next_char s = Some (CHR '':'')")
  case False
  then show ?thesis by (simp add: parse_irc_data_def line_ok_def parse_body_Ok_iff)
next
  case True
  then obtain s' where s: "s = CHR '':'' # s'" by (cases s) (auto simp: next_char_def)
  let ?tmp = "takeWhile (\<lambda>c. c \<noteq> SPC) s" and ?r = "dropWhile (\<lambda>c. c \<noteq> SPC) s"
  have tmp: "?tmp = CHR '':'' # tl ?tmp" by (simp add: s)
  have pre: "(\<exists>p. parse_prefix (Some nick) ?tmp = Ok p) \<longleftrightarrow>
      (CHR ''!'' \<in> set ?tmp \<longrightarrow> CHR ''@'' \<in> set (dropWhile (\<lambda>c. c \<noteq> CHR ''!'') ?tmp))"
  proof (cases "CHR ''!'' \<in> set ?tmp")
    case False
    then show ?thesis by (simp add: parse_prefix_def)
  next
    case bang: True
    then have inn: "CHR ''!'' \<in> set (tl ?tmp)" by (subst (asm) tmp) simp
    then obtain a b where ab: "tl ?tmp = a @ CHR ''!'' # b" "CHR ''!'' \<notin> set a"
      using split_list_first by metis
    have "dropWhile (\<lambda>c. c \<noteq> CHR ''!'') ?tmp = CHR ''!'' # b"
    proof -
      have "?tmp = (CHR '':'' # a) @ CHR ''!'' # b" using tmp ab(1) by simp
      moreover have "dropWhile (\<lambda>c. c \<noteq> CHR ''!'') ((CHR '':'' # a) @ CHR ''!'' # b) = CHR ''!'' # b"
        using ab(2) by (subst dropWhile_append2) auto
      ultimately show ?thesis by simp
    qed
    moreover have "upto (CHR ''!'') (tl ?tmp) = Ok (a, b)" using ab by (simp add: upto_append)
    moreover have "(\<exists>u h. upto (CHR ''@'') b = Ok (u, h)) \<longleftrightarrow> CHR ''@'' \<in> set b"
      by (rule upto_Ok_iff)
    ultimately show ?thesis using bang by (auto simp: parse_prefix_def rbind_Ok_iff)
  qed
  have "(\<exists>d. parse_irc_data (Some nick) s = Ok d) \<longleftrightarrow>
      ?r \<noteq> [] \<and> (\<exists>p. parse_prefix (Some nick) ?tmp = Ok p \<and> (\<exists>d. parse_body (Some p) (tl ?r) = Ok d))"
    using True by (auto simp: parse_irc_data_def upto_takeWhile rbind_Ok_iff split: if_splits)
  also have "\<dots> \<longleftrightarrow> ?r \<noteq> [] \<and> (\<exists>p. parse_prefix (Some nick) ?tmp = Ok p) \<and> SPC \<in> set (tl ?r)"
    by (auto simp only: parse_body_Ok_iff)
  finally show ?thesis using True pre by (auto simp: line_ok_def Let_def)
qed

lemma parse_irc_data_fault:
  "\<not> line_ok s \<Longrightarrow> parse_irc_data (Some nick) s = Fault OutOfBounds"
proof -
  assume "\<not> line_ok s"
  then obtain e where e: "parse_irc_data (Some nick) s = Fault e"
    using parse_irc_data_Ok_iff [of nick s] by (cases "parse_irc_data (Some nick) s") auto
  have "parse_body p t = Fault f \<Longrightarrow> f = OutOfBounds" for p t f
    by (auto simp: parse_body_def rbind_Fault_iff upto_Fault_iff split: prod.splits)
  moreover have "parse_prefix (Some nick) t = Fault f \<Longrightarrow> f = OutOfBounds" for t f
    by (auto simp: parse_prefix_def rbind_Fault_iff upto_Fault_iff split: prod.splits if_splits)
  ultimately show ?thesis
    using e by (auto simp: parse_irc_data_def rbind_Fault_iff upto_Fault_iff split: prod.splits if_splits)
qed

subsection \<open>Writing a message and parsing it\<close>

definition plain_char :: "char \<Rightarrow> bool" where
  "plain_char c \<longleftrightarrow> c \<noteq> SPC \<and> c \<noteq> NL \<and> c \<noteq> CR"

definition param_ok :: "string \<Rightarrow> bool" where
  "param_ok p \<longleftrightarrow> p \<noteq> [] \<and> list_all plain_char p \<and> hd p \<noteq> CHR '':''"

definition text_ok :: "string \<Rightarrow> bool" where
  "text_ok w \<longleftrightarrow> w \<noteq> [] \<and> list_all plain_char w"

definition command_ok :: "string \<Rightarrow> bool" where
  "command_ok c \<longleftrightarrow> SPC \<notin> set c \<and> next_char c \<noteq> Some (CHR '':'')"

text \<open>A server, or a user that is not the bot.\<close>

fun show_prefix :: "irc_prefix \<Rightarrow> string" where
  "show_prefix p =
     (case servername p of
        Some s \<Rightarrow> CHR '':'' # s @ [SPC]
      | None \<Rightarrow> CHR '':'' # the (pnick p) @ CHR ''!'' # the (puser p) @ CHR ''@'' # the (phost p) @ [SPC])"

definition prefix_ok :: "string \<Rightarrow> irc_prefix \<Rightarrow> bool" where
  "prefix_ok net_nick p \<longleftrightarrow>
     (case servername p of
        Some s \<Rightarrow> pnick p = None \<and> puser p = None \<and> phost p = None \<and>
                  SPC \<notin> set s \<and> CHR ''!'' \<notin> set s \<and> s \<noteq> net_nick
      | None \<Rightarrow>
          (case (pnick p, puser p, phost p) of
             (Some n, Some u, Some h) \<Rightarrow>
               SPC \<notin> set n \<and> SPC \<notin> set u \<and> SPC \<notin> set h \<and> CHR ''!'' \<notin> set n \<and> CHR ''@'' \<notin> set u
           | _ \<Rightarrow> False))"

definition show_body :: "string \<Rightarrow> string list \<Rightarrow> string list \<Rightarrow> string" where
  "show_body cmd params words =
     cmd @ SPC # join_blank params @
     (if words = [] then [] else (if params = [] then [] else [SPC]) @ CHR '':'' # join_blank words)"

lemma join_blank_concat: "join_blank (p # qs) = p @ concat (map ((#) SPC) qs)"
  by (induction qs arbitrary: p) auto

lemma params_loop_word:
  "list_all plain_char w \<Longrightarrow> before \<noteq> SPC \<Longrightarrow>
   params_loop before (w @ r) (Some (ws, cur)) str =
     params_loop (last (before # w)) r (Some (ws, cur @ w)) (str @ w)"
proof (induction w arbitrary: before cur str)
  case (Cons c w)
  then have "c \<noteq> SPC" "c \<noteq> NL" "c \<noteq> CR" by (auto simp: plain_char_def)
  then show ?case using Cons by (simp add: words_started_def)
qed simp

lemma params_loop_words:
  "list_all param_ok qs \<Longrightarrow> before \<noteq> SPC \<Longrightarrow>
   \<exists>before' ws' cur'.
     params_loop before (concat (map ((#) SPC) qs) @ r) (Some (ws, cur)) str =
       params_loop before' r (Some (ws', cur')) (str @ concat (map ((#) SPC) qs)) \<and>
     ws' @ [cur'] = ws @ cur # qs \<and> before' \<noteq> SPC"
proof (induction qs arbitrary: before ws cur str)
  case Nil
  then show ?case by (intro exI [of _ before] exI [of _ ws] exI [of _ cur]) simp
next
  case (Cons q qs)
  from Cons.prems(1) obtain d ds where q: "q = d # ds" and d: "d \<noteq> CHR '':''" "plain_char d" "list_all plain_char ds"
    by (cases q) (auto simp: param_ok_def)
  then have dn: "d \<noteq> SPC" "d \<noteq> NL" "d \<noteq> CR" by (auto simp: plain_char_def)
  have lst: "last (d # ds) \<noteq> SPC"
    using d(3) dn(1) by (cases ds rule: rev_exhaust) (auto simp: plain_char_def)
  let ?tail = "concat (map ((#) SPC) qs) @ r"
  have "params_loop before (SPC # (d # ds) @ ?tail) (Some (ws, cur)) str =
      params_loop d (ds @ ?tail) (Some (ws @ [cur], [d])) (str @ [SPC, d])"
    using dn d(1) by (simp add: words_started_def)
  also have "\<dots> = params_loop (last (d # ds)) ?tail (Some (ws @ [cur], q)) (str @ SPC # q)"
    using params_loop_word [OF d(3) dn(1)] q by simp
  finally show ?case
    using Cons.IH [of "last (d # ds)" "ws @ [cur]" q "str @ SPC # q"] Cons.prems(1) lst q by fastforce
qed

lemma params_loop_params:
  assumes "list_all param_ok (p # qs)"
  shows "\<exists>before' ws' cur'.
     params_loop SPC (join_blank (p # qs) @ r) None [] =
       params_loop before' r (Some (ws', cur')) (join_blank (p # qs)) \<and>
     ws' @ [cur'] = p # qs \<and> before' \<noteq> SPC"
proof -
  from assms obtain d ds where p: "p = d # ds" and d: "d \<noteq> CHR '':''" "plain_char d" "list_all plain_char ds"
    by (cases p) (auto simp: param_ok_def)
  then have dn: "d \<noteq> SPC" "d \<noteq> NL" "d \<noteq> CR" by (auto simp: plain_char_def)
  have lst: "last (d # ds) \<noteq> SPC"
    using d(3) dn(1) by (cases ds rule: rev_exhaust) (auto simp: plain_char_def)
  let ?tail = "concat (map ((#) SPC) qs) @ r"
  have "params_loop SPC (join_blank (p # qs) @ r) None [] = params_loop d (ds @ ?tail) (Some ([], [d])) [d]"
    using dn d(1) by (simp add: join_blank_concat p words_started_def)
  also have "\<dots> = params_loop (last (d # ds)) ?tail (Some ([], p)) p"
    using params_loop_word [OF d(3) dn(1), of ?tail "[]" "[d]" "[d]"] p by simp
  finally show ?thesis
    using params_loop_words [of qs "last (d # ds)" r "[]" p p] assms lst by (simp add: join_blank_concat)
qed

lemma rest_loop_word:
  "list_all plain_char w \<Longrightarrow>
   rest_loop (w @ r) (Some (ws, cur)) str = rest_loop r (Some (ws, cur @ w)) (str @ w)"
  by (induction w arbitrary: cur str) (auto simp: plain_char_def words_started_def)

lemma rest_loop_words:
  "list_all text_ok qs \<Longrightarrow>
   rest_loop (concat (map ((#) SPC) qs)) (Some (ws, cur)) str =
     (Some (ws @ cur # qs), str @ concat (map ((#) SPC) qs))"
proof (induction qs arbitrary: ws cur str)
  case Nil
  then show ?case by (simp add: words_of_def)
next
  case (Cons q qs)
  from Cons.prems obtain d ds where q: "q = d # ds" and d: "plain_char d" "list_all plain_char ds"
    by (cases q) (auto simp: text_ok_def)
  then have dn: "d \<noteq> SPC" "d \<noteq> NL" "d \<noteq> CR" by (auto simp: plain_char_def)
  have "rest_loop (SPC # (d # ds) @ concat (map ((#) SPC) qs)) (Some (ws, cur)) str =
      rest_loop (concat (map ((#) SPC) qs)) (Some (ws @ [cur], q)) (str @ SPC # q)"
    using dn rest_loop_word [OF d(2)] q by (simp add: words_started_def)
  then show ?case using Cons.IH [of "ws @ [cur]" q "str @ SPC # q"] Cons.prems q by simp
qed

lemma rest_loop_text:
  assumes "list_all text_ok ws" and "ws \<noteq> []"
  shows "rest_loop (join_blank ws) None [] = (Some ws, join_blank ws)"
proof -
  obtain w vs where ws: "ws = w # vs" using assms(2) by (cases ws) auto
  from assms ws obtain d ds where w: "w = d # ds" and d: "plain_char d" "list_all plain_char ds"
    by (cases w) (auto simp: text_ok_def)
  then have dn: "d \<noteq> SPC" "d \<noteq> NL" "d \<noteq> CR" by (auto simp: plain_char_def)
  have "rest_loop (join_blank ws) None [] = rest_loop (concat (map ((#) SPC) vs)) (Some ([], w)) w"
    using dn rest_loop_word [OF d(2), of _ "[]" "[d]" "[d]"] by (simp add: ws w join_blank_concat words_started_def)
  then show ?thesis using rest_loop_words [of vs "[]" w w] assms ws by (simp add: join_blank_concat)
qed

text \<open>\<open>c_params_str\<close> has a blank at the end when there is a text.\<close>

definition params_str :: "string list \<Rightarrow> string list \<Rightarrow> cstr" where
  "params_str params words =
     (if params = [] then None else Some (join_blank params @ (if words = [] then [] else [SPC])))"

definition opt_list :: "'a list \<Rightarrow> 'a list option" where
  "opt_list xs = (if xs = [] then None else Some xs)"

lemma make_data_show:
  assumes "list_all param_ok params" and "list_all text_ok words"
  shows "make_data pre cmd (join_blank params @
           (if words = [] then [] else (if params = [] then [] else [SPC]) @ CHR '':'' # join_blank words)) =
    \<lparr>prefix_of = pre, command = cmd, c_params = opt_list params, c_params_str = params_str params words,
     rest = opt_list words, rest_str = (if words = [] then None else Some (join_blank words))\<rparr>"
proof (cases params)
  case Nil
  then show ?thesis
    using assms(2) rest_loop_text [of words]
    by (simp add: make_data_def words_of_def opt_list_def params_str_def)
next
  case (Cons p qs)
  let ?t = "if words = [] then [] else SPC # CHR '':'' # join_blank words"
  obtain b ws' cur' where l: "params_loop SPC (join_blank (p # qs) @ ?t) None [] =
      params_loop b ?t (Some (ws', cur')) (join_blank (p # qs))" and w: "ws' @ [cur'] = p # qs"
    using params_loop_params [of p qs ?t] assms(1) Cons by auto
  have "params_loop b ?t (Some (ws', cur')) (join_blank (p # qs)) =
      (Some params, join_blank params @ (if words = [] then [] else [SPC]), tl ?t)"
    using w Cons by (simp add: words_of_def words_started_def)
  then show ?thesis
    using l assms(2) rest_loop_text [of words] Cons
    by (auto simp: make_data_def words_of_def opt_list_def params_str_def)
qed

theorem parse_show_message:
  assumes "list_all param_ok params" and "list_all text_ok words" and "command_ok cmd"
    and "case pre of None \<Rightarrow> True | Some p \<Rightarrow> prefix_ok nick p"
  shows "parse_irc_data (Some nick) ((case pre of None \<Rightarrow> [] | Some p \<Rightarrow> show_prefix p) @ show_body cmd params words) =
    Ok \<lparr>prefix_of = pre, command = cmd, c_params = opt_list params, c_params_str = params_str params words,
        rest = opt_list words, rest_str = (if words = [] then None else Some (join_blank words))\<rparr>"
proof -
  have body: "parse_body q (show_body cmd params words) =
    Ok \<lparr>prefix_of = q, command = cmd, c_params = opt_list params, c_params_str = params_str params words,
        rest = opt_list words, rest_str = (if words = [] then None else Some (join_blank words))\<rparr>" for q
    using assms(3) make_data_show [OF assms(1,2), of q cmd]
    by (simp add: parse_body_def show_body_def upto_append command_ok_def)
  show ?thesis
  proof (cases pre)
    case None
    have "next_char (show_body cmd params words) \<noteq> Some (CHR '':'')"
      using assms(3) by (cases cmd) (auto simp: command_ok_def show_body_def next_char_def)
    then show ?thesis using None body by (simp add: parse_irc_data_def)
  next
    case (Some p)
    then have pok: "prefix_ok nick p" using assms(4) by simp
    obtain tmp where tmp: "show_prefix p = tmp @ [SPC]" "SPC \<notin> set tmp" "next_char tmp = Some (CHR '':'')"
        "parse_prefix (Some nick) tmp = Ok p"
    proof (cases "servername p")
      case (Some s)
      with pok have "parse_prefix (Some nick) (CHR '':'' # s) = Ok p"
        by (cases p) (auto simp: prefix_ok_def parse_prefix_def)
      then show ?thesis using that [of "CHR '':'' # s"] Some pok by (auto simp: prefix_ok_def next_char_def)
    next
      case None
      with pok obtain n u h where nuh: "pnick p = Some n" "puser p = Some u" "phost p = Some h"
          "SPC \<notin> set n" "SPC \<notin> set u" "SPC \<notin> set h" "CHR ''!'' \<notin> set n" "CHR ''@'' \<notin> set u"
        by (auto simp: prefix_ok_def split: option.splits)
      then have "parse_prefix (Some nick) (CHR '':'' # n @ CHR ''!'' # u @ CHR ''@'' # h) = Ok p"
        using None by (cases p) (simp add: parse_prefix_def upto_append)
      then show ?thesis using that [of "CHR '':'' # n @ CHR ''!'' # u @ CHR ''@'' # h"] nuh None
        by (simp add: next_char_def)
    qed
    then have "next_char (show_prefix p @ show_body cmd params words) = Some (CHR '':'')"
      by (cases tmp) (auto simp: next_char_def)
    then show ?thesis using tmp body Some by (simp add: parse_irc_data_def upto_append del: show_prefix.simps)
  qed
qed

section \<open>Framing\<close>

text \<open>
  \<open>irc_in\<close> keeps the unfinished end of the input in the static variables \<open>buffer\<close> and \<open>size\<close>. Of a
  buffer the model has the string in it and how many of its bytes are initialised, those behind the
  string being zero. There is one \<open>buffer\<close> for all networks.
\<close>

record irc_buf =
  ib_buffer :: "(string \<times> nat) option"
  ib_size :: nat

definition irc_buf_start :: irc_buf where
  "irc_buf_start = \<lparr>ib_buffer = None, ib_size = 1024\<rparr>"

text \<open>What \<open>recv\<close> does: an error, the end of the stream, or at least one byte (none of them NUL).\<close>

datatype recv_result = RecvError | RecvClosed | Received string

definition eol :: "char \<Rightarrow> bool" where
  "eol c \<longleftrightarrow> c = CR \<or> c = NL"

text \<open>One complete line, and what is behind the run of line ends after it.\<close>

definition first_line :: "string \<Rightarrow> string" where
  "first_line b = takeWhile (\<lambda>c. \<not> eol c) b"

definition after_line :: "string \<Rightarrow> string" where
  "after_line b = dropWhile eol (dropWhile (\<lambda>c. \<not> eol c) b)"

lemma after_line_length: "NL \<in> set b \<Longrightarrow> length (after_line b) < length b"
proof (induction b)
  case (Cons c b)
  then show ?case
    by (cases "c = NL") (auto simp: after_line_def eol_def length_dropWhile_le le_imp_less_Suc)
qed simp

text \<open>The lines handed to \<open>parse_irc_line\<close>, and \<open>buffer\<close> and \<open>size\<close> after the loop.\<close>

function take_lines :: "string \<times> nat \<Rightarrow> nat \<Rightarrow> string list \<times> irc_buf" where
  "take_lines (b, z) sz =
     (if NL \<notin> set b then ([], \<lparr>ib_buffer = Some (b, z), ib_size = sz\<rparr>)
      else if after_line b = [] then ([first_line b], \<lparr>ib_buffer = None, ib_size = sz\<rparr>)
      else (case take_lines (after_line b, length (after_line b) + 1) (length (after_line b) + 1) of
              (ls, st) \<Rightarrow> (first_line b # ls, st)))"
  by pat_completeness auto
termination
  by (relation "measure (\<lambda>((b, z), sz). length b)") (auto simp: after_line_length)

declare take_lines.simps [simp del]

text \<open>The return value, the lines, and the static variables.\<close>

definition irc_in :: "irc_buf \<Rightarrow> recv_result \<Rightarrow> (int \<times> string list \<times> irc_buf) res" where
  "irc_in st recved =
     (let (b, z) = (case ib_buffer st of
                      None \<Rightarrow> ([], 1025)
                    | Some (s, z) \<Rightarrow> tcrealloc0 (s, z) (length s + 1025) (ib_size st));
          sz = (case ib_buffer st of None \<Rightarrow> ib_size st | Some (s, z) \<Rightarrow> length s + 1025)
      in case recved of
           RecvError \<Rightarrow> Ok (1, [], \<lparr>ib_buffer = None, ib_size = sz\<rparr>)
         | RecvClosed \<Rightarrow> Ok (0, [], \<lparr>ib_buffer = None, ib_size = sz\<rparr>)
         | Received chunk \<Rightarrow>
             if length (b @ chunk) < z then
               (case take_lines (b @ chunk, z) sz of (ls, st') \<Rightarrow> Ok (1, ls, st'))
             else Fault OutOfBounds)"

text \<open>The lines of a text, and the part behind the last line end.\<close>

function split_lines :: "string \<Rightarrow> string list \<times> string" where
  "split_lines b =
     (if NL \<notin> set b then ([], b)
      else if after_line b = [] then ([first_line b], [])
      else (case split_lines (after_line b) of (ls, r) \<Rightarrow> (first_line b # ls, r)))"
  by pat_completeness auto
termination
  by (relation "measure length") (auto simp: after_line_length)

declare split_lines.simps [simp del]

definition pending :: "irc_buf \<Rightarrow> string" where
  "pending st = (case ib_buffer st of None \<Rightarrow> [] | Some (s, z) \<Rightarrow> s)"

text \<open>\<open>size\<close> fits the buffer: the next \<open>tcrealloc0\<close> clears nothing but the space behind the string.\<close>

definition ib_ok :: "irc_buf \<Rightarrow> bool" where
  "ib_ok st \<longleftrightarrow>
     (case ib_buffer st of
        None \<Rightarrow> True
      | Some (s, z) \<Rightarrow> length s < ib_size st \<and> length s < z \<and> ib_size st \<le> z + 1)"

lemma take_lines_split:
  "fst (take_lines (b, z) sz) = fst (split_lines b)"
  "pending (snd (take_lines (b, z) sz)) = snd (split_lines b)"
proof (induction "(b, z)" sz arbitrary: b z rule: take_lines.induct)
  case (1 b z sz)
  {
    case 1
    then show ?case using "1.hyps"
      by (subst take_lines.simps, subst split_lines.simps) (simp add: case_prod_beta)
  next
    case 2
    then show ?case using "1.hyps"
      by (subst take_lines.simps, subst split_lines.simps) (simp add: pending_def case_prod_beta)
  }
qed

lemma take_lines_ok:
  "NL \<in> set b \<Longrightarrow> ib_ok (snd (take_lines (b, z) sz))"
proof (induction "(b, z)" sz arbitrary: b z rule: take_lines.induct)
  case (1 b z sz)
  let ?a = "after_line b"
  have "ib_ok (snd (take_lines (?a, length ?a + 1) (length ?a + 1)))"
  proof (cases "NL \<in> set ?a")
    case True
    then show ?thesis using 1 by (cases "?a = []") auto
  next
    case False
    then show ?thesis by (subst take_lines.simps) (simp add: ib_ok_def)
  qed
  then have "ib_ok (snd (case take_lines (?a, length ?a + 1) (length ?a + 1) of (ls, st) \<Rightarrow> (first_line b # ls, st)))"
    by (simp add: case_prod_beta)
  then show ?case using 1(2) by (subst take_lines.simps) (simp add: ib_ok_def [of "\<lparr>ib_buffer = None, ib_size = sz\<rparr>"])
qed

lemma irc_in_Received:
  assumes ok: "ib_ok st" and len: "length chunk \<le> 1023"
    and fits: "ib_buffer st = None \<Longrightarrow> NL \<in> set chunk \<or> length chunk < ib_size st \<and> ib_size st \<le> 1026"
  shows "\<exists>st'. irc_in st (Received chunk) = Ok (1, fst (split_lines (pending st @ chunk)), st') \<and>
     ib_ok st' \<and> pending st' = snd (split_lines (pending st @ chunk))"
proof (cases "ib_buffer st")
  case None
  let ?t = "take_lines (chunk, 1025) (ib_size st)"
  have "irc_in st (Received chunk) = Ok (1, fst ?t, snd ?t)"
    using None len by (simp add: irc_in_def case_prod_beta)
  moreover have "ib_ok (snd ?t)"
  proof (cases "NL \<in> set chunk")
    case True
    then show ?thesis by (rule take_lines_ok)
  next
    case False
    then show ?thesis using fits None len by (subst take_lines.simps) (simp add: ib_ok_def)
  qed
  ultimately show ?thesis using None take_lines_split [of chunk 1025 "ib_size st"] by (simp add: pending_def [of st])
next
  case (Some sz)
  then obtain s z where s: "ib_buffer st = Some (s, z)" by (cases sz) auto
  have c: "length s < ib_size st" "length s < z" "ib_size st \<le> z + 1"
    using ok s by (simp_all add: ib_ok_def)
  obtain z' where z': "tcrealloc0 (s, z) (length s + 1025) (ib_size st) = (s, z')" "length s + 1024 \<le> z'"
  proof -
    have "\<not> z < ib_size st - 1" using c by simp
    then show ?thesis using that c by (cases "ib_size st < length s + 1025") (auto simp: tcrealloc0_def)
  qed
  let ?t = "take_lines (s @ chunk, z') (length s + 1025)"
  have "irc_in st (Received chunk) = Ok (1, fst ?t, snd ?t)"
    using s z' len by (simp add: irc_in_def case_prod_beta)
  moreover have "ib_ok (snd ?t)"
  proof (cases "NL \<in> set (s @ chunk)")
    case True
    then show ?thesis by (rule take_lines_ok)
  next
    case False
    then show ?thesis using len z'(2) by (subst take_lines.simps) (simp add: ib_ok_def)
  qed
  ultimately show ?thesis
    using s take_lines_split [of "s @ chunk" z' "length s + 1025"] by (simp add: pending_def [of st])
qed

text \<open>
  Where the stream is cut does not matter, as long as no piece starts with a line end after a piece
  that ended with one.
\<close>

lemma first_line_append: "NL \<in> set a \<Longrightarrow> first_line (a @ b) = first_line a"
  by (induction a) (auto simp: first_line_def eol_def)

lemma after_line_append:
  "NL \<in> set a \<Longrightarrow> after_line a \<noteq> [] \<or> b = [] \<or> \<not> eol (hd b) \<Longrightarrow> after_line (a @ b) = after_line a @ b"
proof (induction a)
  case (Cons c a)
  show ?case
  proof (cases "eol c")
    case True
    have "dropWhile eol (a @ b) = dropWhile eol a @ b"
      if "dropWhile eol a \<noteq> [] \<or> b = [] \<or> \<not> eol (hd b)" for a
      using that by (induction a) (cases b; auto)+
    then show ?thesis using Cons.prems True by (simp add: after_line_def)
  next
    case False
    then show ?thesis using Cons by (auto simp: after_line_def eol_def)
  qed
qed simp

lemma split_lines_append:
  "snd (split_lines a) \<noteq> [] \<or> b = [] \<or> \<not> eol (hd b) \<Longrightarrow>
   split_lines (a @ b) =
     (fst (split_lines a) @ fst (split_lines (snd (split_lines a) @ b)),
      snd (split_lines (snd (split_lines a) @ b)))"
proof (induction a rule: split_lines.induct)
  case (1 a)
  show ?case
  proof (cases "NL \<in> set a")
    case False
    then show ?thesis by (simp add: split_lines.simps [of a])
  next
    case nl: True
    show ?thesis
    proof (cases "after_line a = []")
      case True
      have sa: "split_lines a = ([first_line a], [])" using nl True by (simp add: split_lines.simps [of a])
      then have "after_line (a @ b) = b" using "1.prems" nl True after_line_append [of a b] by simp
      then show ?thesis
        using nl sa first_line_append [OF nl, of b]
        by (simp add: split_lines.simps [of "a @ b"] split_lines.simps [of "[]"] case_prod_beta)
    next
      case False
      have sa: "split_lines a = (first_line a # fst (split_lines (after_line a)), snd (split_lines (after_line a)))"
        using nl False by (simp add: split_lines.simps [of a] case_prod_beta)
      have "after_line (a @ b) = after_line a @ b" using nl False after_line_append by blast
      then show ?thesis
        using nl sa False first_line_append [OF nl, of b] 1
        by (simp add: split_lines.simps [of "a @ b"] case_prod_beta)
    qed
  qed
qed

lemma first_line_clean: "NL \<notin> set (first_line b) \<and> CR \<notin> set (first_line b)"
  by (auto simp: first_line_def eol_def dest: set_takeWhileD)

lemma split_lines_clean: "l \<in> set (fst (split_lines b)) \<Longrightarrow> NL \<notin> set l \<and> CR \<notin> set l"
proof (induction b rule: split_lines.induct)
  case (1 b)
  show ?case
  proof (cases "NL \<in> set b \<and> after_line b \<noteq> []")
    case True
    then have "l = first_line b \<or> l \<in> set (fst (split_lines (after_line b)))"
      using "1.prems" by (subst (asm) split_lines.simps) (simp add: case_prod_beta)
    then show ?thesis using 1 True first_line_clean by blast
  next
    case False
    then show ?thesis
      using "1.prems" first_line_clean [of b] by (subst (asm) split_lines.simps) (auto split: if_splits)
  qed
qed

text \<open>
  With a \<open>size\<close> left over from an earlier buffer, the end of a line that arrives in two pieces is lost.
\<close>

lemma irc_in_stale_size:
  assumes "ib_buffer st = None" and "NL \<notin> set a" and "ib_size st \<le> length a" and "length a \<le> 1023"
    and "0 < ib_size st"
  shows "\<exists>st'. irc_in st (Received a) = Ok (1, [], st') \<and>
     (\<forall>b. length b \<le> 1023 \<longrightarrow> (\<exists>st''. irc_in st' (Received b) =
        Ok (1, fst (split_lines (take (ib_size st - 1) a @ b)), st'')))"
proof -
  let ?st' = "\<lparr>ib_buffer = Some (a, 1025), ib_size = ib_size st\<rparr>"
  have "irc_in st (Received a) = Ok (1, [], ?st')"
    using assms by (simp add: irc_in_def take_lines.simps [of a])
  moreover have "irc_in ?st' (Received b) = Ok (1, fst (split_lines (take (ib_size st - 1) a @ b)),
      snd (take_lines (take (ib_size st - 1) a @ b, length a + 1024) (length a + 1025)))"
    if "length b \<le> 1023" for b
  proof -
    have "tcrealloc0 (a, 1025) (length a + 1025) (ib_size st) = (take (ib_size st - 1) a, length a + 1024)"
      using assms by (auto simp: tcrealloc0_def)
    then show ?thesis
      using assms that take_lines_split(1) [of "take (ib_size st - 1) a @ b" "length a + 1024" "length a + 1025"]
      by (simp add: irc_in_def case_prod_beta)
  qed
  ultimately show ?thesis by blast
qed

subsection \<open>A stream\<close>

text \<open>The reads of a connection, one after the other.\<close>

fun irc_in_all :: "irc_buf \<Rightarrow> string list \<Rightarrow> (string list \<times> irc_buf) res" where
  "irc_in_all st [] = Ok ([], st)"
| "irc_in_all st (c # cs) =
     rbind (irc_in st (Received c)) (\<lambda>(r, ls, st').
     rbind (irc_in_all st' cs) (\<lambda>(ls', st''). Ok (ls @ ls', st'')))"

lemma split_lines_rest: "NL \<notin> set (snd (split_lines b))"
proof (induction b rule: split_lines.induct)
  case (1 b)
  then show ?case by (subst split_lines.simps) (simp add: case_prod_beta)
qed

lemma irc_in_all_lines:
  assumes "ib_ok st" and "NL \<notin> set (pending st)" and "\<forall>c \<in> set chunks. length c \<le> 1023 \<and> NL \<in> set c \<and> \<not> eol (hd c)"
  shows "\<exists>st'. irc_in_all st chunks = Ok (fst (split_lines (pending st @ concat chunks)), st') \<and>
     ib_ok st' \<and> pending st' = snd (split_lines (pending st @ concat chunks))"
  using assms
proof (induction chunks arbitrary: st)
  case Nil
  then show ?case by (simp add: split_lines.simps [of "pending st"])
next
  case (Cons c cs)
  obtain st1 where s1: "irc_in st (Received c) = Ok (1, fst (split_lines (pending st @ c)), st1)"
      "ib_ok st1" "pending st1 = snd (split_lines (pending st @ c))"
    using irc_in_Received [OF Cons.prems(1), of c] Cons.prems(3) by auto
  obtain st2 where s2: "irc_in_all st1 cs = Ok (fst (split_lines (pending st1 @ concat cs)), st2)"
      "ib_ok st2" "pending st2 = snd (split_lines (pending st1 @ concat cs))"
    using Cons.IH [OF s1(2)] Cons.prems(3) s1(3) split_lines_rest [of "pending st @ c"] by auto
  have "snd (split_lines (pending st @ c)) \<noteq> [] \<or> concat cs = [] \<or> \<not> eol (hd (concat cs))"
    using Cons.prems(3) by (cases cs) (auto simp: hd_append)
  then show ?case
    using s1(1,3) s2 split_lines_append [of "pending st @ c" "concat cs"] by simp
qed

end
