(* ===== verification/Channels.thy ===== *)
theory Channels
  imports Users Irc
begin

text \<open>
  \<^verbatim>\<open>src/src/channel.c\<close>: channels with their users, bans and variables, the list of names after a join
  (\<open>353\<close>), and the way of the channels to and from the blocks of a channel file. What goes over the
  networks is in the theory of the network.
\<close>

section \<open>Records\<close>

datatype ban_type = CHANNEL_BAN_UNKNOWN | CHANNEL_BAN_DYNAMIC | CHANNEL_BAN_EGG

record channel_ban =
  cb_chan :: cstr
  cb_mask :: cstr
  cb_comment :: cstr
  cb_who :: cstr
  cb_time :: int
  cb_type :: ban_type
  is_sticky :: int
  is_perm :: int
  lifetime :: int
  expire_time :: int

record channel_user =
  cu_nick :: cstr
  cu_ident :: cstr
  cu_modes :: cstr
  cu_host :: cstr
  cu_realname :: cstr
  jointime :: int

text \<open>
  The list of variables is a \<open>struct slist\<close>; \<open>egg_vars\<close> has the keys and values from its head on. The
  field \<open>status\<close> is never read, and \<open>tcfg\<close> points into a tree that is freed after loading.
\<close>

record channel =
  ch_name :: string
  egg_vars :: "(cstr \<times> cstr) list option"
  user_list :: "channel_user dlist"
  chanmode :: cstr
  topic :: cstr
  banlist :: "channel_ban dlist"

definition new_channel_user :: channel_user where
  "new_channel_user =
     \<lparr>cu_nick = None, cu_ident = None, cu_modes = None, cu_host = None, cu_realname = None, jointime = 0\<rparr>"

definition channel_ban_new :: channel_ban where
  "channel_ban_new =
     \<lparr>cb_chan = None, cb_mask = None, cb_comment = None, cb_who = None, cb_time = 0,
      cb_type = CHANNEL_BAN_UNKNOWN, is_sticky = 0, is_perm = 0, lifetime = 0, expire_time = 0\<rparr>"

definition new_chan_egg_var :: "cstr \<times> cstr" where
  "new_chan_egg_var = (None, None)"

definition new_channel :: "cstr \<Rightarrow> channel option" where
  "new_channel chan =
     map_option (\<lambda>n. \<lparr>ch_name = n, egg_vars = None, user_list = dl_null, chanmode = None, topic = None,
                      banlist = dl_null\<rparr>) chan"

section \<open>The lists\<close>

definition channel_user_add :: "channel_user dlist \<Rightarrow> channel_user \<Rightarrow> channel_user dlist" where
  "channel_user_add cusers add = dl_add cusers add"

definition channel_user_del :: "channel_user dlist \<Rightarrow> nat option \<Rightarrow> channel_user dlist" where
  "channel_user_del cusers del = (if dl_from cusers = [] then dl_null else dl_del cusers del)"

text \<open>The users that \<open>channel_users_free\<close> frees: from the pointer on, without going back.\<close>

definition channel_users_free :: "channel_user dlist \<Rightarrow> channel_user list" where
  "channel_users_free cusers = dl_from cusers"

definition channel_ban_add :: "channel_ban dlist \<Rightarrow> channel_ban \<Rightarrow> channel_ban dlist" where
  "channel_ban_add bans add = dl_add bans add"

definition channel_ban_del :: "channel_ban dlist \<Rightarrow> nat option \<Rightarrow> channel_ban dlist" where
  "channel_ban_del bans del = (if dl_from bans = [] then dl_null else dl_del bans del)"

definition channel_bans_free :: "channel_ban dlist \<Rightarrow> channel_ban list res" where
  "channel_bans_free bans = rbind (dl_rewind bans) (\<lambda>d. Ok (dl_from d))"

text \<open>
  Adding through \<open>struct channel **\<close>: the links of the new node are overwritten.
\<close>

definition channel_list_add :: "channel dlist \<Rightarrow> channel \<Rightarrow> channel dlist" where
  "channel_list_add orig new = (if dl_from orig = [] then DList [] [new] else dl_add orig new)"

text \<open>The walks from a pointer on that compare names without case; the result is the distance.\<close>

fun find_cased :: "('a \<Rightarrow> cstr) \<Rightarrow> string \<Rightarrow> 'a list \<Rightarrow> nat option res" where
  "find_cased key k [] = Ok None"
| "find_cased key k (x # xs) =
     rbind (tstrcasecmp_p (key x) (Some k)) (\<lambda>r.
       if r = 0 then Ok (Some 0) else rbind (find_cased key k xs) (\<lambda>m. Ok (map_option Suc m)))"

definition channel_channel_user_find :: "channel \<Rightarrow> string \<Rightarrow> nat option res" where
  "channel_channel_user_find chan k = find_cased cu_nick k (dl_from (user_list chan))"

definition channel_channel_ban_find :: "channel \<Rightarrow> string \<Rightarrow> nat option res" where
  "channel_channel_ban_find chan k = find_cased cb_mask k (dl_from (banlist chan))"

subsection \<open>Looking up\<close>

definition same_name :: "string \<Rightarrow> string \<Rightarrow> bool" where
  "same_name a b \<longleftrightarrow> tstrcasecmp a b = 0"

lemma same_name_iff: "same_name a b \<longleftrightarrow> lower a = lower b"
  by (simp add: same_name_def tstrcasecmp_0_iff)

lemma same_name_refl [simp]: "same_name a a"
  by (simp add: same_name_iff)

lemma find_cased_index:
  "\<forall>x \<in> set xs. key x \<noteq> None \<Longrightarrow> find_cased key k xs = Ok (find_index (\<lambda>x. same_name (the (key x)) k) xs)"
  by (induction xs) (auto simp: same_name_def)

lemma find_cased_fault: "find_cased key k xs = Fault e \<Longrightarrow> e = NullDeref \<and> (\<exists>x \<in> set xs. key x = None)"
  by (induction xs) (auto simp: rbind_Fault_iff tstrcasecmp_p_def split: option.splits if_splits)

definition named_users :: "channel_user dlist \<Rightarrow> bool" where
  "named_users d \<longleftrightarrow> (\<forall>u \<in> set (dl_all d). cu_nick u \<noteq> None)"

definition named_bans :: "channel_ban dlist \<Rightarrow> bool" where
  "named_bans d \<longleftrightarrow> (\<forall>b \<in> set (dl_all d). cb_mask b \<noteq> None)"

definition cuser_nick :: "channel_user \<Rightarrow> string" where
  "cuser_nick u = (case cu_nick u of None \<Rightarrow> [] | Some n \<Rightarrow> n)"

definition cban_mask :: "channel_ban \<Rightarrow> string" where
  "cban_mask b = (case cb_mask b of None \<Rightarrow> [] | Some m \<Rightarrow> m)"

definition lookup_cuser :: "string \<Rightarrow> channel_user dlist \<Rightarrow> channel_user option" where
  "lookup_cuser k d = dl_find (\<lambda>u. same_name (cuser_nick u) k) d"

definition lookup_cban :: "string \<Rightarrow> channel_ban dlist \<Rightarrow> channel_ban option" where
  "lookup_cban k d = dl_find (\<lambda>b. same_name (cban_mask b) k) d"

definition lookup_channel :: "string \<Rightarrow> channel dlist \<Rightarrow> channel option" where
  "lookup_channel k d = dl_find (\<lambda>c. same_name (ch_name c) k) d"

interpretation cusers: keyed_list cuser_nick same_name lookup_cuser channel_user_add dl_from
  by unfold_locales (auto simp: same_name_iff lookup_cuser_def dl_find_def channel_user_add_def)

interpretation cbans: keyed_list cban_mask same_name lookup_cban channel_ban_add dl_from
  by unfold_locales (auto simp: same_name_iff lookup_cban_def dl_find_def channel_ban_add_def)

interpretation chans: keyed_list ch_name same_name lookup_channel channel_list_add dl_from
  by unfold_locales (auto simp: same_name_iff lookup_channel_def dl_find_def channel_list_add_def)

lemma named_users_from: "named_users d \<Longrightarrow> u \<in> set (dl_from d) \<Longrightarrow> \<exists>n. cu_nick u = Some n"
  by (cases d) (auto simp: named_users_def)

lemma channel_user_find_lookup:
  assumes "named_users (user_list chan)"
  shows "\<exists>m. channel_channel_user_find chan k = Ok m \<and>
             map_option ((!) (dl_from (user_list chan))) m = lookup_cuser k (user_list chan)"
proof -
  let ?xs = "dl_from (user_list chan)"
  have n: "\<forall>u \<in> set ?xs. cu_nick u \<noteq> None" using named_users_from [OF assms] by blast
  have "find_index (\<lambda>u. same_name (the (cu_nick u)) k) ?xs = find_index (\<lambda>u. same_name (cuser_nick u) k) ?xs"
    using n by (intro find_index_cong) (auto simp: cuser_nick_def)
  then show ?thesis
    using find_cased_index [OF n, of k]
    by (simp add: channel_channel_user_find_def lookup_cuser_def dl_find_def find_find_index)
qed

section \<open>Joining\<close>

text \<open>
  \<open>join_channels\<close> builds the list of names in a buffer of \<open>BUFFER_SIZE\<close> bytes. It counts the names
  but not the commas. The result is what is sent, \<open>None\<close> if nothing is.
\<close>

fun join_names :: "channel list \<Rightarrow> nat \<Rightarrow> string \<Rightarrow> string option res" where
  "join_names [] numbytes joinstr = Ok (Some joinstr)"
| "join_names (c # cs) numbytes joinstr =
     (if numbytes + length (ch_name c) > 1021 then Ok None
      else if length (joinstr @ ch_name c @ '','') \<ge> 1024 then Fault OutOfBounds
      else join_names cs (numbytes + length (ch_name c)) (joinstr @ ch_name c @ '',''))"

definition join_channels :: "channel dlist \<Rightarrow> string option res" where
  "join_channels chans =
     (if dl_from chans = [] then Ok None
      else rbind (join_names (dl_from chans) 5 []) (\<lambda>r.
             Ok (map_option (\<lambda>joinstr. ''JOIN '' @ butlast joinstr @ [NL]) r)))"

fun join_comma :: "string list \<Rightarrow> string" where
  "join_comma [] = []"
| "join_comma [w] = w"
| "join_comma (w # v # ws) = w @ CHR '','' # join_comma (v # ws)"

lemma join_names_fits:
  "n + sum_list (map (length \<circ> ch_name) cs) \<le> 1021 \<Longrightarrow>
   length acc + sum_list (map (\<lambda>c. length (ch_name c) + 1) cs) < 1024 \<Longrightarrow>
   join_names cs n acc = Ok (Some (acc @ concat (map (\<lambda>c. ch_name c @ '','') cs)))"
  by (induction cs arbitrary: n acc) auto

lemma butlast_commas: "cs \<noteq> [] \<Longrightarrow> butlast (concat (map (\<lambda>c. ch_name c @ '','') cs)) = join_comma (map ch_name cs)"
proof (induction cs rule: induct_list012)
  case (3 c d cs)
  then have "concat (map (\<lambda>c. ch_name c @ '','') (d # cs)) \<noteq> []" by simp
  then show ?case using 3 by (simp add: butlast_append)
qed (simp_all add: butlast_append)

lemma join_channels_sends:
  assumes "dl_from chans \<noteq> []"
    and "sum_list (map (\<lambda>c. length (ch_name c) + 1) (dl_from chans)) \<le> 1016"
  shows "join_channels chans = Ok (Some (''JOIN '' @ join_comma (map ch_name (dl_from chans)) @ [NL]))"
proof -
  have "sum_list (map (length \<circ> ch_name) cs) \<le> sum_list (map (\<lambda>c. length (ch_name c) + 1) cs)" for cs
    by (induction cs) auto
  then have "join_names (dl_from chans) 5 [] = Ok (Some (concat (map (\<lambda>c. ch_name c @ '','') (dl_from chans))))"
    using assms(2) join_names_fits [of 5 "dl_from chans" "[]"] le_trans by fastforce
  then show ?thesis using assms(1) by (simp add: join_channels_def butlast_commas)
qed

text \<open>Many short names pass the count and overflow the buffer.\<close>

lemma join_names_overflow:
  "n + sum_list (map (length \<circ> ch_name) cs) \<le> 1021 \<Longrightarrow> length acc < 1024 \<Longrightarrow>
   length acc + sum_list (map (\<lambda>c. length (ch_name c) + 1) cs) \<ge> 1024 \<Longrightarrow>
   join_names cs n acc = Fault OutOfBounds"
proof (induction cs arbitrary: n acc)
  case (Cons c cs)
  then show ?case by (cases "length acc + length (ch_name c) + 1 \<ge> 1024") auto
qed simp

lemma join_channels_overflow:
  assumes "5 + sum_list (map (length \<circ> ch_name) (dl_from chans)) \<le> 1021"
    and "sum_list (map (\<lambda>c. length (ch_name c) + 1) (dl_from chans)) \<ge> 1024"
  shows "join_channels chans = Fault OutOfBounds"
  using assms join_names_overflow [of 5 "dl_from chans" "[]"] by (auto simp: join_channels_def)

section \<open>The list of names\<close>

text \<open>The leading symbols of a name, as modes, and the nick.\<close>

definition mode_symbol :: "char \<Rightarrow> bool" where
  "mode_symbol c \<longleftrightarrow> c = CHR ''@'' \<or> c = CHR ''+''"

definition symbol_modes :: "string \<Rightarrow> string" where
  "symbol_modes ptr = map (\<lambda>c. if c = CHR ''@'' then CHR ''o'' else CHR ''v'') (takeWhile mode_symbol ptr)"

definition symbol_nick :: "string \<Rightarrow> string" where
  "symbol_nick ptr = dropWhile mode_symbol ptr"

definition modes_field :: "string \<Rightarrow> cstr" where
  "modes_field modes = (if modes = [] then None else Some modes)"

definition populate_one :: "channel \<Rightarrow> string \<Rightarrow> channel res" where
  "populate_one chan ptr =
     (let k = symbol_nick ptr; modes = modes_field (symbol_modes ptr) in
      rbind (channel_channel_user_find chan k) (\<lambda>m.
        Ok (case m of
              Some i \<Rightarrow> chan\<lparr>user_list := dl_update i (\<lambda>u. u\<lparr>cu_modes := modes\<rparr>) (user_list chan)\<rparr>
            | None \<Rightarrow> chan\<lparr>user_list := channel_user_add (user_list chan)
                           (new_channel_user\<lparr>cu_nick := Some k, cu_modes := modes\<rparr>)\<rparr>)))"

fun populate :: "channel \<Rightarrow> string list \<Rightarrow> channel res" where
  "populate chan [] = Ok chan"
| "populate chan (w # ws) = rbind (populate_one chan w) (\<lambda>c. populate c ws)"

text \<open>
  \<open>channel_list_populate\<close>, handler of the numeric \<open>353\<close>: the channel named by the third parameter is
  searched from the first on and appended if it is not there.
\<close>

definition channel_list_populate :: "channel dlist \<Rightarrow> irc_data \<Rightarrow> channel dlist res" where
  "channel_list_populate chans data =
     rbind (dl_rewind chans) (\<lambda>d.
     rbind (arr_str (c_params data) 2) (\<lambda>name.
     rbind (find_cased (Some \<circ> ch_name) name (dl_from d)) (\<lambda>m.
       let (i, chans') =
         (case m of
            Some i \<Rightarrow> (i, chans)
          | None \<Rightarrow> (length (dl_all chans), dl_add chans (the (new_channel (Some name)))))
       in rbind (deref (rest data)) (\<lambda>names.
          rbind (populate (dl_all chans' ! i) names) (\<lambda>c.
            Ok (dl_update_all i (\<lambda>_. c) chans'))))))"

subsection \<open>What it establishes\<close>

lemma lookup_cuser_update:
  assumes "\<And>u. cuser_nick (f u) = cuser_nick u" and i: "i < length (dl_from d)"
    and k: "find_index (\<lambda>u. same_name (cuser_nick u) k) (dl_from d) = Some i"
  shows "lookup_cuser l (dl_update i f d) =
    (if same_name k l then Some (f (dl_from d ! i)) else lookup_cuser l d)"
proof -
  let ?P = "\<lambda>l u. same_name (cuser_nick u) l"
  have fi: "find_index (?P l) ((dl_from d)[i := f (dl_from d ! i)]) = find_index (?P l) (dl_from d)"
    using assms(1) i by (simp add: find_index_update)
  have ki: "same_name (cuser_nick (dl_from d ! i)) k" using find_index_Some [OF k] by simp
  show ?thesis
  proof (cases "same_name k l")
    case True
    then have "?P l = ?P k" by (auto simp: same_name_iff)
    then have "find_index (?P l) (dl_from d) = Some i" using k by simp
    then show ?thesis using fi i True by (simp add: lookup_cuser_def dl_find_def dl_update_def find_find_index)
  next
    case False
    then have "find_index (?P l) (dl_from d) \<noteq> Some i"
      using ki find_index_Some [of "?P l" "dl_from d" i] by (auto simp: same_name_iff)
    then show ?thesis
      using fi False
      by (cases "find_index (?P l) (dl_from d)")
         (auto simp: lookup_cuser_def dl_find_def dl_update_def find_find_index)
  qed
qed

lemma named_users_update:
  assumes "\<And>u. cu_nick (f u) = cu_nick u" and "i < length (dl_from d)" and "named_users d"
  shows "named_users (dl_update i f d)"
  using assms by (cases d) (auto simp: named_users_def dl_update_def dest!: in_set_update_cases)

lemma unique_update:
  assumes "\<And>u. cuser_nick (f u) = cuser_nick u" and "i < length (dl_from d)" and "cusers.unique_keys d"
  shows "cusers.unique_keys (dl_update i f d)"
proof -
  have "map cuser_nick (dl_from (dl_update i f d)) = map cuser_nick (dl_from d)"
    using assms(1,2) by (simp add: dl_update_def map_update list_update_same_conv)
  moreover have "cusers.unique_keys e \<longleftrightarrow> sorted_wrt (\<lambda>a b. \<not> same_name a b) (map cuser_nick (dl_from e))" for e
    by (simp add: cusers.unique_keys_def sorted_wrt_map)
  ultimately show ?thesis using assms(3) by simp
qed

text \<open>One name: its nick is there afterwards with its modes, and nobody else changes.\<close>

lemma populate_one_spec:
  assumes "named_users (user_list chan)" and "cusers.unique_keys (user_list chan)"
    and "dl_wf (user_list chan)"
  shows "\<exists>c us. populate_one chan ptr = Ok c \<and> c = chan\<lparr>user_list := us\<rparr> \<and> named_users us \<and>
     cusers.unique_keys us \<and> dl_wf us \<and>
     (\<forall>l. map_option cu_modes (lookup_cuser l us) =
        (if same_name (symbol_nick ptr) l then Some (modes_field (symbol_modes ptr))
         else map_option cu_modes (lookup_cuser l (user_list chan))))"
proof -
  let ?d = "user_list chan" and ?k = "symbol_nick ptr" and ?m = "modes_field (symbol_modes ptr)"
  let ?P = "\<lambda>u. same_name (cuser_nick u) ?k"
  obtain m where m: "channel_channel_user_find chan ?k = Ok m"
      "map_option ((!) (dl_from ?d)) m = lookup_cuser ?k ?d"
    using channel_user_find_lookup [OF assms(1)] by blast
  have n: "\<forall>u \<in> set (dl_from ?d). cu_nick u \<noteq> None" using named_users_from [OF assms(1)] by blast
  have "find_index (\<lambda>u. same_name (the (cu_nick u)) ?k) (dl_from ?d) = find_index ?P (dl_from ?d)"
    using n by (intro find_index_cong) (auto simp: cuser_nick_def)
  then have mi: "m = find_index ?P (dl_from ?d)"
    using m(1) find_cased_index [OF n, of ?k] by (simp add: channel_channel_user_find_def)
  show ?thesis
  proof (cases m)
    case None
    let ?u = "new_channel_user\<lparr>cu_nick := Some ?k, cu_modes := ?m\<rparr>"
    let ?us = "channel_user_add ?d ?u"
    have "lookup_cuser ?k ?d = None" using m(2) None by simp
    moreover have "cuser_nick ?u = ?k" by (simp add: cuser_nick_def)
    ultimately have "cusers.unique_keys ?us" using cusers.unique_keys_add [OF assms(2), of ?u] by simp
    moreover have "named_users ?us" using assms(1,3) by (simp add: named_users_def channel_user_add_def)
    moreover have "lookup_cuser l ?us = (if same_name ?k l then Some ?u else lookup_cuser l ?d)" for l
      using \<open>lookup_cuser ?k ?d = None\<close> cusers.lookup_same [of ?k l ?d] cusers.lookup_add [of l ?d ?u]
      by (auto simp: cuser_nick_def split: option.splits)
    ultimately show ?thesis
      using m(1) None assms(3)
      by (intro exI [of _ "chan\<lparr>user_list := ?us\<rparr>"] exI [of _ ?us])
         (simp add: populate_one_def channel_user_add_def)
  next
    case (Some i)
    let ?f = "\<lambda>u. u\<lparr>cu_modes := ?m\<rparr>"
    let ?us = "dl_update i ?f ?d"
    have k: "find_index ?P (dl_from ?d) = Some i" using mi Some by simp
    then have i: "i < length (dl_from ?d)" using find_index_Some by blast
    have nick: "cuser_nick (?f u) = cuser_nick u" for u by (simp add: cuser_nick_def)
    have "dl_wf ?us" using assms(3) i by (cases "user_list chan") (auto simp: dl_wf_def dl_update_def)
    moreover have "named_users ?us" using named_users_update [OF _ i assms(1), of ?f] by simp
    moreover have "cusers.unique_keys ?us" using unique_update [OF nick i assms(2)] .
    ultimately show ?thesis
      using m(1) Some lookup_cuser_update [OF nick i k]
      by (intro exI [of _ "chan\<lparr>user_list := ?us\<rparr>"] exI [of _ ?us])
         (simp add: populate_one_def)
  qed
qed

lemma populate_spec:
  "named_users (user_list chan) \<Longrightarrow> cusers.unique_keys (user_list chan) \<Longrightarrow> dl_wf (user_list chan) \<Longrightarrow>
   \<exists>c us. populate chan ws = Ok c \<and> c = chan\<lparr>user_list := us\<rparr> \<and> named_users us \<and>
     cusers.unique_keys us \<and> dl_wf us \<and>
     (\<forall>l. map_option cu_modes (lookup_cuser l us) =
        (case find (\<lambda>w. same_name (symbol_nick w) l) (rev ws) of
           Some w \<Rightarrow> Some (modes_field (symbol_modes w))
         | None \<Rightarrow> map_option cu_modes (lookup_cuser l (user_list chan))))"
proof (induction ws arbitrary: chan)
  case Nil
  then show ?case by (intro exI [of _ chan] exI [of _ "user_list chan"]) simp
next
  case (Cons w ws)
  obtain c us where c: "populate_one chan w = Ok c" "c = chan\<lparr>user_list := us\<rparr>" "named_users us"
      "cusers.unique_keys us" "dl_wf us"
      "\<And>l. map_option cu_modes (lookup_cuser l us) =
        (if same_name (symbol_nick w) l then Some (modes_field (symbol_modes w))
         else map_option cu_modes (lookup_cuser l (user_list chan)))"
    using populate_one_spec [OF Cons.prems] by metis
  have cu: "user_list c = us" using c(2) by simp
  obtain us' where c': "populate c ws = Ok (c\<lparr>user_list := us'\<rparr>)" "named_users us'"
      "cusers.unique_keys us'" "dl_wf us'"
      "\<And>l. map_option cu_modes (lookup_cuser l us') =
        (case find (\<lambda>w. same_name (symbol_nick w) l) (rev ws) of
           Some w \<Rightarrow> Some (modes_field (symbol_modes w))
         | None \<Rightarrow> map_option cu_modes (lookup_cuser l us))"
    using Cons.IH [of c] c(3-5) unfolding cu by blast
  have "map_option cu_modes (lookup_cuser l us') =
        (case find (\<lambda>w. same_name (symbol_nick w) l) (rev (w # ws)) of
           Some w \<Rightarrow> Some (modes_field (symbol_modes w))
         | None \<Rightarrow> map_option cu_modes (lookup_cuser l (user_list chan)))" for l
    using c(6) [of l] c'(5) [of l] by (simp add: find_append split: option.split)
  then show ?case
    using c(1,2) c' by (intro exI [of _ "c\<lparr>user_list := us'\<rparr>"] exI [of _ us']) simp
qed

definition chan_ok :: "channel \<Rightarrow> bool" where
  "chan_ok c \<longleftrightarrow> named_users (user_list c) \<and> cusers.unique_keys (user_list c) \<and> dl_wf (user_list c)"

lemma chan_ok_empty: "user_list c = dl_null \<Longrightarrow> chan_ok c"
  by (simp add: chan_ok_def named_users_def cusers.unique_keys_def dl_wf_def)

lemma find_update_same:
  assumes "find_index (\<lambda>c. same_name (ch_name c) k) xs = Some i" and "ch_name c = ch_name (xs ! i)"
  shows "find (\<lambda>c. same_name (ch_name c) k) (xs[i := c]) = Some c"
proof -
  let ?P = "\<lambda>c. same_name (ch_name c) k"
  have "find_index ?P (xs[i := (\<lambda>_. c) (xs ! i)]) = find_index ?P xs"
    using assms(2) by (intro find_index_update) simp
  then show ?thesis
    using assms(1) find_index_Some [OF assms(1)] by (simp add: find_find_index)
qed

lemma channel_list_populate_spec:
  assumes "dl_head chans" and "dl_from chans \<noteq> []" and "\<forall>c \<in> set (dl_from chans). chan_ok c"
    and "c_params data = Some ps" and "2 < length ps" and "rest data = Some ws"
  shows "\<exists>chans' c. channel_list_populate chans data = Ok chans' \<and> dl_head chans' \<and>
     lookup_channel (ps ! 2) chans' = Some c \<and> chan_ok c \<and>
     (\<forall>l. map_option cu_modes (lookup_cuser l (user_list c)) =
        (case find (\<lambda>w. same_name (symbol_nick w) l) (rev ws) of
           Some w \<Rightarrow> Some (modes_field (symbol_modes w))
         | None \<Rightarrow> Option.bind (lookup_channel (ps ! 2) chans)
                     (\<lambda>c0. map_option cu_modes (lookup_cuser l (user_list c0)))))"
proof -
  let ?k = "ps ! 2"
  let ?P = "\<lambda>c. same_name (ch_name c) ?k"
  obtain xs where ch: "chans = DList [] xs" "xs \<noteq> []"
    using assms(1,2) by (cases chans) (auto simp: dl_head_def)
  have fc: "find_cased (Some \<circ> ch_name) ?k xs = Ok (find_index ?P xs)"
    using find_cased_index [of xs "Some \<circ> ch_name" ?k] by simp
  have params: "arr_str (c_params data) 2 = Ok ?k" using assms(4,5) by simp
  define i chans' where "i = (case find_index ?P xs of Some i \<Rightarrow> i | None \<Rightarrow> length xs)"
    and "chans' = (case find_index ?P xs of Some i \<Rightarrow> xs
                   | None \<Rightarrow> xs @ [the (new_channel (Some ?k))])"
  have fi: "find_index ?P chans' = Some i" and ok: "chan_ok (chans' ! i)"
    and old: "map_option cu_modes (lookup_cuser l (user_list (chans' ! i))) =
      Option.bind (lookup_channel ?k chans) (\<lambda>c0. map_option cu_modes (lookup_cuser l (user_list c0)))" for l
  proof -
    have "find_index ?P chans' = Some i \<and> chan_ok (chans' ! i) \<and>
      map_option cu_modes (lookup_cuser l (user_list (chans' ! i))) =
      Option.bind (lookup_channel ?k chans) (\<lambda>c0. map_option cu_modes (lookup_cuser l (user_list c0)))" for l
    proof (cases "find_index ?P xs")
      case None
      have "find_index ?P (xs @ [the (new_channel (Some ?k))]) = Some (length xs)"
        using None by (induction xs) (auto simp: new_channel_def split: if_splits)
      then show ?thesis
        using None ch
        by (simp add: i_def chans'_def lookup_channel_def dl_find_def find_find_index chan_ok_empty
            new_channel_def lookup_cuser_def)
    next
      case (Some j)
      then show ?thesis
        using ch assms(3) find_index_Some [OF Some]
        by (simp add: i_def chans'_def lookup_channel_def dl_find_def find_find_index)
    qed
    then show "find_index ?P chans' = Some i" "chan_ok (chans' ! i)"
      "map_option cu_modes (lookup_cuser l (user_list (chans' ! i))) =
      Option.bind (lookup_channel ?k chans) (\<lambda>c0. map_option cu_modes (lookup_cuser l (user_list c0)))" for l
      by blast+
  qed
  have il: "i < length chans'" using find_index_Some [OF fi] by blast
  obtain c us where c: "populate (chans' ! i) ws = Ok c" "c = (chans' ! i)\<lparr>user_list := us\<rparr>" "named_users us"
      "cusers.unique_keys us" "dl_wf us"
      "\<And>l. map_option cu_modes (lookup_cuser l us) =
        (case find (\<lambda>w. same_name (symbol_nick w) l) (rev ws) of
           Some w \<Rightarrow> Some (modes_field (symbol_modes w))
         | None \<Rightarrow> map_option cu_modes (lookup_cuser l (user_list (chans' ! i))))"
    using populate_spec [of "chans' ! i" ws] ok unfolding chan_ok_def by blast
  have cl: "(case find_index ?P xs of Some i \<Rightarrow> (i, chans)
       | None \<Rightarrow> (length (dl_all chans), dl_add chans (the (new_channel (Some ?k))))) = (i, DList [] chans')"
    using ch by (simp add: i_def chans'_def dl_add_def split: option.split)
  have res: "channel_list_populate chans data = Ok (dl_update_all i (\<lambda>_. c) (DList [] chans'))"
    using ch fc params cl [unfolded ch(1)] c(1) assms(6)
    by (simp add: channel_list_populate_def dl_rewind_def)
  have "lookup_channel ?k (dl_update_all i (\<lambda>_. c) (DList [] chans')) = Some c"
    using find_update_same [OF fi, of c] c(2)
    by (simp add: lookup_channel_def dl_find_def dl_update_all_def)
  moreover have "dl_head (dl_update_all i (\<lambda>_. c) (DList [] chans'))"
    by (rule dl_head_update_all) (simp add: dl_head_def)
  moreover have "chan_ok c" using c by (simp add: chan_ok_def)
  moreover have "map_option cu_modes (lookup_cuser l (user_list c)) =
        (case find (\<lambda>w. same_name (symbol_nick w) l) (rev ws) of
           Some w \<Rightarrow> Some (modes_field (symbol_modes w))
         | None \<Rightarrow> Option.bind (lookup_channel ?k chans)
                     (\<lambda>c0. map_option cu_modes (lookup_cuser l (user_list c0))))" for l
    using c(2) c(6) [of l] old [of l] by (simp split: option.split)
  ultimately show ?thesis using res by blast
qed

section \<open>To and from blocks\<close>

fun egg_var_level :: "bool \<Rightarrow> (cstr \<times> cstr) list \<Rightarrow> tblock list" where
  "egg_var_level first [] = []"
| "egg_var_level first ((k, v) # r) = TB k v first [] # egg_var_level False r"

definition channel_block :: "channel \<Rightarrow> tblock" where
  "channel_block c =
     TB (Some ''channel'') (Some (ch_name c)) False
       (case egg_vars c of None \<Rightarrow> [] | Some vs \<Rightarrow> egg_var_level True vs)"

text \<open>The last loop goes back to the first block without looking for NULL.\<close>

definition chans_to_tconfig :: "channel dlist \<Rightarrow> tblock list res" where
  "chans_to_tconfig chans =
     (if dl_from chans = [] then Fault NullDeref else Ok (map channel_block (dl_from chans)))"

text \<open>
  \<open>new_chan_from_tconfig_block\<close> puts every variable at the head of the list. A channel without a name
  is NULL, and its \<open>egg_vars\<close> are read.
\<close>

definition new_chan_from_tconfig_block :: "tblock option \<Rightarrow> channel option res" where
  "new_chan_from_tconfig_block tcfg =
     (case tcfg of
        None \<Rightarrow> Ok None
      | Some b \<Rightarrow>
          rbind (deref (tb_key b)) (\<lambda>k.
            if k = ''channel'' then
              (if tb_child b = [] then Ok None
               else case new_channel (tb_value b) of
                      None \<Rightarrow> Fault NullDeref
                    | Some c \<Rightarrow>
                        Ok (Some (c\<lparr>egg_vars :=
                          Some (foldl (\<lambda>vs child. (tb_key child, tb_value child) # vs) [] (tb_child b))\<rparr>)))
            else Ok None))"

text \<open>The loop of \<open>chan_init\<close>: a block without key ends it, a channel that is there is dropped.\<close>

fun load_chans :: "tblock list \<Rightarrow> channel dlist \<Rightarrow> channel dlist res" where
  "load_chans [] chans = Ok chans"
| "load_chans (tmp # r) chans =
     (if tb_key tmp = None then Ok chans
      else if tb_key tmp = Some ''channel'' then
        rbind (new_chan_from_tconfig_block (Some tmp)) (\<lambda>c.
          case c of
            None \<Rightarrow> load_chans r chans
          | Some chan \<Rightarrow>
              rbind (find_cased (Some \<circ> ch_name) (ch_name chan) (dl_from chans)) (\<lambda>m.
                if m \<noteq> None then load_chans r chans else load_chans r (dl_add chans chan)))
      else load_chans r chans)"

lemma foldl_cons_rev: "foldl (\<lambda>vs c. f c # vs) acc cs = rev (map f cs) @ acc"
  by (induction cs arbitrary: acc) auto

lemma egg_var_level_pairs: "map (\<lambda>b. (tb_key b, tb_value b)) (egg_var_level first vs) = vs"
  by (induction first vs rule: egg_var_level.induct) auto

text \<open>Saving a channel and loading it reverses its variables and keeps nothing else but the name.\<close>

lemma load_channel_block:
  assumes "egg_vars c = Some vs" and "vs \<noteq> []"
  shows "new_chan_from_tconfig_block (Some (channel_block c)) =
     Ok (Some ((the (new_channel (Some (ch_name c))))\<lparr>egg_vars := Some (rev vs)\<rparr>))"
proof -
  have "egg_var_level True vs \<noteq> []" using assms(2) by (cases vs) auto
  then show ?thesis
    using assms egg_var_level_pairs [of True vs]
    by (simp add: new_chan_from_tconfig_block_def channel_block_def new_channel_def foldl_cons_rev
        flip: rev_map)
qed

text \<open>A channel without variables is not loaded at all.\<close>

lemma load_channel_block_none:
  "egg_vars c = None \<or> egg_vars c = Some [] \<Longrightarrow> new_chan_from_tconfig_block (Some (channel_block c)) = Ok None"
  by (auto simp: new_chan_from_tconfig_block_def channel_block_def)

text \<open>Loading never makes two channels of the same name.\<close>

lemma load_chans_unique:
  "load_chans bs chans = Ok chans' \<Longrightarrow> chans.unique_keys chans \<Longrightarrow> chans.unique_keys chans'"
proof (induction bs chans rule: load_chans.induct)
  case (2 tmp r chans)
  show ?case
  proof (cases "tb_key tmp = Some ''channel''")
    case False
    then show ?thesis using 2 by (auto split: if_splits)
  next
    case True
    then obtain c where c: "new_chan_from_tconfig_block (Some tmp) = Ok c"
      using "2.prems"(1) by (auto simp: rbind_Ok_iff)
    show ?thesis
    proof (cases c)
      case None
      then show ?thesis using 2 True c by simp
    next
      case (Some chan)
      have fc: "find_cased (Some \<circ> ch_name) (ch_name chan) (dl_from chans) =
          Ok (find_index (\<lambda>x. same_name (ch_name x) (ch_name chan)) (dl_from chans))"
        using find_cased_index [of "dl_from chans" "Some \<circ> ch_name"] by simp
      let ?m = "find_index (\<lambda>x. same_name (ch_name x) (ch_name chan)) (dl_from chans)"
      have "chans.unique_keys (channel_list_add chans chan)" if "?m = None"
        using that "2.prems"(2)
        by (intro chans.unique_keys_add) (simp_all add: lookup_channel_def dl_find_def find_find_index)
      moreover have "channel_list_add chans chan = dl_add chans chan"
        by (simp add: channel_list_add_def dl_add_def)
      ultimately show ?thesis
        using "2.IH"(3) [OF _ True c Some fc] "2.IH"(2) [OF _ True c Some fc] 2 True c Some fc
        by (auto split: if_splits)
    qed
  qed
qed simp

end
