(* ===== verification/Timers.thy ===== *)
theory Timers
  imports Util Dlist
begin

text \<open>
  Three small list modules: \<^verbatim>\<open>src/src/server.c\<close>, \<^verbatim>\<open>src/src/t_timer.c\<close> and \<^verbatim>\<open>src/src/log_filter.c\<close>.
  The last two share the code of their lists.
\<close>

section \<open>Servers\<close>

record server =
  sv_host :: cstr
  sv_port :: int

definition new_server :: "cstr \<Rightarrow> server" where
  "new_server hostport =
     (case hostport of
        None \<Rightarrow> \<lparr>sv_host = None, sv_port = 6667\<rparr>
      | Some s \<Rightarrow>
          (case strchr s (CHR '':'') of
             Some ctmp \<Rightarrow>
               (let port = tl ctmp in
                \<lparr>sv_host = Some (take (length s - length port - 1) s), sv_port = atoi port\<rparr>)
           | None \<Rightarrow> \<lparr>sv_host = Some s, sv_port = 6667\<rparr>))"

definition server_list_add :: "server dlist \<Rightarrow> server \<Rightarrow> server dlist" where
  "server_list_add orig new = (if dl_from orig = [] then DList [] [new] else dl_add orig new)"

definition free_servers :: "server dlist \<Rightarrow> server list" where
  "free_servers servers = dl_from servers"

text \<open>Printing a port and reading it back.\<close>

lemma isdigit_digit: "d < (10 :: nat) \<Longrightarrow> isdigit_c (char_of (48 + d))"
  by (simp add: isdigit_c_def)

lemma digit_val_digit: "d < 10 \<Longrightarrow> digit_val (char_of (48 + d)) = int d"
  by (simp add: digit_val_def)

lemma digits_val_append:
  "list_all isdigit_c a \<Longrightarrow> digits_val acc (a @ b) = digits_val (digits_val acc a) b"
  by (induction a arbitrary: acc) auto

lemma show_nat_digits: "list_all isdigit_c (show_nat n)"
proof (induction n rule: less_induct)
  case (less n)
  then show ?case by (subst show_nat.simps) (auto simp: isdigit_digit)
qed

lemma digits_val_show_nat: "digits_val 0 (show_nat n) = int n"
proof (induction n rule: less_induct)
  case (less n)
  show ?case
  proof (cases "n < 10")
    case True
    then show ?thesis by (subst show_nat.simps) (simp add: isdigit_digit digit_val_digit)
  next
    case False
    then have "digits_val 0 (show_nat (n div 10)) = int (n div 10)" using less by simp
    then have "digits_val 0 (show_nat n) = 10 * int (n div 10) + int (n mod 10)"
      using False by (subst show_nat.simps)
        (simp add: digits_val_append show_nat_digits isdigit_digit digit_val_digit)
    also have "\<dots> = int n" using mult_div_mod_eq [of 10 n] by linarith
    finally show ?thesis .
  qed
qed

lemma show_nat_nonempty: "show_nat n \<noteq> []"
  by (subst show_nat.simps) simp

lemma isdigit_not: "isdigit_c c \<Longrightarrow> \<not> isspace_c c \<and> c \<noteq> CHR ''-'' \<and> c \<noteq> CHR ''+''"
  by (auto simp: isdigit_c_def isspace_c_def)

lemma atoi_show_nat:
  assumes "n < 2 ^ 31"
  shows "atoi (show_nat n) = int n"
proof -
  obtain c cs where s: "show_nat n = c # cs" using show_nat_nonempty by (cases "show_nat n") auto
  then have "isdigit_c c" using show_nat_digits [of n] by simp
  then have "strtol10 (show_nat n) = max (- (2 ^ 63)) (min (2 ^ 63 - 1) (int n))"
    using isdigit_not [of c] digits_val_show_nat [of n] by (simp add: strtol10_def s)
  then have "strtol10 (show_nat n) = int n" using assms by simp
  then show ?thesis
    using assms by (simp only: atoi_def sint_sbintrunc') (simp add: signed_take_bit_int_eq_self)
qed

lemma new_server_host_port:
  assumes "CHR '':'' \<notin> set h" and "n < 2 ^ 31"
  shows "new_server (Some (h @ CHR '':'' # show_nat n)) = \<lparr>sv_host = Some h, sv_port = int n\<rparr>"
  using assms by (simp add: new_server_def strchr_append atoi_show_nat)

lemma new_server_host: "CHR '':'' \<notin> set h \<Longrightarrow> new_server (Some h) = \<lparr>sv_host = Some h, sv_port = 6667\<rparr>"
  using strchr_None_iff [of h "CHR '':''"] by (simp add: new_server_def)

section \<open>Lists without a way back\<close>

text \<open>
  \<open>t_timer_remove\<close> and \<open>log_filter_remove\<close> only look forward, so that a pointer is the list of nodes
  from it on. The node is given by its distance; one that is not there makes the walk read through
  NULL. Any node but the first is unlinked, but not freed, and is itself what is returned, with its
  own \<open>next\<close> unchanged. The result says whether the node was freed.
\<close>

definition fl_add :: "'a list \<Rightarrow> 'a \<Rightarrow> 'a list" where
  "fl_add timers add = timers @ [add]"

definition fl_remove :: "'a list \<Rightarrow> nat option \<Rightarrow> ('a list \<times> bool) res" where
  "fl_remove timers del =
     (case del of
        None \<Rightarrow> Ok (timers, False)
      | Some i \<Rightarrow>
          if length timers \<le> i then Fault NullDeref
          else if i = 0 then Ok (tl timers, True)
          else Ok (drop i timers, False))"

section \<open>Timers\<close>

text \<open>A handler is a number; who registers it knows what it does. \<open>t_net\<close> is the network's label.\<close>

record t_timer =
  timer_id :: int
  time_set :: int
  time_trig :: int
  t_command :: cstr
  t_net :: cstr
  t_handler :: "nat option"

definition t_timer_new :: t_timer where
  "t_timer_new =
     \<lparr>timer_id = -1, time_set = 0, time_trig = 0, t_command = None, t_net = None, t_handler = None\<rparr>"

definition t_timer_add :: "t_timer list \<Rightarrow> t_timer \<Rightarrow> t_timer list" where
  "t_timer_add timers add = fl_add timers add"

definition t_timer_remove :: "t_timer list \<Rightarrow> nat option \<Rightarrow> (t_timer list \<times> bool) res" where
  "t_timer_remove timers del = fl_remove timers del"

definition t_timers_free :: "t_timer list \<Rightarrow> t_timer list" where
  "t_timers_free timers = timers"

text \<open>
  The loop of \<open>t_timers_check\<close>: \<open>ret\<close>, and where \<open>tmp\<close> is in it. After a removal \<open>tmp->next\<close> is read,
  also when \<open>tmp\<close> was freed. The result is the timers whose handler was called, and the new pointer.
\<close>

lemma t_timer_remove_shorter:
  "t_timer_remove ret del = Ok (ret', False) \<Longrightarrow> del \<noteq> None \<Longrightarrow> length ret' < length ret"
  by (auto simp: t_timer_remove_def fl_remove_def split: option.splits if_splits)

function t_timers_loop :: "t_timer list \<Rightarrow> nat \<Rightarrow> int \<Rightarrow> (t_timer list \<times> t_timer list) res" where
  "t_timers_loop ret k timestamp =
     (if length ret \<le> k then Ok ([], ret)
      else if time_trig (ret ! k) \<le> timestamp then
        rbind (t_timer_remove ret (Some k)) (\<lambda>(ret', freed).
          if freed then Fault UseAfterFree
          else rbind (t_timers_loop ret' 1 timestamp) (\<lambda>(fired, r).
                 Ok (if t_handler (ret ! k) \<noteq> None then ret ! k # fired else fired, r)))
      else t_timers_loop ret (Suc k) timestamp)"
  by pat_completeness auto
termination
  by (relation "measures [\<lambda>(ret, k, t). length ret, \<lambda>(ret, k, t). length ret - k]")
     (auto dest!: t_timer_remove_shorter)

declare t_timers_loop.simps [simp del]

definition t_timers_check :: "t_timer list \<Rightarrow> int \<Rightarrow> (t_timer list \<times> t_timer list) res" where
  "t_timers_check timers timestamp = t_timers_loop timers 0 timestamp"

lemma t_timers_idle:
  "(\<forall>i < length ret. k \<le> i \<longrightarrow> timestamp < time_trig (ret ! i)) \<Longrightarrow> t_timers_loop ret k timestamp = Ok ([], ret)"
proof (induction ret k timestamp rule: t_timers_loop.induct)
  case (1 ret k timestamp)
  show ?case
  proof (cases "length ret \<le> k")
    case True
    then show ?thesis by (subst t_timers_loop.simps) simp
  next
    case False
    then have nd: "\<not> time_trig (ret ! k) \<le> timestamp" using "1.prems" by (simp add: not_le)
    moreover have "t_timers_loop ret (Suc k) timestamp = Ok ([], ret)"
      by (rule "1.IH"(2) [OF False nd]) (use "1.prems" in simp)
    ultimately show ?thesis using False by (subst t_timers_loop.simps) simp
  qed
qed

text \<open>Nothing is due: nothing happens.\<close>

lemma t_timers_check_idle:
  "\<forall>t \<in> set timers. timestamp < time_trig t \<Longrightarrow> t_timers_check timers timestamp = Ok ([], timers)"
  unfolding t_timers_check_def by (rule t_timers_idle) simp

text \<open>When the first timer is due, it is freed and then its \<open>next\<close> is read.\<close>

lemma t_timers_check_head_due:
  "time_trig t \<le> timestamp \<Longrightarrow> t_timers_check (t # timers) timestamp = Fault UseAfterFree"
  by (simp add: t_timers_check_def t_timers_loop.simps [of "t # timers" 0] t_timer_remove_def fl_remove_def)

text \<open>
  When only a later timer is due, it fires, the timers before it are lost, and it stays the first
  timer: the next check runs into it.
\<close>

lemma t_timers_check_one_due:
  assumes "time_trig t \<le> timestamp" and "a \<noteq> []"
    and "\<forall>x \<in> set a. timestamp < time_trig x" and "\<forall>x \<in> set b. timestamp < time_trig x"
  shows "t_timers_check (a @ t # b) timestamp =
     Ok (if t_handler t \<noteq> None then [t] else [], t # b)"
proof -
  have to_t: "t_timers_loop (a @ t # b) k timestamp = t_timers_loop (a @ t # b) (length a) timestamp"
    if "k \<le> length a" for k
    using that
  proof (induction "length a - k" arbitrary: k)
    case (Suc n)
    then have k: "k < length a" by simp
    then have "timestamp < time_trig ((a @ t # b) ! k)" using assms(3) by (simp add: nth_append)
    then have "t_timers_loop (a @ t # b) k timestamp = t_timers_loop (a @ t # b) (Suc k) timestamp"
      using k by (subst t_timers_loop.simps) simp
    then show ?case using Suc k by simp
  qed simp
  have rest: "t_timers_loop (t # b) 1 timestamp = Ok ([], t # b)"
    using assms(4) by (intro t_timers_idle) (auto simp: nth_Cons')
  have "t_timers_loop (a @ t # b) (length a) timestamp =
      Ok (if t_handler t \<noteq> None then [t] else [], t # b)"
    using assms(1,2) rest
    by (subst t_timers_loop.simps) (simp add: t_timer_remove_def fl_remove_def)
  then show ?thesis using to_t [of 0] by (simp add: t_timers_check_def)
qed

section \<open>Log filters\<close>

record log_filter =
  lf_flags :: cstr
  lf_handler :: "nat option"

definition log_filter_new :: log_filter where
  "log_filter_new = \<lparr>lf_flags = None, lf_handler = None\<rparr>"

definition log_filter_add :: "log_filter list \<Rightarrow> log_filter \<Rightarrow> log_filter list" where
  "log_filter_add filters add = fl_add filters add"

definition log_filter_remove :: "log_filter list \<Rightarrow> nat option \<Rightarrow> (log_filter list \<times> bool) res" where
  "log_filter_remove filters del = fl_remove filters del"

definition log_filters_free :: "log_filter list \<Rightarrow> log_filter list" where
  "log_filters_free filters = filters"

text \<open>The flags of the entry are looked up in the filter one by one, up to the first that is missing.\<close>

fun flags_covered :: "string \<Rightarrow> string \<Rightarrow> bool" where
  "flags_covered ff [] = True"
| "flags_covered ff (c # cs) = (if strchr ff c = None then False else flags_covered ff cs)"

text \<open>The filters whose handler is called with the entry.\<close>

fun log_filters_check :: "log_filter list \<Rightarrow> cstr \<Rightarrow> log_filter list" where
  "log_filters_check [] flags = []"
| "log_filters_check (tmp # r) flags =
     (case (lf_flags tmp, flags) of
        (Some ff, Some ef) \<Rightarrow>
          (if \<not> flags_covered ff ef then log_filters_check r flags
           else if lf_handler tmp \<noteq> None then tmp # log_filters_check r flags
           else log_filters_check r flags)
      | _ \<Rightarrow> log_filters_check r flags)"

lemma flags_covered_iff: "flags_covered ff ef \<longleftrightarrow> set ef \<subseteq> set ff"
  by (induction ef) (auto simp: strchr_None_iff)

lemma log_filters_check_spec:
  "log_filters_check filters flags =
     filter (\<lambda>f. lf_handler f \<noteq> None \<and> lf_flags f \<noteq> None \<and> flags \<noteq> None \<and>
                 set (the flags) \<subseteq> set (the (lf_flags f))) filters"
  by (induction filters) (auto simp: flags_covered_iff split: option.splits)

end
