(* ===== verification/Triggers.thy ===== *)
theory Triggers
  imports Dlist Irc
begin

text \<open>
  \<^verbatim>\<open>src/src/irc_trigger.c\<close>: the trigger table, through which every handler is reached, and the choice
  of the handlers for a line from the server. The handlers that C code registers are named by their
  functions; those that a script binds are numbers.
\<close>

section \<open>Triggers\<close>

datatype handler =
    Return_ctcp_version | Reverse_dcc_chat | Do_join_channels | Return_ctcp_ping | Return_ctcp_time
  | Initiate_dcc_chat | New_user_pass | Check_user_pass | Introduce_user | Disconnect_bot
  | Troll_trig_update_topic | New_join | New_part | New_quit | New_kick
  | Dcc_help_menu | Dcc_add_chan | Dcc_del_chan | Dcc_tbinds | Dcc_who | Dcc_dump | Dcc_saveall
  | Rehash_bot | Dcc_chattr | Dcc_console
  | Troll_undernet_hack | Troll_parse_who | Channel_list_populate | Channel_set_modes
  | Channel_set_topic | Channel_banlist_add | Troll_trig_update_nick | Troll_trig_update_mode
  | Troll_nick_in_use | Troll_user_host | Troll_channel_redirect
  | Script nat

datatype trig_type =
    TRIG_PUB | TRIG_PUBM | TRIG_MSG | TRIG_MSGM | TRIG_PART | TRIG_NOTC | TRIG_JOIN | TRIG_SIGN
  | TRIG_CTCP | TRIG_KICK | TRIG_DCC | TRIG_TOPC | TRIG_RAW

record trigger =
  glob_flags :: cstr
  t_chan_flags :: cstr
  t_type :: trig_type
  t_mask :: cstr
  t_handler_of :: "handler option"
  t_cmd :: cstr
  usecount :: int

record trig_table =
  tt_pub :: "trigger dlist"
  tt_pubm :: "trigger dlist"
  tt_msg :: "trigger dlist"
  tt_msgm :: "trigger dlist"
  tt_part :: "trigger dlist"
  tt_join :: "trigger dlist"
  tt_sign :: "trigger dlist"
  tt_ctcp :: "trigger dlist"
  tt_kick :: "trigger dlist"
  tt_notc :: "trigger dlist"
  tt_dcc :: "trigger dlist"
  tt_raw :: "trigger dlist"
  tt_topc :: "trigger dlist"

definition new_trig_table :: trig_table where
  "new_trig_table =
     \<lparr>tt_pub = dl_null, tt_pubm = dl_null, tt_msg = dl_null, tt_msgm = dl_null, tt_part = dl_null,
      tt_join = dl_null, tt_sign = dl_null, tt_ctcp = dl_null, tt_kick = dl_null, tt_notc = dl_null,
      tt_dcc = dl_null, tt_raw = dl_null, tt_topc = dl_null\<rparr>"

definition trigger_list_add :: "trigger dlist \<Rightarrow> trigger \<Rightarrow> trigger dlist" where
  "trigger_list_add orig new = (if dl_from orig = [] then DList [] [new] else dl_add orig new)"

definition trigger_list_del :: "trigger dlist \<Rightarrow> nat option \<Rightarrow> trigger dlist" where
  "trigger_list_del triggers del = (if dl_from triggers = [] then dl_null else dl_del triggers del)"

definition free_trigger_list :: "trigger dlist \<Rightarrow> trigger list" where
  "free_trigger_list d = dl_from d"

definition free_trigger_table :: "trig_table \<Rightarrow> trigger list" where
  "free_trigger_table table =
     concat (map free_trigger_list
       [tt_pub table, tt_pubm table, tt_msg table, tt_msgm table, tt_join table, tt_part table,
        tt_sign table, tt_ctcp table, tt_kick table, tt_notc table, tt_dcc table, tt_raw table,
        tt_topc table])"

text \<open>The flags of a trigger are \<open>user|channel\<close>; without a bar they are user flags, unless they start with \<open>-\<close>.\<close>

definition parse_flags :: "cstr \<Rightarrow> cstr \<times> cstr" where
  "parse_flags flags =
     (case flags of
        None \<Rightarrow> (None, None)
      | Some f \<Rightarrow>
          (case strchr f (CHR ''|'') of
             Some bar \<Rightarrow>
               (let tmp = tl bar; n = length f - (length tmp + 1)
                in (if n \<noteq> 0 then Some (take n f) else None, Some tmp))
           | None \<Rightarrow> (if next_char f = Some (CHR ''-'') then None else Some f, None)))"

definition new_trigger :: "cstr \<Rightarrow> trig_type \<Rightarrow> cstr \<Rightarrow> cstr \<Rightarrow> handler option \<Rightarrow> trigger" where
  "new_trigger flags ty m cmd handler =
     \<lparr>glob_flags = fst (parse_flags flags), t_chan_flags = snd (parse_flags flags), t_type = ty,
      t_mask = m, t_handler_of = handler, t_cmd = cmd, usecount = 0\<rparr>"

lemma parse_flags_bar:
  "CHR ''|'' \<notin> set g \<Longrightarrow>
   parse_flags (Some (g @ CHR ''|'' # c)) = (if g = [] then None else Some g, Some c)"
  by (simp add: parse_flags_def strchr_append)

section \<open>Choosing the handlers\<close>

text \<open>
  A line is tested against the triggers of a list in turn. A trigger that matches and has a handler
  has its use count increased and its handler called. \<open>fire_all\<close> goes through the whole list,
  \<open>fire_first\<close> stops at the first match. The results are the triggers afterwards and those whose
  handlers are called, in the order of the calls.
\<close>

definition bump :: "trigger \<Rightarrow> trigger" where
  "bump t = t\<lparr>usecount := usecount t + 1\<rparr>"

fun fire_all :: "(trigger \<Rightarrow> bool res) \<Rightarrow> trigger list \<Rightarrow> (trigger list \<times> trigger list) res" where
  "fire_all test [] = Ok ([], [])"
| "fire_all test (t # ts) =
     rbind (test t) (\<lambda>hit.
     rbind (fire_all test ts) (\<lambda>(us, fired).
       if hit \<and> t_handler_of t \<noteq> None then Ok (bump t # us, bump t # fired) else Ok (t # us, fired)))"

fun fire_first :: "(trigger \<Rightarrow> bool res) \<Rightarrow> trigger list \<Rightarrow> (trigger list \<times> trigger list) res" where
  "fire_first test [] = Ok ([], [])"
| "fire_first test (t # ts) =
     rbind (test t) (\<lambda>hit.
       if hit then
         (if t_handler_of t \<noteq> None then Ok (bump t # ts, [bump t]) else Ok (t # ts, []))
       else rbind (fire_first test ts) (\<lambda>(us, fired). Ok (t # us, fired)))"

text \<open>\<open>!strncmp(data->rest_str, trig->mask, strlen(trig->mask))\<close>, and the wildcard match.\<close>

definition test_prefix :: "irc_data \<Rightarrow> trigger \<Rightarrow> bool res" where
  "test_prefix data trig =
     rbind (deref (t_mask trig)) (\<lambda>m.
     rbind (deref (rest_str data)) (\<lambda>s. Ok (strncmp_eq s m (length m))))"

definition test_wild :: "irc_data \<Rightarrow> trigger \<Rightarrow> bool res" where
  "test_wild data trig = Ok (troll_matchwilds (rest_str data) (t_mask trig) = 0)"

text \<open>The guard \<open>data->rest[0] != NULL\<close>, which reads \<open>rest\<close>.\<close>

definition has_text :: "irc_data \<Rightarrow> (trigger \<Rightarrow> bool res) \<Rightarrow> trigger \<Rightarrow> bool res" where
  "has_text data test trig =
     rbind (arr_get (rest data) 0) (\<lambda>r0. if r0 \<noteq> None then test trig else Ok False)"

text \<open>\<open>newmask\<close> has 1024 bytes.\<close>

definition newmask :: "string \<Rightarrow> string" where
  "newmask s = take 1023 s"

definition user_mask :: "irc_data \<Rightarrow> irc_prefix \<Rightarrow> string res" where
  "user_mask data p =
     rbind (arr_get (rest data) 0) (\<lambda>r0.
       Ok (newmask (fmt_s r0 @ '' '' @ fmt_s (pnick p) @ ''!'' @ fmt_s (puser p) @ ''@'' @ fmt_s (phost p))))"

definition test_part :: "irc_data \<Rightarrow> trigger \<Rightarrow> bool res" where
  "test_part data trig =
     (if rest data = None then Ok False
      else rbind (deref (prefix_of data)) (\<lambda>p.
        if pnick p \<noteq> None \<and> puser p \<noteq> None \<and> phost p \<noteq> None then
          rbind (user_mask data p) (\<lambda>m. Ok (troll_matchwilds (Some m) (t_mask trig) = 0))
        else Ok False))"

definition test_topic :: "irc_data \<Rightarrow> trigger \<Rightarrow> bool res" where
  "test_topic data trig =
     (if c_params data = None then Ok False
      else rbind (arr_get (c_params data) 0) (\<lambda>p0.
        if p0 \<noteq> None \<and> rest_str data \<noteq> None then
          Ok (troll_matchwilds (Some (newmask (fmt_s p0 @ '' '' @ fmt_s (rest_str data)))) (t_mask trig) = 0)
        else Ok False))"

definition test_kick :: "irc_data \<Rightarrow> trigger \<Rightarrow> bool res" where
  "test_kick data trig =
     (if c_params data = None then Ok False
      else rbind (arr_get (c_params data) 0) (\<lambda>p0.
        if p0 = None then Ok False
        else rbind (arr_get (c_params data) 1) (\<lambda>p1.
          if p1 = None then Ok False
          else Ok (troll_matchwilds
                 (Some (newmask (fmt_s p0 @ '' '' @ fmt_s p1 @ '' '' @ fmt_s (rest_str data)))) (t_mask trig) = 0))))"

text \<open>For other commands the handler is called without looking whether there is one.\<close>

definition test_raw :: "irc_data \<Rightarrow> trigger \<Rightarrow> bool res" where
  "test_raw data trig =
     rbind (strcmp_p (t_mask trig) (Some (command data))) (\<lambda>same.
       if same \<and> t_handler_of trig = None then Fault NullDeref else Ok same)"

text \<open>A list with its triggers from the pointer on replaced.\<close>

definition fire_list ::
  "((trigger \<Rightarrow> bool res) \<Rightarrow> trigger list \<Rightarrow> (trigger list \<times> trigger list) res) \<Rightarrow>
   (trigger \<Rightarrow> bool res) \<Rightarrow> trigger dlist \<Rightarrow> (trigger dlist \<times> trigger list) res" where
  "fire_list fire test d =
     rbind (fire test (dl_from d)) (\<lambda>(us, fired). Ok (DList (dl_before d) us, fired))"

definition match_privmsg :: "cstr \<Rightarrow> trig_table \<Rightarrow> irc_data \<Rightarrow> (trig_table \<times> trigger list) res" where
  "match_privmsg botnick tt data =
     rbind (arr_get (c_params data) 0) (\<lambda>p0.
       case p0 of
         None \<Rightarrow> Ok (tt, [])
       | Some target \<Rightarrow>
           rbind (deref botnick) (\<lambda>nick.
             if lower target = lower nick then
               rbind (fire_list fire_all (has_text data (test_prefix data)) (tt_msg tt)) (\<lambda>(msg, f1).
               rbind (fire_list fire_all (has_text data (test_wild data)) (tt_msgm tt)) (\<lambda>(msgm, f2).
                 Ok (tt\<lparr>tt_msg := msg, tt_msgm := msgm\<rparr>, f1 @ f2)))
             else
               rbind (if rest_str data = None then Ok (tt_pub tt, [])
                      else fire_list fire_first (test_prefix data) (tt_pub tt)) (\<lambda>(pub, f1).
               rbind (fire_list fire_all (has_text data (test_wild data)) (tt_pubm tt)) (\<lambda>(pubm, f2).
                 Ok (tt\<lparr>tt_pub := pub, tt_pubm := pubm\<rparr>, f1 @ f2)))))"

text \<open>For \<open>JOIN\<close> only the first trigger is looked at.\<close>

definition match_join :: "trig_table \<Rightarrow> irc_data \<Rightarrow> (trig_table \<times> trigger list) res" where
  "match_join tt data =
     (if rest data = None then Ok (tt, [])
      else rbind (deref (prefix_of data)) (\<lambda>p.
           rbind (user_mask data p) (\<lambda>m.
             case dl_from (tt_join tt) of
               [] \<Rightarrow> Fault NullDeref
             | t # ts \<Rightarrow>
                 if troll_matchwilds (Some m) (t_mask t) = 0 \<and> t_handler_of t \<noteq> None
                 then Ok (tt\<lparr>tt_join := DList (dl_before (tt_join tt)) (bump t # ts)\<rparr>, [bump t])
                 else Ok (tt, []))))"

definition trigger_match :: "cstr \<Rightarrow> trig_table \<Rightarrow> irc_data \<Rightarrow> (trig_table \<times> trigger list) res" where
  "trigger_match botnick tt data =
     (if command data = ''PRIVMSG'' then match_privmsg botnick tt data
      else if command data = ''JOIN'' then match_join tt data
      else if command data = ''PART'' then
        rbind (fire_list fire_all (test_part data) (tt_part tt)) (\<lambda>(l, f). Ok (tt\<lparr>tt_part := l\<rparr>, f))
      else if command data = ''QUIT'' then Ok (tt, [])
      else if command data = ''TOPIC'' then
        rbind (fire_list fire_all (test_topic data) (tt_topc tt)) (\<lambda>(l, f). Ok (tt\<lparr>tt_topc := l\<rparr>, f))
      else if command data = ''KICK'' then
        rbind (fire_list fire_all (test_kick data) (tt_kick tt)) (\<lambda>(l, f). Ok (tt\<lparr>tt_kick := l\<rparr>, f))
      else if command data = ''NOTICE'' then
        rbind (fire_list fire_all (has_text data (test_wild data)) (tt_notc tt)) (\<lambda>(l, f). Ok (tt\<lparr>tt_notc := l\<rparr>, f))
      else
        rbind (fire_list fire_all (test_raw data) (tt_raw tt)) (\<lambda>(l, f). Ok (tt\<lparr>tt_raw := l\<rparr>, f)))"

subsection \<open>What is called\<close>

lemma fire_all_spec:
  "\<forall>t \<in> set ts. test t = Ok (P t) \<Longrightarrow>
   fire_all test ts =
     Ok (map (\<lambda>t. if P t \<and> t_handler_of t \<noteq> None then bump t else t) ts,
         map bump (filter (\<lambda>t. P t \<and> t_handler_of t \<noteq> None) ts))"
  by (induction ts) auto

lemma fire_first_spec:
  "\<forall>t \<in> set ts. test t = Ok (P t) \<Longrightarrow>
   fire_first test ts =
     Ok (case find_index P ts of
           None \<Rightarrow> (ts, [])
         | Some i \<Rightarrow> if t_handler_of (ts ! i) = None then (ts, [])
                     else (ts[i := bump (ts ! i)], [bump (ts ! i)]))"
  by (induction ts) (auto split: option.splits)

text \<open>Matching changes nothing but use counts, and calls only handlers that are registered.\<close>

definition unbumped :: "trigger \<Rightarrow> trigger" where
  "unbumped t = t\<lparr>usecount := 0\<rparr>"

lemma unbumped_bump [simp]: "unbumped (bump t) = unbumped t"
  by (simp add: unbumped_def bump_def)

lemma handler_bump [simp]: "t_handler_of (bump t) = t_handler_of t"
  by (simp add: bump_def)

lemma fire_all_same:
  "fire_all test ts = Ok (us, fired) \<Longrightarrow>
   map unbumped us = map unbumped ts \<and>
   (\<forall>t \<in> set fired. t_handler_of t \<noteq> None \<and> (\<exists>t' \<in> set ts. unbumped t = unbumped t'))"
  by (induction ts arbitrary: us fired) (fastforce simp: rbind_Ok_iff split: if_splits)+

lemma fire_first_same:
  "fire_first test ts = Ok (us, fired) \<Longrightarrow>
   map unbumped us = map unbumped ts \<and> length fired \<le> 1 \<and>
   (\<forall>t \<in> set fired. t_handler_of t \<noteq> None \<and> (\<exists>t' \<in> set ts. unbumped t = unbumped t'))"
  by (induction ts arbitrary: us fired) (fastforce simp: rbind_Ok_iff split: if_splits)+

definition table_lists :: "trig_table \<Rightarrow> trigger dlist list" where
  "table_lists tt =
     [tt_pub tt, tt_pubm tt, tt_msg tt, tt_msgm tt, tt_part tt, tt_join tt, tt_sign tt, tt_ctcp tt,
      tt_kick tt, tt_notc tt, tt_dcc tt, tt_raw tt, tt_topc tt]"

definition table_shape :: "trig_table \<Rightarrow> trigger list list" where
  "table_shape tt = map (map unbumped \<circ> dl_all) (table_lists tt)"

definition registered :: "trig_table \<Rightarrow> trigger \<Rightarrow> bool" where
  "registered tt t \<longleftrightarrow> list_ex (\<lambda>d. list_ex (\<lambda>t'. unbumped t = unbumped t') (dl_from d)) (table_lists tt)"

lemma fire_list_same:
  assumes "fire_list fire test d = Ok (d', fired)" and "fire = fire_all \<or> fire = fire_first"
  shows "map unbumped (dl_all d') = map unbumped (dl_all d) \<and>
    (\<forall>t \<in> set fired. t_handler_of t \<noteq> None \<and> (\<exists>t' \<in> set (dl_from d). unbumped t = unbumped t'))"
  using assms by (cases d) (auto simp: fire_list_def rbind_Ok_iff dest: fire_all_same fire_first_same)

lemmas fire_list_all_same = fire_list_same [where fire = fire_all, simplified]

lemma registeredI:
  "d \<in> set (table_lists tt) \<Longrightarrow> t' \<in> set (dl_from d) \<Longrightarrow> unbumped t = unbumped t' \<Longrightarrow> registered tt t"
  by (auto simp: registered_def list_ex_iff)

text \<open>One list of the table is replaced by what firing makes of it.\<close>

lemma fire_part_same:
  assumes "rbind (fire_list fire_all test (get tt)) (\<lambda>(l, f). Ok (put l tt, f)) = Ok (tt', fired)"
    and "get tt \<in> set (table_lists tt)"
    and "\<And>l. map unbumped (dl_all l) = map unbumped (dl_all (get tt)) \<Longrightarrow> table_shape (put l tt) = table_shape tt"
  shows "table_shape tt' = table_shape tt \<and> (\<forall>t \<in> set fired. t_handler_of t \<noteq> None \<and> registered tt t)"
proof -
  obtain l where l: "fire_list fire_all test (get tt) = Ok (l, fired)" "tt' = put l tt"
    using assms(1) by (auto simp: rbind_Ok_iff)
  show ?thesis using fire_list_all_same [OF l(1)] l(2) assms(2,3) registeredI by blast
qed

lemma match_privmsg_same:
  assumes "match_privmsg botnick tt data = Ok (tt', fired)"
  shows "table_shape tt' = table_shape tt \<and> (\<forall>t \<in> set fired. t_handler_of t \<noteq> None \<and> registered tt t)"
proof -
  obtain p0 where p0: "arr_get (c_params data) 0 = Ok p0"
    using assms by (auto simp: match_privmsg_def rbind_Ok_iff)
  show ?thesis
  proof (cases p0)
    case None
    then show ?thesis using assms p0 by (simp add: match_privmsg_def)
  next
    case (Some target)
    then obtain nick where nick: "deref botnick = Ok nick"
      using assms p0 by (auto simp: match_privmsg_def rbind_Ok_iff)
    show ?thesis
    proof (cases "lower target = lower nick")
      case True
      then obtain m f1 mm f2 where f: "fire_list fire_all (has_text data (test_prefix data)) (tt_msg tt) = Ok (m, f1)"
          "fire_list fire_all (has_text data (test_wild data)) (tt_msgm tt) = Ok (mm, f2)"
          "tt' = tt\<lparr>tt_msg := m, tt_msgm := mm\<rparr>" "fired = f1 @ f2"
        using assms p0 Some nick by (auto simp: match_privmsg_def rbind_Ok_iff)
      then show ?thesis
        using fire_list_all_same [OF f(1)] fire_list_all_same [OF f(2)]
        by (fastforce simp: table_shape_def table_lists_def registered_def list_ex_iff)
    next
      case False
      obtain m f1 mm f2 where f: "(if rest_str data = None then Ok (tt_pub tt, [])
              else fire_list fire_first (test_prefix data) (tt_pub tt)) = Ok (m, f1)"
          "fire_list fire_all (has_text data (test_wild data)) (tt_pubm tt) = Ok (mm, f2)"
          "tt' = tt\<lparr>tt_pub := m, tt_pubm := mm\<rparr>" "fired = f1 @ f2"
        using assms p0 Some nick False by (auto simp: match_privmsg_def rbind_Ok_iff)
      have "map unbumped (dl_all m) = map unbumped (dl_all (tt_pub tt)) \<and>
          (\<forall>t \<in> set f1. t_handler_of t \<noteq> None \<and> (\<exists>t' \<in> set (dl_from (tt_pub tt)). unbumped t = unbumped t'))"
        using f(1) fire_list_same [of fire_first] by (cases "rest_str data = None") auto
      then show ?thesis
        using f(3,4) fire_list_all_same [OF f(2)]
        by (fastforce simp: table_shape_def table_lists_def registered_def list_ex_iff)
    qed
  qed
qed

lemma match_join_same:
  assumes "match_join tt data = Ok (tt', fired)"
  shows "table_shape tt' = table_shape tt \<and> (\<forall>t \<in> set fired. t_handler_of t \<noteq> None \<and> registered tt t)"
proof (cases "rest data = None")
  case True
  then show ?thesis using assms by (simp add: match_join_def)
next
  case False
  then obtain p m where pm: "deref (prefix_of data) = Ok p" "user_mask data p = Ok m"
    using assms by (auto simp: match_join_def rbind_Ok_iff)
  show ?thesis
  proof (cases "tt_join tt")
    case (DList b fr)
    show ?thesis
    proof (cases fr)
      case Nil
      then show ?thesis using assms False pm DList by (simp add: match_join_def)
    next
      case (Cons t ts)
      then show ?thesis
        using assms False pm DList
        by (cases "troll_matchwilds (Some m) (t_mask t) = 0 \<and> t_handler_of t \<noteq> None")
           (auto simp: match_join_def table_shape_def table_lists_def registered_def)
    qed
  qed
qed

lemma trigger_match_same:
  assumes "trigger_match botnick tt data = Ok (tt', fired)"
  shows "table_shape tt' = table_shape tt \<and> (\<forall>t \<in> set fired. t_handler_of t \<noteq> None \<and> registered tt t)"
proof -
  consider "command data = ''PRIVMSG''" | "command data = ''JOIN''" | "command data = ''PART''"
    | "command data = ''QUIT''" | "command data = ''TOPIC''" | "command data = ''KICK''"
    | "command data = ''NOTICE''"
    | "command data \<notin> {''PRIVMSG'', ''JOIN'', ''PART'', ''QUIT'', ''TOPIC'', ''KICK'', ''NOTICE''}"
    by blast
  then show ?thesis
  proof cases
    case 1
    then show ?thesis using assms match_privmsg_same by (simp add: trigger_match_def)
  next
    case 2
    then have "match_join tt data = Ok (tt', fired)" using assms by (simp add: trigger_match_def)
    then show ?thesis by (rule match_join_same)
  next
    case 3
    then have "rbind (fire_list fire_all (test_part data) (tt_part tt)) (\<lambda>(l, f). Ok (tt\<lparr>tt_part := l\<rparr>, f)) = Ok (tt', fired)"
      using assms by (simp add: trigger_match_def)
    then show ?thesis by (rule fire_part_same) (simp_all add: table_lists_def table_shape_def)
  next
    case 4
    then show ?thesis using assms by (simp add: trigger_match_def)
  next
    case 5
    then have "rbind (fire_list fire_all (test_topic data) (tt_topc tt)) (\<lambda>(l, f). Ok (tt\<lparr>tt_topc := l\<rparr>, f)) = Ok (tt', fired)"
      using assms by (simp add: trigger_match_def)
    then show ?thesis by (rule fire_part_same) (simp_all add: table_lists_def table_shape_def)
  next
    case 6
    then have "rbind (fire_list fire_all (test_kick data) (tt_kick tt)) (\<lambda>(l, f). Ok (tt\<lparr>tt_kick := l\<rparr>, f)) = Ok (tt', fired)"
      using assms by (simp add: trigger_match_def)
    then show ?thesis by (rule fire_part_same) (simp_all add: table_lists_def table_shape_def)
  next
    case 7
    then have "rbind (fire_list fire_all (has_text data (test_wild data)) (tt_notc tt)) (\<lambda>(l, f). Ok (tt\<lparr>tt_notc := l\<rparr>, f)) = Ok (tt', fired)"
      using assms by (simp add: trigger_match_def)
    then show ?thesis by (rule fire_part_same) (simp_all add: table_lists_def table_shape_def)
  next
    case 8
    then have "rbind (fire_list fire_all (test_raw data) (tt_raw tt)) (\<lambda>(l, f). Ok (tt\<lparr>tt_raw := l\<rparr>, f)) = Ok (tt', fired)"
      using assms by (simp add: trigger_match_def)
    then show ?thesis by (rule fire_part_same) (simp_all add: table_lists_def table_shape_def)
  qed
qed

text \<open>A message in a channel calls at most one PUB trigger: the first whose mask it starts with.\<close>

lemma pub_not_stackable:
  assumes "c_params data = Some (target # ps)" and "botnick = Some nick" and "lower target \<noteq> lower nick"
    and "rest data = Some ws" and "ws \<noteq> []" and "rest_str data = Some s" and "dl_from (tt_pubm tt) = []"
    and "command data = ''PRIVMSG''"
    and "\<forall>t \<in> set (dl_from (tt_pub tt)). t_mask t \<noteq> None \<and> t_handler_of t \<noteq> None"
  shows "\<exists>tt'. trigger_match botnick tt data =
    Ok (tt', map bump (case find (\<lambda>t. prefix (the (t_mask t)) s) (dl_from (tt_pub tt)) of
                         None \<Rightarrow> [] | Some t \<Rightarrow> [t]))"
proof -
  let ?P = "\<lambda>t. prefix (the (t_mask t)) s"
  let ?ts = "dl_from (tt_pub tt)"
  have "\<forall>t \<in> set ?ts. test_prefix data t = Ok (?P t)"
    using assms(6,9) by (auto simp: test_prefix_def strncmp_eq_prefix)
  from fire_first_spec [OF this] have
    "fire_first (test_prefix data) ?ts =
     Ok (case find_index ?P ?ts of
           None \<Rightarrow> (?ts, [])
         | Some i \<Rightarrow> if t_handler_of (?ts ! i) = None then (?ts, [])
                     else (?ts[i := bump (?ts ! i)], [bump (?ts ! i)]))" .
  moreover have "t_handler_of (?ts ! i) \<noteq> None" if "find_index ?P ?ts = Some i" for i
    using assms(9) find_index_Some [OF that] by simp
  ultimately obtain us where
    "fire_first (test_prefix data) ?ts =
       Ok (us, map bump (case find ?P ?ts of None \<Rightarrow> [] | Some t \<Rightarrow> [t]))"
    by (cases "find_index ?P ?ts") (auto simp: find_find_index)
  then show ?thesis
    using assms by (simp add: trigger_match_def match_privmsg_def fire_list_def)
qed

text \<open>Handlers bound to SIGN are never called.\<close>

lemma quit_calls_nothing: "command data = ''QUIT'' \<Longrightarrow> trigger_match botnick tt data = Ok (tt, [])"
  by (simp add: trigger_match_def)

text \<open>A message without text stops the program as soon as there is a MSG trigger.\<close>

lemma privmsg_without_text:
  assumes "command data = ''PRIVMSG''" and "c_params data = Some (target # ps)" and "botnick = Some nick"
    and "lower target = lower nick" and "rest data = None" and "dl_from (tt_msg tt) \<noteq> []"
  shows "trigger_match botnick tt data = Fault NullDeref"
  using assms by (cases "dl_from (tt_msg tt)") (auto simp: trigger_match_def match_privmsg_def fire_list_def has_text_def)

end
