(* ===== verification/Network.thy ===== *)
theory Network
  imports Channels Timers Triggers
begin

text \<open>
  The state the bot works on: \<open>struct network\<close> and \<open>struct config\<close> with everything that hangs off
  them, sending (\<^verbatim>\<open>src/src/tsocket.c\<close>, \<^verbatim>\<open>src/src/irc.c\<close>), finding channels and users
  (\<^verbatim>\<open>src/src/network.c\<close>), and the saving and loading of user and channel files for one or all
  networks (\<^verbatim>\<open>src/src/user.c\<close>, \<^verbatim>\<open>src/src/channel.c\<close>).
\<close>

section \<open>Records\<close>

datatype dcc_status =
    DCC_WAITING | DCC_NONBLOCKCONNECT | DCC_WAITINGCONNECT | DCC_NOTREADY | DCC_CONNECTED
  | DCC_HAS_USERNAME | DCC_AUTHENTICATED

text \<open>The states are numbers in the code, and compared as such.\<close>

fun dcc_num :: "dcc_status \<Rightarrow> nat" where
  "dcc_num DCC_WAITING = 0"
| "dcc_num DCC_NONBLOCKCONNECT = 1"
| "dcc_num DCC_WAITINGCONNECT = 2"
| "dcc_num DCC_NOTREADY = 3"
| "dcc_num DCC_CONNECTED = 4"
| "dcc_num DCC_HAS_USERNAME = 5"
| "dcc_num DCC_AUTHENTICATED = 6"

instantiation dcc_status :: linorder
begin

definition less_eq_dcc_status :: "dcc_status \<Rightarrow> dcc_status \<Rightarrow> bool" where
  "less_eq_dcc_status a b \<longleftrightarrow> dcc_num a \<le> dcc_num b"

definition less_dcc_status :: "dcc_status \<Rightarrow> dcc_status \<Rightarrow> bool" where
  "less_dcc_status a b \<longleftrightarrow> dcc_num a < dcc_num b"

instance
proof
  fix x y :: dcc_status
  assume "x \<le> y" "y \<le> x"
  then show "x = y" by (cases x; cases y; simp add: less_eq_dcc_status_def)
qed (auto simp: less_eq_dcc_status_def less_dcc_status_def)

end

lemmas dcc_status_order = less_eq_dcc_status_def less_dcc_status_def

text \<open>
  The pointer \<open>user\<close> of a session is the position of the record in the network's list of users,
  counted from its first record. \<open>d_sent\<close> is what was sent on the socket.
\<close>

record dcc_session =
  d_id :: int
  d_sock :: int
  d_user :: "nat option"
  d_status :: dcc_status
  d_sent :: "string list"

datatype network_status =
    NET_DISCONNECTED | NET_INPROGRESS | NET_NONBLOCKCONNECT | NET_WAITINGCONNECT | NET_NOTREADY
  | NET_CONNECTED | NET_AUTHORIZED | NET_IDLE

text \<open>
  \<open>tsock\<close> is NULL or a socket with a number; \<open>sent\<close> is what was sent on it. The pointer \<open>tcfg\<close> to
  the network's block in the configuration is its position on the top level. The interpreters and
  script lists of the script languages are left out, as are \<open>cur_server\<close> and \<open>caps\<close>,
  which nothing reads.
\<close>

record network =
  n_label :: cstr
  n_servers :: "server dlist"
  n_chans :: "channel dlist"
  tsock :: "nat option"
  sent :: "string list"
  botnick :: cstr
  nick :: cstr
  altnick :: cstr
  n_ident :: cstr
  n_realname :: cstr
  vhost :: cstr
  shost :: cstr
  n_status :: network_status
  default_flags :: cstr
  never_give_up :: int
  connect_delay :: int
  n_last_try :: int
  n_users :: "user dlist"
  handlen :: int
  n_filters :: "log_filter list"
  n_dccs :: "dcc_session dlist"
  dcc_listener :: int
  dcc_port :: int
  n_dcc_motd :: cstr
  timers :: "t_timer list"
  trigs :: trig_table
  n_tcfg :: "nat option"
  userfile :: cstr
  chanfile :: cstr

definition new_network :: "cstr \<Rightarrow> network" where
  "new_network label =
     \<lparr>n_label = label, n_servers = dl_null, n_chans = dl_null, tsock = None, sent = [],
      botnick = None, nick = None, altnick = None, n_ident = None, n_realname = None, vhost = None,
      shost = None, n_status = NET_DISCONNECTED, default_flags = None, never_give_up = -1,
      connect_delay = -1, n_last_try = 0, n_users = dl_null, handlen = 32, n_filters = [], n_dccs = dl_null,
      dcc_listener = -1, dcc_port = -1, n_dcc_motd = None, timers = [], trigs = new_trig_table,
      n_tcfg = None, userfile = None, chanfile = None\<rparr>"

text \<open>
  \<open>c_crypto\<close> is the function \<open>create_hash\<close> of the loaded crypto module, if there is one; it is code
  that is loaded at run time. \<open>c_tcfg\<close> is the configuration tree, \<open>c_tsockets\<close> the sockets in the
  global list.
\<close>

record config =
  networks :: "network dlist"
  c_filters :: "log_filter list"
  c_hash_type :: cstr
  c_crypto_name :: cstr
  c_crypto :: "(cstr \<Rightarrow> cstr \<Rightarrow> cstr) option"
  c_dcc_motd :: cstr
  c_fork :: int
  debug_level :: int
  c_tcfg :: "tblock list"
  c_tsockets :: "nat list"

section \<open>Sending\<close>

text \<open>\<open>vsnprintf\<close> into 2048 bytes and a line end; \<open>tsock\<close> is read.\<close>

definition tsocket_printf :: "network \<Rightarrow> string \<Rightarrow> network res" where
  "tsocket_printf net s =
     (if tsock net = None then Fault NullDeref
      else Ok (net\<lparr>sent := sent net @ [take 2047 s @ [NL]]\<rparr>))"

definition irc_printf :: "dcc_session \<Rightarrow> string \<Rightarrow> dcc_session" where
  "irc_printf dcc s = dcc\<lparr>d_sent := d_sent dcc @ [take 2047 s @ [NL]]\<rparr>"

fun tsocket_printfs :: "network \<Rightarrow> string list \<Rightarrow> network res" where
  "tsocket_printfs net [] = Ok net"
| "tsocket_printfs net (s # ss) = rbind (tsocket_printf net s) (\<lambda>n. tsocket_printfs n ss)"

lemma tsocket_printf_Some [simp]:
  "tsock net = Some k \<Longrightarrow> tsocket_printf net s = Inr (net\<lparr>sent := sent net @ [take 2047 s @ [NL]]\<rparr>)"
  "tsock net = None \<Longrightarrow> tsocket_printf net s = Inl NullDeref"
  by (simp_all add: tsocket_printf_def)

lemma tsocket_printfs_Some:
  "tsock net = Some k \<Longrightarrow>
   tsocket_printfs net ss = Inr (net\<lparr>sent := sent net @ map (\<lambda>s. take 2047 s @ [NL]) ss\<rparr>)"
  by (induction ss arbitrary: net) simp_all

section \<open>Finding\<close>

definition network_channel_find :: "network \<Rightarrow> string \<Rightarrow> nat option res" where
  "network_channel_find net name = find_cased (Some \<circ> ch_name) name (dl_from (n_chans net))"

text \<open>\<open>troll_matchwilds\<close> takes the text first and the pattern second, whichever way this is called.\<close>

definition network_user_find_by_hostmask :: "network \<Rightarrow> cstr \<Rightarrow> nat option" where
  "network_user_find_by_hostmask net hostmask =
     find_index (\<lambda>u. troll_matchwilds (uhost u) hostmask = 0) (dl_from (n_users net))"

definition network_user_find_by_username :: "network \<Rightarrow> string \<Rightarrow> nat option res" where
  "network_user_find_by_username net un = find_cased username un (dl_from (n_users net))"

lemma network_channel_find_index:
  "network_channel_find net name = Ok (find_index (\<lambda>c. same_name (ch_name c) name) (dl_from (n_chans net)))"
  using find_cased_index [of "dl_from (n_chans net)" "Some \<circ> ch_name" name]
  by (simp add: network_channel_find_def)

lemma network_channel_find_lookup:
  "\<exists>m. network_channel_find net name = Ok m \<and>
       map_option ((!) (dl_from (n_chans net))) m = lookup_channel name (n_chans net)"
  by (simp add: network_channel_find_index lookup_channel_def dl_find_def find_find_index)

section \<open>Connecting\<close>

definition irc_ball_start_rolling :: "network \<Rightarrow> network res" where
  "irc_ball_start_rolling net =
     tsocket_printfs net
       [''USER '' @ fmt_s (n_ident net) @ '' foo.com foo.com :'' @ fmt_s (n_realname net),
        ''NICK '' @ fmt_s (nick net)]"

text \<open>
  What \<open>tsocket_connect\<close> does with a host and a port is up to the network; it calls the connect
  callback when the connection is there at once. On failure \<open>net->tsock\<close> stays as it is while the
  socket is freed. The result says whether it was.
\<close>

datatype conn = ConnFailed | ConnNow | ConnPending

fun try_servers :: "(string \<Rightarrow> int \<Rightarrow> conn) \<Rightarrow> server list \<Rightarrow> network \<Rightarrow> (network \<times> bool) res" where
  "try_servers connects [] net = Ok (net, False)"
| "try_servers connects (srv # r) net =
     (case sv_host srv of
        None \<Rightarrow> try_servers connects r net
      | Some h \<Rightarrow>
          (case connects h (sv_port srv) of
             ConnFailed \<Rightarrow> try_servers connects r net
           | ConnNow \<Rightarrow> rbind (irc_ball_start_rolling net) (\<lambda>n. Ok (n, True))
           | ConnPending \<Rightarrow> Ok (net, True)))"

definition network_connect ::
  "(string \<Rightarrow> int \<Rightarrow> conn) \<Rightarrow> nat \<Rightarrow> network \<Rightarrow> nat list \<Rightarrow> (network \<times> nat list \<times> bool) res" where
  "network_connect connects new_sock net tsockets =
     rbind (try_servers connects (dl_from (n_servers net)) (net\<lparr>tsock := Some new_sock\<rparr>)) (\<lambda>(n, ok).
       Ok (n, if ok then new_sock # tsockets else tsockets, \<not> ok))"

text \<open>A network that could not connect keeps a pointer to the freed socket.\<close>

lemma network_connect_dangling:
  assumes "\<forall>srv \<in> set (dl_from (n_servers net)). sv_host srv = None \<or> connects (the (sv_host srv)) (sv_port srv) = ConnFailed"
  shows "network_connect connects s net ts = Ok (net\<lparr>tsock := Some s\<rparr>, ts, True)"
proof -
  have "try_servers connects srvs n = Ok (n, False)"
    if "\<forall>srv \<in> set srvs. sv_host srv = None \<or> connects (the (sv_host srv)) (sv_port srv) = ConnFailed" for srvs n
    using that by (induction srvs) (auto split: option.splits)
  then show ?thesis using assms by (simp add: network_connect_def)
qed

section \<open>Files\<close>

text \<open>
  The file system: what a file holds (\<open>None\<close>: it cannot be opened for reading), and which files can
  be opened for writing. A save is the list of the files written, with their contents.
\<close>

type_synonym files = "string \<Rightarrow> cstr"

type_synonym writes = "(string \<times> string) list"

definition obind :: "'a res option \<Rightarrow> ('a \<Rightarrow> 'b res option) \<Rightarrow> 'b res option" where
  "obind m f = (case m of None \<Rightarrow> None | Some (Inl e) \<Rightarrow> Some (Fault e) | Some (Inr x) \<Rightarrow> f x)"

lemma obind_simps [simp]:
  "obind (Some (Inr x)) f = f x" "obind (Some (Inl e)) f = Some (Inl e)"
  by (simp_all add: obind_def)

definition write_file :: "(string \<Rightarrow> bool) \<Rightarrow> string \<Rightarrow> tblock list \<Rightarrow> writes res option" where
  "write_file writable name tcfg =
     obind (tconfig_to_file tcfg (writable name)) (\<lambda>w.
       Some (Ok (case w of None \<Rightarrow> [] | Some s \<Rightarrow> [(name, s)])))"

text \<open>For one network without a file name the label is taken from \<open>nettmp\<close>, which is NULL.\<close>

definition db_name :: "string \<Rightarrow> cstr \<Rightarrow> network \<Rightarrow> string res" where
  "db_name base name net =
     (case name of
        Some f \<Rightarrow> Ok f
      | None \<Rightarrow> rbind (deref (n_label net)) (\<lambda>l. Ok (base @ l)))"

fun save_all ::
  "(network \<Rightarrow> string res) \<Rightarrow> (network \<Rightarrow> tblock list res) \<Rightarrow> (string \<Rightarrow> bool) \<Rightarrow> network list \<Rightarrow> writes res option" where
  "save_all name blocks writable [] = Some (Ok [])"
| "save_all name blocks writable (n # ns) =
     obind (Some (blocks n)) (\<lambda>b.
     obind (Some (name n)) (\<lambda>f.
     obind (write_file writable f b) (\<lambda>w.
     obind (save_all name blocks writable ns) (\<lambda>ws. Some (Ok (w @ ws))))))"

definition save_one ::
  "cstr \<Rightarrow> (network \<Rightarrow> tblock list res) \<Rightarrow> (string \<Rightarrow> bool) \<Rightarrow> network \<Rightarrow> writes res option" where
  "save_one name blocks writable net =
     obind (Some (blocks net)) (\<lambda>b.
       case name of
         None \<Rightarrow> Some (Fault NullDeref)
       | Some f \<Rightarrow> write_file writable f b)"

definition user_blocks :: "network \<Rightarrow> tblock list res" where
  "user_blocks net = Ok (users_to_tconfig (n_users net))"

definition chan_blocks :: "network \<Rightarrow> tblock list res" where
  "chan_blocks net = chans_to_tconfig (n_chans net)"

definition users_save :: "config \<Rightarrow> (string \<Rightarrow> bool) \<Rightarrow> network option \<Rightarrow> writes res option" where
  "users_save cfg writable net =
     (case net of
        Some n \<Rightarrow> save_one (userfile n) user_blocks writable n
      | None \<Rightarrow>
          if dl_from (networks cfg) = [] then Some (Ok [])
          else save_all (\<lambda>n. db_name ''./db/userdb.'' (userfile n) n) user_blocks writable
                 (dl_all (networks cfg)))"

definition chans_save :: "config \<Rightarrow> (string \<Rightarrow> bool) \<Rightarrow> network option \<Rightarrow> writes res option" where
  "chans_save cfg writable net =
     (case net of
        Some n \<Rightarrow> save_one (chanfile n) chan_blocks writable n
      | None \<Rightarrow>
          if dl_from (networks cfg) = [] then Some (Ok [])
          else save_all (\<lambda>n. db_name ''./db/chandb.'' (chanfile n) n) chan_blocks writable
                 (dl_all (networks cfg)))"

lemma users_save_no_file:
  "userfile n = None \<Longrightarrow> users_save cfg writable (Some n) = Some (Fault NullDeref)"
  by (simp add: users_save_def save_one_def user_blocks_def)

lemma chans_save_no_channels:
  "dl_from (n_chans n) = [] \<Longrightarrow> chans_save cfg writable (Some n) = Some (Fault NullDeref)"
  by (simp add: chans_save_def save_one_def chan_blocks_def chans_to_tconfig_def)

text \<open>The merge of what was loaded into the network's block, which is read without a check.\<close>

definition merge_child :: "tblock list \<Rightarrow> nat option \<Rightarrow> tblock list \<Rightarrow> tblock list res" where
  "merge_child src at tree =
     rbind (deref at) (\<lambda>i.
       if length tree \<le> i then Fault UseAfterFree
       else (case tree ! i of TB k v p cs \<Rightarrow>
               rbind (tconfig_merge src (tz_of_list cs [])) (\<lambda>t.
                 Ok (case t of None \<Rightarrow> tree | Some cs' \<Rightarrow> tree[i := TB k v p cs']))))"

text \<open>\<open>user_init\<close> and \<open>chan_init\<close> go from the pointer on, without going back to the first network.\<close>

fun user_init_nets :: "files \<Rightarrow> network list \<Rightarrow> tblock list \<Rightarrow> (network list \<times> tblock list) res" where
  "user_init_nets fs [] tree = Ok ([], tree)"
| "user_init_nets fs (net # ns) tree =
     rbind (case userfile net of
              None \<Rightarrow> Ok (net, tree)
            | Some f \<Rightarrow>
                rbind (file_to_tconfig (fs f)) (\<lambda>usertcfg.
                rbind (load_users usertcfg (n_users net)) (\<lambda>us.
                rbind (merge_child usertcfg (n_tcfg net) tree) (\<lambda>tree'.
                  Ok (net\<lparr>n_users := us\<rparr>, tree'))))) (\<lambda>(net', tree').
     rbind (user_init_nets fs ns tree') (\<lambda>(ns', tree''). Ok (net' # ns', tree'')))"

definition user_init :: "files \<Rightarrow> config \<Rightarrow> config res" where
  "user_init fs cfg =
     rbind (user_init_nets fs (dl_from (networks cfg)) (c_tcfg cfg)) (\<lambda>(ns, tree).
       Ok (cfg\<lparr>networks := DList (dl_before (networks cfg)) ns, c_tcfg := tree\<rparr>))"

text \<open>The defaults are merged into the channel file first, if it could be read.\<close>

definition chan_blocks_of_files :: "files \<Rightarrow> string \<Rightarrow> tblock list res" where
  "chan_blocks_of_files fs f =
     rbind (file_to_tconfig (fs f)) (\<lambda>chantcfg.
     rbind (file_to_tconfig (fs ''db/chandb.defaults'')) (\<lambda>defaults.
       if defaults = [] then Ok chantcfg
       else rbind (tconfig_merge defaults (tz_of_list chantcfg [])) (\<lambda>t.
              Ok (case t of None \<Rightarrow> chantcfg | Some c \<Rightarrow> c))))"

fun chan_init_nets :: "files \<Rightarrow> network list \<Rightarrow> tblock list \<Rightarrow> (network list \<times> tblock list) res" where
  "chan_init_nets fs [] tree = Ok ([], tree)"
| "chan_init_nets fs (net # ns) tree =
     rbind (case chanfile net of
              None \<Rightarrow> Ok (net, tree)
            | Some f \<Rightarrow>
                rbind (chan_blocks_of_files fs f) (\<lambda>chantcfg.
                rbind (load_chans chantcfg (n_chans net)) (\<lambda>cs.
                rbind (merge_child chantcfg (n_tcfg net) tree) (\<lambda>tree'.
                  Ok (net\<lparr>n_chans := cs\<rparr>, tree'))))) (\<lambda>(net', tree').
     rbind (chan_init_nets fs ns tree') (\<lambda>(ns', tree''). Ok (net' # ns', tree'')))"

definition chan_init :: "files \<Rightarrow> config \<Rightarrow> config res" where
  "chan_init fs cfg =
     rbind (chan_init_nets fs (dl_from (networks cfg)) (c_tcfg cfg)) (\<lambda>(ns, tree).
       Ok (cfg\<lparr>networks := DList (dl_before (networks cfg)) ns, c_tcfg := tree\<rparr>))"

text \<open>What a save of all networks writes is the text of the users of each.\<close>

lemma users_save_all:
  assumes "dl_head (networks cfg)" and "dl_from (networks cfg) = [n]" and "userfile n = Some f" and "writable f"
    and "n_users n = dl_of_list us" and "list_all user_ok us" and "distinct (map username us)" and "us \<noteq> []"
  shows "\<exists>s. users_save cfg writable None = Some (Ok [(f, s)]) \<and>
     (\<exists>blocks users. file_to_tconfig (Some s) = Ok blocks \<and>
        load_users blocks dl_null = Ok users \<and> dl_from users = map saved_user us)"
proof -
  obtain out blocks users where o: "tconfig_to_file (users_to_tconfig (dl_of_list us)) True = Some (Ok (Some out))"
      "file_to_tconfig (Some out) = Ok blocks" "load_users blocks dl_null = Ok users" "dl_from users = map saved_user us"
    using users_file_roundtrip [OF assms(6-8)] by blast
  have "dl_all (networks cfg) = [n]" using assms(1,2) by (simp add: dl_all_def dl_head_def)
  then have "users_save cfg writable None = Some (Ok [(f, out)])"
    using assms(2-5) o(1) by (simp add: users_save_def db_name_def user_blocks_def write_file_def)
  then show ?thesis using o by blast
qed

end
