(* ===== verification/Troll_Lib.thy ===== *)
theory Troll_Lib
  imports Network
begin

text \<open>
  The handlers of \<^verbatim>\<open>src/src/troll_lib.c\<close> for messages of the server: registration, a nick in use, the
  WHO reply, MODE, NICK, TOPIC and the channel redirection. What is logged is left out. \<open>now\<close> is what
  \<open>time(NULL)\<close> gives.
\<close>

section \<open>Arguments\<close>

text \<open>\<open>troll_makearg\<close>: the text behind the mask; the mask is taken to be a prefix of it.\<close>

definition troll_makearg :: "string \<Rightarrow> string \<Rightarrow> string res" where
  "troll_makearg s m =
     (if length s < length m then Fault OutOfBounds
      else Ok (dropWhile (\<lambda>c. c = SPC \<or> c = TAB) (drop (length m) s)))"

text \<open>The searches with a name that may be NULL: it is read if there is anything to compare it with.\<close>

definition find_ptr :: "('a \<Rightarrow> cstr) \<Rightarrow> cstr \<Rightarrow> 'a list \<Rightarrow> nat option res" where
  "find_ptr key k xs = (if xs = [] then Ok None else rbind (deref k) (\<lambda>s. find_cased key s xs))"

definition find_channel :: "network \<Rightarrow> cstr \<Rightarrow> nat option res" where
  "find_channel net name = find_ptr (Some \<circ> ch_name) name (dl_from (n_chans net))"

definition find_cuser :: "channel \<Rightarrow> cstr \<Rightarrow> nat option res" where
  "find_cuser chan name = find_ptr cu_nick name (dl_from (user_list chan))"

lemma find_channel_Some: "find_channel net (Some name) = network_channel_find net name"
  by (simp add: find_channel_def find_ptr_def network_channel_find_def)

lemma find_cuser_Some: "find_cuser chan (Some k) = channel_channel_user_find chan k"
  by (simp add: find_cuser_def find_ptr_def channel_channel_user_find_def)

definition chan_at :: "network \<Rightarrow> nat \<Rightarrow> channel" where
  "chan_at net i = dl_from (n_chans net) ! i"

definition set_chan :: "nat \<Rightarrow> channel \<Rightarrow> network \<Rightarrow> network" where
  "set_chan i c net = net\<lparr>n_chans := dl_update i (\<lambda>_. c) (n_chans net)\<rparr>"

section \<open>Registration\<close>

definition send_join :: "network \<Rightarrow> network res" where
  "send_join net =
     rbind (join_channels (n_chans net)) (\<lambda>line.
       case line of None \<Rightarrow> Ok net | Some s \<Rightarrow> tsocket_printf net s)"

definition troll_user_host_handler :: "network \<Rightarrow> network res" where
  "troll_user_host_handler net =
     rbind (tsocket_printf net (''USERHOST '' @ fmt_s (nick net))) (\<lambda>n.
     rbind (send_join n) (\<lambda>n'. Ok (n'\<lparr>n_status := NET_IDLE\<rparr>)))"

definition troll_nick_in_use_handler :: "network \<Rightarrow> network res" where
  "troll_nick_in_use_handler net =
     rbind (if altnick net \<noteq> None then tsocket_printf net (''NICK '' @ fmt_s (altnick net)) else Ok net) (\<lambda>n.
       tsocket_printf (n\<lparr>botnick := altnick n\<rparr>) (''NICK '' @ fmt_s (altnick n)))"

section \<open>The WHO reply\<close>

definition troll_parse_who :: "int \<Rightarrow> network \<Rightarrow> irc_data \<Rightarrow> network res" where
  "troll_parse_who now net data =
     rbind (arr_get (c_params data) 1) (\<lambda>name.
     rbind (find_channel net name) (\<lambda>m.
       case m of
         None \<Rightarrow> Ok net
       | Some i \<Rightarrow>
           rbind (arr_get (c_params data) 5) (\<lambda>who.
           rbind (find_cuser (chan_at net i) who) (\<lambda>u.
             case u of
               Some _ \<Rightarrow> Ok net
             | None \<Rightarrow>
                 rbind (arr_get (c_params data) 2) (\<lambda>ident.
                 rbind (arr_get (c_params data) 3) (\<lambda>host.
                   let c = chan_at net i;
                       cuser = new_channel_user\<lparr>cu_nick := who, cu_ident := ident, cu_modes := None,
                                                cu_host := host, jointime := now\<rparr>
                   in Ok (set_chan i (c\<lparr>user_list := channel_user_add (user_list c) cuser\<rparr>) net)))))))"

section \<open>The ident notice\<close>

text \<open>The position of \<open>/QUOTE\<close> in the words, or of the NULL after them.\<close>

fun quote_at :: "string list \<Rightarrow> nat" where
  "quote_at [] = 0"
| "quote_at (w # ws) = (if tstrcasecmp w ''/QUOTE'' = 0 then 0 else Suc (quote_at ws))"

definition troll_undernet_hack :: "network \<Rightarrow> irc_data \<Rightarrow> network res" where
  "troll_undernet_hack net data =
     (if c_params data = None then Ok net
      else rbind (arr_str (c_params data) 0) (\<lambda>p0.
        if tstrcasecmp p0 ''AUTH'' \<noteq> 0 then Ok net
        else rbind (deref (rest data)) (\<lambda>ws.
          let i = quote_at ws in
          if length ws \<le> i + 2 then Ok net
          else tsocket_printf net (ws ! (i + 1) @ SPC # ws ! (i + 2)))))"

section \<open>MODE\<close>

text \<open>
  \<open>modes\<close> is a string of mode letters in which a mode that was taken away leaves a blank. A letter is
  put into the first blank; if there is none the string is made longer with \<open>tcrealloc0\<close>, which gets
  the length of the string as the old size and so clears its last letter. The empty string has the
  byte before it cleared.
\<close>

fun set_first :: "char \<Rightarrow> char \<Rightarrow> string \<Rightarrow> string" where
  "set_first c d [] = []"
| "set_first c d (x # xs) = (if x = c then d # xs else x # set_first c d xs)"

definition add_mode :: "char \<Rightarrow> cstr \<Rightarrow> cstr res" where
  "add_mode c modes =
     (case modes of
        None \<Rightarrow> Ok (Some [c])
      | Some s \<Rightarrow>
          if strchr s c \<noteq> None then Ok (Some s)
          else if strchr s SPC = None then
            (if s = [] then Fault OutOfBounds
             else Ok (Some (fst (tcrealloc0 (s, length s + 1) (length s + 2) (length s)) @ [c])))
          else Ok (Some (set_first SPC c s)))"

definition del_mode :: "char \<Rightarrow> cstr \<Rightarrow> cstr" where
  "del_mode c modes = map_option (set_first c SPC) modes"

text \<open>The cases \<open>'o'\<close> and \<open>'v'\<close>.\<close>

definition mode_user :: "bool \<Rightarrow> char \<Rightarrow> cstr \<Rightarrow> channel \<Rightarrow> channel res" where
  "mode_user adding c who chan =
     rbind (find_cuser chan who) (\<lambda>m.
       case m of
         None \<Rightarrow> Ok chan
       | Some i \<Rightarrow>
           rbind (let modes = cu_modes (dl_from (user_list chan) ! i) in
                  if adding then add_mode c modes else Ok (del_mode c modes)) (\<lambda>modes'.
             Ok (chan\<lparr>user_list := dl_update i (\<lambda>u. u\<lparr>cu_modes := modes'\<rparr>) (user_list chan)\<rparr>)))"

text \<open>The case \<open>'b'\<close>.\<close>

definition mode_ban :: "int \<Rightarrow> bool \<Rightarrow> nat \<Rightarrow> irc_data \<Rightarrow> channel \<Rightarrow> channel res" where
  "mode_ban now adding arg_index data chan =
     (if adding then
        rbind (arr_get (c_params data) 0) (\<lambda>name.
        rbind (arr_get (c_params data) (arg_index + 2)) (\<lambda>m.
        rbind (deref (prefix_of data)) (\<lambda>p.
          Ok (chan\<lparr>banlist := channel_ban_add (banlist chan)
                    (channel_ban_new\<lparr>cb_chan := name, cb_mask := m, cb_who := pnick p, cb_time := now\<rparr>)\<rparr>))))
      else if dl_from (banlist chan) = [] then Ok chan
      else
        rbind (arr_get (c_params data) (arg_index + 2)) (\<lambda>m.
        rbind (find_ptr cb_mask m (dl_from (banlist chan))) (\<lambda>i.
          Ok (case i of
                None \<Rightarrow> chan
              | Some i \<Rightarrow> chan\<lparr>banlist := channel_ban_del (banlist chan) (Some i)\<rparr>))))"

fun mode_loop :: "int \<Rightarrow> irc_data \<Rightarrow> bool \<Rightarrow> nat \<Rightarrow> channel \<Rightarrow> string \<Rightarrow> channel res" where
  "mode_loop now data adding arg_index chan [] = Ok chan"
| "mode_loop now data adding arg_index chan (c # cs) =
     (if c = CHR ''+'' then mode_loop now data True arg_index chan cs
      else if c = CHR ''-'' then mode_loop now data False arg_index chan cs
      else if c = CHR ''o'' \<or> c = CHR ''v'' then
        rbind (arr_get (c_params data) (arg_index + 2)) (\<lambda>who.
        rbind (mode_user adding c who chan) (\<lambda>chan'.
          mode_loop now data adding (arg_index + 1) chan' cs))
      else if c = CHR ''b'' then
        rbind (mode_ban now adding arg_index data chan) (\<lambda>chan'.
          mode_loop now data adding (arg_index + 1) chan' cs)
      else mode_loop now data adding arg_index chan cs)"

definition troll_trig_update_mode :: "int \<Rightarrow> network \<Rightarrow> irc_data \<Rightarrow> network res" where
  "troll_trig_update_mode now net data =
     rbind (arr_get (c_params data) 0) (\<lambda>name.
     rbind (find_channel net name) (\<lambda>m.
       case m of
         None \<Rightarrow> Ok net
       | Some i \<Rightarrow>
           rbind (arr_str (c_params data) 1) (\<lambda>newchanmode.
           rbind (mode_loop now data True 0 (chan_at net i) newchanmode) (\<lambda>c.
             Ok (set_chan i c net)))))"

section \<open>NICK, redirection and TOPIC\<close>

text \<open>On every channel from the pointer on, the user with the old nick gets the new one.\<close>

definition rename_cuser :: "irc_data \<Rightarrow> channel \<Rightarrow> channel res" where
  "rename_cuser data chan =
     rbind (deref (prefix_of data)) (\<lambda>p.
     rbind (find_cuser chan (pnick p)) (\<lambda>m.
       case m of
         None \<Rightarrow> Ok chan
       | Some i \<Rightarrow>
           rbind (arr_get (rest data) 0) (\<lambda>new.
             Ok (chan\<lparr>user_list := dl_update i (\<lambda>u. u\<lparr>cu_nick := new\<rparr>) (user_list chan)\<rparr>))))"

definition troll_trig_update_nick :: "network \<Rightarrow> irc_data \<Rightarrow> network res" where
  "troll_trig_update_nick net data =
     rbind (mapM_res (rename_cuser data) (dl_from (n_chans net))) (\<lambda>cs.
       Ok (net\<lparr>n_chans := DList (dl_before (n_chans net)) cs\<rparr>))"

text \<open>
  A channel's name is never NULL in the model: without the parameter the name becomes NULL in the code
  and the next search of the list faults; here the handler faults at once.
\<close>

definition troll_trig_channel_redirect :: "network \<Rightarrow> irc_data \<Rightarrow> network res" where
  "troll_trig_channel_redirect net data =
     rbind (arr_get (c_params data) 2) (\<lambda>name.
     rbind (find_channel net name) (\<lambda>m.
       case m of
         None \<Rightarrow> Ok net
       | Some i \<Rightarrow>
           rbind (arr_str (c_params data) 3) (\<lambda>new.
             Ok (set_chan i ((chan_at net i)\<lparr>ch_name := new\<rparr>) net))))"

text \<open>The search goes back to the first channel first.\<close>

definition troll_trig_update_topic :: "network \<Rightarrow> irc_data \<Rightarrow> network res" where
  "troll_trig_update_topic net data =
     (if dl_from (n_chans net) = [] then Ok net
      else rbind (arr_str (c_params data) 0) (\<lambda>name.
        Ok (case find_index (\<lambda>c. same_name name (ch_name c)) (dl_all (n_chans net)) of
              None \<Rightarrow> net
            | Some i \<Rightarrow> net\<lparr>n_chans := dl_update_all i (\<lambda>c. c\<lparr>topic := rest_str data\<rparr>) (n_chans net)\<rparr>)))"

section \<open>What a mode change does\<close>

definition mode_set :: "cstr \<Rightarrow> char set" where
  "mode_set m = (case m of None \<Rightarrow> {} | Some s \<Rightarrow> set s)"

lemma mode_set_simps [simp]: "mode_set None = {}" "mode_set (Some s) = set s"
  by (simp_all add: mode_set_def)

text \<open>No letter twice, and not the empty string: what the handlers make of such a string is one again.\<close>

definition modes_ok :: "cstr \<Rightarrow> bool" where
  "modes_ok m \<longleftrightarrow> (case m of None \<Rightarrow> True | Some s \<Rightarrow> s \<noteq> [] \<and> distinct (filter (\<lambda>x. x \<noteq> SPC) s))"

lemma set_first_split: "c \<in> set s \<Longrightarrow> \<exists>a b. s = a @ c # b \<and> c \<notin> set a \<and> set_first c d s = a @ d # b"
proof (induction s)
  case (Cons x s)
  show ?case
  proof (cases "x = c")
    case True
    then show ?thesis by (intro exI [of _ "[]"] exI [of _ s]) simp
  next
    case False
    then obtain a b where "s = a @ c # b" "c \<notin> set a" "set_first c d s = a @ d # b"
      using Cons by auto
    then show ?thesis using False by (intro exI [of _ "x # a"] exI [of _ b]) simp
  qed
qed simp

lemma set_first_none: "c \<notin> set s \<Longrightarrow> set_first c d s = s"
  by (induction s) auto

text \<open>Without a blank in the string, the new letter replaces the last one.\<close>

lemma add_mode_replaces_last:
  assumes "s \<noteq> []" and "c \<notin> set s" and "SPC \<notin> set s"
  shows "add_mode c (Some s) = Ok (Some (butlast s @ [c]))"
  using assms by (simp add: add_mode_def strchr_None_iff tcrealloc0_def butlast_conv_take)

lemma add_mode_spec:
  assumes "modes_ok m" and "c \<noteq> SPC"
  shows "\<exists>m'. add_mode c m = Ok m' \<and> c \<in> mode_set m' \<and> modes_ok m' \<and> mode_set m' \<subseteq> insert c (mode_set m)"
proof (cases m)
  case None
  then show ?thesis using assms by (simp add: add_mode_def modes_ok_def)
next
  case (Some s)
  then have s: "s \<noteq> []" "distinct (filter (\<lambda>x. x \<noteq> SPC) s)" using assms by (simp_all add: modes_ok_def)
  consider "c \<in> set s" | "c \<notin> set s" "SPC \<notin> set s" | "c \<notin> set s" "SPC \<in> set s" by blast
  then show ?thesis
  proof cases
    case 1
    then show ?thesis using Some assms by (simp add: add_mode_def strchr_None_iff subset_insertI)
  next
    case 2
    have f: "filter (\<lambda>x. x \<noteq> SPC) s = s" using 2(2) by (auto intro: filter_True)
    have "distinct (butlast s)" using s(2) f by (simp add: distinct_butlast)
    moreover have "set (butlast s) \<subseteq> set s" by (auto dest: in_set_butlastD)
    moreover have "filter (\<lambda>x. x \<noteq> SPC) (butlast s) = butlast s"
      using 2(2) by (auto intro!: filter_True dest: in_set_butlastD)
    ultimately show ?thesis
      using Some 2 assms(2) s add_mode_replaces_last [OF s(1) 2] by (auto simp: modes_ok_def)
  next
    case 3
    from set_first_split [OF 3(2), of c] obtain a b
      where ab: "s = a @ SPC # b" "set_first SPC c s = a @ c # b" by blast
    then show ?thesis
      using Some 3 s assms(2) by (auto simp: add_mode_def strchr_None_iff modes_ok_def)
  qed
qed

lemma add_mode_keeps:
  assumes "SPC \<in> set s" and "d \<noteq> SPC" and "d \<in> set s"
  shows "\<exists>s'. add_mode c (Some s) = Ok (Some s') \<and> d \<in> set s'"
proof (cases "c \<in> set s")
  case True
  then show ?thesis using assms by (simp add: add_mode_def strchr_None_iff)
next
  case False
  from set_first_split [OF assms(1), of c] obtain a b
    where "s = a @ SPC # b" "set_first SPC c s = a @ c # b" by blast
  then show ?thesis using assms False by (auto simp: add_mode_def strchr_None_iff)
qed

lemma del_mode_spec:
  assumes "modes_ok m" and "c \<noteq> SPC"
  shows "c \<notin> mode_set (del_mode c m) \<and> modes_ok (del_mode c m) \<and>
     mode_set (del_mode c m) - {SPC} = mode_set m - {SPC, c}"
proof (cases m)
  case None
  then show ?thesis by (simp add: del_mode_def modes_ok_def)
next
  case (Some s)
  then have s: "s \<noteq> []" "distinct (filter (\<lambda>x. x \<noteq> SPC) s)" using assms by (simp_all add: modes_ok_def)
  show ?thesis
  proof (cases "c \<in> set s")
    case True
    from set_first_split [OF this, of SPC] obtain a b
      where ab: "s = a @ c # b" "c \<notin> set a" "set_first c SPC s = a @ SPC # b" by blast
    moreover have "c \<notin> set b" using s(2) ab(1) assms(2) by auto
    ultimately show ?thesis using Some s assms(2) by (auto simp: del_mode_def modes_ok_def)
  next
    case False
    then show ?thesis using Some s assms(2) by (auto simp: del_mode_def modes_ok_def set_first_none)
  qed
qed

subsection \<open>On a channel\<close>

lemma find_cuser_index:
  assumes "named_users (user_list chan)"
  shows "find_cuser chan (Some k) = Ok (find_index (\<lambda>u. same_name (cuser_nick u) k) (dl_from (user_list chan)))"
proof -
  have n: "\<forall>u \<in> set (dl_from (user_list chan)). cu_nick u \<noteq> None"
    using named_users_from [OF assms] by blast
  then have "find_index (\<lambda>u. same_name (the (cu_nick u)) k) (dl_from (user_list chan)) =
      find_index (\<lambda>u. same_name (cuser_nick u) k) (dl_from (user_list chan))"
    by (intro find_index_cong) (auto simp: cuser_nick_def)
  then show ?thesis using find_cased_index [OF n, of k] by (simp add: find_cuser_Some channel_channel_user_find_def)
qed

lemma lookup_cuser_index:
  "lookup_cuser k d = map_option ((!) (dl_from d)) (find_index (\<lambda>u. same_name (cuser_nick u) k) (dl_from d))"
  by (simp add: lookup_cuser_def dl_find_def find_find_index)

lemma mode_user_spec:
  assumes named: "named_users (user_list chan)" and u: "lookup_cuser k (user_list chan) = Some u"
    and ms: "(if adding then add_mode c (cu_modes u) else Ok (del_mode c (cu_modes u))) = Ok ms"
  shows "\<exists>us. mode_user adding c (Some k) chan = Ok (chan\<lparr>user_list := us\<rparr>) \<and> named_users us \<and>
     (\<forall>l. lookup_cuser l us = (if same_name k l then Some (u\<lparr>cu_modes := ms\<rparr>) else lookup_cuser l (user_list chan)))"
proof -
  let ?d = "user_list chan"
  obtain i where i: "find_index (\<lambda>u. same_name (cuser_nick u) k) (dl_from ?d) = Some i" "u = dl_from ?d ! i"
    using u by (auto simp: lookup_cuser_index)
  have il: "i < length (dl_from ?d)" using find_index_Some [OF i(1)] by simp
  let ?us = "dl_update i (\<lambda>u. u\<lparr>cu_modes := ms\<rparr>) ?d"
  have "mode_user adding c (Some k) chan = Ok (chan\<lparr>user_list := ?us\<rparr>)"
    using find_cuser_index [OF named] i ms by (cases adding) (simp_all add: mode_user_def Let_def)
  moreover have "named_users ?us" using named_users_update [of "\<lambda>u. u\<lparr>cu_modes := ms\<rparr>", OF _ il named] by simp
  moreover have "lookup_cuser l ?us = (if same_name k l then Some (u\<lparr>cu_modes := ms\<rparr>) else lookup_cuser l ?d)" for l
    using lookup_cuser_update [of "\<lambda>u. u\<lparr>cu_modes := ms\<rparr>", OF _ il i(1)] i(2) by (simp add: cuser_nick_def)
  ultimately show ?thesis by blast
qed

lemma mode_user_absent:
  "named_users (user_list chan) \<Longrightarrow> lookup_cuser k (user_list chan) = None \<Longrightarrow> mode_user adding c (Some k) chan = Ok chan"
  by (simp add: mode_user_def find_cuser_index lookup_cuser_index)

lemma find_channel_index:
  "find_channel net (Some name) = Ok (find_index (\<lambda>c. same_name (ch_name c) name) (dl_from (n_chans net)))"
  by (simp add: find_channel_Some network_channel_find_index)

lemma lookup_set_chan:
  assumes "find_index (\<lambda>c. same_name (ch_name c) name) (dl_from (n_chans net)) = Some i" and "ch_name c = ch_name (chan_at net i)"
  shows "find_channel (set_chan i c net) (Some name) = Ok (Some i)" "chan_at (set_chan i c net) i = c"
proof -
  have i: "i < length (dl_from (n_chans net))" using find_index_Some [OF assms(1)] by simp
  have "find_index (\<lambda>c. same_name (ch_name c) name) ((dl_from (n_chans net))[i := (\<lambda>_. c) (dl_from (n_chans net) ! i)]) =
      find_index (\<lambda>c. same_name (ch_name c) name) (dl_from (n_chans net))"
    using assms(2) by (intro find_index_update) (simp add: chan_at_def)
  then show "find_channel (set_chan i c net) (Some name) = Ok (Some i)"
    using assms(1) by (simp add: find_channel_index set_chan_def dl_update_def)
  show "chan_at (set_chan i c net) i = c" using i by (simp add: chan_at_def set_chan_def dl_update_def)
qed

text \<open>A single letter with its argument.\<close>

lemma update_mode_one:
  assumes "find_index (\<lambda>c. same_name (ch_name c) name) (dl_from (n_chans net)) = Some i"
    and "named_users (user_list (chan_at net i))"
    and "lookup_cuser k (user_list (chan_at net i)) = Some u"
    and "c = CHR ''o'' \<or> c = CHR ''v''"
    and "c_params data = Some [name, [if adding then CHR ''+'' else CHR ''-'', c], k]"
    and "(if adding then add_mode c (cu_modes u) else Ok (del_mode c (cu_modes u))) = Ok ms"
  shows "\<exists>us. troll_trig_update_mode now net data = Ok (set_chan i ((chan_at net i)\<lparr>user_list := us\<rparr>) net) \<and>
     named_users us \<and>
     (\<forall>l. lookup_cuser l us =
        (if same_name k l then Some (u\<lparr>cu_modes := ms\<rparr>) else lookup_cuser l (user_list (chan_at net i))))"
proof -
  obtain us where us: "mode_user adding c (Some k) (chan_at net i) = Ok ((chan_at net i)\<lparr>user_list := us\<rparr>)"
      "named_users us"
      "\<forall>l. lookup_cuser l us = (if same_name k l then Some (u\<lparr>cu_modes := ms\<rparr>) else lookup_cuser l (user_list (chan_at net i)))"
    using mode_user_spec [OF assms(2,3,6)] by blast
  have a: "arr_get (c_params data) 0 = Ok (Some name)" "arr_str (c_params data) 1 = Ok [if adding then CHR ''+'' else CHR ''-'', c]"
      "arr_get (c_params data) 2 = Ok (Some k)"
    using assms(5) by (simp_all add: arr_str_def)
  have loop: "mode_loop now data True 0 chan [if adding then CHR ''+'' else CHR ''-'', c] = mode_user adding c (Some k) chan"
    for chan
    using a(3) assms(4) by (cases adding) (auto simp: numeral_2_eq_2)
  have "troll_trig_update_mode now net data = Ok (set_chan i ((chan_at net i)\<lparr>user_list := us\<rparr>) net)"
    unfolding troll_trig_update_mode_def a rbind.simps find_channel_index assms(1) option.case loop us(1) ..
  then show ?thesis using us by blast
qed

section \<open>What a nick change does\<close>

lemma find_None_all: "\<forall>x \<in> set xs. \<not> P x \<Longrightarrow> find P xs = None"
  by (simp add: find_None_iff)

text \<open>On a list where nobody else has the old nick or the new one, giving one record another nick.\<close>

lemma find_renamed:
  assumes xs: "xs = a @ u # b" and old: "same_name (cuser_nick u) old"
    and others_old: "\<forall>x \<in> set (a @ b). \<not> same_name (cuser_nick x) old"
    and others_new: "\<forall>x \<in> set (a @ b). \<not> same_name (cuser_nick x) new"
    and u': "cuser_nick u' = new"
  shows "find (\<lambda>x. same_name (cuser_nick x) l) (a @ u' # b) =
    (if same_name new l then Some u' else if same_name old l then None else find (\<lambda>x. same_name (cuser_nick x) l) xs)"
proof -
  let ?P = "\<lambda>x. same_name (cuser_nick x) l"
  consider "same_name new l" | "\<not> same_name new l" "same_name old l" | "\<not> same_name new l" "\<not> same_name old l" by blast
  then show ?thesis
  proof cases
    case 1
    then have "\<forall>x \<in> set a. \<not> ?P x" using others_new by (auto simp: same_name_iff)
    then show ?thesis using 1 u' by (simp add: find_append find_None_all)
  next
    case 2
    then have "\<forall>x \<in> set a. \<not> ?P x" "\<forall>x \<in> set b. \<not> ?P x" using others_old by (auto simp: same_name_iff)
    then show ?thesis using 2 u' by (simp add: find_append find_None_all)
  next
    case 3
    then have "\<not> ?P u" "\<not> ?P u'" using old u' by (auto simp: same_name_iff)
    then show ?thesis using 3 xs by (simp add: find_append split: option.split)
  qed
qed

lemma rename_cuser_spec:
  assumes ok: "chan_ok chan" and p: "prefix_of data = Some p" "pnick p = Some old" and r: "rest data = Some (new # ws)"
    and free: "lookup_cuser new (user_list chan) = None \<or> same_name old new"
  shows "\<exists>us. rename_cuser data chan = Ok (chan\<lparr>user_list := us\<rparr>) \<and> chan_ok (chan\<lparr>user_list := us\<rparr>) \<and>
    (\<forall>l. lookup_cuser l us =
       (case lookup_cuser old (user_list chan) of
          None \<Rightarrow> lookup_cuser l (user_list chan)
        | Some u \<Rightarrow> if same_name new l then Some (u\<lparr>cu_nick := Some new\<rparr>)
                    else if same_name old l then None else lookup_cuser l (user_list chan)))"
proof -
  let ?d = "user_list chan" and ?P = "\<lambda>l u. same_name (cuser_nick u) l"
  have named: "named_users ?d" and uniq: "cusers.unique_keys ?d" and wf: "dl_wf ?d"
    using ok by (simp_all add: chan_ok_def)
  show ?thesis
  proof (cases "find_index (?P old) (dl_from ?d)")
    case None
    then have "rename_cuser data chan = Ok chan" "lookup_cuser old ?d = None"
      using p find_cuser_index [OF named] by (simp_all add: rename_cuser_def lookup_cuser_index)
    then show ?thesis using ok by (intro exI [of _ ?d]) simp
  next
    case (Some i)
    let ?xs = "dl_from ?d"
    define u where "u = ?xs ! i"
    define a where "a = take i ?xs"
    define b where "b = drop (Suc i) ?xs"
    have i: "i < length ?xs" "?P old u" using find_index_Some [OF Some] by (simp_all add: u_def)
    have xs: "?xs = a @ u # b" using i(1) by (simp add: a_def b_def u_def id_take_nth_drop)
    let ?u = "u\<lparr>cu_nick := Some new\<rparr>"
    let ?us = "DList (dl_before ?d) (a @ ?u # b)"
    have upd: "dl_update i (\<lambda>u. u\<lparr>cu_nick := Some new\<rparr>) ?d = ?us"
      using i(1) by (simp add: dl_update_def a_def b_def u_def upd_conv_take_nth_drop)
    have ren: "rename_cuser data chan = Ok (chan\<lparr>user_list := ?us\<rparr>)"
      using p r Some find_cuser_index [OF named] upd by (simp add: rename_cuser_def)
    have srt: "sorted_wrt (\<lambda>v w. \<not> same_name (cuser_nick v) (cuser_nick w)) (a @ u # b)"
      using uniq by (simp add: cusers.unique_keys_def xs)
    have oo: "\<forall>x \<in> set (a @ b). \<not> same_name (cuser_nick x) old"
      using srt i(2) by (auto simp: sorted_wrt_append same_name_iff)
    have on: "\<forall>x \<in> set (a @ b). \<not> same_name (cuser_nick x) new"
    proof (cases "same_name old new")
      case True
      then show ?thesis using oo by (auto simp: same_name_iff)
    next
      case False
      then have "find (?P new) ?xs = None" using free by (simp add: lookup_cuser_def dl_find_def)
      then show ?thesis by (auto simp: xs find_None_iff)
    qed
    have look: "lookup_cuser l ?us =
        (if same_name new l then Some ?u else if same_name old l then None else lookup_cuser l ?d)" for l
      using find_renamed [OF xs i(2) oo on, of ?u l] by (simp add: lookup_cuser_def dl_find_def cuser_nick_def)
    have lu: "lookup_cuser old ?d = Some u" using Some by (simp add: lookup_cuser_index u_def)
    have "named_users ?us"
      using named xs by (cases ?d) (auto simp: named_users_def)
    moreover have "cusers.unique_keys ?us"
      using srt on by (auto simp: cusers.unique_keys_def sorted_wrt_append cuser_nick_def same_name_iff)
    moreover have "dl_wf ?us" by (simp add: dl_wf_def)
    ultimately show ?thesis
      using ren look lu by (intro exI [of _ ?us]) (simp add: chan_ok_def)
  qed
qed

lemma mapM_res_Ok_nth:
  "\<forall>x \<in> set xs. \<exists>y. f x = Ok y \<Longrightarrow>
   \<exists>ys. mapM_res f xs = Ok ys \<and> length ys = length xs \<and> (\<forall>i < length xs. f (xs ! i) = Ok (ys ! i))"
proof (induction xs)
  case (Cons x xs)
  then obtain y ys where "f x = Ok y" "mapM_res f xs = Ok ys" "length ys = length xs"
      "\<forall>i < length xs. f (xs ! i) = Ok (ys ! i)" by auto
  then show ?case by (intro exI [of _ "y # ys"]) (auto simp: nth_Cons split: nat.split)
qed simp

text \<open>On all channels at once.\<close>

lemma update_nick_spec:
  assumes "\<forall>c \<in> set (dl_from (n_chans net)). chan_ok c \<and> (lookup_cuser new (user_list c) = None \<or> same_name old new)"
    and p: "prefix_of data = Some p" "pnick p = Some old" and r: "rest data = Some (new # ws)"
  shows "\<exists>net'. troll_trig_update_nick net data = Ok net' \<and>
    length (dl_from (n_chans net')) = length (dl_from (n_chans net)) \<and>
    (\<forall>i < length (dl_from (n_chans net)).
       chan_ok (chan_at net' i) \<and> ch_name (chan_at net' i) = ch_name (chan_at net i) \<and>
       (\<forall>l. lookup_cuser l (user_list (chan_at net' i)) =
          (case lookup_cuser old (user_list (chan_at net i)) of
             None \<Rightarrow> lookup_cuser l (user_list (chan_at net i))
           | Some u \<Rightarrow> if same_name new l then Some (u\<lparr>cu_nick := Some new\<rparr>)
                       else if same_name old l then None else lookup_cuser l (user_list (chan_at net i)))))"
proof -
  let ?cs = "dl_from (n_chans net)"
  have each: "\<exists>us. rename_cuser data c = Ok (c\<lparr>user_list := us\<rparr>) \<and> chan_ok (c\<lparr>user_list := us\<rparr>) \<and>
      (\<forall>l. lookup_cuser l us =
       (case lookup_cuser old (user_list c) of
          None \<Rightarrow> lookup_cuser l (user_list c)
        | Some u \<Rightarrow> if same_name new l then Some (u\<lparr>cu_nick := Some new\<rparr>)
                    else if same_name old l then None else lookup_cuser l (user_list c)))" if "c \<in> set ?cs" for c
    using assms(1) that by (intro rename_cuser_spec [OF _ p r]) auto
  then obtain cs where cs: "mapM_res (rename_cuser data) ?cs = Ok cs" "length cs = length ?cs"
      "\<forall>i < length ?cs. rename_cuser data (?cs ! i) = Ok (cs ! i)"
    using mapM_res_Ok_nth [of ?cs "rename_cuser data"] by blast
  let ?net = "net\<lparr>n_chans := DList (dl_before (n_chans net)) cs\<rparr>"
  have "chan_ok (cs ! i) \<and> ch_name (cs ! i) = ch_name (?cs ! i) \<and>
      (\<forall>l. lookup_cuser l (user_list (cs ! i)) =
       (case lookup_cuser old (user_list (?cs ! i)) of
          None \<Rightarrow> lookup_cuser l (user_list (?cs ! i))
        | Some u \<Rightarrow> if same_name new l then Some (u\<lparr>cu_nick := Some new\<rparr>)
                    else if same_name old l then None else lookup_cuser l (user_list (?cs ! i))))"
    if i: "i < length ?cs" for i
  proof -
    obtain us where us: "rename_cuser data (?cs ! i) = Ok ((?cs ! i)\<lparr>user_list := us\<rparr>)"
        "chan_ok ((?cs ! i)\<lparr>user_list := us\<rparr>)"
        "\<forall>l. lookup_cuser l us =
          (case lookup_cuser old (user_list (?cs ! i)) of
             None \<Rightarrow> lookup_cuser l (user_list (?cs ! i))
           | Some u \<Rightarrow> if same_name new l then Some (u\<lparr>cu_nick := Some new\<rparr>)
                       else if same_name old l then None else lookup_cuser l (user_list (?cs ! i)))"
      using each [of "?cs ! i"] i nth_mem by blast
    then have "cs ! i = (?cs ! i)\<lparr>user_list := us\<rparr>" using cs(3) i by simp
    then show ?thesis using us(2,3) by simp
  qed
  moreover have "troll_trig_update_nick net data = Ok ?net" using cs(1) by (simp add: troll_trig_update_nick_def)
  ultimately show ?thesis
    using cs(2) unfolding chan_at_def by (intro exI [of _ ?net] conjI allI impI) simp_all
qed

end
