(* ===== verification/Egg_Lib.thy ===== *)
theory Egg_Lib
  imports Troll_Lib
begin

text \<open>
  \<^verbatim>\<open>src/src/egg_lib.c\<close>: the functions behind the script commands. They look up and change users,
  channels, bans, sessions, triggers and timers of a network. What only logs or prints is left out,
  as is what the code compiles only with \<open>CLOWNS\<close> defined.
\<close>

section \<open>Sending\<close>

text \<open>\<open>egg_putserv\<close>, \<open>egg_puthelp\<close> and \<open>egg_putquick\<close> are the same; the text is the format.\<close>

definition egg_putserv :: "network \<Rightarrow> string \<Rightarrow> network res" where
  "egg_putserv net s = rbind (fmt_text s) (tsocket_printf net)"

definition egg_puthelp :: "network \<Rightarrow> string \<Rightarrow> network res" where
  "egg_puthelp net s = rbind (fmt_text s) (tsocket_printf net)"

definition egg_putquick :: "network \<Rightarrow> string \<Rightarrow> network res" where
  "egg_putquick net s = rbind (fmt_text s) (tsocket_printf net)"

definition egg_putkick :: "network \<Rightarrow> cstr \<Rightarrow> cstr \<Rightarrow> cstr \<Rightarrow> network res" where
  "egg_putkick net chan nick_list reason =
     tsocket_printf net (''KICK '' @ fmt_s chan @ SPC # fmt_s nick_list @ '' :'' @ fmt_s reason)"

section \<open>Users\<close>

text \<open>A search with \<open>strcmp\<close>.\<close>

fun find_exact :: "('a \<Rightarrow> cstr) \<Rightarrow> cstr \<Rightarrow> 'a list \<Rightarrow> nat option res" where
  "find_exact key k [] = Ok None"
| "find_exact key k (x # xs) =
     rbind (strcmp_p k (key x)) (\<lambda>same.
       if same then Ok (Some 0) else rbind (find_exact key k xs) (\<lambda>m. Ok (map_option Suc m)))"

lemma find_exact_index:
  "\<forall>x \<in> set xs. key x \<noteq> None \<Longrightarrow> find_exact key (Some k) xs = Ok (find_index (\<lambda>x. key x = Some k) xs)"
  by (induction xs) (auto simp: strcmp_p_def)

definition egg_countusers :: "network \<Rightarrow> int" where
  "egg_countusers net = int (length (dl_from (n_users net)))"

definition egg_validuser :: "network \<Rightarrow> cstr \<Rightarrow> int res" where
  "egg_validuser net handle =
     rbind (find_exact username handle (dl_from (n_users net))) (\<lambda>m. Ok (if m = None then 0 else 1))"

definition egg_finduser :: "network \<Rightarrow> cstr \<Rightarrow> nat option" where
  "egg_finduser net m = find_index (\<lambda>u. troll_matchwilds (uhost u) m = 0) (dl_from (n_users net))"

definition egg_save :: "config \<Rightarrow> (string \<Rightarrow> bool) \<Rightarrow> network option \<Rightarrow> writes res option" where
  "egg_save cfg writable net =
     obind (users_save cfg writable net) (\<lambda>u.
     obind (chans_save cfg writable net) (\<lambda>c. Some (Ok (u @ c))))"

definition egg_makepasswd :: "config \<Rightarrow> cstr \<Rightarrow> cstr \<Rightarrow> cstr" where
  "egg_makepasswd cfg pass hash = (case c_crypto cfg of None \<Rightarrow> None | Some create_hash \<Rightarrow> create_hash pass hash)"

text \<open>A password that is missing, empty or \<open>-\<close> asks whether the user has one.\<close>

definition asks_only :: "cstr \<Rightarrow> bool" where
  "asks_only pass \<longleftrightarrow> pass = None \<or> pass = Some [] \<or> pass = Some ''-''"

definition passwd_matches :: "config \<Rightarrow> user \<Rightarrow> cstr \<Rightarrow> int res" where
  "passwd_matches cfg u pass =
     (if asks_only pass then Ok (if passhash u \<noteq> None then 1 else 0)
      else if hash_type u = None then Ok 0
      else (case egg_makepasswd cfg pass (hash_type u) of
              None \<Rightarrow> Ok 0
            | Some h \<Rightarrow> rbind (strcmp_p (passhash u) (Some h)) (\<lambda>same. Ok (if same then 1 else 0))))"

definition egg_passwdok :: "config \<Rightarrow> network \<Rightarrow> cstr \<Rightarrow> cstr \<Rightarrow> int res" where
  "egg_passwdok cfg net handle pass =
     rbind (find_exact username handle (dl_from (n_users net))) (\<lambda>m.
       case m of None \<Rightarrow> Ok 0 | Some i \<Rightarrow> passwd_matches cfg (dl_from (n_users net) ! i) pass)"

text \<open>The loop of \<open>egg_chhandle\<close>: the last user with the old name, \<open>None\<close> if the new one is taken.\<close>

fun chhandle_scan :: "cstr \<Rightarrow> cstr \<Rightarrow> nat \<Rightarrow> nat option \<Rightarrow> user list \<Rightarrow> nat option option res" where
  "chhandle_scan old new i olduser [] = Ok (Some olduser)"
| "chhandle_scan old new i olduser (u # us) =
     rbind (strcmp_p (username u) old) (\<lambda>is_old.
     rbind (strcmp_p (username u) new) (\<lambda>is_new.
       if is_new then Ok None
       else chhandle_scan old new (Suc i) (if is_old then Some i else olduser) us))"

definition egg_chhandle :: "network \<Rightarrow> cstr \<Rightarrow> cstr \<Rightarrow> (int \<times> network) res" where
  "egg_chhandle net old new =
     (if dl_from (n_users net) = [] \<or> old = None \<or> new = None then Ok (0, net)
      else rbind (chhandle_scan old new 0 None (dl_from (n_users net))) (\<lambda>r.
        Ok (case r of
              Some (Some i) \<Rightarrow> (1, net\<lparr>n_users := dl_update i (\<lambda>u. u\<lparr>username := new\<rparr>) (n_users net)\<rparr>)
            | _ \<Rightarrow> (0, net))))"

text \<open>The search starts at the first user of the list; with a channel the flags are not looked at.\<close>

definition egg_matchattr :: "network \<Rightarrow> cstr \<Rightarrow> cstr \<Rightarrow> cstr \<Rightarrow> int res" where
  "egg_matchattr net handle flags channel =
     rbind (dl_rewind (n_users net)) (\<lambda>users.
     rbind (find_ptr username handle (dl_from users)) (\<lambda>m.
       case m of
         None \<Rightarrow> Ok 0
       | Some i \<Rightarrow>
           if channel \<noteq> None then Ok 1
           else (case u_flags (dl_from users ! i) of
                   None \<Rightarrow> Ok 0
                 | Some fs \<Rightarrow> rbind (deref flags) (\<lambda>want.
                     Ok (if \<forall>c \<in> set want. strchr fs c \<noteq> None then 1 else 0)))))"

text \<open>
  The search for the name on the channels; \<open>cuser\<close> is never set if there is no channel.
\<close>

fun find_on_chans :: "string \<Rightarrow> channel list \<Rightarrow> channel_user option res" where
  "find_on_chans un [] = Ok None"
| "find_on_chans un (c # cs) =
     rbind (find_cased cu_nick un (dl_from (user_list c))) (\<lambda>m.
       case m of Some i \<Rightarrow> Ok (Some (dl_from (user_list c) ! i)) | None \<Rightarrow> find_on_chans un cs)"

definition added_user :: "cstr \<Rightarrow> cstr \<Rightarrow> network \<Rightarrow> channel_user option \<Rightarrow> user" where
  "added_user un hostmask net cuser =
     (case cuser of
        None \<Rightarrow> new_user un un None None None hostmask (default_flags net)
      | Some cu \<Rightarrow> new_user un (cu_nick cu) None (cu_ident cu) (cu_realname cu)
                    (if hostmask = None then cu_host cu else hostmask) (default_flags net))"

definition egg_adduser ::
  "config \<Rightarrow> (string \<Rightarrow> bool) \<Rightarrow> network \<Rightarrow> cstr \<Rightarrow> cstr \<Rightarrow> (int \<times> network \<times> writes) res option" where
  "egg_adduser cfg writable net un hostmask =
     (case un of
        None \<Rightarrow> Some (Ok (0, net, []))
      | Some name \<Rightarrow>
          obind (Some (network_user_find_by_username net name)) (\<lambda>m.
            if m \<noteq> None then Some (Ok (0, net, []))
            else if dl_from (n_chans net) = [] then Some (Fault Uninitialised)
            else obind (Some (find_on_chans name (dl_from (n_chans net)))) (\<lambda>cuser.
              let net' = net\<lparr>n_users := user_list_add (n_users net) (added_user un hostmask net cuser)\<rparr>
              in obind (users_save cfg writable (Some net')) (\<lambda>w. Some (Ok (1, net', w))))))"

text \<open>
  The record is taken out of the list and not freed. Sessions that are logged in as the user keep
  pointing to it; the model has only the positions of the others and is for the case without such
  sessions.
\<close>

definition session_after_del :: "nat \<Rightarrow> dcc_session \<Rightarrow> dcc_session" where
  "session_after_del i d = d\<lparr>d_user := map_option (\<lambda>j. if i < j then j - 1 else j) (d_user d)\<rparr>"

definition egg_deluser :: "network \<Rightarrow> cstr \<Rightarrow> (int \<times> network) res" where
  "egg_deluser net un =
     (case un of
        None \<Rightarrow> Ok (0, net)
      | Some name \<Rightarrow>
          rbind (network_user_find_by_username net name) (\<lambda>m.
            Ok (case m of
                  None \<Rightarrow> (0, net)
                | Some i \<Rightarrow>
                    (1, net\<lparr>n_users := user_list_del (n_users net) (Some i),
                            n_dccs := (case n_dccs net of DList a b \<Rightarrow>
                              let f = session_after_del (length (dl_before (n_users net)) + i)
                              in DList (map f a) (map f b))\<rparr>))))"

section \<open>What the functions establish\<close>

definition user_key :: "user \<Rightarrow> string" where
  "user_key u = (case username u of None \<Rightarrow> [] | Some n \<Rightarrow> n)"

definition lookup_user :: "string \<Rightarrow> user dlist \<Rightarrow> user option" where
  "lookup_user k d = dl_find (\<lambda>u. same_name (user_key u) k) d"

definition named_accounts :: "user list \<Rightarrow> bool" where
  "named_accounts us \<longleftrightarrow> (\<forall>u \<in> set us. username u \<noteq> None)"

interpretation accounts: keyed_list user_key same_name lookup_user user_list_add dl_from
  by unfold_locales (auto simp: same_name_iff lookup_user_def dl_find_def user_list_add_def)

lemma user_find_lookup:
  assumes "named_accounts (dl_from (n_users net))"
  shows "\<exists>m. network_user_find_by_username net k = Ok m \<and>
     map_option ((!) (dl_from (n_users net))) m = lookup_user k (n_users net)"
proof -
  have "find_index (\<lambda>u. same_name (the (username u)) k) (dl_from (n_users net)) =
      find_index (\<lambda>u. same_name (user_key u) k) (dl_from (n_users net))"
    using assms by (intro find_index_cong) (auto simp: named_accounts_def user_key_def)
  then show ?thesis
    using assms find_cased_index [of "dl_from (n_users net)" username k]
    by (simp add: network_user_find_by_username_def named_accounts_def lookup_user_def dl_find_def find_find_index)
qed

subsection \<open>Passwords\<close>

lemma passwdok_user:
  assumes "named_accounts (dl_from (n_users net))"
    and "find_index (\<lambda>u. username u = Some handle) (dl_from (n_users net)) = Some i"
  shows "egg_passwdok cfg net (Some handle) pass = passwd_matches cfg (dl_from (n_users net) ! i) pass"
  using assms find_exact_index [of "dl_from (n_users net)" username handle]
  by (simp add: egg_passwdok_def named_accounts_def)

lemma passwd_matches_iff:
  assumes "passhash u \<noteq> None"
  shows "passwd_matches cfg u pass =
    Ok (if asks_only pass \<or>
           (hash_type u \<noteq> None \<and> egg_makepasswd cfg pass (hash_type u) = passhash u)
        then 1 else 0)"
  using assms by (auto simp: passwd_matches_def strcmp_p_def split: option.splits)

lemma passwd_matches_unset:
  "passhash u = None \<Longrightarrow> asks_only pass \<Longrightarrow> passwd_matches cfg u pass = Ok 0"
  by (simp add: passwd_matches_def)

subsection \<open>Flags\<close>

lemma matchattr_global:
  assumes "dl_head (n_users net)" and "dl_from (n_users net) \<noteq> []" and "named_accounts (dl_from (n_users net))"
  shows "egg_matchattr net (Some handle) (Some want) None =
    Ok (case lookup_user handle (n_users net) of
          None \<Rightarrow> 0
        | Some u \<Rightarrow> (case u_flags u of None \<Rightarrow> 0 | Some fs \<Rightarrow> if set want \<subseteq> set fs then 1 else 0))"
proof -
  let ?us = "dl_from (n_users net)"
  have all: "dl_all (n_users net) = ?us" using assms(1) by (simp add: dl_all_def dl_head_def)
  have key: "find_index (\<lambda>u. same_name (the (username u)) handle) ?us = find_index (\<lambda>u. same_name (user_key u) handle) ?us"
    using assms(3) by (intro find_index_cong) (auto simp: named_accounts_def user_key_def)
  have "find_cased username handle ?us = Ok (find_index (\<lambda>u. same_name (user_key u) handle) ?us)"
    using find_cased_index [of ?us username handle] assms(3) key by (simp add: named_accounts_def)
  moreover have "(\<forall>c \<in> set want. strchr fs c \<noteq> None) = (set want \<subseteq> set fs)" for fs
    by (auto simp: strchr_None_iff subset_iff)
  ultimately show ?thesis
    using assms(2) all
    by (cases "find_index (\<lambda>u. same_name (user_key u) handle) ?us")
       (auto simp: egg_matchattr_def dl_rewind_def find_ptr_def lookup_user_def dl_find_def find_find_index
         split: option.splits)
qed

subsection \<open>Renaming\<close>

lemma chhandle_scan_spec:
  "named_accounts us \<Longrightarrow>
   chhandle_scan (Some old) (Some new) k acc us =
     Ok (if Some new \<in> username ` set us then None
         else Some (case find_index (\<lambda>u. username u = Some old) (rev us) of
                      None \<Rightarrow> acc | Some i \<Rightarrow> Some (k + (length us - Suc i))))"
proof (induction us arbitrary: k acc)
  case (Cons u us)
  then obtain n where n: "username u = Some n" by (auto simp: named_accounts_def)
  have IH: "chhandle_scan (Some old) (Some new) (Suc k) a us =
     Ok (if Some new \<in> username ` set us then None
         else Some (case find_index (\<lambda>u. username u = Some old) (rev us) of
                      None \<Rightarrow> a | Some i \<Rightarrow> Some (Suc k + (length us - Suc i))))" for a
    using Cons by (simp add: named_accounts_def)
  have app: "find_index P (xs @ [x]) = (case find_index P xs of None \<Rightarrow> (if P x then Some (length xs) else None) | Some i \<Rightarrow> Some i)"
    for P xs and x :: user
    by (induction xs) (auto split: option.splits)
  have less: "find_index P (rev us) = Some i \<Longrightarrow> i < length us" for P i
    using find_index_Some [of P "rev us" i] by simp
  show ?case
    using n less by (auto simp: IH app Suc_diff_Suc split: option.splits)
qed simp

lemma egg_chhandle_spec:
  assumes named: "named_accounts (dl_from (n_users net))" and dist: "distinct (map username (dl_from (n_users net)))"
  shows "\<exists>r net'. egg_chhandle net (Some old) (Some new) = Ok (r, net') \<and>
     (r = 1 \<longleftrightarrow> Some old \<in> username ` set (dl_from (n_users net)) \<and> Some new \<notin> username ` set (dl_from (n_users net))) \<and>
     (r \<noteq> 1 \<longrightarrow> net' = net) \<and>
     distinct (map username (dl_from (n_users net'))) \<and>
     (r = 1 \<longrightarrow> map username (dl_from (n_users net')) =
        map (\<lambda>n. if n = Some old then Some new else n) (map username (dl_from (n_users net))))"
proof -
  let ?us = "dl_from (n_users net)"
  have scan: "chhandle_scan (Some old) (Some new) 0 None ?us =
     Ok (if Some new \<in> username ` set ?us then None
         else Some (case find_index (\<lambda>u. username u = Some old) (rev ?us) of
                      None \<Rightarrow> None | Some i \<Rightarrow> Some (length ?us - Suc i)))"
    using chhandle_scan_spec [OF named, of old new 0 None] by (simp split: option.split)
  show ?thesis
  proof (cases "Some new \<notin> username ` set ?us \<and> (\<exists>i. find_index (\<lambda>u. username u = Some old) (rev ?us) = Some i)")
    case False
    then have "egg_chhandle net (Some old) (Some new) = Ok (0, net)"
      using scan by (auto simp: egg_chhandle_def split: option.splits)
    moreover have "\<not> (Some old \<in> username ` set ?us \<and> Some new \<notin> username ` set ?us)"
      using False find_index_None_iff [of "\<lambda>u. username u = Some old" "rev ?us"] by auto
    ultimately show ?thesis using dist by auto
  next
    case True
    then obtain i where i: "find_index (\<lambda>u. username u = Some old) (rev ?us) = Some i" by auto
    let ?j = "length ?us - Suc i"
    have il: "i < length ?us" "username (rev ?us ! i) = Some old" using find_index_Some [OF i] by auto
    then have j: "?j < length ?us" "username (?us ! ?j) = Some old" by (simp_all add: rev_nth)
    let ?net = "net\<lparr>n_users := dl_update ?j (\<lambda>u. u\<lparr>username := Some new\<rparr>) (n_users net)\<rparr>"
    have e: "egg_chhandle net (Some old) (Some new) = Ok (1, ?net)"
      using scan i True j(1) by (auto simp: egg_chhandle_def)
    have m: "map username (dl_from (n_users ?net)) = (map username ?us)[?j := Some new]"
      by (simp add: dl_update_def map_update)
    have d: "distinct ((map username ?us)[?j := Some new])"
      using dist True by (intro distinct_list_update) auto
    have r: "(map username ?us)[?j := Some new] = map (\<lambda>n. if n = Some old then Some new else n) (map username ?us)"
    proof (rule nth_equalityI)
      fix k assume k: "k < length ((map username ?us)[?j := Some new])"
      then have kl: "k < length ?us" by simp
      have "k \<noteq> ?j \<Longrightarrow> username (?us ! k) \<noteq> Some old"
        using dist j kl by (metis length_map nth_eq_iff_index_eq nth_map)
      then show "(map username ?us)[?j := Some new] ! k = map (\<lambda>n. if n = Some old then Some new else n) (map username ?us) ! k"
        using kl j by (cases "k = ?j") auto
    qed simp
    have "Some old \<in> username ` set ?us" using j by (metis image_eqI nth_mem)
    then show ?thesis using e m d r True by (intro exI [of _ 1] exI [of _ ?net]) simp
  qed
qed

subsection \<open>Adding\<close>

lemma added_user_fields:
  "username (added_user un hm net cu) = un" "u_flags (added_user un hm net cu) = default_flags net"
  "passhash (added_user un hm net cu) = None"
  by (simp_all add: added_user_def new_user_def split: option.split)

lemma egg_adduser_spec:
  assumes named: "named_accounts (dl_from (n_users net))" and uniq: "accounts.unique_keys (n_users net)"
    and add: "egg_adduser cfg writable net (Some un) hostmask = Some (Ok (r, net', w))"
  shows "accounts.unique_keys (n_users net') \<and> named_accounts (dl_from (n_users net')) \<and>
     (r = 1 \<longleftrightarrow> lookup_user un (n_users net) = None) \<and>
     (\<forall>k. lookup_user k (n_users net') =
        (if r = 1 \<and> same_name un k
         then Some (last (dl_from (n_users net'))) else lookup_user k (n_users net))) \<and>
     (r = 1 \<longrightarrow> username (last (dl_from (n_users net'))) = Some un \<and>
                u_flags (last (dl_from (n_users net'))) = default_flags net \<and>
                passhash (last (dl_from (n_users net'))) = None)"
proof -
  obtain m where m: "network_user_find_by_username net un = Ok m"
      "map_option ((!) (dl_from (n_users net))) m = lookup_user un (n_users net)"
    using user_find_lookup [OF named] by blast
  show ?thesis
  proof (cases m)
    case (Some i)
    then have "r = 0" "net' = net" using add m by (simp_all add: egg_adduser_def)
    moreover have "\<exists>u. lookup_user un (n_users net) = Some u" using m(2) Some by (metis option.simps(9))
    ultimately show ?thesis using assms by auto
  next
    case None
    then have none: "lookup_user un (n_users net) = None" using m by simp
    obtain cu where n': "n_users net' = user_list_add (n_users net) (added_user (Some un) hostmask net cu)" "r = 1"
      using add None m(1)
      by (cases "dl_from (n_chans net) = []"; cases "find_on_chans un (dl_from (n_chans net))")
         (auto simp: egg_adduser_def Let_def obind_def split: option.splits sum.splits)
    define u where "u = added_user (Some un) hostmask net cu"
    then have u: "username u = Some un" "u_flags u = default_flags net" "passhash u = None"
      and n': "n_users net' = user_list_add (n_users net) u" "r = 1"
      using n' by (simp_all add: added_user_fields)
    have key: "user_key u = un" using u by (simp add: user_key_def)
    have uk: "accounts.unique_keys (n_users net')"
      using accounts.unique_keys_add [OF uniq, of u] none key n' by simp
    have na: "named_accounts (dl_from (n_users net'))"
      using named u n' by (auto simp: named_accounts_def user_list_add_def)
    have lk: "lookup_user k (n_users net') = (if same_name un k then Some u else lookup_user k (n_users net))" for k
      using accounts.lookup_add [of k "n_users net" u] accounts.lookup_same [of un k "n_users net"] none key n'(1)
      by (auto split: option.split)
    have la: "last (dl_from (n_users net')) = u" using n'(1) by (simp add: user_list_add_def)
    show ?thesis using n'(2) none uk na lk la u by simp
  qed
qed

end
