(* ===== verification/Egg_Bind.thy ===== *)
theory Egg_Bind
  imports Egg_Lib
begin

text \<open>
  The part of \<^verbatim>\<open>src/src/egg_lib.c\<close> on triggers: adding them, taking them away and counting them.
\<close>

section \<open>The lists by name\<close>

fun tt_get :: "trig_type \<Rightarrow> trig_table \<Rightarrow> trigger dlist" where
  "tt_get TRIG_PUB tt = tt_pub tt"
| "tt_get TRIG_PUBM tt = tt_pubm tt"
| "tt_get TRIG_MSG tt = tt_msg tt"
| "tt_get TRIG_MSGM tt = tt_msgm tt"
| "tt_get TRIG_PART tt = tt_part tt"
| "tt_get TRIG_NOTC tt = tt_notc tt"
| "tt_get TRIG_JOIN tt = tt_join tt"
| "tt_get TRIG_SIGN tt = tt_sign tt"
| "tt_get TRIG_CTCP tt = tt_ctcp tt"
| "tt_get TRIG_KICK tt = tt_kick tt"
| "tt_get TRIG_DCC tt = tt_dcc tt"
| "tt_get TRIG_TOPC tt = tt_topc tt"
| "tt_get TRIG_RAW tt = tt_raw tt"

fun tt_put :: "trig_type \<Rightarrow> trigger dlist \<Rightarrow> trig_table \<Rightarrow> trig_table" where
  "tt_put TRIG_PUB d tt = tt\<lparr>tt_pub := d\<rparr>"
| "tt_put TRIG_PUBM d tt = tt\<lparr>tt_pubm := d\<rparr>"
| "tt_put TRIG_MSG d tt = tt\<lparr>tt_msg := d\<rparr>"
| "tt_put TRIG_MSGM d tt = tt\<lparr>tt_msgm := d\<rparr>"
| "tt_put TRIG_PART d tt = tt\<lparr>tt_part := d\<rparr>"
| "tt_put TRIG_NOTC d tt = tt\<lparr>tt_notc := d\<rparr>"
| "tt_put TRIG_JOIN d tt = tt\<lparr>tt_join := d\<rparr>"
| "tt_put TRIG_SIGN d tt = tt\<lparr>tt_sign := d\<rparr>"
| "tt_put TRIG_CTCP d tt = tt\<lparr>tt_ctcp := d\<rparr>"
| "tt_put TRIG_KICK d tt = tt\<lparr>tt_kick := d\<rparr>"
| "tt_put TRIG_DCC d tt = tt\<lparr>tt_dcc := d\<rparr>"
| "tt_put TRIG_TOPC d tt = tt\<lparr>tt_topc := d\<rparr>"
| "tt_put TRIG_RAW d tt = tt\<lparr>tt_raw := d\<rparr>"

lemma tt_get_put: "tt_get ty (tt_put ty' d tt) = (if ty = ty' then d else tt_get ty tt)"
  by (cases ty; cases ty'; simp)

text \<open>The names \<open>bind\<close> knows; the listing and \<open>unbind\<close> know fewer of them.\<close>

definition bind_names :: "(string \<times> trig_type) list" where
  "bind_names =
     [(''pub'', TRIG_PUB), (''pubm'', TRIG_PUBM), (''msg'', TRIG_MSG), (''msgm'', TRIG_MSGM),
      (''notc'', TRIG_NOTC), (''join'', TRIG_JOIN), (''part'', TRIG_PART), (''sign'', TRIG_SIGN),
      (''ctcp'', TRIG_CTCP), (''dcc'', TRIG_DCC), (''topc'', TRIG_TOPC), (''raw'', TRIG_RAW)]"

definition list_names :: "(string \<times> trig_type) list" where
  "list_names = filter (\<lambda>(n, ty). ty \<noteq> TRIG_SIGN) bind_names"

definition unbind_names :: "(string \<times> trig_type) list" where
  "unbind_names = filter (\<lambda>(n, ty). ty \<noteq> TRIG_SIGN \<and> ty \<noteq> TRIG_CTCP) bind_names"

definition type_named :: "(string \<times> trig_type) list \<Rightarrow> string \<Rightarrow> trig_type option" where
  "type_named names ty = map_option snd (find (\<lambda>(n, t). same_name n ty) names)"

section \<open>Adding\<close>

text \<open>
  Without a handler the triggers with the mask are to be listed. The first loop only reads the masks
  and leaves the pointer NULL, so the second loop finds nothing.
\<close>

definition bind_list :: "network \<Rightarrow> string \<Rightarrow> cstr \<Rightarrow> cstr list res" where
  "bind_list net ty m =
     (case type_named list_names ty of
        None \<Rightarrow> Ok []
      | Some t \<Rightarrow>
          rbind (mapM_res (\<lambda>trig. strcmp_p (t_mask trig) m) (dl_from (tt_get t (trigs net)))) (\<lambda>_. Ok []))"

definition find_mask :: "cstr \<Rightarrow> trigger dlist \<Rightarrow> nat option res" where
  "find_mask m d = find_ptr t_mask m (dl_from d)"

text \<open>A \<open>pubm\<close> trigger with the same mask and command.\<close>

fun has_bind :: "cstr \<Rightarrow> cstr \<Rightarrow> trigger list \<Rightarrow> bool res" where
  "has_bind m cmd [] = Ok False"
| "has_bind m cmd (t # ts) =
     rbind (tstrcasecmp_p (t_mask t) m) (\<lambda>r.
       if r = 0 then
         rbind (tstrcasecmp_p (t_cmd t) cmd) (\<lambda>q. if q = 0 then Ok True else has_bind m cmd ts)
       else has_bind m cmd ts)"

definition put_trigs :: "trig_type \<Rightarrow> trigger dlist \<Rightarrow> network \<Rightarrow> network" where
  "put_trigs t d net = net\<lparr>trigs := tt_put t d (trigs net)\<rparr>"

text \<open>
  The result is the strings of the array, with one slot left NULL for an unknown type, and \<open>None\<close> for
  NULL. The flags are not used: every trigger is made with the flags NULL.
\<close>

definition egg_bind ::
  "network \<Rightarrow> string \<Rightarrow> cstr \<Rightarrow> cstr \<Rightarrow> cstr \<Rightarrow> handler option \<Rightarrow> (cstr list option \<times> network) res" where
  "egg_bind net ty flags m cmd handler =
     (if handler = None then rbind (bind_list net ty m) (\<lambda>r. Ok (Some r, net))
      else
        (case type_named bind_names ty of
           None \<Rightarrow> Ok (Some [None], net)
         | Some t \<Rightarrow>
             (let d = tt_get t (trigs net); new = new_trigger None t m cmd handler in
              if t = TRIG_PUB \<or> t = TRIG_MSG then
                rbind (find_mask m d) (\<lambda>i.
                  let d' = (if i = None then d else trigger_list_del d i)
                  in Ok (Some [cmd], put_trigs t (trigger_list_add d' new) net))
              else if t = TRIG_PUBM then
                rbind (has_bind m cmd (dl_from d)) (\<lambda>dup.
                  if dup then Ok (None, net)
                  else Ok (Some [cmd], put_trigs t (trigger_list_add d new) net))
              else Ok (Some [cmd], put_trigs t (trigger_list_add d new) net))))"

section \<open>Taking away\<close>

fun find_bind :: "cstr \<Rightarrow> cstr \<Rightarrow> trigger list \<Rightarrow> nat option res" where
  "find_bind m cmd [] = Ok None"
| "find_bind m cmd (t # ts) =
     rbind (strcmp_p m (t_mask t)) (\<lambda>same.
       if same then
         rbind (tstrcasecmp_p cmd (t_cmd t)) (\<lambda>q.
           if q = 0 then Ok (Some 0) else rbind (find_bind m cmd ts) (\<lambda>i. Ok (map_option Suc i)))
       else rbind (find_bind m cmd ts) (\<lambda>i. Ok (map_option Suc i)))"

text \<open>What is given back is the mask, not the name of the command.\<close>

definition egg_unbind :: "network \<Rightarrow> string \<Rightarrow> cstr \<Rightarrow> cstr \<Rightarrow> cstr \<Rightarrow> (cstr \<times> network) res" where
  "egg_unbind net ty flags m cmd =
     (case type_named unbind_names ty of
        None \<Rightarrow> Ok (None, net)
      | Some t \<Rightarrow>
          (let d = tt_get t (trigs net) in
           rbind (find_bind m cmd (dl_from d)) (\<lambda>i.
             Ok (case i of
                   None \<Rightarrow> (None, net)
                 | Some j \<Rightarrow> (t_mask (dl_from d ! j), put_trigs t (trigger_list_del d (Some j)) net)))))"

section \<open>What binding does to the list\<close>

definition named_trigs :: "trigger list \<Rightarrow> bool" where
  "named_trigs ts \<longleftrightarrow> (\<forall>t \<in> set ts. t_mask t \<noteq> None)"

lemma find_mask_index:
  "named_trigs (dl_from d) \<Longrightarrow> find_mask (Some m) d = Ok (find_index (\<lambda>t. same_name (the (t_mask t)) m) (dl_from d))"
  by (auto simp: find_mask_def find_ptr_def named_trigs_def find_cased_index)

lemma find_index_append_skip:
  "\<forall>x \<in> set a. \<not> P x \<Longrightarrow> find_index P (a @ b) = map_option ((+) (length a)) (find_index P b)"
  by (induction a; cases "find_index P b") auto

lemma dl_from_del_middle:
  "dl_from d = a @ p # old # b \<Longrightarrow> dl_from (dl_del d (Some (Suc (length a)))) = p # b"
  by (simp add: dl_del_def)

lemma dl_from_del_head:
  "dl_before d = [] \<Longrightarrow> dl_from d = old # b \<Longrightarrow> dl_from (dl_del d (Some 0)) = b"
  by (simp add: dl_del_def)

lemma from_trigger_list_add [simp]: "dl_from (trigger_list_add d t) = dl_from d @ [t]"
  by (simp add: trigger_list_add_def)

lemma from_trigger_list_del: "dl_from d \<noteq> [] \<Longrightarrow> trigger_list_del d i = dl_del d i"
  by (simp add: trigger_list_del_def)

text \<open>A mask that is not bound is added at the end; a bound one takes all but one trigger before it along.\<close>

lemma egg_bind_unstackable:
  assumes ty: "type_named bind_names ty = Some t" and t: "t = TRIG_PUB \<or> t = TRIG_MSG"
    and named: "named_trigs (dl_from (tt_get t (trigs net)))"
    and new: "new = new_trigger None t (Some m) cmd (Some h)"
  shows
    "(\<forall>x \<in> set (dl_from (tt_get t (trigs net))). \<not> same_name (the (t_mask x)) m) \<Longrightarrow>
     \<exists>net'. egg_bind net ty flags (Some m) cmd (Some h) = Ok (Some [cmd], net') \<and>
       dl_from (tt_get t (trigs net')) = dl_from (tt_get t (trigs net)) @ [new]"
    "dl_from (tt_get t (trigs net)) = a @ p # old # b \<Longrightarrow>
     \<forall>x \<in> set (a @ [p]). \<not> same_name (the (t_mask x)) m \<Longrightarrow> same_name (the (t_mask old)) m \<Longrightarrow>
     \<exists>net'. egg_bind net ty flags (Some m) cmd (Some h) = Ok (Some [cmd], net') \<and>
       dl_from (tt_get t (trigs net')) = p # b @ [new]"
proof -
  let ?d = "tt_get t (trigs net)" and ?P = "\<lambda>x. same_name (the (t_mask x)) m"
  have find: "find_mask (Some m) ?d = Ok (find_index ?P (dl_from ?d))"
    by (rule find_mask_index [OF named])
  have bind: "egg_bind net ty flags (Some m) cmd (Some h) =
      Ok (Some [cmd], put_trigs t (trigger_list_add
        (if find_index ?P (dl_from ?d) = None then ?d else trigger_list_del ?d (find_index ?P (dl_from ?d))) new) net)"
    using ty t find by (simp add: egg_bind_def new Let_def)
  {
    assume "\<forall>x \<in> set (dl_from ?d). \<not> ?P x"
    then have "find_index ?P (dl_from ?d) = None" by (simp add: find_index_None_iff)
    with bind show "\<exists>net'. egg_bind net ty flags (Some m) cmd (Some h) = Ok (Some [cmd], net') \<and>
       dl_from (tt_get t (trigs net')) = dl_from ?d @ [new]"
      by (simp add: put_trigs_def tt_get_put)
  next
    assume l: "dl_from ?d = a @ p # old # b" and a: "\<forall>x \<in> set (a @ [p]). \<not> ?P x" and o: "?P old"
    have "find_index ?P (dl_from ?d) = Some (Suc (length a))"
      using find_index_append_skip [OF a, of "old # b"] o l by simp
    with bind l show "\<exists>net'. egg_bind net ty flags (Some m) cmd (Some h) = Ok (Some [cmd], net') \<and>
       dl_from (tt_get t (trigs net')) = p # b @ [new]"
      by (simp add: put_trigs_def tt_get_put from_trigger_list_del dl_from_del_middle)
  }
qed

text \<open>Binding a new command on a stackable type and taking it away again leaves the last trigger only.\<close>

lemma find_bind_new:
  assumes "named_trigs ts" and "\<forall>x \<in> set ts. t_mask x \<noteq> Some m" and "t_mask new = Some m" and "t_cmd new = Some c"
  shows "find_bind (Some m) (Some c) (ts @ [new]) = Ok (Some (length ts))"
  using assms(1,2)
proof (induction ts)
  case Nil
  then show ?case using assms(3,4) by simp
next
  case (Cons x ts)
  then obtain k where k: "t_mask x = Some k" by (auto simp: named_trigs_def)
  moreover have "k \<noteq> m" using Cons.prems(2) k by auto
  ultimately show ?case using Cons by (auto simp: named_trigs_def)
qed

lemma bind_unbind:
  assumes ty: "type_named bind_names ty = Some t" "type_named unbind_names ty = Some t"
    and t: "t \<noteq> TRIG_PUB" "t \<noteq> TRIG_MSG" "t \<noteq> TRIG_PUBM"
    and named: "named_trigs (dl_from (tt_get t (trigs net)))"
    and fresh: "\<forall>x \<in> set (dl_from (tt_get t (trigs net))). t_mask x \<noteq> Some m"
    and l: "dl_from (tt_get t (trigs net)) = xs @ [p]"
  shows "\<exists>net1 net2. egg_bind net ty flags (Some m) (Some c) (Some h) = Ok (Some [Some c], net1) \<and>
     dl_from (tt_get t (trigs net1)) = xs @ [p, new_trigger None t (Some m) (Some c) (Some h)] \<and>
     egg_unbind net1 ty flags (Some m) (Some c) = Ok (Some m, net2) \<and>
     dl_from (tt_get t (trigs net2)) = [p]"
proof -
  let ?new = "new_trigger None t (Some m) (Some c) (Some h)"
  let ?d = "tt_get t (trigs net)"
  define net1 where "net1 = put_trigs t (trigger_list_add ?d ?new) net"
  have d1: "tt_get t (trigs net1) = trigger_list_add ?d ?new"
    by (simp add: net1_def put_trigs_def tt_get_put)
  then have f1: "dl_from (tt_get t (trigs net1)) = xs @ [p, ?new]" using l by simp
  have b: "egg_bind net ty flags (Some m) (Some c) (Some h) = Ok (Some [Some c], net1)"
    using ty t by (simp add: egg_bind_def Let_def net1_def)
  have f: "find_bind (Some m) (Some c) (dl_from (tt_get t (trigs net1))) = Ok (Some (Suc (length xs)))"
    using find_bind_new [OF named fresh, of ?new] l d1 by (simp add: new_trigger_def)
  have "dl_from (trigger_list_del (tt_get t (trigs net1)) (Some (Suc (length xs)))) = [p]"
    using dl_from_del_middle [of "tt_get t (trigs net1)" xs p ?new "[]"] f1 by (simp add: from_trigger_list_del)
  moreover have "t_mask (dl_from (tt_get t (trigs net1)) ! Suc (length xs)) = Some m"
    using f1 by (simp add: nth_append new_trigger_def)
  moreover define net2 where
    "net2 = put_trigs t (trigger_list_del (tt_get t (trigs net1)) (Some (Suc (length xs)))) net1"
  ultimately have "egg_unbind net1 ty flags (Some m) (Some c) = Ok (Some m, net2)"
      "dl_from (tt_get t (trigs net2)) = [p]"
    using f ty(2) by (simp_all add: egg_unbind_def Let_def put_trigs_def tt_get_put)
  then show ?thesis using b f1 by (intro exI [of _ net1] exI [of _ net2]) simp
qed

section \<open>Counting\<close>

text \<open>
  \<open>egg_binds\<close> prints how many triggers it found and gives NULL. The texts are the triggers' masks and
  the names of their lists, the pattern is the argument.
\<close>

definition binds_lists :: "trig_table \<Rightarrow> (string \<times> trigger dlist) list" where
  "binds_lists tt =
     [(''pub'', tt_pub tt), (''pubm'', tt_pubm tt), (''msg'', tt_msg tt), (''msgm'', tt_msgm tt),
      (''part'', tt_part tt), (''join'', tt_join tt), (''sign'', tt_sign tt), (''ctcp'', tt_ctcp tt),
      (''kick'', tt_kick tt), (''notc'', tt_notc tt), (''dcc'', tt_dcc tt), (''raw'', tt_raw tt),
      (''topc'', tt_topc tt)]"

definition counted :: "cstr \<Rightarrow> string \<Rightarrow> trigger \<Rightarrow> bool" where
  "counted m name t \<longleftrightarrow> m = None \<or> troll_matchwilds (t_mask t) m = 0 \<or> troll_matchwilds (Some name) m = 0"

definition egg_binds :: "network \<Rightarrow> cstr \<Rightarrow> nat" where
  "egg_binds net m =
     sum_list (map (\<lambda>(name, d). length (filter (counted m name) (dl_from d))) (binds_lists (trigs net)))"

lemma egg_binds_all: "egg_binds net None = length (concat (map (dl_from \<circ> snd) (binds_lists (trigs net))))"
  by (simp add: egg_binds_def counted_def binds_lists_def)

end
