(* ===== verification/Egg_Chan.thy ===== *)
theory Egg_Chan
  imports Egg_Lib
begin

text \<open>
  The part of \<^verbatim>\<open>src/src/egg_lib.c\<close> on channels, bans, the nicks on a channel, DCC sessions and timers.
\<close>

section \<open>Bans\<close>

definition no_text :: "cstr \<Rightarrow> bool" where
  "no_text s \<longleftrightarrow> s = None \<or> s = Some []"

text \<open>Where a channel is, and where in its list a ban is.\<close>

definition find_ban :: "network \<Rightarrow> cstr \<Rightarrow> cstr \<Rightarrow> (nat \<times> nat) option res" where
  "find_ban net ban chan =
     rbind (find_channel net chan) (\<lambda>m.
       case m of
         None \<Rightarrow> Ok None
       | Some i \<Rightarrow>
           rbind (find_ptr cb_mask ban (dl_from (banlist (chan_at net i)))) (\<lambda>b.
             Ok (map_option (\<lambda>j. (i, j)) b)))"

definition ban_at :: "network \<Rightarrow> nat \<times> nat \<Rightarrow> channel_ban" where
  "ban_at net ij = dl_from (banlist (chan_at net (fst ij))) ! snd ij"

text \<open>
  \<open>egg_newchanban\<close> looks for \<open>-1\<close> in the new record, where the lifetime is still 0, so the argument is
  always used as it is; it is added to the time without a conversion.
\<close>

definition egg_newchanban :: "int \<Rightarrow> network \<Rightarrow> cstr \<Rightarrow> cstr \<Rightarrow> cstr \<Rightarrow> cstr \<Rightarrow> int \<Rightarrow> network res" where
  "egg_newchanban now net chan ban who comment life =
     (if no_text chan \<or> no_text ban \<or> no_text who \<or> no_text comment then Ok net
      else rbind (find_channel net chan) (\<lambda>m.
        case m of
          None \<Rightarrow> Ok net
        | Some i \<Rightarrow>
            rbind (find_ptr cb_mask ban (dl_from (banlist (chan_at net i)))) (\<lambda>b.
              if b \<noteq> None then Ok net
              else
                (let cban0 = channel_ban_new\<lparr>cb_chan := chan, cb_mask := ban, cb_who := who, cb_comment := comment\<rparr>;
                     cban1 = cban0\<lparr>lifetime := (if lifetime cban0 \<noteq> -1 then life else 60)\<rparr>;
                     cban = cban1\<lparr>expire_time := now + lifetime cban1\<rparr>;
                     c = chan_at net i
                 in tsocket_printf (set_chan i (c\<lparr>banlist := channel_ban_add (banlist c) cban\<rparr>) net)
                      (''MODE '' @ fmt_s chan @ '' +b '' @ fmt_s ban)))))"

definition set_sticky :: "int \<Rightarrow> network \<Rightarrow> cstr \<Rightarrow> cstr \<Rightarrow> (int \<times> network) res" where
  "set_sticky v net ban chan =
     (if no_text chan then Ok (0, net)
      else rbind (find_ban net ban chan) (\<lambda>m.
        Ok (case m of
              None \<Rightarrow> (0, net)
            | Some (i, j) \<Rightarrow>
                (let c = chan_at net i in
                 (1, set_chan i (c\<lparr>banlist := dl_update j (\<lambda>b. b\<lparr>is_sticky := v\<rparr>) (banlist c)\<rparr>) net)))))"

definition egg_stick :: "network \<Rightarrow> cstr \<Rightarrow> cstr \<Rightarrow> (int \<times> network) res" where
  "egg_stick net ban chan = set_sticky 1 net ban chan"

definition egg_unstick :: "network \<Rightarrow> cstr \<Rightarrow> cstr \<Rightarrow> (int \<times> network) res" where
  "egg_unstick net ban chan = set_sticky 0 net ban chan"

definition ask_ban :: "(channel_ban \<Rightarrow> int) \<Rightarrow> network \<Rightarrow> cstr \<Rightarrow> cstr \<Rightarrow> int res" where
  "ask_ban f net ban chan =
     rbind (find_ban net ban chan) (\<lambda>m. Ok (case m of None \<Rightarrow> 0 | Some ij \<Rightarrow> f (ban_at net ij)))"

definition egg_isban :: "network \<Rightarrow> cstr \<Rightarrow> cstr \<Rightarrow> int res" where
  "egg_isban net ban chan = (if no_text chan then Ok 0 else ask_ban (\<lambda>b. 1) net ban chan)"

definition egg_ispermban :: "network \<Rightarrow> cstr \<Rightarrow> cstr \<Rightarrow> int res" where
  "egg_ispermban net ban chan = (if no_text chan then Ok 0 else ask_ban is_perm net ban chan)"

definition egg_isbansticky :: "network \<Rightarrow> cstr \<Rightarrow> cstr \<Rightarrow> int res" where
  "egg_isbansticky net ban chan = (if no_text chan then Ok 0 else ask_ban is_sticky net ban chan)"

definition egg_ischanban :: "network \<Rightarrow> cstr \<Rightarrow> cstr \<Rightarrow> int res" where
  "egg_ischanban net ban chan = ask_ban (\<lambda>b. 1) net ban chan"

text \<open>
  The list of \<open>mask who age\<close> lines, NULL if there is no such channel. \<open>age\<close> has room for 19 digits.
  The array is allocated with \<open>chanbans_alloc\<close> bytes.
\<close>

definition chanbans_alloc :: "nat \<Rightarrow> nat" where
  "chanbans_alloc n = 8 * n + 1"

definition ban_line :: "int \<Rightarrow> channel_ban \<Rightarrow> string res" where
  "ban_line now b =
     rbind (deref (cb_mask b)) (\<lambda>m.
     rbind (deref (cb_who b)) (\<lambda>w.
       Ok (m @ SPC # w @ SPC # take 19 (show_int (sint (word_of_int (now - cb_time b) :: 32 word))))))"

definition egg_chanbans :: "int \<Rightarrow> network \<Rightarrow> cstr \<Rightarrow> string list option res" where
  "egg_chanbans now net chan =
     rbind (find_channel net chan) (\<lambda>m.
       case m of
         None \<Rightarrow> Ok None
       | Some i \<Rightarrow> rbind (mapM_res (ban_line now) (dl_from (banlist (chan_at net i)))) (\<lambda>ls. Ok (Some ls)))"

section \<open>Channels\<close>

text \<open>The result is a pointer to the string of names, from the first channel on.\<close>

definition egg_channels :: "network \<Rightarrow> string res" where
  "egg_channels net = rbind (dl_rewind (n_chans net)) (\<lambda>d. Ok (join_blank (map ch_name (dl_from d))))"

definition egg_getchanmode :: "network \<Rightarrow> cstr \<Rightarrow> cstr res" where
  "egg_getchanmode net chan =
     rbind (find_channel net chan) (\<lambda>m. Ok (case m of None \<Rightarrow> None | Some i \<Rightarrow> chanmode (chan_at net i)))"

definition egg_topic :: "network option \<Rightarrow> cstr \<Rightarrow> cstr res" where
  "egg_topic net chan =
     (case net of
        None \<Rightarrow> Ok (Some [])
      | Some n \<Rightarrow>
          rbind (find_channel n chan) (\<lambda>m. Ok (case m of None \<Rightarrow> Some [] | Some i \<Rightarrow> topic (chan_at n i))))"

section \<open>Nicks\<close>

definition egg_botnick :: "network \<Rightarrow> cstr" where
  "egg_botnick net = botnick net"

definition egg_isbotnick :: "network \<Rightarrow> cstr \<Rightarrow> int res" where
  "egg_isbotnick net k = rbind (tstrcasecmp_p (botnick net) k) (\<lambda>r. Ok (if r = 0 then 1 else 0))"

definition egg_botname :: "network \<Rightarrow> string res" where
  "egg_botname net =
     rbind (deref (nick net)) (\<lambda>n. rbind (deref (n_ident net)) (\<lambda>i. rbind (deref (shost net)) (\<lambda>h.
       Ok (n @ CHR ''!'' # i @ CHR ''@'' # h))))"

text \<open>Whether somebody has a mode on a channel; without a channel, on one of those from the pointer on.\<close>

definition has_mode :: "char \<Rightarrow> cstr \<Rightarrow> channel \<Rightarrow> bool res" where
  "has_mode c k chan =
     rbind (find_cuser chan k) (\<lambda>m.
       Ok (case m of
             None \<Rightarrow> False
           | Some i \<Rightarrow> (case cu_modes (dl_from (user_list chan) ! i) of
                         None \<Rightarrow> False | Some s \<Rightarrow> strchr s c \<noteq> None)))"

fun any_chan :: "(channel \<Rightarrow> bool res) \<Rightarrow> channel list \<Rightarrow> bool res" where
  "any_chan p [] = Ok False"
| "any_chan p (c # cs) = rbind (p c) (\<lambda>b. if b then Ok True else any_chan p cs)"

definition with_mode :: "char \<Rightarrow> network \<Rightarrow> cstr \<Rightarrow> cstr \<Rightarrow> int res" where
  "with_mode c net k chan =
     (if no_text chan then
        rbind (any_chan (has_mode c k) (dl_from (n_chans net))) (\<lambda>b. Ok (if b then 1 else 0))
      else rbind (find_channel net chan) (\<lambda>m.
        case m of
          None \<Rightarrow> Ok 0
        | Some i \<Rightarrow> rbind (has_mode c k (chan_at net i)) (\<lambda>b. Ok (if b then 1 else 0))))"

definition egg_isop :: "network \<Rightarrow> cstr \<Rightarrow> cstr \<Rightarrow> int res" where
  "egg_isop net k chan = with_mode (CHR ''o'') net k chan"

definition egg_isvoice :: "network \<Rightarrow> cstr \<Rightarrow> cstr \<Rightarrow> int res" where
  "egg_isvoice net k chan = with_mode (CHR ''v'') net k chan"

text \<open>\<open>egg_onchan\<close> goes back to the first channel and compares the names the other way round.\<close>

definition on_chan :: "cstr \<Rightarrow> channel \<Rightarrow> bool res" where
  "on_chan k chan = rbind (find_cuser chan k) (\<lambda>m. Ok (m \<noteq> None))"

definition egg_onchan :: "network option \<Rightarrow> cstr \<Rightarrow> cstr \<Rightarrow> int res" where
  "egg_onchan net k chan =
     (case net of
        None \<Rightarrow> Ok 0
      | Some n \<Rightarrow>
          if dl_from (n_chans n) = [] then Ok 0
          else if no_text chan then
            rbind (any_chan (on_chan k) (dl_all (n_chans n))) (\<lambda>b. Ok (if b then 1 else 0))
          else
            (case find_index (\<lambda>c. same_name (the chan) (ch_name c)) (dl_all (n_chans n)) of
               None \<Rightarrow> Ok 0
             | Some i \<Rightarrow> rbind (on_chan k (dl_all (n_chans n) ! i)) (\<lambda>b. Ok (if b then 1 else 0))))"

definition egg_botisop :: "network \<Rightarrow> cstr \<Rightarrow> int res" where
  "egg_botisop net chan = egg_isop net (egg_botnick net) chan"

definition egg_botisvoice :: "network \<Rightarrow> cstr \<Rightarrow> cstr \<Rightarrow> int res" where
  "egg_botisvoice net k chan = egg_isvoice net (egg_botnick net) chan"

definition egg_botonchan :: "network \<Rightarrow> cstr \<Rightarrow> cstr \<Rightarrow> int res" where
  "egg_botonchan net k chan = egg_onchan (Some net) (egg_botnick net) chan"

section \<open>Sessions\<close>

definition session_printf :: "nat \<Rightarrow> string \<Rightarrow> network \<Rightarrow> network" where
  "session_printf i s net = net\<lparr>n_dccs := dl_update i (\<lambda>d. irc_printf d s) (n_dccs net)\<rparr>"

definition egg_putdcc :: "network \<Rightarrow> int \<Rightarrow> string \<Rightarrow> network res" where
  "egg_putdcc net idx s =
     (case find_index (\<lambda>d. d_id d = idx) (dl_from (n_dccs net)) of
        None \<Rightarrow> Ok net
      | Some i \<Rightarrow> rbind (fmt_text s) (\<lambda>out. Ok (session_printf i out net)))"

definition egg_dccbroadcast :: "network \<Rightarrow> string \<Rightarrow> network res" where
  "egg_dccbroadcast net s =
     (if \<exists>d \<in> set (dl_from (n_dccs net)). d_status d \<ge> DCC_NOTREADY then
        rbind (fmt_text s) (\<lambda>out.
          Ok (net\<lparr>n_dccs := DList (dl_before (n_dccs net))
                   (map (\<lambda>d. if d_status d \<ge> DCC_NOTREADY then irc_printf d out else d) (dl_from (n_dccs net)))\<rparr>))
      else Ok net)"

text \<open>The user of a session is one of all the users of the network.\<close>

definition session_user :: "network \<Rightarrow> dcc_session \<Rightarrow> user option" where
  "session_user net d = map_option ((!) (dl_all (n_users net))) (d_user d)"

fun hand2idx :: "network \<Rightarrow> cstr \<Rightarrow> dcc_session list \<Rightarrow> int res" where
  "hand2idx net handle [] = Ok 0"
| "hand2idx net handle (d # ds) =
     (if d_status d \<ge> DCC_NOTREADY \<and> d_user d \<noteq> None then
        rbind (strcmp_p (username (the (session_user net d))) handle) (\<lambda>same.
          if same then Ok (d_id d) else hand2idx net handle ds)
      else hand2idx net handle ds)"

definition egg_hand2idx :: "network \<Rightarrow> cstr \<Rightarrow> int res" where
  "egg_hand2idx net handle = hand2idx net handle (dl_from (n_dccs net))"

text \<open>\<open>idx\<close> is not looked at: the user of the first session that is ready is given.\<close>

definition egg_idx2hand :: "network \<Rightarrow> int \<Rightarrow> nat option" where
  "egg_idx2hand net idx =
     (case find (\<lambda>d. d_status d \<ge> DCC_NOTREADY) (dl_from (n_dccs net)) of None \<Rightarrow> None | Some d \<Rightarrow> d_user d)"

definition egg_valididx :: "network \<Rightarrow> int \<Rightarrow> int" where
  "egg_valididx net idx =
     (if \<exists>d \<in> set (dl_from (n_dccs net)). d_id d = idx \<and> d_status d \<ge> DCC_NOTREADY then 1 else 0)"

section \<open>Timers and the rest\<close>

text \<open>\<open>egg_timer\<close> does not set the timer's network.\<close>

definition egg_utimer :: "int \<Rightarrow> network \<Rightarrow> int \<Rightarrow> cstr \<Rightarrow> nat option \<Rightarrow> int \<times> network" where
  "egg_utimer now net seconds cmd handler =
     (-1, net\<lparr>timers := t_timer_add (timers net)
             (t_timer_new\<lparr>time_set := now, time_trig := now + seconds, t_command := cmd, t_handler := handler,
                          t_net := n_label net\<rparr>)\<rparr>)"

definition egg_timer :: "int \<Rightarrow> network \<Rightarrow> int \<Rightarrow> cstr \<Rightarrow> nat option \<Rightarrow> int \<times> network" where
  "egg_timer now net minutes cmd handler =
     (-1, net\<lparr>timers := t_timer_add (timers net)
             (t_timer_new\<lparr>time_set := now, time_trig := now + 60 * minutes, t_command := cmd,
                          t_handler := handler\<rparr>)\<rparr>)"

definition egg_encpass :: "config \<Rightarrow> cstr \<Rightarrow> cstr" where
  "egg_encpass cfg pass = egg_makepasswd cfg pass (c_hash_type cfg)"

definition egg_savechannels :: "config \<Rightarrow> (string \<Rightarrow> bool) \<Rightarrow> network option \<Rightarrow> writes res option" where
  "egg_savechannels cfg writable net = chans_save cfg writable net"

text \<open>Every network from the pointer on is told; the process then ends with status 0.\<close>

definition egg_die :: "config \<Rightarrow> cstr \<Rightarrow> config res" where
  "egg_die cfg reason =
     rbind (mapM_res (\<lambda>n. tsocket_printf n (case reason of None \<Rightarrow> ''QUIT'' | Some r \<Rightarrow> ''QUIT :'' @ r))
              (dl_from (networks cfg))) (\<lambda>ns.
       Ok (cfg\<lparr>networks := DList (dl_before (networks cfg)) ns\<rparr>))"

section \<open>What the questions answer\<close>

lemma has_mode_lookup:
  "named_users (user_list chan) \<Longrightarrow>
   has_mode c (Some k) chan =
     Ok (case lookup_cuser k (user_list chan) of None \<Rightarrow> False | Some u \<Rightarrow> c \<in> mode_set (cu_modes u))"
  by (cases "find_index (\<lambda>u. same_name (cuser_nick u) k) (dl_from (user_list chan))")
     (simp_all add: has_mode_def find_cuser_index lookup_cuser_index mode_set_def strchr_None_iff split: option.split)

lemma with_mode_lookup:
  assumes "find_index (\<lambda>c. same_name (ch_name c) name) (dl_from (n_chans net)) = Some i" and "name \<noteq> []"
    and "named_users (user_list (chan_at net i))"
  shows "with_mode c net (Some k) (Some name) =
    Ok (case lookup_cuser k (user_list (chan_at net i)) of
          None \<Rightarrow> 0 | Some u \<Rightarrow> if c \<in> mode_set (cu_modes u) then 1 else 0)"
  using assms
  by (simp add: with_mode_def no_text_def find_channel_index has_mode_lookup split: option.split)

text \<open>After the server has said that somebody got or lost a mode, the question is answered accordingly.\<close>

lemma mode_then_asked:
  assumes i: "find_index (\<lambda>c. same_name (ch_name c) name) (dl_from (n_chans net)) = Some i" and "name \<noteq> []"
    and named: "named_users (user_list (chan_at net i))"
    and u: "lookup_cuser k (user_list (chan_at net i)) = Some u" and ok: "modes_ok (cu_modes u)"
    and c: "c = CHR ''o'' \<or> c = CHR ''v''"
    and d: "c_params data = Some [name, [if adding then CHR ''+'' else CHR ''-'', c], k]"
  shows "\<exists>net'. troll_trig_update_mode now net data = Ok net' \<and>
    with_mode c net' (Some k) (Some name) = Ok (if adding then 1 else 0) \<and>
    (\<forall>e l. \<not> same_name k l \<longrightarrow> with_mode e net' (Some l) (Some name) = with_mode e net (Some l) (Some name))"
proof -
  have nb: "c \<noteq> SPC" using c by auto
  obtain ms where ms: "(if adding then add_mode c (cu_modes u) else Ok (del_mode c (cu_modes u))) = Ok ms"
      "(c \<in> mode_set ms) = adding"
    using add_mode_spec [OF ok nb] del_mode_spec [OF ok nb] by (cases adding) auto
  obtain us where us: "troll_trig_update_mode now net data = Ok (set_chan i ((chan_at net i)\<lparr>user_list := us\<rparr>) net)"
      "named_users us"
      "\<forall>l. lookup_cuser l us =
        (if same_name k l then Some (u\<lparr>cu_modes := ms\<rparr>) else lookup_cuser l (user_list (chan_at net i)))"
    using update_mode_one [OF i named u c d ms(1)] by blast
  let ?c = "(chan_at net i)\<lparr>user_list := us\<rparr>"
  let ?net = "set_chan i ?c net"
  have at: "chan_at ?net i = ?c" using lookup_set_chan(2) [OF i, of ?c] by simp
  have i': "find_index (\<lambda>c. same_name (ch_name c) name) (dl_from (n_chans ?net)) = Some i"
    using lookup_set_chan(1) [OF i, of ?c] by (simp add: find_channel_index)
  have asked: "with_mode e ?net (Some l) (Some name) =
    Ok (case lookup_cuser l us of None \<Rightarrow> 0 | Some u \<Rightarrow> if e \<in> mode_set (cu_modes u) then 1 else 0)" for e l
    using with_mode_lookup [OF i' assms(2), of e l] us(2) at by simp
  show ?thesis
    using us(1,3) asked ms(2) with_mode_lookup [OF i assms(2) named]
    by (intro exI [of _ ?net]) simp
qed

text \<open>A ban is added once, with the lifetime as it was given.\<close>

lemma newchanban_adds:
  assumes i: "find_index (\<lambda>c. same_name (ch_name c) name) (dl_from (n_chans net)) = Some i"
    and n: "name \<noteq> []" "ban \<noteq> []" "who \<noteq> []" "comment \<noteq> []"
    and named: "named_bans (banlist (chan_at net i))" and uniq: "cbans.unique_keys (banlist (chan_at net i))"
    and sock: "tsock net = Some s"
  shows "\<exists>net'. egg_newchanban now net (Some name) (Some ban) (Some who) (Some comment) life = Ok net' \<and>
    cbans.unique_keys (banlist (chan_at net' i)) \<and>
    (if lookup_cban ban (banlist (chan_at net i)) = None
     then (\<exists>b. lookup_cban ban (banlist (chan_at net' i)) = Some b \<and> lifetime b = life \<and> expire_time b = now + life \<and> cb_who b = Some who)
        \<and> sent net' = sent net @ [take 2047 (''MODE '' @ name @ '' +b '' @ ban) @ [NL]]
     else net' = net)"
proof -
  let ?c = "chan_at net i"
  have nb: "\<forall>x \<in> set (dl_from (banlist ?c)). cb_mask x \<noteq> None"
    using named by (cases "banlist ?c") (auto simp: named_bans_def)
  then have "find_index (\<lambda>x. same_name (the (cb_mask x)) ban) (dl_from (banlist ?c)) =
      find_index (\<lambda>x. same_name (cban_mask x) ban) (dl_from (banlist ?c))"
    by (intro find_index_cong) (auto simp: cban_mask_def)
  then have f: "find_ptr cb_mask (Some ban) (dl_from (banlist ?c)) =
      Ok (find_index (\<lambda>x. same_name (cban_mask x) ban) (dl_from (banlist ?c)))"
    using find_cased_index [OF nb, of ban] by (simp add: find_ptr_def)
  have l: "lookup_cban ban (banlist ?c) =
      map_option ((!) (dl_from (banlist ?c))) (find_index (\<lambda>x. same_name (cban_mask x) ban) (dl_from (banlist ?c)))"
    by (simp add: lookup_cban_def dl_find_def find_find_index)
  show ?thesis
  proof (cases "find_index (\<lambda>x. same_name (cban_mask x) ban) (dl_from (banlist ?c))")
    case (Some j)
    then have "egg_newchanban now net (Some name) (Some ban) (Some who) (Some comment) life = Ok net"
      using i n f by (simp add: egg_newchanban_def no_text_def find_channel_index)
    then show ?thesis using uniq l Some by simp
  next
    case None
    let ?b = "channel_ban_new\<lparr>cb_chan := Some name, cb_mask := Some ban, cb_who := Some who, cb_comment := Some comment,
        lifetime := life, expire_time := now + life\<rparr>"
    let ?c' = "?c\<lparr>banlist := channel_ban_add (banlist ?c) ?b\<rparr>"
    let ?net = "(set_chan i ?c' net)\<lparr>sent := sent net @ [take 2047 (''MODE '' @ name @ '' +b '' @ ban) @ [NL]]\<rparr>"
    have e: "egg_newchanban now net (Some name) (Some ban) (Some who) (Some comment) life = Ok ?net"
      using i n f None sock
      by (simp add: egg_newchanban_def no_text_def find_channel_index channel_ban_new_def Let_def set_chan_def)
    have at: "chan_at ?net i = ?c'" using lookup_set_chan(2) [OF i, of ?c'] by (simp add: chan_at_def)
    have k: "cban_mask ?b = ban" by (simp add: cban_mask_def)
    have "cbans.unique_keys (channel_ban_add (banlist ?c) ?b)"
      using cbans.unique_keys_add [OF uniq, of ?b] None l k by simp
    moreover have "lookup_cban ban (channel_ban_add (banlist ?c) ?b) = Some ?b"
      using cbans.lookup_add [of ban "banlist ?c" ?b] None l k by simp
    ultimately show ?thesis using e at None l by (intro exI [of _ ?net]) simp
  qed
qed

end
