(* ===== verification/Dcc.thy ===== *)
theory Dcc
  imports Egg_Chan
begin

text \<open>
  \<^verbatim>\<open>src/src/dcc.c\<close>: the DCC sessions of a network, from the connection through the login to the party
  line, with the changes of a session's state that the select loop of \<^verbatim>\<open>src/src/sockets.c\<close> makes.
  What the operating system answers (\<open>accept\<close>, \<open>connect\<close>, \<open>socket\<close>, \<open>gethostbyname\<close>) is an argument.
  A session is given by its distance from \<open>net->dccs\<close>.
\<close>

section \<open>The list of sessions\<close>

definition new_dcc_session :: dcc_session where
  "new_dcc_session = \<lparr>d_id = -1, d_sock = -1, d_user = None, d_status = DCC_WAITING, d_sent = []\<rparr>"

definition dcc_list_add :: "dcc_session dlist \<Rightarrow> dcc_session \<Rightarrow> dcc_session dlist" where
  "dcc_list_add dccs add = dl_add dccs add"

definition dcc_list_del :: "dcc_session dlist \<Rightarrow> nat option \<Rightarrow> dcc_session dlist" where
  "dcc_list_del dccs del = (if dl_from dccs = [] then dl_null else dl_del dccs del)"

definition free_dcc_sessions :: "dcc_session dlist \<Rightarrow> dcc_session list" where
  "free_dcc_sessions dccs = dl_from dccs"

definition session_at :: "network \<Rightarrow> nat \<Rightarrow> dcc_session" where
  "session_at net j = dl_from (n_dccs net) ! j"

definition set_session :: "nat \<Rightarrow> (dcc_session \<Rightarrow> dcc_session) \<Rightarrow> network \<Rightarrow> network" where
  "set_session j f net = net\<lparr>n_dccs := dl_update j f (n_dccs net)\<rparr>"

section \<open>Connections\<close>

text \<open>Somebody connects to the listener. The identifier stays \<open>-1\<close>.\<close>

definition new_dcc_connection :: "int option \<Rightarrow> network \<Rightarrow> network" where
  "new_dcc_connection accepted net =
     (case accepted of
        None \<Rightarrow> net
      | Some s \<Rightarrow>
          (let new = new_dcc_session\<lparr>d_sock := s, d_status := DCC_NOTREADY\<rparr>
           in net\<lparr>n_dccs := (if dl_from (n_dccs net) = [] then DList [] [irc_printf (irc_printf new ''Welcome to Trollbot'') ''enter your username to continue.'']
                            else DList (dl_before (n_dccs net)) (dl_from (n_dccs net) @
                                   [irc_printf (irc_printf new ''Welcome to Trollbot'') ''enter your username to continue.'']))\<rparr>))"

text \<open>
  \<open>strtoul\<close> with base 10, as a 32-bit address; the port goes through \<open>atoi\<close> into 16 bits.
\<close>

definition dcc_ip :: "string \<Rightarrow> int" where
  "dcc_ip s =
     (let t = dropWhile isspace_c s;
          neg = (next_char t = Some (CHR ''-''));
          v = digits_val 0 (if neg \<or> next_char t = Some (CHR ''+'') then tl t else t)
      in (if v > 2 ^ 64 - 1 then 2 ^ 64 - 1 else if neg then - v else v) mod 2 ^ 32)"

definition dcc_port_of :: "string \<Rightarrow> int" where
  "dcc_port_of s = atoi s mod 2 ^ 16"

text \<open>
  The new identifier: the largest of the first session's and those of the sessions that have a next
  one, plus one. The last session of a list of two or more is not looked at.
\<close>

definition next_idx :: "dcc_session list \<Rightarrow> int" where
  "next_idx ds = foldl max (d_id (hd ds)) (map d_id (butlast ds)) + 1"

text \<open>\<open>connects ip port\<close> is the socket, if it could be made and the connection is there or in progress.\<close>

definition initiate_dcc_chat :: "(int \<Rightarrow> int \<Rightarrow> int option) \<Rightarrow> network \<Rightarrow> irc_data \<Rightarrow> network" where
  "initiate_dcc_chat connects net data =
     (case rest data of
        None \<Rightarrow> net
      | Some ws \<Rightarrow>
          if length ws < 5 then net
          else (case connects (dcc_ip (ws ! 3)) (dcc_port_of (ws ! 4)) of
                  None \<Rightarrow> net
                | Some s \<Rightarrow>
                    (let new = new_dcc_session\<lparr>d_sock := s, d_status := DCC_NONBLOCKCONNECT\<rparr>;
                         d = n_dccs net
                     in net\<lparr>n_dccs :=
                          (if dl_from d = [] then DList [] [new\<lparr>d_id := 1\<rparr>]
                           else DList (dl_before d) (dl_from d @ [new\<lparr>d_id := next_idx (dl_all d)\<rparr>]))\<rparr>)))"

text \<open>\<open>resolve\<close> gives the address of a host in host byte order; \<open>%d\<close> prints it as a signed number.\<close>

definition reverse_dcc_chat :: "(string \<Rightarrow> int option) \<Rightarrow> network \<Rightarrow> irc_data \<Rightarrow> network res" where
  "reverse_dcc_chat resolve net data =
     (if shost net = None \<and> vhost net = None then
        rbind (deref (prefix_of data)) (\<lambda>p.
          tsocket_printf net (''PRIVMSG '' @ fmt_s (pnick p) @ '' :No suitable IP/Port combination found.''))
      else
        (let net' = net\<lparr>shost := (if shost net = None then vhost net else shost net)\<rparr> in
         case resolve (the (shost net')) of
           None \<Rightarrow> Ok net'
         | Some ip \<Rightarrow>
             rbind (deref (prefix_of data)) (\<lambda>p.
               tsocket_printf net'
                 (''PRIVMSG '' @ fmt_s (pnick p) @ '' :'' @ [CTCP] @ ''DCC CHAT chat '' @
                  show_int (sint (word_of_int ip :: 32 word)) @ SPC # show_int (dcc_port net') @ [CTCP]))))"

text \<open>\<open>sock\<close> is what \<open>socket\<close> gives, \<open>options\<close> whether \<open>setsockopt\<close> succeeds; what follows changes nothing.\<close>

definition dcc_init_listener :: "(string \<Rightarrow> int option) \<Rightarrow> int \<Rightarrow> bool \<Rightarrow> network \<Rightarrow> network" where
  "dcc_init_listener resolve sock options net =
     (case (if vhost net \<noteq> None then vhost net else shost net) of
        None \<Rightarrow> net
      | Some host \<Rightarrow>
          if resolve host = None then net
          else if sock = -1 \<or> \<not> options then net\<lparr>dcc_listener := sock\<rparr>
          else net\<lparr>dcc_listener := sock, dcc_port := (if dcc_port net = -1 then 4928 else dcc_port net)\<rparr>)"

text \<open>What the select loop does to a session: before \<open>select\<close>, and when a connection has come about.\<close>

definition session_select :: "dcc_session \<Rightarrow> dcc_session" where
  "session_select d =
     (if d_sock d \<noteq> -1 \<and> d_status d = DCC_NOTREADY then d\<lparr>d_status := DCC_CONNECTED\<rparr>
      else if d_status d = DCC_NONBLOCKCONNECT then d\<lparr>d_status := DCC_WAITINGCONNECT\<rparr>
      else d)"

definition session_connected :: "dcc_session \<Rightarrow> dcc_session" where
  "session_connected d =
     (if d_status d = DCC_WAITINGCONNECT then
        (irc_printf (irc_printf d ''Welcome to Trollbot.'') ''Enter your username to continue.'')
          \<lparr>d_status := DCC_NOTREADY\<rparr>
      else d)"

section \<open>The party line\<close>

text \<open>What is sent to a session, and to all of them.\<close>

definition say :: "nat \<Rightarrow> string \<Rightarrow> network \<Rightarrow> network" where
  "say j s net = set_session j (\<lambda>d. irc_printf d s) net"

definition say_all :: "nat \<Rightarrow> string list \<Rightarrow> network \<Rightarrow> network" where
  "say_all j ss net = fold (say j) ss net"

definition dcc_partyline_handler :: "network \<Rightarrow> nat \<Rightarrow> string \<Rightarrow> network res" where
  "dcc_partyline_handler net j message =
     rbind (deref (session_user net (session_at net j))) (\<lambda>u.
       Ok (net\<lparr>n_dccs := DList (dl_before (n_dccs net))
             (map (\<lambda>d. irc_printf d (''<'' @ fmt_s (username u) @ ''> '' @ message)) (dl_from (n_dccs net)))\<rparr>))"

definition dcc_help_text :: string where
  "dcc_help_text =
     ''TrollBot v1.0 DCC MENU'' @ [NL] @ ''----------------------'' @ [NL] @
     '' Prepend commands with a period (.)'' @ [NL] @ '' Any other text goes to the partyline'' @ [NL] @
     ''----------------------'' @ [NL, NL] @
     '' +chan, -chan: Add or remove a channel respectively.'' @ [NL] @
     '' +user, -user: Add or remove a user respectively.'' @ [NL] @
     '' chattr: Change user attributes (flags).'' @ [NL] @
     '' rehash: Reload the bot (not well defined)'' @ [NL] @
     '' tcl: Runs a TCL command and returns the result'' @ [NL] @
     '' tbinds: Shows current binds and usage counts'' @ [NL] @
     '' who: Displays a list of users connected to the partyline'' @ [NL] @
     '' dump: Sends raw text to the server'' @ [NL] @
     '' msg: Messages the specified target with a string'' @ [NL] @
     '' console: Shows or changes your current console flags'' @ [NL]"

definition dcc_help_menu :: "network \<Rightarrow> nat \<Rightarrow> network" where
  "dcc_help_menu net j = say j dcc_help_text net"

definition dcc_who :: "network \<Rightarrow> nat \<Rightarrow> network" where
  "dcc_who net j =
     say_all j
       (''Users currently connected:'' #
        concat (map (\<lambda>d. case session_user net d of
                           None \<Rightarrow> []
                         | Some u \<Rightarrow> [''Username: '' @ fmt_s (username u) @ '' Host: '' @ fmt_s (uhost u)])
                 (dl_from (n_dccs net)))) net"

definition dcc_console :: "network \<Rightarrow> nat \<Rightarrow> network res" where
  "dcc_console net j =
     rbind (deref (session_user net (session_at net j))) (\<lambda>u.
       Ok (say j (case console u of None \<Rightarrow> ''NULL'' | Some s \<Rightarrow> s) net))"

definition dcc_add_chan :: "network \<Rightarrow> string \<Rightarrow> string \<Rightarrow> network res" where
  "dcc_add_chan net m buf = rbind (troll_makearg buf m) (\<lambda>a. tsocket_printf net (''JOIN '' @ a))"

definition dcc_del_chan :: "network \<Rightarrow> string \<Rightarrow> string \<Rightarrow> network res" where
  "dcc_del_chan net m buf = rbind (troll_makearg buf m) (\<lambda>a. tsocket_printf net (''PART '' @ a))"

definition tbind_line :: "trigger \<Rightarrow> string" where
  "tbind_line t =
     ''Mask: ('' @ fmt_s (t_mask t) @ '') Usecount: '' @ show_int (usecount t) @
     (case t_cmd t of Some c \<Rightarrow> '' Command: ('' @ c @ '')'' | None \<Rightarrow> '' Command: Internal'')"

definition tbind_lines :: "string \<Rightarrow> trigger dlist \<Rightarrow> string list" where
  "tbind_lines name d =
     (''bind '' @ name @ '':'') # (if dl_from d = [] then [''None.''] else map tbind_line (dl_from d))"

definition dcc_tbinds :: "network \<Rightarrow> nat \<Rightarrow> network" where
  "dcc_tbinds net j =
     say_all j
       (''Trollbot bind table:'' #
        tbind_lines ''PUB'' (tt_pub (trigs net)) @ tbind_lines ''PUBM'' (tt_pubm (trigs net)) @
        tbind_lines ''MSG'' (tt_msg (trigs net)) @ tbind_lines ''MSGM'' (tt_msgm (trigs net)) @
        tbind_lines ''JOIN'' (tt_join (trigs net)) @ tbind_lines ''PART'' (tt_part (trigs net)) @
        tbind_lines ''DCC'' (tt_dcc (trigs net))) net"

text \<open>The file that is shown: the network's or the global one.\<close>

definition dcc_print_motd :: "config \<Rightarrow> files \<Rightarrow> nat \<Rightarrow> network \<Rightarrow> network" where
  "dcc_print_motd cfg fs j net =
     (case (if n_dcc_motd net = None then c_dcc_motd cfg else n_dcc_motd net) of
        None \<Rightarrow> say j ''Error: No MOTD found'' net
      | Some f \<Rightarrow>
          (case fs f of
             None \<Rightarrow> say j ''Error: Could not read MOTD file'' net
           | Some s \<Rightarrow> say j s net))"

section \<open>Commands\<close>

text \<open>
  The first trigger whose flags the user has, whose mask is a prefix of the line, and which has a
  handler is called; without one the line goes to the party line.
\<close>

definition test_command :: "network \<Rightarrow> user option \<Rightarrow> string \<Rightarrow> trigger \<Rightarrow> bool res" where
  "test_command net u line t =
     rbind (if glob_flags t = None then Ok True
            else rbind (deref u) (\<lambda>u.
                 rbind (egg_matchattr net (username u) (glob_flags t) None) (\<lambda>r. Ok (r \<noteq> 0)))) (\<lambda>allowed.
       if \<not> allowed then Ok False
       else rbind (deref (t_mask t)) (\<lambda>m. Ok (strncmp_eq m line (length m) \<and> t_handler_of t \<noteq> None)))"

definition choose_command :: "network \<Rightarrow> nat \<Rightarrow> string \<Rightarrow> (network \<times> trigger list) res" where
  "choose_command net j line =
     rbind (fire_list fire_first (test_command net (session_user net (session_at net j)) line) (tt_dcc (trigs net)))
       (\<lambda>(d, fired). Ok (net\<lparr>trigs := (trigs net)\<lparr>tt_dcc := d\<rparr>\<rparr>, fired))"

section \<open>The login\<close>

text \<open>
  What becomes of a session: it goes on, or it was closed, taken out of the list and freed (\<open>Dropped\<close>,
  with the session as it was), or its line is a command.
\<close>

datatype line_result = Kept network | Dropped dcc_session network | Command_line

definition drop_session :: "nat \<Rightarrow> string \<Rightarrow> network \<Rightarrow> line_result" where
  "drop_session j s net =
     Dropped ((irc_printf (session_at net j) s)\<lparr>d_sock := -1\<rparr>)
       (net\<lparr>n_dccs := dcc_list_del (n_dccs net) (Some j)\<rparr>)"

definition login_name :: "network \<Rightarrow> nat \<Rightarrow> string \<Rightarrow> line_result res" where
  "login_name net j line =
     rbind (find_exact username (Some line) (dl_from (n_users net))) (\<lambda>m.
       case m of
         None \<Rightarrow> Ok (drop_session j ''Incorrect username.'' net)
       | Some i \<Rightarrow>
           rbind (egg_matchattr net (username (dl_from (n_users net) ! i)) (Some ''p'') None) (\<lambda>r.
             Ok (if r = 0 then drop_session j ''You do not have the flags to access DCC.'' net
                 else Kept (set_session j
                   (\<lambda>d. (irc_printf (d\<lparr>d_user := Some (length (dl_before (n_users net)) + i)\<rparr>) ''Please enter your password.'')
                          \<lparr>d_status := DCC_HAS_USERNAME\<rparr>) net))))"

text \<open>The hash is made anew when the configured hash type is not the user's.\<close>

definition rehash_user :: "config \<Rightarrow> string \<Rightarrow> user \<Rightarrow> user" where
  "rehash_user cfg line u =
     u\<lparr>hash_type := c_hash_type cfg, passhash := egg_makepasswd cfg (Some line) (c_hash_type cfg)\<rparr>"

definition login_password ::
  "config \<Rightarrow> (string \<Rightarrow> bool) \<Rightarrow> files \<Rightarrow> network \<Rightarrow> nat \<Rightarrow> string \<Rightarrow> (line_result \<times> writes) res option" where
  "login_password cfg writable fs net j line =
     obind (Some (deref (d_user (session_at net j)))) (\<lambda>k.
       let u = dl_all (n_users net) ! k in
       if passhash u = None then Some (Fault UseAfterFree)
       else obind (Some (egg_passwdok cfg net (username u) (Some line))) (\<lambda>r.
         if r = 0 then Some (Ok (drop_session j ''Incorrect password'' net, []))
         else obind (Some (strcmp_p (c_hash_type cfg) (hash_type u))) (\<lambda>same.
           obind (if same then Some (Ok (net, []))
                  else let net' = net\<lparr>n_users := dl_update_all k (rehash_user cfg line) (n_users net)\<rparr>
                       in obind (users_save cfg writable (Some net')) (\<lambda>w. Some (Ok (net', w)))) (\<lambda>(net', w).
             Some (Ok (Kept (set_session j (\<lambda>d. d\<lparr>d_status := DCC_AUTHENTICATED\<rparr>)
                              (say j ''Type .help for help.'' (dcc_print_motd cfg fs j net'))), w))))))"

definition parse_dcc_line ::
  "config \<Rightarrow> (string \<Rightarrow> bool) \<Rightarrow> files \<Rightarrow> network \<Rightarrow> nat \<Rightarrow> string \<Rightarrow> (line_result \<times> writes) res option" where
  "parse_dcc_line cfg writable fs net j line =
     (case d_status (session_at net j) of
        DCC_CONNECTED \<Rightarrow> Some (rbind (login_name net j line) (\<lambda>r. Ok (r, [])))
      | DCC_HAS_USERNAME \<Rightarrow> login_password cfg writable fs net j line
      | DCC_AUTHENTICATED \<Rightarrow> Some (Ok (Command_line, []))
      | _ \<Rightarrow> Some (Ok (Kept net, [])))"

section \<open>Reading\<close>

text \<open>As \<open>irc_in\<close>, but the buffer is kept when the peer has closed the connection.\<close>

definition dcc_in :: "irc_buf \<Rightarrow> recv_result \<Rightarrow> (int \<times> string list \<times> irc_buf) res" where
  "dcc_in st recved =
     (let (b, z) = (case ib_buffer st of
                      None \<Rightarrow> ([], 1025)
                    | Some (s, z) \<Rightarrow> tcrealloc0 (s, z) (length s + 1025) (ib_size st));
          sz = (case ib_buffer st of None \<Rightarrow> ib_size st | Some (s, z) \<Rightarrow> length s + 1025)
      in case recved of
           RecvError \<Rightarrow> Ok (1, [], \<lparr>ib_buffer = None, ib_size = sz\<rparr>)
         | RecvClosed \<Rightarrow> Ok (0, [], \<lparr>ib_buffer = Some (b, z), ib_size = sz\<rparr>)
         | Received chunk \<Rightarrow>
             if length (b @ chunk) < z then
               (case take_lines (b @ chunk, z) sz of (ls, st') \<Rightarrow> Ok (1, ls, st'))
             else Fault OutOfBounds)"

end
