(* ===== verification/Dcc_Login.thy ===== *)
theory Dcc_Login
  imports Dcc
begin

text \<open>
  What holds of the sessions of \<^verbatim>\<open>src/src/dcc.c\<close>: the identifiers they get, who gets logged in, and
  the states that can be reached.
\<close>

section \<open>Identifiers\<close>

text \<open>One request for a chat after the other, each of which connects.\<close>

fun initiate_all :: "(int \<Rightarrow> int \<Rightarrow> int option) \<Rightarrow> irc_data list \<Rightarrow> network \<Rightarrow> network" where
  "initiate_all connects [] net = net"
| "initiate_all connects (r # rs) net = initiate_all connects rs (initiate_dcc_chat connects net r)"

definition chat_request :: "irc_data \<Rightarrow> bool" where
  "chat_request r \<longleftrightarrow> (\<exists>ws. rest r = Some ws \<and> 5 \<le> length ws)"

definition idx_of :: "nat \<Rightarrow> int" where
  "idx_of n = int ((n + 1) div 2 + 1)"

lemma foldl_max_mono: "(a :: int) \<le> b \<Longrightarrow> sorted xs \<Longrightarrow> \<forall>x \<in> set xs. a \<le> x \<Longrightarrow>
   foldl max a xs = (if xs = [] then a else last xs)"
proof (induction xs arbitrary: a b)
  case (Cons x xs)
  have "max a x = x" using Cons.prems by auto
  moreover have "foldl max x xs = (if xs = [] then x else last xs)"
    using Cons.IH [of x x] Cons.prems by auto
  ultimately show ?case by simp
qed simp

lemma idx_of_mono: "m \<le> n \<Longrightarrow> idx_of m \<le> idx_of n"
  by (simp add: idx_of_def div_le_mono)

lemma next_idx_idx_of:
  assumes "map d_id ds = map idx_of [0..<n]" and "0 < n"
  shows "next_idx ds = idx_of n"
proof -
  have len: "length ds = n" using assms(1) by (metis diff_zero length_map length_upt)
  then have "ds \<noteq> []" using assms(2) by auto
  then have hd: "d_id (hd ds) = idx_of 0"
    using assms by (metis hd_map list.map_disc_iff upt_conv_Cons list.sel(1))
  have bl: "map d_id (butlast ds) = map idx_of [0..<n - 1]"
    using assms by (metis map_butlast One_nat_def Suc_pred butlast_snoc upt_Suc_append zero_le)
  have "sorted (map idx_of [0..<n - 1])"
    by (auto simp: sorted_iff_nth_mono intro: idx_of_mono)
  moreover have "\<forall>x \<in> set (map idx_of [0..<n - 1]). idx_of 0 \<le> x" by (auto intro: idx_of_mono)
  ultimately have "foldl max (idx_of 0) (map idx_of [0..<n - 1]) =
      (if map idx_of [0..<n - 1] = [] then idx_of 0 else last (map idx_of [0..<n - 1]))"
    by (rule foldl_max_mono [OF order_refl])
  also have "\<dots> = idx_of (n - 2)"
    using assms(2) by (cases "n - 1") (auto simp: idx_of_def)
  finally have "next_idx ds = idx_of (n - 2) + 1" by (simp add: next_idx_def hd bl)
  also have "\<dots> = idx_of n" using assms(2) by (cases "n = 1") (auto simp: idx_of_def)
  finally show ?thesis .
qed

lemma initiate_step:
  assumes "dl_before (n_dccs net) = []" and "map d_id (dl_from (n_dccs net)) = map idx_of [0..<n]"
    and "chat_request r" and "\<forall>ip p. connects ip p \<noteq> None"
  shows "dl_before (n_dccs (initiate_dcc_chat connects net r)) = [] \<and>
     map d_id (dl_from (n_dccs (initiate_dcc_chat connects net r))) = map idx_of [0..<Suc n]"
proof -
  obtain ws where ws: "rest r = Some ws" "5 \<le> length ws" using assms(3) by (auto simp: chat_request_def)
  obtain s where s: "connects (dcc_ip (ws ! 3)) (dcc_port_of (ws ! 4)) = Some s" using assms(4) by blast
  have all: "dl_all (n_dccs net) = dl_from (n_dccs net)" using assms(1) by (simp add: dl_all_def)
  show ?thesis
  proof (cases "n = 0")
    case True
    then show ?thesis using assms ws s by (simp add: initiate_dcc_chat_def Let_def idx_of_def)
  next
    case False
    then have "dl_from (n_dccs net) \<noteq> []" using assms(2) by (metis list.map_disc_iff upt_eq_Nil_conv neq0_conv not_le)
    moreover have "next_idx (dl_from (n_dccs net)) = idx_of n"
      using next_idx_idx_of [OF assms(2)] False by simp
    ultimately show ?thesis using assms(1,2) ws s all by (simp add: initiate_dcc_chat_def Let_def)
  qed
qed

lemma initiate_all_ids:
  assumes "dl_before (n_dccs net) = []" and "map d_id (dl_from (n_dccs net)) = map idx_of [0..<n]"
    and "list_all chat_request rs" and "\<forall>ip p. connects ip p \<noteq> None"
  shows "map d_id (dl_from (n_dccs (initiate_all connects rs net))) = map idx_of [0..<n + length rs]"
  using assms
proof (induction rs arbitrary: net n)
  case (Cons r rs)
  then show ?case
    using initiate_step [of net n r connects] Cons.IH [of "initiate_dcc_chat connects net r" "Suc n"] by simp
qed simp

section \<open>Logging in\<close>

lemma session_at_set [simp]:
  "j < length (dl_from (n_dccs net)) \<Longrightarrow> session_at (set_session j f net) j = f (session_at net j)"
  by (simp add: session_at_def set_session_def dl_update_def)

lemma set_session_users [simp]: "n_users (set_session j f net) = n_users net"
  by (simp add: set_session_def)

lemma say_simps [simp]:
  "n_users (say j s net) = n_users net" "dl_before (n_dccs (say j s net)) = dl_before (n_dccs net)"
  "length (dl_from (n_dccs (say j s net))) = length (dl_from (n_dccs net))" "trigs (say j s net) = trigs net"
  by (simp_all add: say_def set_session_def dl_update_def)

lemma motd_simps [simp]:
  "n_users (dcc_print_motd cfg fs j net) = n_users net"
  "length (dl_from (n_dccs (dcc_print_motd cfg fs j net))) = length (dl_from (n_dccs net))"
  by (auto simp: dcc_print_motd_def split: option.splits)

lemma session_at_say:
  "j < length (dl_from (n_dccs net)) \<Longrightarrow>
   d_status (session_at (say j s net) j) = d_status (session_at net j) \<and>
   d_user (session_at (say j s net) j) = d_user (session_at net j)"
  by (simp add: say_def irc_printf_def)

text \<open>The account a session has named.\<close>

definition account :: "network \<Rightarrow> nat \<Rightarrow> user" where
  "account net j = dl_all (n_users net) ! the (d_user (session_at net j))"

text \<open>A line makes a session authenticated only if it passes as the password of the account named.\<close>

lemma authenticated_by_password:
  assumes "parse_dcc_line cfg writable fs net j line = Some (Ok (Kept net', w))"
    and "j < length (dl_from (n_dccs net))"
    and "d_status (session_at net' j) = DCC_AUTHENTICATED"
  shows "d_status (session_at net j) = DCC_HAS_USERNAME \<and>
     passhash (account net j) \<noteq> None \<and>
     (\<exists>r. egg_passwdok cfg net (username (account net j)) (Some line) = Ok r \<and> r \<noteq> 0)"
proof (cases "d_status (session_at net j)")
  case DCC_HAS_USERNAME
  then have l: "login_password cfg writable fs net j line = Some (Ok (Kept net', w))"
    using assms(1) by (simp add: parse_dcc_line_def)
  obtain k where k: "d_user (session_at net j) = Some k"
    using l by (cases "d_user (session_at net j)") (auto simp: login_password_def)
  have ph: "passhash (account net j) \<noteq> None"
    using l k by (auto simp: login_password_def account_def Let_def split: if_splits)
  obtain r where r: "egg_passwdok cfg net (username (account net j)) (Some line) = Ok r"
    using l k ph by (cases "egg_passwdok cfg net (username (account net j)) (Some line)")
       (auto simp: login_password_def account_def Let_def)
  have "r \<noteq> 0" using l k r ph by (auto simp: login_password_def account_def drop_session_def Let_def)
  then show ?thesis using DCC_HAS_USERNAME r ph by blast
next
  case DCC_CONNECTED
  then have "login_name net j line = Ok (Kept net')"
    using assms(1) by (cases "login_name net j line") (auto simp: parse_dcc_line_def)
  then obtain i where "net' = set_session j
      (\<lambda>d. (irc_printf (d\<lparr>d_user := Some (length (dl_before (n_users net)) + i)\<rparr>) ''Please enter your password.'')
             \<lparr>d_status := DCC_HAS_USERNAME\<rparr>) net"
    by (auto simp: login_name_def rbind_Ok_iff drop_session_def split: option.splits if_splits)
  then show ?thesis using assms(2,3) by simp
qed (use assms in \<open>simp_all add: parse_dcc_line_def\<close>)

text \<open>
  For accounts with different names and a password hash of the configured type, the line after the
  name authenticates the session exactly if its hash is the stored one, or if the line is empty or a
  single \<open>-\<close>.
\<close>

lemma password_line:
  assumes st: "d_status (session_at net j) = DCC_HAS_USERNAME" and j: "j < length (dl_from (n_dccs net))"
    and heads: "dl_head (n_users net)" and named: "named_accounts (dl_from (n_users net))"
    and dist: "distinct (map username (dl_from (n_users net)))"
    and k: "d_user (session_at net j) = Some k" "k < length (dl_from (n_users net))"
    and ph: "passhash (account net j) \<noteq> None"
    and ht: "hash_type (account net j) = Some t" "c_hash_type cfg = Some t"
  shows "\<exists>res. parse_dcc_line cfg writable fs net j line = Some (Ok (res, [])) \<and>
     (if line = [] \<or> line = ''-'' \<or> egg_makepasswd cfg (Some line) (Some t) = passhash (account net j)
      then \<exists>net'. res = Kept net' \<and> d_status (session_at net' j) = DCC_AUTHENTICATED \<and> n_users net' = n_users net
      else \<exists>d. res = Dropped d (net\<lparr>n_dccs := dcc_list_del (n_dccs net) (Some j)\<rparr>))"
proof -
  have all: "dl_all (n_users net) = dl_from (n_users net)" using heads by (simp add: dl_all_def dl_head_def)
  let ?u = "dl_from (n_users net) ! k"
  have acc: "account net j = ?u" using k(1) all by (simp add: account_def)
  obtain n where n: "username ?u = Some n" using named nth_mem [OF k(2)] unfolding named_accounts_def by blast
  have "find_index (\<lambda>u. username u = Some n) (dl_from (n_users net)) = Some k"
  proof -
    obtain i where i: "find_index (\<lambda>u. username u = Some n) (dl_from (n_users net)) = Some i"
      using k(2) n find_index_None_iff [of "\<lambda>u. username u = Some n" "dl_from (n_users net)"] by fastforce
    have "i < length (dl_from (n_users net))" "username (dl_from (n_users net) ! i) = Some n"
      using find_index_Some [OF i] by auto
    then have "i = k" using dist k(2) n by (metis length_map nth_eq_iff_index_eq nth_map)
    then show ?thesis using i by simp
  qed
  then have ok: "egg_passwdok cfg net (Some n) (Some line) = passwd_matches cfg ?u (Some line)"
    by (rule passwdok_user [OF named])
  let ?yes = "line = [] \<or> line = ''-'' \<or> egg_makepasswd cfg (Some line) (Some t) = passhash ?u"
  have m: "passwd_matches cfg ?u (Some line) = Ok (if ?yes then 1 else 0)"
    using ph ht acc by (auto simp: passwd_matches_iff asks_only_def)
  have p: "parse_dcc_line cfg writable fs net j line = login_password cfg writable fs net j line"
    using st by (simp add: parse_dcc_line_def)
  show ?thesis
  proof (cases ?yes)
    case True
    have "login_password cfg writable fs net j line =
      Some (Ok (Kept (set_session j (\<lambda>d. d\<lparr>d_status := DCC_AUTHENTICATED\<rparr>)
                       (say j ''Type .help for help.'' (dcc_print_motd cfg fs j net))), []))"
      using k all ph ht acc n ok m True by (simp add: login_password_def Let_def)
    then show ?thesis using p True acc j by simp
  next
    case False
    then have "login_password cfg writable fs net j line = Some (Ok (drop_session j ''Incorrect password'' net, []))"
      using k all ph ht acc n ok m by (simp add: login_password_def Let_def)
    then show ?thesis using p False acc by (simp add: drop_session_def)
  qed
qed

section \<open>The states that can be reached\<close>

text \<open>
  The steps of the sessions of one network: a connection to the listener, a request for a chat, the
  select loop, the end of a pending connection, a line, and a line to the party line.
\<close>

inductive dcc_step :: "config \<Rightarrow> (string \<Rightarrow> bool) \<Rightarrow> files \<Rightarrow> network \<Rightarrow> network \<Rightarrow> bool"
  for cfg writable fs where
  Accept: "dcc_step cfg writable fs net (new_dcc_connection accepted net)"
| Initiate: "dcc_step cfg writable fs net (initiate_dcc_chat connects net r)"
| Select: "dcc_step cfg writable fs net
     (net\<lparr>n_dccs := DList (dl_before (n_dccs net)) (map session_select (dl_from (n_dccs net)))\<rparr>)"
| Connected: "j < length (dl_from (n_dccs net)) \<Longrightarrow> dcc_step cfg writable fs net (set_session j session_connected net)"
| Failed: "j < length (dl_from (n_dccs net)) \<Longrightarrow>
     dcc_step cfg writable fs net (net\<lparr>n_dccs := dcc_list_del (n_dccs net) (Some j)\<rparr>)"
| Line: "j < length (dl_from (n_dccs net)) \<Longrightarrow>
     parse_dcc_line cfg writable fs net j line = Some (Ok (Kept net', w)) \<Longrightarrow> dcc_step cfg writable fs net net'"
| Drop: "j < length (dl_from (n_dccs net)) \<Longrightarrow>
     parse_dcc_line cfg writable fs net j line = Some (Ok (Dropped d net', w)) \<Longrightarrow> dcc_step cfg writable fs net net'"
| Chat: "j < length (dl_from (n_dccs net)) \<Longrightarrow>
     d_status (session_at net j) = DCC_AUTHENTICATED \<Longrightarrow>
     dcc_partyline_handler net j line = Ok net' \<Longrightarrow> dcc_step cfg writable fs net net'"

text \<open>A session that has got as far as the password is that of an account that is there.\<close>

definition session_ok :: "nat \<Rightarrow> dcc_session \<Rightarrow> bool" where
  "session_ok n d \<longleftrightarrow> (d_status d \<ge> DCC_HAS_USERNAME \<longrightarrow> (\<exists>k < n. d_user d = Some k))"

definition sessions_ok :: "network \<Rightarrow> bool" where
  "sessions_ok net \<longleftrightarrow> (\<forall>d \<in> set (dl_all (n_dccs net)). session_ok (length (dl_all (n_users net))) d)"

lemma session_ok_low: "d_status d < DCC_HAS_USERNAME \<Longrightarrow> session_ok n d"
  by (simp add: session_ok_def not_le [symmetric])

lemma session_ok_printf [simp]: "session_ok n (irc_printf d s) = session_ok n d"
  by (simp add: session_ok_def irc_printf_def)

lemma in_set_dl_update:
  "d \<in> set (dl_all (dl_update j f ds)) \<Longrightarrow> d = f (dl_from ds ! j) \<or> d \<in> set (dl_all ds)"
  by (cases ds) (auto simp: dl_update_def dest: in_set_update_cases)

lemma set_dl_all_del: "set (dl_all (dl_del ds i)) \<subseteq> set (dl_all ds)"
proof (cases i)
  case (Some k)
  show ?thesis
  proof (cases "k < length (dl_from ds)")
    case True
    have "set (dl_all (dl_del ds (Some k))) =
        set (dl_before ds) \<union> set (take k (dl_from ds)) \<union> set (drop (Suc k) (dl_from ds))"
      unfolding dl_all_del [OF True] by auto
    then show ?thesis
      using set_take_subset [of k "dl_from ds"] set_drop_subset [of "Suc k" "dl_from ds"]
      unfolding Some dl_all_def by auto
  qed (simp add: Some dl_del_def)
qed (simp add: dl_del_def)

lemma sessions_ok_update:
  assumes "sessions_ok net" and "j < length (dl_from (n_dccs net))"
    and "session_ok (length (dl_all (n_users net))) (session_at net j) \<Longrightarrow>
         session_ok (length (dl_all (n_users net))) (f (session_at net j))"
  shows "sessions_ok (set_session j f net)"
proof -
  have "session_at net j \<in> set (dl_all (n_dccs net))"
    using assms(2) by (simp add: session_at_def dl_all_def)
  then show ?thesis
    using assms(1,3) by (auto simp: sessions_ok_def set_session_def session_at_def dest!: in_set_dl_update)
qed

lemma sessions_ok_say [simp]:
  "sessions_ok net \<Longrightarrow> j < length (dl_from (n_dccs net)) \<Longrightarrow> sessions_ok (say j s net)"
  unfolding say_def by (rule sessions_ok_update) simp_all

lemma sessions_ok_motd [simp]:
  "sessions_ok net \<Longrightarrow> j < length (dl_from (n_dccs net)) \<Longrightarrow> sessions_ok (dcc_print_motd cfg fs j net)"
  by (auto simp: dcc_print_motd_def split: option.split)

lemma sessions_ok_del: "sessions_ok net \<Longrightarrow> sessions_ok (net\<lparr>n_dccs := dcc_list_del (n_dccs net) i\<rparr>)"
  using set_dl_all_del [of "n_dccs net" i] by (auto simp: sessions_ok_def dcc_list_del_def dl_all_def)

lemma sessions_ok_map:
  assumes "sessions_ok net" and "\<And>d. session_ok (length (dl_all (n_users net))) d \<Longrightarrow> session_ok (length (dl_all (n_users net))) (f d)"
  shows "sessions_ok (net\<lparr>n_dccs := DList (dl_before (n_dccs net)) (map f (dl_from (n_dccs net)))\<rparr>)"
  using assms by (auto simp: sessions_ok_def dl_all_def)

lemma sessions_ok_append:
  assumes "sessions_ok net" and "d_status d < DCC_HAS_USERNAME"
  shows "sessions_ok (net\<lparr>n_dccs := DList (dl_before (n_dccs net)) (dl_from (n_dccs net) @ [d])\<rparr>)"
    "sessions_ok (net\<lparr>n_dccs := DList [] [d]\<rparr>)"
  using assms session_ok_low [OF assms(2)] by (auto simp: sessions_ok_def dl_all_def)

lemma session_ok_select: "session_ok n d \<Longrightarrow> session_ok n (session_select d)"
  by (auto simp: session_select_def session_ok_def dcc_status_order)

lemma session_ok_connected: "session_ok n d \<Longrightarrow> session_ok n (session_connected d)"
  by (auto simp: session_connected_def session_ok_def dcc_status_order irc_printf_def)

lemma sessions_ok_login_name:
  assumes "sessions_ok net" and "j < length (dl_from (n_dccs net))" and "login_name net j line = Ok r"
  shows "(\<forall>net'. r = Kept net' \<longrightarrow> sessions_ok net') \<and> (\<forall>d net'. r = Dropped d net' \<longrightarrow> sessions_ok net')"
proof -
  obtain m where m: "find_exact username (Some line) (dl_from (n_users net)) = Ok m"
    using assms(3) by (auto simp: login_name_def rbind_Ok_iff)
  have bound: "find_exact key k xs = Ok (Some i) \<Longrightarrow> i < length xs" for key :: "user \<Rightarrow> cstr" and k xs i
    by (induction key k xs arbitrary: i rule: find_exact.induct) (auto simp: rbind_Ok_iff split: if_splits)
  show ?thesis
  proof (cases m)
    case None
    then show ?thesis using assms m sessions_ok_del by (auto simp: login_name_def drop_session_def)
  next
    case (Some i)
    then have i: "i < length (dl_from (n_users net))" using bound m by blast
    let ?f = "\<lambda>d. (irc_printf (d\<lparr>d_user := Some (length (dl_before (n_users net)) + i)\<rparr>) ''Please enter your password.'')
                    \<lparr>d_status := DCC_HAS_USERNAME\<rparr>"
    have "sessions_ok (set_session j ?f net)"
      using i by (intro sessions_ok_update [OF assms(1,2)]) (simp add: session_ok_def irc_printf_def dl_all_def)
    then show ?thesis
      using assms m Some sessions_ok_del
      by (auto simp: login_name_def rbind_Ok_iff drop_session_def split: if_splits)
  qed
qed

lemma sessions_ok_rehash:
  "sessions_ok net \<Longrightarrow> sessions_ok (net\<lparr>n_users := dl_update_all k f (n_users net)\<rparr>)"
  by (simp add: sessions_ok_def)

lemma sessions_ok_authenticate:
  assumes "sessions_ok n" and "j < length (dl_from (n_dccs n))" and "DCC_HAS_USERNAME \<le> d_status (session_at n j)"
  shows "sessions_ok (set_session j (\<lambda>d. d\<lparr>d_status := DCC_AUTHENTICATED\<rparr>) n)"
  using assms by (intro sessions_ok_update) (auto simp: session_ok_def)

lemma session_at_say_status [simp]: "d_status (session_at (say i s n) j) = d_status (session_at n j)"
proof (cases "i < length (dl_from (n_dccs n))")
  case True
  then show ?thesis
    by (cases "i = j") (simp_all add: say_def session_at_def set_session_def irc_printf_def dl_update_def)
qed (simp add: say_def session_at_def set_session_def dl_update_def list_update_beyond)

lemma session_at_motd_status [simp]:
  "d_status (session_at (dcc_print_motd cfg fs i n) j) = d_status (session_at n j)"
  by (simp add: dcc_print_motd_def split: option.split)

lemma session_at_users [simp]: "session_at (net\<lparr>n_users := us\<rparr>) j = session_at net j"
  by (simp add: session_at_def)

lemma sessions_ok_password:
  assumes "sessions_ok net" and j: "j < length (dl_from (n_dccs net))"
    and st: "d_status (session_at net j) = DCC_HAS_USERNAME"
    and "login_password cfg writable fs net j line = Some (Ok (r, w))"
  shows "(\<forall>net'. r = Kept net' \<longrightarrow> sessions_ok net') \<and> (\<forall>d net'. r = Dropped d net' \<longrightarrow> sessions_ok net')"
proof -
  obtain k where k: "d_user (session_at net j) = Some k"
    using assms(4) by (cases "d_user (session_at net j)") (auto simp: login_password_def)
  consider "r = drop_session j ''Incorrect password'' net"
    | n where "r = Kept (set_session j (\<lambda>d. d\<lparr>d_status := DCC_AUTHENTICATED\<rparr>)
                    (say j ''Type .help for help.'' (dcc_print_motd cfg fs j n)))"
        "n = net \<or> n = net\<lparr>n_users := dl_update_all k (rehash_user cfg line) (n_users net)\<rparr>"
    using assms(4) k
    by (auto simp: login_password_def Let_def obind_def split: if_splits option.splits sum.splits)
  then show ?thesis
  proof cases
    case 1
    then show ?thesis using sessions_ok_del [OF assms(1)] by (simp add: drop_session_def)
  next
    case 2
    have "sessions_ok n" "length (dl_from (n_dccs n)) = length (dl_from (n_dccs net))"
      "d_status (session_at n j) = DCC_HAS_USERNAME"
      using 2(2) assms(1) st sessions_ok_rehash by auto
    then show ?thesis using 2(1) j by (simp add: sessions_ok_authenticate)
  qed
qed

lemma sessions_ok_select:
  "sessions_ok net \<Longrightarrow>
   sessions_ok (net\<lparr>n_dccs := DList (dl_before (n_dccs net)) (map session_select (dl_from (n_dccs net)))\<rparr>)"
  by (rule sessions_ok_map) (simp_all add: session_ok_select)

lemma sessions_ok_accept: "sessions_ok net \<Longrightarrow> sessions_ok (new_dcc_connection accepted net)"
  using sessions_ok_append
  by (auto simp: new_dcc_connection_def Let_def irc_printf_def dcc_status_order split: option.split)

lemma sessions_ok_initiate: "sessions_ok net \<Longrightarrow> sessions_ok (initiate_dcc_chat connects net r)"
  using sessions_ok_append
  by (auto simp: initiate_dcc_chat_def Let_def new_dcc_session_def dcc_status_order split: option.split)

lemma sessions_ok_chat:
  "sessions_ok net \<Longrightarrow> dcc_partyline_handler net j line = Ok net' \<Longrightarrow> sessions_ok net'"
  by (auto simp: dcc_partyline_handler_def rbind_Ok_iff intro: sessions_ok_map)

lemma sessions_ok_line:
  assumes "sessions_ok net" and "j < length (dl_from (n_dccs net))"
    and "parse_dcc_line cfg writable fs net j line = Some (Ok (r, w))"
  shows "(\<forall>net'. r = Kept net' \<longrightarrow> sessions_ok net') \<and> (\<forall>d net'. r = Dropped d net' \<longrightarrow> sessions_ok net')"
proof (cases "d_status (session_at net j)")
  case DCC_CONNECTED
  then have "login_name net j line = Ok r"
    using assms(3) by (auto simp: parse_dcc_line_def rbind_Ok_iff)
  then show ?thesis by (rule sessions_ok_login_name [OF assms(1,2)])
next
  case DCC_HAS_USERNAME
  then have "login_password cfg writable fs net j line = Some (Ok (r, w))"
    using assms(3) by (simp add: parse_dcc_line_def)
  then show ?thesis by (rule sessions_ok_password [OF assms(1,2) DCC_HAS_USERNAME])
qed (use assms in \<open>auto simp: parse_dcc_line_def\<close>)

lemma dcc_step_sessions_ok: "dcc_step cfg writable fs net net' \<Longrightarrow> sessions_ok net \<Longrightarrow> sessions_ok net'"
proof (induction rule: dcc_step.induct)
  case (Connected j net)
  then show ?case by (intro sessions_ok_update) (auto intro: session_ok_connected)
next
  case (Line j net line net' w)
  then show ?case using sessions_ok_line by blast
next
  case (Drop j net line d net' w)
  then show ?case using sessions_ok_line by blast
qed (auto intro: sessions_ok_accept sessions_ok_initiate sessions_ok_select sessions_ok_del sessions_ok_chat)

lemma reachable_sessions_ok:
  "(dcc_step cfg writable fs)\<^sup>*\<^sup>* net net' \<Longrightarrow> sessions_ok net \<Longrightarrow> sessions_ok net'"
  by (induction rule: rtranclp_induct) (auto intro: dcc_step_sessions_ok)

lemma sessions_ok_none: "dl_all (n_dccs net) = [] \<Longrightarrow> sessions_ok net"
  by (simp add: sessions_ok_def)

lemma sessions_ok_user:
  assumes "sessions_ok net" and "j < length (dl_from (n_dccs net))"
    and "DCC_HAS_USERNAME \<le> d_status (session_at net j)"
  shows "\<exists>k < length (dl_all (n_users net)). d_user (session_at net j) = Some k"
proof -
  have "session_at net j \<in> set (dl_all (n_dccs net))"
    using assms(2) by (simp add: session_at_def dl_all_def)
  then show ?thesis using assms(1,3) by (auto simp: sessions_ok_def session_ok_def)
qed

section \<open>A login that goes through\<close>

lemma find_exact_distinct:
  assumes "\<forall>x \<in> set xs. key x \<noteq> None" and "distinct (map key xs)" and "i < length xs" and "key (xs ! i) = Some n"
  shows "find_exact key (Some n) xs = Ok (Some i)"
  using assms
proof (induction xs arbitrary: i)
  case (Cons x xs)
  show ?case
  proof (cases i)
    case 0
    then show ?thesis using Cons.prems by simp
  next
    case (Suc k)
    then have k: "k < length xs" "key (xs ! k) = Some n" using Cons.prems by auto
    then have "key x \<noteq> Some n" using Cons.prems(2) by (metis distinct.simps(2) list.simps(9) nth_map nth_mem length_map)
    moreover obtain m where "key x = Some m" using Cons.prems(1) by auto
    ultimately show ?thesis using Cons.IH [of k] Cons.prems k Suc by simp
  qed
qed simp

lemma name_line:
  assumes st: "d_status (session_at net j) = DCC_CONNECTED" and j: "j < length (dl_from (n_dccs net))"
    and heads: "dl_head (n_users net)" and named: "named_accounts (dl_from (n_users net))"
    and dist: "distinct (map username (dl_from (n_users net)))"
    and k: "k < length (dl_from (n_users net))" "username (dl_from (n_users net) ! k) = Some n"
    and p: "lookup_user n (n_users net) = Some v" "u_flags v = Some fl" "CHR ''p'' \<in> set fl"
  shows "\<exists>net'. parse_dcc_line cfg writable fs net j n = Some (Ok (Kept net', [])) \<and>
     d_status (session_at net' j) = DCC_HAS_USERNAME \<and> d_user (session_at net' j) = Some k \<and>
     n_users net' = n_users net \<and> length (dl_from (n_dccs net')) = length (dl_from (n_dccs net))"
proof -
  have all: "dl_before (n_users net) = []" using heads by (simp add: dl_head_def)
  have f: "find_exact username (Some n) (dl_from (n_users net)) = Ok (Some k)"
    using find_exact_distinct [of "dl_from (n_users net)" username k n] named dist k
    by (simp add: named_accounts_def)
  have ne: "dl_from (n_users net) \<noteq> []" using k(1) by auto
  have m: "egg_matchattr net (Some n) (Some ''p'') None = Ok 1"
    using p by (simp add: matchattr_global [OF heads ne named])
  have "login_name net j n = Ok (Kept (set_session j
      (\<lambda>d. (irc_printf (d\<lparr>d_user := Some k\<rparr>) ''Please enter your password.'')\<lparr>d_status := DCC_HAS_USERNAME\<rparr>) net))"
    using k all f m by (simp add: login_name_def)
  then show ?thesis
    using st j by (simp add: parse_dcc_line_def irc_printf_def) (simp add: set_session_def)
qed

lemma login_goes_through:
  assumes st: "d_status (session_at net j) = DCC_CONNECTED" and j: "j < length (dl_from (n_dccs net))"
    and heads: "dl_head (n_users net)" and named: "named_accounts (dl_from (n_users net))"
    and dist: "distinct (map username (dl_from (n_users net)))"
    and k: "k < length (dl_from (n_users net))" "username (dl_from (n_users net) ! k) = Some n"
    and p: "lookup_user n (n_users net) = Some v" "u_flags v = Some fl" "CHR ''p'' \<in> set fl"
    and h: "passhash (dl_from (n_users net) ! k) = Some h" "egg_makepasswd cfg (Some pw) (Some t) = Some h"
    and t: "hash_type (dl_from (n_users net) ! k) = Some t" "c_hash_type cfg = Some t"
  shows "\<exists>net1 net2. parse_dcc_line cfg writable fs net j n = Some (Ok (Kept net1, [])) \<and>
     parse_dcc_line cfg writable fs net1 j pw = Some (Ok (Kept net2, [])) \<and>
     d_status (session_at net2 j) = DCC_AUTHENTICATED"
proof -
  obtain net1 where 1: "parse_dcc_line cfg writable fs net j n = Some (Ok (Kept net1, []))"
    "d_status (session_at net1 j) = DCC_HAS_USERNAME" "d_user (session_at net1 j) = Some k"
    "n_users net1 = n_users net" "length (dl_from (n_dccs net1)) = length (dl_from (n_dccs net))"
    using name_line [OF st j heads named dist k p] by blast
  have a: "account net1 j = dl_from (n_users net) ! k"
    using 1(3,4) heads by (simp add: account_def dl_all_def dl_head_def)
  show ?thesis
    using password_line [where net = net1 and j = j and k = k and t = t and cfg = cfg and writable = writable and fs = fs and line = pw] 1 a h t j heads named dist k by auto
qed

end
