(* ===== verification/Irc_Proto.thy ===== *)
theory Irc_Proto
  imports Dcc_Login
begin

text \<open>
  \<^verbatim>\<open>src/src/irc_proto.c\<close>: the triggers every network gets, and the handlers behind them that are not
  those of \<^verbatim>\<open>troll_lib.c\<close>, \<^verbatim>\<open>dcc.c\<close> and \<^verbatim>\<open>channel.c\<close>. What is logged is left out, but not the pointers that
  are read to log it. Without a script language in the build its commands are not among the triggers.
\<close>

section \<open>The triggers every network gets\<close>

definition default_trigger :: "trig_type \<Rightarrow> string \<Rightarrow> handler \<Rightarrow> trigger" where
  "default_trigger ty m h = new_trigger None ty (Some m) None (Some h)"

definition default_msg :: "(string \<times> handler) list" where
  "default_msg =
     [(CTCP # ''VERSION'', Return_ctcp_version), (CTCP # ''CHAT'', Reverse_dcc_chat),
      (CTCP # ''JOIN'', Do_join_channels), (CTCP # ''PING'', Return_ctcp_ping),
      (CTCP # ''TIME'', Return_ctcp_time), (CTCP # ''DCC CHAT'', Initiate_dcc_chat),
      (''pass'', New_user_pass), (''ident'', Check_user_pass), (''hello'', Introduce_user),
      (''goodbye'', Disconnect_bot)]"

definition default_dcc :: "(string \<times> handler) list" where
  "default_dcc =
     [(''.help'', Dcc_help_menu), (''.+chan'', Dcc_add_chan), (''.-chan'', Dcc_del_chan),
      (''.tbinds'', Dcc_tbinds), (''.who'', Dcc_who), (''.dump'', Dcc_dump), (''.saveall'', Dcc_saveall),
      (''.rehash'', Rehash_bot), (''.chattr'', Dcc_chattr), (''.console'', Dcc_console)]"

definition default_raw :: "(string \<times> handler) list" where
  "default_raw =
     [(''352'', Troll_parse_who), (''353'', Channel_list_populate), (''324'', Channel_set_modes),
      (''332'', Channel_set_topic), (''367'', Channel_banlist_add), (''NICK'', Troll_trig_update_nick),
      (''MODE'', Troll_trig_update_mode), (''433'', Troll_nick_in_use), (''376'', Troll_user_host),
      (''470'', Troll_channel_redirect)]"

definition add_all :: "trig_type \<Rightarrow> (string \<times> handler) list \<Rightarrow> trigger dlist \<Rightarrow> trigger dlist" where
  "add_all ty mhs d = foldl (\<lambda>d (m, h). trigger_list_add d (default_trigger ty m h)) d mhs"

definition default_trigs :: "trig_table \<Rightarrow> trig_table" where
  "default_trigs tt =
     tt\<lparr>tt_msg := add_all TRIG_MSG default_msg (tt_msg tt),
        tt_topc := add_all TRIG_TOPC [(''*'', Troll_trig_update_topic)] (tt_topc tt),
        tt_join := add_all TRIG_JOIN [(''*'', New_join)] (tt_join tt),
        tt_part := add_all TRIG_PART [(''*'', New_part)] (tt_part tt),
        tt_sign := add_all TRIG_SIGN [(''*'', New_quit)] (tt_sign tt),
        tt_kick := add_all TRIG_KICK [(''*'', New_kick)] (tt_kick tt),
        tt_dcc := add_all TRIG_DCC default_dcc (tt_dcc tt),
        tt_notc := add_all TRIG_NOTC [(''*QUOTE PASS*'', Troll_undernet_hack)] (tt_notc tt),
        tt_raw := add_all TRIG_RAW default_raw (tt_raw tt)\<rparr>"

definition add_default_triggers :: "config \<Rightarrow> config" where
  "add_default_triggers cfg =
     cfg\<lparr>networks := DList (dl_before (networks cfg))
           (map (\<lambda>n. n\<lparr>trigs := default_trigs (trigs n)\<rparr>) (dl_from (networks cfg)))\<rparr>"

section \<open>Numeric replies\<close>

text \<open>
  The walk to the channel of a parameter reads the parameter only if there is a channel. When the
  channel is not there, what is logged reads the parameter again.
\<close>

definition at_channel :: "network \<Rightarrow> irc_data \<Rightarrow> nat \<Rightarrow> (channel \<Rightarrow> channel res) \<Rightarrow> network res" where
  "at_channel net data p f =
     (if dl_from (n_chans net) = [] then Ok net
      else
        rbind (arr_get (c_params data) p) (\<lambda>name.
        rbind (find_channel net name) (\<lambda>m.
          case m of
            None \<Rightarrow> Ok net
          | Some i \<Rightarrow> rbind (f (chan_at net i)) (\<lambda>c. Ok (set_chan i c net)))))"

definition channel_set_modes :: "network \<Rightarrow> irc_data \<Rightarrow> network res" where
  "channel_set_modes net data =
     at_channel net data 1 (\<lambda>chan.
       rbind (arr_str (c_params data) 2) (\<lambda>m. Ok (chan\<lparr>chanmode := (if m = [] then None else Some m)\<rparr>)))"

definition new_ban :: "irc_data \<Rightarrow> channel_ban res" where
  "new_ban data =
     rbind (arr_get (c_params data) 1) (\<lambda>name.
     rbind (arr_get (c_params data) 2) (\<lambda>m.
     rbind (arr_get (c_params data) 3) (\<lambda>who.
     rbind (arr_str (c_params data) 4) (\<lambda>t.
       Ok (channel_ban_new\<lparr>cb_chan := name, cb_mask := m, cb_who := who, cb_time := atoi t\<rparr>)))))"

definition channel_banlist_add :: "network \<Rightarrow> irc_data \<Rightarrow> network res" where
  "channel_banlist_add net data =
     at_channel net data 1 (\<lambda>chan.
       rbind (if dl_from (banlist chan) = [] then Ok None
              else rbind (arr_str (c_params data) 2) (\<lambda>m. find_exact cb_mask (Some m) (dl_from (banlist chan)))) (\<lambda>known.
         if known \<noteq> None then Ok chan
         else rbind (new_ban data) (\<lambda>ban. Ok (chan\<lparr>banlist := channel_ban_add (banlist chan) ban\<rparr>))))"

definition channel_set_topic :: "network \<Rightarrow> irc_data \<Rightarrow> network res" where
  "channel_set_topic net data = at_channel net data 1 (\<lambda>chan. Ok (chan\<lparr>topic := rest_str data\<rparr>))"

section \<open>Joining and leaving\<close>

text \<open>
  \<open>new_join\<close> looks for the channel from the first one on, by the text of the message. What it finds or
  adds gets the host and the ident. The bot's own join has the modes, the lists and the users asked for.
\<close>

definition join_user :: "irc_prefix \<Rightarrow> channel \<Rightarrow> channel res" where
  "join_user p chan =
     rbind (find_cuser chan (pnick p)) (\<lambda>m.
       let (us, i) = (case m of
                        Some i \<Rightarrow> (user_list chan, i)
                      | None \<Rightarrow> (channel_user_add (user_list chan) (new_channel_user\<lparr>cu_nick := pnick p\<rparr>),
                                 length (dl_from (user_list chan))))
       in Ok (chan\<lparr>user_list := dl_update i (\<lambda>u. u\<lparr>cu_host := phost p, cu_ident := puser p\<rparr>) us\<rparr>))"

definition join_questions :: "string \<Rightarrow> string list" where
  "join_questions name =
     [''MODE '' @ name, ''MODE '' @ name @ '' b'', ''MODE '' @ name @ '' e'', ''MODE '' @ name @ '' I'',
      ''WHO '' @ name]"

definition new_join :: "network \<Rightarrow> irc_data \<Rightarrow> network res" where
  "new_join net data =
     rbind (deref (prefix_of data)) (\<lambda>p.
       if dl_from (n_chans net) = [] then Ok net
       else
         rbind (find_ptr (Some \<circ> ch_name) (rest_str data) (dl_all (n_chans net))) (\<lambda>m.
           case m of
             None \<Rightarrow> Ok net
           | Some i \<Rightarrow>
               rbind (join_user p (dl_all (n_chans net) ! i)) (\<lambda>c.
                 let net' = net\<lparr>n_chans := dl_update_all i (\<lambda>_. c) (n_chans net)\<rparr>
                 in rbind (tstrcasecmp_p (botnick net) (pnick p)) (\<lambda>r.
                      if r = 0 then tsocket_printfs net' (join_questions (ch_name c)) else Ok net'))))"

text \<open>The user of a channel, looked for and taken out.\<close>

definition remove_cuser :: "cstr \<Rightarrow> channel \<Rightarrow> channel res" where
  "remove_cuser who chan =
     rbind (find_cuser chan who) (\<lambda>m. Ok (chan\<lparr>user_list := channel_user_del (user_list chan) m\<rparr>))"

definition new_part :: "network \<Rightarrow> irc_data \<Rightarrow> network res" where
  "new_part net data =
     rbind (deref (prefix_of data)) (\<lambda>p.
     rbind (arr_get (c_params data) 0) (\<lambda>name.
     rbind (find_channel net name) (\<lambda>m.
       case m of
         None \<Rightarrow> Ok net
       | Some i \<Rightarrow>
           if dl_from (user_list (chan_at net i)) = [] then Ok net
           else rbind (remove_cuser (pnick p) (chan_at net i)) (\<lambda>c. Ok (set_chan i c net)))))"

text \<open>\<open>QUIT\<close>: all channels from the pointer on; a channel without the user is left as it is.\<close>

definition quit_channel :: "cstr \<Rightarrow> channel \<Rightarrow> channel res" where
  "quit_channel who chan =
     rbind (find_cuser chan who) (\<lambda>m.
       Ok (case m of
             None \<Rightarrow> chan
           | Some i \<Rightarrow> chan\<lparr>user_list := channel_user_del (user_list chan) (Some i)\<rparr>))"

definition new_quit :: "network \<Rightarrow> irc_data \<Rightarrow> network res" where
  "new_quit net data =
     rbind (deref (prefix_of data)) (\<lambda>p.
     rbind (mapM_res (quit_channel (pnick p)) (dl_from (n_chans net))) (\<lambda>cs.
       Ok (net\<lparr>n_chans := DList (dl_before (n_chans net)) cs\<rparr>)))"

text \<open>Whether the bot was kicked is told by the configured nick, with case.\<close>

definition new_kick :: "network \<Rightarrow> irc_data \<Rightarrow> network res" where
  "new_kick net data =
     rbind (arr_get (c_params data) 1) (\<lambda>who.
     rbind (strcmp_p who (nick net)) (\<lambda>me.
     rbind (arr_get (c_params data) 0) (\<lambda>name.
     rbind (if me then tsocket_printf net (''JOIN '' @ fmt_s name) else Ok net) (\<lambda>n.
     rbind (find_channel n name) (\<lambda>m.
     rbind (case m of
              None \<Rightarrow> Ok n
            | Some i \<Rightarrow> rbind (remove_cuser who (chan_at n i)) (\<lambda>c. Ok (set_chan i c n))) (\<lambda>n'.
     rbind (deref (prefix_of data)) (\<lambda>_. Ok n')))))))"

section \<open>Messages from users\<close>

text \<open>The first user with a nick that is the sender's, with case.\<close>

fun find_sender :: "irc_data \<Rightarrow> user list \<Rightarrow> nat option res" where
  "find_sender data [] = Ok None"
| "find_sender data (u # us) =
     (case u_nick u of
        None \<Rightarrow> rbind (find_sender data us) (\<lambda>m. Ok (map_option Suc m))
      | Some n \<Rightarrow>
          rbind (deref (prefix_of data)) (\<lambda>p.
          rbind (strcmp_p (pnick p) (Some n)) (\<lambda>same.
            if same then Ok (Some 0) else rbind (find_sender data us) (\<lambda>m. Ok (map_option Suc m)))))"

definition privmsg :: "cstr \<Rightarrow> string \<Rightarrow> string" where
  "privmsg to s = ''PRIVMSG '' @ fmt_s to @ '' :'' @ s"

definition new_user_pass ::
  "config \<Rightarrow> (string \<Rightarrow> bool) \<Rightarrow> network \<Rightarrow> irc_data \<Rightarrow> (network \<times> writes) res option" where
  "new_user_pass cfg writable net data =
     obind (Some (arr_get (rest data) 1)) (\<lambda>pass.
       if pass = None then Some (Ok (net, []))
       else obind (Some (find_sender data (dl_from (n_users net)))) (\<lambda>m.
            obind (Some (deref (prefix_of data))) (\<lambda>p.
              case m of
                None \<Rightarrow> Some (rbind (tsocket_printf net (privmsg (pnick p) (''I don'' @ [CHR 0x27] @ ''t know you''))) (\<lambda>n. Ok (n, [])))
              | Some i \<Rightarrow>
                  if passhash (dl_from (n_users net) ! i) \<noteq> None then Some (Ok (net, []))
                  else
                    let us = dl_update i (\<lambda>u. u\<lparr>passhash := egg_makepasswd cfg pass (c_hash_type cfg),
                                                hash_type := c_hash_type cfg\<rparr>) (n_users net)
                    in obind (Some (tsocket_printf (net\<lparr>n_users := us\<rparr>)
                          (privmsg (pnick p) (''Your password has been set as '' @ [CHR 0x27] @ fmt_s pass @ [CHR 0x27])))) (\<lambda>n.
                       obind (users_save cfg writable (Some n)) (\<lambda>w. Some (Ok (n, w)))))))"

definition check_user_pass :: "network \<Rightarrow> irc_data \<Rightarrow> network" where
  "check_user_pass net data = net"

text \<open>
  \<open>introduce_user\<close> walks to the user of that name, or to the last one, and makes the new user the next
  of it, whatever was behind it.
\<close>

fun introduce_at :: "cstr \<Rightarrow> user list \<Rightarrow> nat res" where
  "introduce_at who (u # v # us) =
     rbind (strcmp_p (username u) who) (\<lambda>same.
       if same then Ok 0 else rbind (introduce_at who (v # us)) (\<lambda>i. Ok (Suc i)))"
| "introduce_at who us = Ok 0"

definition introduced :: "config \<Rightarrow> network \<Rightarrow> irc_prefix \<Rightarrow> user res" where
  "introduced cfg net p =
     rbind (deref (puser p)) (\<lambda>us.
     rbind (deref (pnick p)) (\<lambda>ni.
     rbind (deref (phost p)) (\<lambda>ho.
       Ok ((new_user (Some ni) (Some ni) None (Some us) None (Some ho) (default_flags net))
             \<lparr>hash_type := c_hash_type cfg, uhost := Some (us @ ''!'' @ ni @ ''@'' @ ho)\<rparr>))))"

definition greet :: "network \<Rightarrow> irc_prefix \<Rightarrow> network res" where
  "greet net p =
     tsocket_printfs net
       [privmsg (pnick p) (''Welcome to trollbot, your username is '' @ [CHR 0x27] @ fmt_s (pnick p) @ [CHR 0x27]),
        privmsg (pnick p) (''Type '' @ [CHR 0x27] @ ''/msg '' @ fmt_s (nick net) @
                           '' pass <your new password>'' @ [CHR 0x27] @ '' to continue'')]"

definition introduce_user :: "config \<Rightarrow> network \<Rightarrow> irc_data \<Rightarrow> network res" where
  "introduce_user cfg net data =
     rbind (deref (prefix_of data)) (\<lambda>p.
       let us = dl_from (n_users net)
       in if us = [] then
            rbind (introduced cfg net p) (\<lambda>u. greet (net\<lparr>n_users := DList [] [u]\<rparr>) p)
          else
            rbind (introduce_at (pnick p) us) (\<lambda>i.
            rbind (strcmp_p (u_nick (us ! i)) (pnick p)) (\<lambda>same.
              if same then tsocket_printf net (privmsg (pnick p) ''Another user already exists by that nick'')
              else rbind (introduced cfg net p) (\<lambda>u.
                     greet (net\<lparr>n_users := DList (dl_before (n_users net)) (take (Suc i) us @ [u])\<rparr>) p))))"

section \<open>CTCP\<close>

text \<open>\<open>time(NULL)\<close> is printed with \<open>%d\<close>; \<open>tdate\<close> is what \<open>strftime\<close> makes of it.\<close>

definition notice :: "network \<Rightarrow> irc_data \<Rightarrow> string \<Rightarrow> network res" where
  "notice net data s =
     rbind (deref (prefix_of data)) (\<lambda>p.
       tsocket_printf net (''NOTICE '' @ fmt_s (pnick p) @ '' :'' @ [CTCP] @ s @ [CTCP]))"

definition return_ctcp_ping :: "int \<Rightarrow> network \<Rightarrow> irc_data \<Rightarrow> network res" where
  "return_ctcp_ping now net data = notice net data (''PING '' @ show_int (sint (word_of_int now :: 32 word)))"

definition return_ctcp_time :: "string \<Rightarrow> network \<Rightarrow> irc_data \<Rightarrow> network res" where
  "return_ctcp_time tdate net data = notice net data (''TIME '' @ tdate)"

definition return_ctcp_version :: "network \<Rightarrow> irc_data \<Rightarrow> network res" where
  "return_ctcp_version net data = notice net data ''VERSION Trollbot v1.0.0 by poutine''"

section \<open>Commands of the party line\<close>

definition dcc_dump :: "network \<Rightarrow> string \<Rightarrow> string \<Rightarrow> network res" where
  "dcc_dump net m buf = rbind (troll_makearg buf m) (\<lambda>a. tsocket_printf net a)"

definition do_join_channels :: "network \<Rightarrow> network res" where
  "do_join_channels net = send_join net"

definition dcc_saveall :: "config \<Rightarrow> (string \<Rightarrow> bool) \<Rightarrow> writes res option" where
  "dcc_saveall cfg writable = egg_save cfg writable None"

end
