(* ===== verification/Members.thy ===== *)
theory Members
  imports Irc_Proto
begin

text \<open>
  What the handlers of \<^verbatim>\<open>src/src/irc_proto.c\<close> and \<^verbatim>\<open>src/src/troll_lib.c\<close> make of the users of a channel, and
  of the accounts and the triggers of a network.
\<close>

section \<open>Somebody joins\<close>

lemma find_index_end:
  "find_index P xs = None \<Longrightarrow> P x \<Longrightarrow> find_index P (xs @ [x]) = Some (length xs)"
  by (induction xs) (auto split: if_splits)

lemma lookup_cuser_add_new:
  assumes "lookup_cuser k d = None" and "cuser_nick u = k"
  shows "lookup_cuser l (channel_user_add d u) = (if same_name k l then Some u else lookup_cuser l d)"
  using assms cusers.lookup_same [of k l d] cusers.lookup_add [of l d u]
  by (auto split: option.splits)

definition at_join :: "irc_prefix \<Rightarrow> channel_user \<Rightarrow> channel_user" where
  "at_join p u = u\<lparr>cu_host := phost p, cu_ident := puser p\<rparr>"

lemma at_join_nick [simp]: "cu_nick (at_join p u) = cu_nick u" "cuser_nick (at_join p u) = cuser_nick u"
  by (simp_all add: at_join_def cuser_nick_def)

lemma chan_ok_update:
  assumes "chan_ok c" and "i < length (dl_from (user_list c))" and "\<And>u. cu_nick (f u) = cu_nick u"
  shows "chan_ok (c\<lparr>user_list := dl_update i f (user_list c)\<rparr>)"
proof -
  have n: "cuser_nick (f u) = cuser_nick u" for u using assms(3) by (simp add: cuser_nick_def)
  have "dl_wf (dl_update i f (user_list c))"
    using assms(1,2) by (cases "user_list c") (auto simp: chan_ok_def dl_wf_def dl_update_def)
  then show ?thesis
    using assms named_users_update [OF assms(3,2)] unique_update [OF n assms(2)] by (simp add: chan_ok_def)
qed

lemma chan_ok_add:
  assumes "chan_ok c" and "lookup_cuser k (user_list c) = None" and "cu_nick u = Some k"
  shows "chan_ok (c\<lparr>user_list := channel_user_add (user_list c) u\<rparr>)"
proof -
  have "cuser_nick u = k" using assms(3) by (simp add: cuser_nick_def)
  then have "cusers.unique_keys (channel_user_add (user_list c) u)"
    using assms(1,2) cusers.unique_keys_add [of "user_list c" u] by (simp add: chan_ok_def)
  moreover have "named_users (channel_user_add (user_list c) u)"
    using assms(1,3) by (simp add: chan_ok_def named_users_def channel_user_add_def)
  ultimately show ?thesis using assms(1) by (simp add: chan_ok_def channel_user_add_def)
qed

lemma join_user_spec:
  assumes ok: "chan_ok chan" and p: "pnick p = Some k"
  shows "\<exists>us. join_user p chan = Ok (chan\<lparr>user_list := us\<rparr>) \<and> chan_ok (chan\<lparr>user_list := us\<rparr>) \<and>
    (\<forall>l. lookup_cuser l us =
       (if same_name k l
        then Some (at_join p (case lookup_cuser k (user_list chan) of
                                None \<Rightarrow> new_channel_user\<lparr>cu_nick := Some k\<rparr> | Some u \<Rightarrow> u))
        else lookup_cuser l (user_list chan)))"
proof -
  let ?d = "user_list chan" and ?P = "\<lambda>u. same_name (cuser_nick u) k"
  have named: "named_users ?d" using ok by (simp add: chan_ok_def)
  have f: "(\<lambda>u. u\<lparr>cu_host := phost p, cu_ident := puser p\<rparr>) = at_join p" by (auto simp: at_join_def)
  show ?thesis
  proof (cases "find_index ?P (dl_from ?d)")
    case None
    let ?u = "new_channel_user\<lparr>cu_nick := Some k\<rparr>"
    let ?a = "channel_user_add ?d ?u"
    let ?us = "dl_update (length (dl_from ?d)) (at_join p) ?a"
    have l: "lookup_cuser k ?d = None" using None by (simp add: lookup_cuser_index)
    have n: "cuser_nick ?u = k" by (simp add: cuser_nick_def)
    have i: "length (dl_from ?d) < length (dl_from ?a)" by (simp add: channel_user_add_def)
    have at: "find_index ?P (dl_from ?a) = Some (length (dl_from ?d))"
      using find_index_end [OF None, of ?u] n by (simp add: channel_user_add_def)
    have "join_user p chan = Ok (chan\<lparr>user_list := ?us\<rparr>)"
      using None p find_cuser_index [OF named] by (simp add: join_user_def f)
    moreover have "chan_ok (chan\<lparr>user_list := ?us\<rparr>)"
      using chan_ok_update [of "chan\<lparr>user_list := ?a\<rparr>" "length (dl_from ?d)" "at_join p"] i
        chan_ok_add [OF ok l, of ?u] by simp
    moreover have "dl_from ?a ! length (dl_from ?d) = ?u" by (simp add: channel_user_add_def)
    then have "lookup_cuser m ?us = (if same_name k m then Some (at_join p ?u) else lookup_cuser m ?d)" for m
      using lookup_cuser_update [of "at_join p", OF at_join_nick(2) i at, of m]
        lookup_cuser_add_new [OF l n, of m] by simp
    ultimately show ?thesis using l by (intro exI [of _ ?us]) simp
  next
    case (Some i)
    let ?us = "dl_update i (at_join p) ?d"
    have i: "i < length (dl_from ?d)" using find_index_Some [OF Some] by simp
    have "join_user p chan = Ok (chan\<lparr>user_list := ?us\<rparr>)"
      using Some p find_cuser_index [OF named] by (simp add: join_user_def f)
    moreover have "lookup_cuser k ?d = Some (dl_from ?d ! i)" using Some by (simp add: lookup_cuser_index)
    ultimately show ?thesis
      using chan_ok_update [OF ok i, of "at_join p"] lookup_cuser_update [of "at_join p", OF at_join_nick(2) i Some]
      by (intro exI [of _ ?us]) simp
  qed
qed

section \<open>Somebody leaves\<close>

text \<open>
  The record goes, and the pointer of the list moves to the one before it: what is further in front is
  no longer found.
\<close>

lemma remove_cuser_spec:
  assumes ok: "chan_ok chan" and i: "find_index (\<lambda>u. same_name (cuser_nick u) k) (dl_from (user_list chan)) = Some i"
  shows "\<exists>us. remove_cuser (Some k) chan = Ok (chan\<lparr>user_list := us\<rparr>) \<and>
    dl_all us = rev (dl_before (user_list chan)) @ take i (dl_from (user_list chan)) @ drop (Suc i) (dl_from (user_list chan)) \<and>
    (0 < i \<longrightarrow> dl_from us = drop (i - 1) (take i (dl_from (user_list chan))) @ drop (Suc i) (dl_from (user_list chan)) \<and>
               lookup_cuser k us = None)"
proof -
  let ?d = "user_list chan" and ?P = "\<lambda>u. same_name (cuser_nick u) k"
  let ?us = "channel_user_del ?d (Some i)"
  have il: "i < length (dl_from ?d)" "?P (dl_from ?d ! i)" using find_index_Some [OF i] by auto
  then have us: "?us = dl_del ?d (Some i)" by (auto simp: channel_user_del_def)
  have named: "named_users ?d" using ok by (simp add: chan_ok_def)
  have 1: "remove_cuser (Some k) chan = Ok (chan\<lparr>user_list := ?us\<rparr>)"
    using find_cuser_index [OF named] i by (simp add: remove_cuser_def)
  have 2: "dl_from ?us = drop (i - 1) (take i (dl_from ?d)) @ drop (Suc i) (dl_from ?d)" if pos: "0 < i"
  proof -
    obtain j where j: "i = Suc j" using pos by (cases i) auto
    have t: "take i (dl_from ?d) = take j (dl_from ?d) @ [dl_from ?d ! j]"
      using il(1) j by (simp add: take_Suc_conv_app_nth)
    then show ?thesis using il(1) j us by (simp add: dl_del_def)
  qed
  have 3: "lookup_cuser k ?us = None" if "0 < i"
  proof -
    have s: "sorted_wrt (\<lambda>v w. \<not> same_name (cuser_nick v) (cuser_nick w)) (dl_from ?d)"
      using ok by (simp add: chan_ok_def cusers.unique_keys_def)
    have "\<not> ?P (dl_from ?d ! j)" if "j < length (dl_from ?d)" "j \<noteq> i" for j
      using sorted_wrt_nth_less [OF s, of i j] sorted_wrt_nth_less [OF s, of j i] that il
      by (cases "j < i") (auto simp: same_name_iff)
    then have "\<not> ?P u" if "u \<in> set (take i (dl_from ?d)) \<union> set (drop (Suc i) (dl_from ?d))" for u
      using that il(1) by (auto simp: in_set_conv_nth)
    then have "\<forall>u \<in> set (dl_from ?us). \<not> ?P u"
      using 2 [OF that] set_drop_subset [of "i - 1" "take i (dl_from ?d)"] by fastforce
    then show ?thesis by (simp add: lookup_cuser_def dl_find_def find_None_all)
  qed
  show ?thesis
    using 1 2 3 dl_all_del [OF il(1)] us by (intro exI [of _ ?us] conjI impI) simp_all
qed

text \<open>Everybody but the one before and those behind are hidden.\<close>

lemma remove_cuser_hides:
  assumes ok: "chan_ok chan" and u: "dl_from (user_list chan) = a # xs @ p # u # ys"
    and k: "cu_nick u = Some k" and l: "cu_nick a = Some l"
  shows "\<exists>us. remove_cuser (Some k) chan = Ok (chan\<lparr>user_list := us\<rparr>) \<and> dl_from us = p # ys \<and>
    a \<in> set (dl_all us) \<and> lookup_cuser l us = None"
proof -
  let ?i = "Suc (Suc (length xs))"
  have s: "sorted_wrt (\<lambda>v w. \<not> same_name (cuser_nick v) (cuser_nick w)) (a # xs @ p # u # ys)"
    using ok u by (simp add: chan_ok_def cusers.unique_keys_def)
  have ck: "cuser_nick u = k" "cuser_nick a = l" using k l by (simp_all add: cuser_nick_def)
  have "find_index (\<lambda>u. same_name (cuser_nick u) k) (xs @ p # u # ys) = Some (Suc (length xs))"
    if "\<forall>v \<in> set (xs @ [p]). \<not> same_name (cuser_nick v) k" for xs
    using that ck by (induction xs) auto
  then have i: "find_index (\<lambda>u. same_name (cuser_nick u) k) (dl_from (user_list chan)) = Some ?i"
    using s ck u by (auto simp: sorted_wrt_append same_name_iff)
  obtain us where us: "remove_cuser (Some k) chan = Ok (chan\<lparr>user_list := us\<rparr>)"
      "dl_all us = rev (dl_before (user_list chan)) @ take ?i (dl_from (user_list chan)) @ drop (Suc ?i) (dl_from (user_list chan))"
      "dl_from us = drop (?i - 1) (take ?i (dl_from (user_list chan))) @ drop (Suc ?i) (dl_from (user_list chan))"
    using remove_cuser_spec [OF ok i] by blast
  have "dl_from us = p # ys" using us(3) u by simp
  moreover have "a \<in> set (dl_all us)" using us(2) u by simp
  moreover have "\<forall>x \<in> set (p # ys). \<not> same_name (cuser_nick a) (cuser_nick x)" using s by simp
  then have "lookup_cuser l us = None"
    unfolding lookup_cuser_def dl_find_def \<open>dl_from us = p # ys\<close>
    by (intro find_None_all) (simp only: ck same_name_iff eq_commute)
  ultimately show ?thesis using us(1) by blast
qed

text \<open>At the level of the network.\<close>

lemma find_channel_of:
  "find_ptr (Some \<circ> ch_name) (Some name) cs = Ok (find_index (\<lambda>c. same_name (ch_name c) name) cs)"
  using find_cased_index [of cs "Some \<circ> ch_name" name] by (auto simp: find_ptr_def)

lemma new_join_spec:
  assumes p: "prefix_of data = Some p" "pnick p = Some k" and r: "rest_str data = Some name"
    and i: "find_index (\<lambda>c. same_name (ch_name c) name) (dl_all (n_chans net)) = Some i"
    and ne: "dl_from (n_chans net) \<noteq> []"
    and ok: "chan_ok (dl_all (n_chans net) ! i)" and b: "botnick net = Some b" and t: "tsock net = Some s"
  shows "\<exists>c. new_join net data =
      Ok (net\<lparr>n_chans := dl_update_all i (\<lambda>_. c) (n_chans net),
              sent := sent net @ (if same_name b k then map (\<lambda>s. take 2047 s @ [NL]) (join_questions (ch_name c)) else [])\<rparr>) \<and>
    chan_ok c \<and> ch_name c = ch_name (dl_all (n_chans net) ! i) \<and>
    (\<forall>l. lookup_cuser l (user_list c) =
       (if same_name k l
        then Some (at_join p (case lookup_cuser k (user_list (dl_all (n_chans net) ! i)) of
                                None \<Rightarrow> new_channel_user\<lparr>cu_nick := Some k\<rparr> | Some u \<Rightarrow> u))
        else lookup_cuser l (user_list (dl_all (n_chans net) ! i))))"
proof -
  let ?c = "dl_all (n_chans net) ! i"
  obtain us where us: "join_user p ?c = Ok (?c\<lparr>user_list := us\<rparr>)" "chan_ok (?c\<lparr>user_list := us\<rparr>)"
    "\<forall>l. lookup_cuser l us =
       (if same_name k l
        then Some (at_join p (case lookup_cuser k (user_list ?c) of
                                None \<Rightarrow> new_channel_user\<lparr>cu_nick := Some k\<rparr> | Some u \<Rightarrow> u))
        else lookup_cuser l (user_list ?c))"
    using join_user_spec [OF ok p(2)] by blast
  let ?d = "?c\<lparr>user_list := us\<rparr>"
  have "new_join net data =
      Ok (net\<lparr>n_chans := dl_update_all i (\<lambda>_. ?d) (n_chans net),
              sent := sent net @ (if same_name b k then map (\<lambda>s. take 2047 s @ [NL]) (join_questions (ch_name ?d)) else [])\<rparr>)"
    using p r ne i us(1) b t
    by (simp add: new_join_def find_channel_of tsocket_printfs_Some [of _ s] same_name_def [symmetric] Let_def)
  then show ?thesis using us by (intro exI [of _ ?d]) simp
qed

text \<open>The same for the handler of \<open>PART\<close>.\<close>

lemma new_part_hides:
  assumes p: "prefix_of data = Some p" "pnick p = Some k" and n: "c_params data = Some (name # ps)"
    and i: "find_index (\<lambda>c. same_name (ch_name c) name) (dl_from (n_chans net)) = Some i"
    and ok: "chan_ok (chan_at net i)" and l: "dl_from (user_list (chan_at net i)) = a # xs @ q # u # ys"
    and k: "cu_nick u = Some k" and h: "cu_nick a = Some h"
  shows "\<exists>c. new_part net data = Ok (set_chan i c net) \<and> dl_from (user_list c) = q # ys \<and>
    a \<in> set (dl_all (user_list c)) \<and> lookup_cuser h (user_list c) = None"
proof -
  obtain us where us: "remove_cuser (Some k) (chan_at net i) = Ok ((chan_at net i)\<lparr>user_list := us\<rparr>)"
      "dl_from us = q # ys" "a \<in> set (dl_all us)" "lookup_cuser h us = None"
    using remove_cuser_hides [OF ok l k h] by blast
  have "new_part net data = Ok (set_chan i ((chan_at net i)\<lparr>user_list := us\<rparr>) net)"
    using p n i l us(1) by (simp add: new_part_def find_channel_index)
  then show ?thesis using us by (intro exI [of _ "(chan_at net i)\<lparr>user_list := us\<rparr>"]) simp
qed

section \<open>New accounts\<close>

lemma introduce_at_named:
  assumes "\<forall>x \<in> set xs. \<exists>n. username x = Some n \<and> n \<noteq> k" and "username u = Some k"
  shows "introduce_at (Some k) (xs @ u # ys) = Ok (length xs)"
  using assms(1)
proof (induction xs)
  case Nil
  then show ?case using assms(2) by (cases ys) simp_all
next
  case (Cons x xs)
  then show ?case by (cases xs) auto
qed

lemma introduce_at_last:
  assumes "\<forall>x \<in> set xs. \<exists>n. username x = Some n \<and> n \<noteq> k"
  shows "introduce_at (Some k) (xs @ [u]) = Ok (length xs)"
  using assms
proof (induction xs)
  case (Cons x xs)
  then show ?case by (cases xs) auto
qed simp

definition greeted :: "network \<Rightarrow> irc_prefix \<Rightarrow> network" where
  "greeted net p = (case greet net p of Inr n \<Rightarrow> n | Inl _ \<Rightarrow> net)"

lemma greet_users:
  "tsock net = Some s \<Longrightarrow> greet net p = Ok (greeted net p)" "n_users (greeted net p) = n_users net"
  by (simp_all add: greeted_def greet_def tsocket_printfs_Some)
     (auto simp: greet_def tsocket_printf_def split: sum.splits)

text \<open>The accounts behind the one with the sender's name are dropped from the list.\<close>

lemma introduce_user_drops:
  assumes p: "prefix_of data = Some p" "pnick p = Some k" "puser p = Some us" "phost p = Some ho"
    and l: "dl_from (n_users net) = xs @ u # ys" and xs: "\<forall>x \<in> set xs. \<exists>n. username x = Some n \<and> n \<noteq> k"
    and u: "username u = Some k \<or> ys = []" "u_nick u = Some m" "m \<noteq> k" and t: "tsock net = Some s"
  shows "\<exists>net' v. introduce_user cfg net data = Ok net' \<and>
    n_users net' = DList (dl_before (n_users net)) (xs @ [u, v]) \<and> username v = Some k \<and>
    u_nick v = Some k \<and> u_flags v = default_flags net \<and> passhash v = None \<and>
    uhost v = Some (us @ ''!'' @ k @ ''@'' @ ho)"
proof -
  obtain v where v: "introduced cfg net p = Ok v" "username v = Some k" "u_nick v = Some k"
    "u_flags v = default_flags net" "passhash v = None" "uhost v = Some (us @ ''!'' @ k @ ''@'' @ ho)"
    using p by (simp add: introduced_def new_user_def)
  have at: "introduce_at (Some k) (xs @ u # ys) = Ok (length xs)"
    using u(1) introduce_at_named [OF xs] introduce_at_last [OF xs] by auto
  let ?n = "net\<lparr>n_users := DList (dl_before (n_users net)) (xs @ [u, v])\<rparr>"
  have "introduce_user cfg net data = greet ?n p"
    using p(1,2) l u(2,3) at v(1) by (simp add: introduce_user_def Let_def)
  then show ?thesis using v greet_users(1) [of ?n s p] greet_users(2) [of ?n p] t by auto
qed

section \<open>The handlers that are called\<close>

lemma add_all_from:
  "dl_from (add_all ty mhs d) = dl_from d @ map (\<lambda>(m, h). default_trigger ty m h) mhs"
proof (induction mhs arbitrary: d)
  case (Cons mh mhs)
  then show ?case
    by (cases mh) (simp add: add_all_def trigger_list_add_def)
qed (simp add: add_all_def)

lemma default_trigger_simps [simp]:
  "t_mask (default_trigger ty m h) = Some m" "t_handler_of (default_trigger ty m h) = Some h"
  "glob_flags (default_trigger ty m h) = None"
  by (simp_all add: default_trigger_def new_trigger_def parse_flags_def)

lemma default_handlers_of:
  assumes "distinct (map fst mhs)"
  shows "map t_handler_of (map bump (filter (\<lambda>t. t_mask t = Some k \<and> t_handler_of t \<noteq> None)
      (map (\<lambda>(m, h). default_trigger ty m h) mhs))) =
    (case map_of mhs k of None \<Rightarrow> [] | Some h \<Rightarrow> [Some h])"
  using assms
proof (induction mhs)
  case (Cons mh mhs)
  obtain m h where mh: "mh = (m, h)" by (cases mh)
  have "map_of mhs m = None" using Cons.prems by (simp add: mh map_of_eq_None_iff)
  then show ?case using Cons by (auto simp: mh bump_def)
qed simp

text \<open>A command that is not one of the seven: the default handler of its name, then those of scripts.\<close>

lemma raw_calls_default:
  assumes cmd: "command data \<notin> {''PRIVMSG'', ''JOIN'', ''PART'', ''QUIT'', ''TOPIC'', ''KICK'', ''NOTICE''}"
  shows "\<exists>tt' fired. trigger_match b (default_trigs new_trig_table) data = Ok (tt', fired) \<and>
       map t_handler_of fired = (case map_of default_raw (command data) of None \<Rightarrow> [] | Some h \<Rightarrow> [Some h])"
proof -
  let ?ts = "map (\<lambda>(m, h). default_trigger TRIG_RAW m h) default_raw"
  have from_raw: "dl_from (tt_raw (default_trigs new_trig_table)) = ?ts"
    by (simp add: default_trigs_def add_all_from new_trig_table_def)
  have "\<forall>t \<in> set ?ts. test_raw data t = Ok (t_mask t = Some (command data))"
    by (auto simp: test_raw_def)
  from fire_all_spec [OF this] obtain us where
    "fire_all (test_raw data) ?ts = Ok (us, map bump (filter (\<lambda>t. t_mask t = Some (command data) \<and> t_handler_of t \<noteq> None) ?ts))"
    by blast
  then have "\<exists>tt'. trigger_match b (default_trigs new_trig_table) data =
      Ok (tt', map bump (filter (\<lambda>t. t_mask t = Some (command data) \<and> t_handler_of t \<noteq> None) ?ts))"
    using cmd from_raw by (auto simp: trigger_match_def fire_list_def)
  moreover have "distinct (map fst default_raw)" by (simp add: default_raw_def)
  ultimately show ?thesis using default_handlers_of [of default_raw "command data" TRIG_RAW] by blast
qed

end
