(* ===== verification/Config_Engine.thy ===== *)
theory Config_Engine
  imports Irc_Proto
begin

text \<open>
  \<^verbatim>\<open>src/src/config_engine.c\<close>: from the blocks of the configuration file to the global record, and
  \<open>egg_rehash\<close> of \<^verbatim>\<open>src/src/egg_lib.c\<close>, which does it again while the bot runs. The keys of script
  languages and of other servers are those of builds that have them. \<open>load_crypto\<close> is what loading a
  crypto module gives.
\<close>

section \<open>Settings\<close>

text \<open>The handlers of the two kinds of filters, as numbers.\<close>

definition console_log_filter_handler :: nat where
  "console_log_filter_handler = 0"

definition dcc_log_filter_handler :: nat where
  "dcc_log_filter_handler = 1"

definition new_config :: config where
  "new_config =
     \<lparr>networks = dl_null, c_filters = [], c_hash_type = None, c_crypto_name = None, c_crypto = None,
      c_dcc_motd = None, c_fork = 0, debug_level = 0, c_tcfg = [], c_tsockets = []\<rparr>"

definition add_filter :: "nat \<Rightarrow> cstr \<Rightarrow> config \<Rightarrow> config" where
  "add_filter h v cfg =
     cfg\<lparr>c_filters := log_filter_add (c_filters cfg) (log_filter_new\<lparr>lf_flags := v, lf_handler := Some h\<rparr>)\<rparr>"

text \<open>The first value counts: a field that is set is left alone.\<close>

definition number :: "cstr \<Rightarrow> (int \<Rightarrow> 'a) \<Rightarrow> 'a res" where
  "number v f = rbind (deref v) (\<lambda>s. Ok (f (atoi s)))"

definition global_setting :: "tblock \<Rightarrow> config \<Rightarrow> config res" where
  "global_setting b cfg =
     rbind (deref (tb_key b)) (\<lambda>k.
       let v = tb_value b in
       if k = ''fork'' then number v (\<lambda>n. cfg\<lparr>c_fork := n\<rparr>)
       else if k = ''console_log_flags'' then Ok (add_filter console_log_filter_handler v cfg)
       else if k = ''debuglevel'' then number v (\<lambda>n. cfg\<lparr>debug_level := n\<rparr>)
       else if k = ''dcc_motd'' then Ok (cfg\<lparr>c_dcc_motd := or_else (c_dcc_motd cfg) v\<rparr>)
       else if k = ''hash_type'' then Ok (cfg\<lparr>c_hash_type := or_else (c_hash_type cfg) v\<rparr>)
       else if k = ''crypto_module'' then Ok (cfg\<lparr>c_crypto_name := or_else (c_crypto_name cfg) v\<rparr>)
       else Ok cfg)"

definition net_setting_late :: "string \<Rightarrow> tblock \<Rightarrow> network \<Rightarrow> network res" where
  "net_setting_late k b net =
     (let v = tb_value b in
      if k = ''userfile'' then Ok (net\<lparr>userfile := or_else (userfile net) v\<rparr>)
      else if k = ''chanfile'' then Ok (net\<lparr>chanfile := or_else (chanfile net) v\<rparr>)
      else if k = ''realname'' then Ok (net\<lparr>n_realname := or_else (n_realname net) v\<rparr>)
      else if k = ''ident'' then Ok (net\<lparr>n_ident := or_else (n_ident net) v\<rparr>)
      else if k = ''vhost'' then Ok (net\<lparr>vhost := or_else (vhost net) v\<rparr>)
      else if k = ''server'' then Ok (net\<lparr>n_servers := dl_add (n_servers net) (new_server v)\<rparr>)
      else if k = ''channel'' then
        rbind (new_chan_from_tconfig_block (Some b)) (\<lambda>c.
          Ok (case c of None \<Rightarrow> net | Some c \<Rightarrow> net\<lparr>n_chans := channel_list_add (n_chans net) c\<rparr>))
      else Ok net)"

definition net_setting :: "tblock \<Rightarrow> network \<Rightarrow> network res" where
  "net_setting b net =
     rbind (deref (tb_key b)) (\<lambda>k.
       let v = tb_value b in
       if k = ''nick'' then Ok (if nick net = None then net\<lparr>nick := v, botnick := v\<rparr> else net)
       else if k = ''never-give-up'' then
         (if never_give_up net = -1 then number v (\<lambda>n. net\<lparr>never_give_up := n\<rparr>) else Ok net)
       else if k = ''server-cycle-wait'' then
         (if connect_delay net = -1 then number v (\<lambda>n. net\<lparr>connect_delay := n\<rparr>) else Ok net)
       else if k = ''default-flags'' then Ok (net\<lparr>default_flags := or_else (default_flags net) v\<rparr>)
       else if k = ''dcc_motd'' then Ok (net\<lparr>n_dcc_motd := or_else (n_dcc_motd net) v\<rparr>)
       else if k = ''dcc_port'' then
         (if dcc_port net = -1 then number v (\<lambda>n. net\<lparr>dcc_port := n\<rparr>) else Ok net)
       else if k = ''altnick'' then Ok (net\<lparr>altnick := or_else (altnick net) v\<rparr>)
       else if k = ''handlen'' then number v (\<lambda>n. net\<lparr>handlen := n\<rparr>)
       else net_setting_late k b net)"

text \<open>The key \<open>console\<close> of a network makes a global filter.\<close>

definition net_filters :: "tblock \<Rightarrow> config \<Rightarrow> config" where
  "net_filters b cfg =
     (if tb_key b = Some ''console'' then add_filter dcc_log_filter_handler (tb_value b) cfg else cfg)"

fun load_global :: "tblock list \<Rightarrow> config \<Rightarrow> config res" where
  "load_global [] cfg = Ok cfg"
| "load_global (b # bs) cfg = rbind (global_setting b cfg) (load_global bs)"

fun load_network :: "tblock list \<Rightarrow> config \<Rightarrow> network \<Rightarrow> (config \<times> network) res" where
  "load_network [] cfg net = Ok (cfg, net)"
| "load_network (b # bs) cfg net =
     rbind (net_setting b net) (\<lambda>net'. load_network bs (net_filters b cfg) net')"

fun load_top :: "nat \<Rightarrow> tblock list \<Rightarrow> config \<Rightarrow> config res" where
  "load_top i [] cfg = Ok cfg"
| "load_top i (b # bs) cfg =
     rbind (deref (tb_key b)) (\<lambda>k.
     rbind (if k = ''global'' then
              rbind (strcmp_p (tb_value b) (Some ''settings'')) (\<lambda>settings.
                if settings then load_global (tb_child b) cfg else Ok cfg)
            else if k = ''network'' then
              rbind (load_network (tb_child b) cfg ((new_network (tb_value b))\<lparr>n_tcfg := Some i\<rparr>)) (\<lambda>(c, n).
                Ok (c\<lparr>networks := dl_add (networks c) n\<rparr>))
            else Ok cfg) (load_top (Suc i) bs))"

definition config_engine_load :: "tblock list \<Rightarrow> config res" where
  "config_engine_load tcfg = load_top 0 tcfg new_config"

section \<open>The start\<close>

datatype started = Running config | Exit_failure

definition config_engine_init ::
  "(string \<Rightarrow> (cstr \<Rightarrow> cstr \<Rightarrow> cstr) option) \<Rightarrow> files \<Rightarrow> string \<Rightarrow> started res" where
  "config_engine_init load_crypto fs filename =
     rbind (file_to_tconfig (fs filename)) (\<lambda>tcfg.
     rbind (file_to_tconfig (fs ''defaults.conf'')) (\<lambda>defaults.
       if tcfg = [] then Ok Exit_failure
       else
         rbind (if defaults = [] then Ok tcfg
                else rbind (tconfig_merge defaults (tz_of_list tcfg [])) (\<lambda>t.
                       Ok (case t of None \<Rightarrow> tcfg | Some c \<Rightarrow> c))) (\<lambda>tree.
         rbind (config_engine_load tree) (\<lambda>cfg.
           Ok (Running (cfg\<lparr>c_tcfg := tree, c_crypto := Option.bind (c_crypto_name cfg) load_crypto\<rparr>))))))"

section \<open>Loading again\<close>

text \<open>
  What a network that is in both configurations keeps. The socket is not among it, and the new record's
  crypto module is not loaded. The old network is left with what was not taken.
\<close>

definition take_over :: "network \<Rightarrow> network \<Rightarrow> network" where
  "take_over old new =
     new\<lparr>n_dccs := n_dccs old, dcc_listener := dcc_listener old, n_servers := n_servers old,
         n_chans := n_chans old, shost := shost old, n_status := n_status old, n_users := n_users old,
         trigs := trigs old\<rparr>"

definition taken_from :: "network \<Rightarrow> network" where
  "taken_from old =
     old\<lparr>n_dccs := dl_null, n_servers := dl_null, n_chans := dl_null, shost := None, n_users := dl_null\<rparr>"

text \<open>One old network against the new ones, all of which are compared; a second match takes what is left.\<close>

fun match_new :: "network \<Rightarrow> network list \<Rightarrow> network list res" where
  "match_new old [] = Ok []"
| "match_new old (n # ns) =
     rbind (tstrcasecmp_p (n_label old) (n_label n)) (\<lambda>r.
       if r = 0 then rbind (match_new (taken_from old) ns) (\<lambda>ms. Ok (take_over old n # ms))
       else rbind (match_new old ns) (\<lambda>ms. Ok (n # ms)))"

text \<open>
  The loop frees the network it goes on with, so that a second old network is read after it was freed.
\<close>

definition rehash_networks :: "network list \<Rightarrow> network list \<Rightarrow> network list res" where
  "rehash_networks olds news =
     (case olds of
        [] \<Rightarrow> Fault NullDeref
      | old # others \<Rightarrow>
          if news = [] then Fault NullDeref
          else rbind (match_new old news) (\<lambda>ms. if others = [] then Ok ms else Fault UseAfterFree))"

definition egg_rehash :: "files \<Rightarrow> config \<Rightarrow> config res" where
  "egg_rehash fs cfg =
     rbind (file_to_tconfig (fs ''trollbot.conf'')) (\<lambda>tcfg.
     rbind (config_engine_load tcfg) (\<lambda>new.
     rbind (dl_rewind (networks cfg)) (\<lambda>olds.
     rbind (rehash_networks (dl_from olds) (dl_from (networks new))) (\<lambda>ns.
       Ok (new\<lparr>c_tcfg := tcfg, networks := DList [] ns\<rparr>)))))"

section \<open>What is loaded\<close>

text \<open>A network fresh from the configuration: nothing of what the bot learns while it runs.\<close>

definition fresh :: "network \<Rightarrow> bool" where
  "fresh n \<longleftrightarrow> trigs n = new_trig_table \<and> n_users n = dl_null \<and> tsock n = None \<and> n_dccs n = dl_null \<and>
     timers n = [] \<and> sent n = [] \<and> shost n = None \<and> dl_head (n_servers n) \<and> n_status n = NET_DISCONNECTED"

lemma number_Ok: "number v f = Inr x \<longleftrightarrow> (\<exists>s. v = Some s \<and> x = f (atoi s))"
  by (auto simp: number_def rbind_Ok_iff deref_Ok_iff)

lemma net_setting_fresh:
  assumes "net_setting b net = Ok net'" and "fresh net"
  shows "fresh net' \<and> n_label net' = n_label net"
proof -
  have "all_ok (\<lambda>n. fresh n \<and> n_label n = n_label net) (net_setting b net)"
    unfolding net_setting_def net_setting_late_def Let_def number_def
    by (intro all_ok_rules) (use assms(2) in \<open>simp_all add: fresh_def split: option.split\<close>)
  then show ?thesis using assms(1) by (rule all_okD)
qed

lemma load_network_fresh:
  "load_network bs cfg net = Ok (cfg', net') \<Longrightarrow> fresh net \<Longrightarrow>
   fresh net' \<and> n_label net' = n_label net \<and> networks cfg' = networks cfg \<and> c_crypto cfg' = c_crypto cfg"
proof (induction bs arbitrary: cfg net)
  case (Cons b bs)
  then obtain n where n: "net_setting b net = Ok n" "load_network bs (net_filters b cfg) n = Ok (cfg', net')"
    by (auto simp: rbind_Ok_iff)
  have "networks (net_filters b cfg) = networks cfg" "c_crypto (net_filters b cfg) = c_crypto cfg"
    by (simp_all add: net_filters_def add_filter_def)
  then show ?case using Cons.IH [OF n(2)] net_setting_fresh [OF n(1) Cons.prems(2)] by simp
qed simp

lemma global_setting_networks:
  assumes "global_setting b cfg = Ok cfg'"
  shows "networks cfg' = networks cfg \<and> c_crypto cfg' = c_crypto cfg"
proof -
  have "all_ok (\<lambda>c. networks c = networks cfg \<and> c_crypto c = c_crypto cfg) (global_setting b cfg)"
    unfolding global_setting_def Let_def number_def
    by (intro all_ok_rules) (simp_all add: add_filter_def)
  then show ?thesis using assms by (rule all_okD)
qed

lemma load_global_networks:
  "load_global bs cfg = Ok cfg' \<Longrightarrow> networks cfg' = networks cfg \<and> c_crypto cfg' = c_crypto cfg"
  by (induction bs arbitrary: cfg) (auto simp: rbind_Ok_iff dest!: global_setting_networks)

definition network_blocks :: "tblock list \<Rightarrow> tblock list" where
  "network_blocks bs = filter (\<lambda>b. tb_key b = Some ''network'') bs"

lemma load_top_networks:
  assumes "load_top i bs cfg = Ok cfg'" and "dl_head (networks cfg)"
  shows "dl_head (networks cfg') \<and> c_crypto cfg' = c_crypto cfg \<and>
    (\<exists>ns. dl_from (networks cfg') = dl_from (networks cfg) @ ns \<and> list_all fresh ns \<and>
          map n_label ns = map tb_value (network_blocks bs))"
  using assms
proof (induction bs arbitrary: i cfg)
  case (Cons b bs)
  obtain k where k: "tb_key b = Some k" using Cons.prems(1) by (cases "tb_key b") auto
  consider (global) "k = ''global''" | (network) "k = ''network''" | (other) "k \<noteq> ''global''" "k \<noteq> ''network''"
    by blast
  then show ?case
  proof cases
    case global
    then obtain c where c: "load_top (Suc i) bs c = Ok cfg'" "networks c = networks cfg" "c_crypto c = c_crypto cfg"
      using Cons.prems(1) k by (auto simp: rbind_Ok_iff dest!: load_global_networks split: if_splits)
    then show ?thesis using Cons.IH [OF c(1)] Cons.prems(2) k global by (simp add: network_blocks_def)
  next
    case network
    then obtain c n where c: "load_network (tb_child b) cfg ((new_network (tb_value b))\<lparr>n_tcfg := Some i\<rparr>) = Ok (c, n)"
      "load_top (Suc i) bs (c\<lparr>networks := dl_add (networks c) n\<rparr>) = Ok cfg'"
      using Cons.prems(1) k by (auto simp: rbind_Ok_iff)
    have n: "fresh n" "n_label n = tb_value b" "networks c = networks cfg" "c_crypto c = c_crypto cfg"
      using load_network_fresh [OF c(1)] by (simp_all add: fresh_def new_network_def dl_head_def)
    have h: "dl_head (networks (c\<lparr>networks := dl_add (networks c) n\<rparr>))" using n(3) Cons.prems(2) by simp
    obtain ns where ns: "dl_from (networks cfg') = (dl_from (networks cfg) @ [n]) @ ns" "list_all fresh ns"
      "map n_label ns = map tb_value (network_blocks bs)" "dl_head (networks cfg')" "c_crypto cfg' = c_crypto cfg"
      using Cons.IH [OF c(2) h] n(3,4) by auto
    then show ?thesis using n(1,2) k network by (auto simp: network_blocks_def intro!: exI [of _ "n # ns"])
  next
    case other
    then have "load_top (Suc i) bs cfg = Ok cfg'" using Cons.prems(1) k by simp
    then show ?thesis using Cons.IH Cons.prems(2) k other by (auto simp: network_blocks_def)
  qed
qed (simp add: network_blocks_def)

lemma config_engine_load_networks:
  assumes "config_engine_load bs = Ok cfg"
  shows "\<exists>ns. networks cfg = DList [] ns \<and> list_all fresh ns \<and> map n_label ns = map tb_value (network_blocks bs) \<and>
    c_crypto cfg = None"
proof -
  have "dl_head (networks new_config)" by (simp add: new_config_def dl_head_def)
  from load_top_networks [OF assms [unfolded config_engine_load_def] this] obtain ns where
    "dl_head (networks cfg)" "dl_from (networks cfg) = dl_from (networks new_config) @ ns" "list_all fresh ns"
    "map n_label ns = map tb_value (network_blocks bs)" "c_crypto cfg = c_crypto new_config" by blast
  then show ?thesis by (cases "networks cfg") (auto simp: new_config_def dl_head_def)
qed

text \<open>Nothing but the configuration is there after the start: no trigger, no account.\<close>

lemma config_engine_init_bare:
  assumes "config_engine_init load_crypto fs f = Ok (Running cfg)"
  shows "\<exists>ns. networks cfg = DList [] ns \<and> list_all fresh ns \<and> map n_label ns = map tb_value (network_blocks (c_tcfg cfg))"
proof -
  obtain tree c where "config_engine_load tree = Ok c" "networks cfg = networks c" "c_tcfg cfg = tree"
    using assms by (auto simp: config_engine_init_def rbind_Ok_iff split: if_splits)
  then show ?thesis using config_engine_load_networks by metis
qed

text \<open>The first value of a key counts.\<close>

definition first_value :: "string \<Rightarrow> tblock list \<Rightarrow> cstr" where
  "first_value k bs = foldr (\<lambda>b r. if tb_key b = Some k then or_else (tb_value b) r else r) bs None"

lemma first_value_simps [simp]:
  "first_value k [] = None"
  "first_value k (b # bs) = (if tb_key b = Some k then or_else (tb_value b) (first_value k bs) else first_value k bs)"
  by (simp_all add: first_value_def)

lemma or_else_assoc: "or_else (or_else a b) c = or_else a (or_else b c)"
  by (cases a) simp_all

lemma or_else_None [simp]: "or_else a None = a"
  by (cases a) simp_all

lemma load_network_first:
  assumes "load_network bs cfg net = Ok (cfg', net')"
  shows "nick net' = or_else (nick net) (first_value ''nick'' bs) \<and>
    altnick net' = or_else (altnick net) (first_value ''altnick'' bs) \<and>
    n_ident net' = or_else (n_ident net) (first_value ''ident'' bs) \<and>
    n_realname net' = or_else (n_realname net) (first_value ''realname'' bs) \<and>
    userfile net' = or_else (userfile net) (first_value ''userfile'' bs) \<and>
    chanfile net' = or_else (chanfile net) (first_value ''chanfile'' bs)"
  using assms
proof (induction bs arbitrary: cfg net)
  case (Cons b bs)
  then obtain n where n: "net_setting b net = Ok n" "load_network bs (net_filters b cfg) n = Ok (cfg', net')"
    by (auto simp: rbind_Ok_iff)
  let ?f = "\<lambda>n k g. g n = or_else (g net) (if tb_key b = Some k then tb_value b else None)"
  have "all_ok (\<lambda>n. ?f n ''nick'' nick \<and> ?f n ''altnick'' altnick \<and> ?f n ''ident'' n_ident \<and>
      ?f n ''realname'' n_realname \<and> ?f n ''userfile'' userfile \<and> ?f n ''chanfile'' chanfile) (net_setting b net)"
    unfolding net_setting_def net_setting_late_def Let_def number_def
    by (intro all_ok_rules) (simp_all add: deref_Ok_iff split: option.split, auto)
  from all_okD [OF this n(1)]
  show ?case using Cons.IH [OF n(2)] by (auto simp: or_else_assoc)
qed simp

section \<open>Loading again, with one network\<close>

text \<open>
  Everything the bot has learnt is kept, except for the socket and the crypto module: the next line to
  the server reads through NULL.
\<close>

lemma egg_rehash_one:
  assumes f: "file_to_tconfig (fs ''trollbot.conf'') = Ok tcfg" and l: "config_engine_load tcfg = Ok new"
    and old: "networks cfg = DList [] [n]" and lab: "n_label n = Some a"
    and one: "network_blocks tcfg = [b]" and bl: "tb_value b = Some a'" and same: "same_name a a'"
  shows "\<exists>cfg' n'. egg_rehash fs cfg = Ok cfg' \<and> networks cfg' = DList [] [n'] \<and> c_crypto cfg' = None \<and>
    n_users n' = n_users n \<and> n_chans n' = n_chans n \<and> n_dccs n' = n_dccs n \<and> trigs n' = trigs n \<and>
    n_status n' = n_status n \<and> tsock n' = None \<and> (\<forall>s. tsocket_printf n' s = Fault NullDeref)"
proof -
  obtain m where m: "networks new = DList [] [m]" "fresh m" "n_label m = Some a'" "c_crypto new = None"
    using config_engine_load_networks [OF l] one bl by (cases "networks new") (auto simp: map_eq_Cons_conv)
  have "match_new n [m] = Ok [take_over n m]"
    using lab m(3) same by (simp add: same_name_def)
  then have "egg_rehash fs cfg = Ok (new\<lparr>c_tcfg := tcfg, networks := DList [] [take_over n m]\<rparr>)"
    using f l old m(1) by (simp add: egg_rehash_def dl_rewind_def rehash_networks_def)
  then show ?thesis using m(2,4) by (auto simp: take_over_def fresh_def tsocket_printf_def)
qed

lemma egg_rehash_two:
  assumes "file_to_tconfig (fs ''trollbot.conf'') = Ok tcfg" and "config_engine_load tcfg = Ok new"
    and "networks cfg = DList [] (n # m # ns)" and "network_blocks tcfg \<noteq> []"
    and "n_label n \<noteq> None" and "\<forall>b \<in> set (network_blocks tcfg). tb_value b \<noteq> None"
  shows "egg_rehash fs cfg = Fault UseAfterFree"
proof -
  obtain news where news: "networks new = DList [] news" "map n_label news = map tb_value (network_blocks tcfg)"
    using config_engine_load_networks [OF assms(2)] by blast
  have named: "\<forall>x \<in> set news. n_label x \<noteq> None"
    using news(2) assms(6) by (metis (no_types, lifting) imageE image_eqI list.set_map)
  have "news \<noteq> []" using news(2) assms(4) by auto
  have "\<exists>ms. match_new old xs = Ok ms" if "n_label old \<noteq> None" "\<forall>x \<in> set xs. n_label x \<noteq> None" for old xs
    using that
  proof (induction xs arbitrary: old)
    case (Cons x xs)
    have "n_label (taken_from old) \<noteq> None" using Cons.prems by (simp add: taken_from_def)
    then obtain ms ms' where "match_new old xs = Ok ms" "match_new (taken_from old) xs = Ok ms'"
      using Cons by (metis list.set_intros(2))
    then show ?case using Cons.prems by (auto simp: tstrcasecmp_p_def)
  qed simp
  then obtain ms where "match_new n news = Ok ms" using named assms(5) by blast
  then show ?thesis
    using assms(1-3) news(1) \<open>news \<noteq> []\<close> by (simp add: egg_rehash_def dl_rewind_def rehash_networks_def)
qed

end
