(* ===== verification/Bot.thy ===== *)
theory Bot
  imports Members Config_Engine
begin

text \<open>
  The bot as a whole: the handler behind every trigger, \<open>parse_irc_line\<close> of \<^verbatim>\<open>src/src/irc.c\<close>, which sends
  a line from the server through the triggers, and \<open>dcc_command_handler\<close> of \<^verbatim>\<open>src/src/dcc.c\<close>, which does
  so with a line of the party line.
\<close>

section \<open>Surroundings and state\<close>

text \<open>
  What the operating system gives, and what a script does to a network when its trigger is called (with
  the number of the script). \<open>e_listen\<close> is what \<open>socket\<close> gives for the listener, \<open>e_options\<close> whether
  \<open>setsockopt\<close> succeeds.
\<close>

record env =
  e_writable :: "string \<Rightarrow> bool"
  e_files :: files
  e_now :: int
  e_date :: string
  e_connects :: "int \<Rightarrow> int \<Rightarrow> int option"
  e_resolve :: "string \<Rightarrow> int option"
  e_listen :: int
  e_options :: bool
  e_script :: "nat \<Rightarrow> trigger \<Rightarrow> irc_data option \<Rightarrow> nat option \<Rightarrow> string \<Rightarrow> network \<Rightarrow> network res"

text \<open>
  The global record, what was written to files so far, and whether the program has ended. A network is
  given by its place among all of them; a rehash makes new ones, and the old record is still used by
  the code that is running: the place is then gone.
\<close>

record bot =
  b_cfg :: config
  b_writes :: writes
  b_exited :: bool

definition net_at :: "nat \<Rightarrow> bot \<Rightarrow> network" where
  "net_at i b = dl_all (networks (b_cfg b)) ! i"

definition put_net :: "nat \<Rightarrow> network \<Rightarrow> bot \<Rightarrow> bot" where
  "put_net i n b = b\<lparr>b_cfg := (b_cfg b)\<lparr>networks := dl_update_all i (\<lambda>_. n) (networks (b_cfg b))\<rparr>\<rparr>"

definition on_net :: "nat \<Rightarrow> bot \<Rightarrow> network res \<Rightarrow> bot res option" where
  "on_net i b r = Some (rbind r (\<lambda>n. Ok (put_net i n b)))"

definition with_writes :: "nat \<Rightarrow> bot \<Rightarrow> (network \<times> writes) res option \<Rightarrow> bot res option" where
  "with_writes i b r =
     obind r (\<lambda>(n, w). Some (Ok ((put_net i n b)\<lparr>b_writes := b_writes b @ w\<rparr>)))"

section \<open>Handlers\<close>

text \<open>\<open>egg_save(NULL)\<close>, the last words to the server, and \<open>die_nicely(0)\<close>.\<close>

definition disconnect_bot :: "(string \<Rightarrow> bool) \<Rightarrow> nat \<Rightarrow> bot \<Rightarrow> bot res option" where
  "disconnect_bot writable i b =
     obind (egg_save (b_cfg b) writable None) (\<lambda>w.
     obind (Some (tsocket_printf (net_at i b) ''QUIT :Trollbot v1.0'')) (\<lambda>n.
       Some (Ok ((put_net i n b)\<lparr>b_writes := b_writes b @ w, b_exited := True\<rparr>))))"

text \<open>The handlers of messages, called without a session.\<close>

definition irc_handler :: "env \<Rightarrow> nat \<Rightarrow> irc_data \<Rightarrow> trigger \<Rightarrow> handler \<Rightarrow> bot \<Rightarrow> bot res option" where
  "irc_handler env i data t h b =
     (let net = net_at i b; cfg = b_cfg b in
      case h of
        Return_ctcp_version \<Rightarrow> on_net i b (return_ctcp_version net data)
      | Reverse_dcc_chat \<Rightarrow> on_net i b (reverse_dcc_chat (e_resolve env) net data)
      | Do_join_channels \<Rightarrow> on_net i b (do_join_channels net)
      | Return_ctcp_ping \<Rightarrow> on_net i b (return_ctcp_ping (e_now env) net data)
      | Return_ctcp_time \<Rightarrow> on_net i b (return_ctcp_time (e_date env) net data)
      | Initiate_dcc_chat \<Rightarrow> on_net i b (Ok (initiate_dcc_chat (e_connects env) net data))
      | New_user_pass \<Rightarrow> with_writes i b (new_user_pass cfg (e_writable env) net data)
      | Check_user_pass \<Rightarrow> on_net i b (Ok (check_user_pass net data))
      | Introduce_user \<Rightarrow> on_net i b (introduce_user cfg net data)
      | Disconnect_bot \<Rightarrow> disconnect_bot (e_writable env) i b
      | Troll_trig_update_topic \<Rightarrow> on_net i b (troll_trig_update_topic net data)
      | New_join \<Rightarrow> on_net i b (new_join net data)
      | New_part \<Rightarrow> on_net i b (new_part net data)
      | New_quit \<Rightarrow> on_net i b (new_quit net data)
      | New_kick \<Rightarrow> on_net i b (new_kick net data)
      | Troll_undernet_hack \<Rightarrow> on_net i b (troll_undernet_hack net data)
      | Troll_parse_who \<Rightarrow> on_net i b (troll_parse_who (e_now env) net data)
      | Channel_list_populate \<Rightarrow>
          on_net i b (rbind (channel_list_populate (n_chans net) data) (\<lambda>cs. Ok (net\<lparr>n_chans := cs\<rparr>)))
      | Channel_set_modes \<Rightarrow> on_net i b (channel_set_modes net data)
      | Channel_set_topic \<Rightarrow> on_net i b (channel_set_topic net data)
      | Channel_banlist_add \<Rightarrow> on_net i b (channel_banlist_add net data)
      | Troll_trig_update_nick \<Rightarrow> on_net i b (troll_trig_update_nick net data)
      | Troll_trig_update_mode \<Rightarrow> on_net i b (troll_trig_update_mode (e_now env) net data)
      | Troll_nick_in_use \<Rightarrow> on_net i b (troll_nick_in_use_handler net)
      | Troll_user_host \<Rightarrow> on_net i b (troll_user_host_handler net)
      | Troll_channel_redirect \<Rightarrow> on_net i b (troll_trig_channel_redirect net data)
      | Script n \<Rightarrow> on_net i b (e_script env n t (Some data) None [] net)
      | Dcc_saveall \<Rightarrow>
          obind (dcc_saveall cfg (e_writable env)) (\<lambda>w. Some (Ok (b\<lparr>b_writes := b_writes b @ w\<rparr>)))
      | Rehash_bot \<Rightarrow> Some (rbind (egg_rehash (e_files env) cfg) (\<lambda>c. Ok (b\<lparr>b_cfg := c\<rparr>)))
      | Dcc_chattr \<Rightarrow> Some (Ok b)
      | _ \<Rightarrow> Some (Fault NullDeref))"

text \<open>
  The commands, called with a session and the line, and without a message. Only commands and scripts
  are registered for it; of the other handlers those that read nothing of the message are called, the
  rest would read through NULL.
\<close>

definition dcc_handler :: "env \<Rightarrow> nat \<Rightarrow> nat \<Rightarrow> string \<Rightarrow> trigger \<Rightarrow> handler \<Rightarrow> bot \<Rightarrow> bot res option" where
  "dcc_handler env i j line t h b =
     (let net = net_at i b; cfg = b_cfg b in
      case h of
        Dcc_help_menu \<Rightarrow> on_net i b (Ok (dcc_help_menu net j))
      | Dcc_add_chan \<Rightarrow> on_net i b (rbind (deref (t_mask t)) (\<lambda>m. dcc_add_chan net m line))
      | Dcc_del_chan \<Rightarrow> on_net i b (rbind (deref (t_mask t)) (\<lambda>m. dcc_del_chan net m line))
      | Dcc_tbinds \<Rightarrow> on_net i b (Ok (dcc_tbinds net j))
      | Dcc_who \<Rightarrow> on_net i b (Ok (dcc_who net j))
      | Dcc_dump \<Rightarrow> on_net i b (rbind (deref (t_mask t)) (\<lambda>m. dcc_dump net m line))
      | Dcc_saveall \<Rightarrow>
          obind (dcc_saveall cfg (e_writable env)) (\<lambda>w. Some (Ok (b\<lparr>b_writes := b_writes b @ w\<rparr>)))
      | Rehash_bot \<Rightarrow> Some (rbind (egg_rehash (e_files env) cfg) (\<lambda>c. Ok (b\<lparr>b_cfg := c\<rparr>)))
      | Dcc_chattr \<Rightarrow> Some (Ok b)
      | Dcc_console \<Rightarrow> on_net i b (dcc_console net j)
      | Script n \<Rightarrow> on_net i b (e_script env n t None (Some j) line net)
      | Do_join_channels \<Rightarrow> on_net i b (do_join_channels net)
      | Troll_nick_in_use \<Rightarrow> on_net i b (troll_nick_in_use_handler net)
      | Troll_user_host \<Rightarrow> on_net i b (troll_user_host_handler net)
      | Check_user_pass \<Rightarrow> Some (Ok b)
      | Disconnect_bot \<Rightarrow> disconnect_bot (e_writable env) i b
      | _ \<Rightarrow> Some (Fault NullDeref))"

section \<open>A line from the server\<close>

text \<open>
  The handlers one after the other; nothing follows the end of the program. The built-in handlers of
  messages do not change the triggers, so that those that match are the same before and after a call.
\<close>

fun call_handlers :: "env \<Rightarrow> nat \<Rightarrow> irc_data \<Rightarrow> trigger list \<Rightarrow> bot \<Rightarrow> bot res option" where
  "call_handlers env i data [] b = Some (Ok b)"
| "call_handlers env i data (t # ts) b =
     (if b_exited b then Some (Ok b)
      else obind (irc_handler env i data t (the (t_handler_of t)) b) (call_handlers env i data ts))"

definition answer_ping :: "irc_data \<Rightarrow> network \<Rightarrow> network res" where
  "answer_ping data net =
     (if command data = ''PING'' then
        rbind (arr_get (rest data) 0) (\<lambda>w.
          case w of None \<Rightarrow> Ok net | Some s \<Rightarrow> tsocket_printf net (''PONG :'' @ s @ [NL]))
      else Ok net)"

definition learn_host :: "env \<Rightarrow> irc_data \<Rightarrow> network \<Rightarrow> network" where
  "learn_host env data net =
     (if command data = ''302'' \<and> shost net = None then
        (case Option.bind (rest_str data) (\<lambda>s. strchr s (CHR ''@'')) of
           None \<Rightarrow> net
         | Some at \<Rightarrow> dcc_init_listener (e_resolve env) (e_listen env) (e_options env) (net\<lparr>shost := Some (tl at)\<rparr>))
      else net)"

definition parse_irc_line :: "env \<Rightarrow> nat \<Rightarrow> string \<Rightarrow> bot \<Rightarrow> bot res option" where
  "parse_irc_line env i buffer b =
     obind (Some (parse_irc_data (nick (net_at i b)) buffer)) (\<lambda>data.
     obind (Some (rbind (answer_ping data (net_at i b)) (\<lambda>n. Ok (learn_host env data n)))) (\<lambda>net.
     obind (Some (trigger_match (botnick net) (trigs net) data)) (\<lambda>(tt, fired).
       call_handlers env i data fired (put_net i (net\<lparr>trigs := tt\<rparr>) b))))"

text \<open>Lines in turn, as \<open>irc_in\<close> hands them over.\<close>

fun parse_irc_lines :: "env \<Rightarrow> nat \<Rightarrow> string list \<Rightarrow> bot \<Rightarrow> bot res option" where
  "parse_irc_lines env i [] b = Some (Ok b)"
| "parse_irc_lines env i (l # ls) b =
     (if b_exited b then Some (Ok b) else obind (parse_irc_line env i l b) (parse_irc_lines env i ls))"

section \<open>A line of the party line\<close>

definition dcc_command_handler :: "env \<Rightarrow> nat \<Rightarrow> nat \<Rightarrow> string \<Rightarrow> bot \<Rightarrow> bot res option" where
  "dcc_command_handler env i j line b =
     obind (Some (choose_command (net_at i b) j line)) (\<lambda>(net, fired).
       case fired of
         [] \<Rightarrow> on_net i b (dcc_partyline_handler net j line)
       | t # _ \<Rightarrow> dcc_handler env i j line t (the (t_handler_of t)) (put_net i net b))"

text \<open>
  \<open>parse_dcc_line\<close> with the commands. The result says whether the session was freed.
\<close>

definition dcc_line :: "env \<Rightarrow> nat \<Rightarrow> nat \<Rightarrow> string \<Rightarrow> bot \<Rightarrow> (bot \<times> bool) res option" where
  "dcc_line env i j line b =
     obind (parse_dcc_line (b_cfg b) (e_writable env) (e_files env) (net_at i b) j line) (\<lambda>(r, w).
       case r of
         Kept n \<Rightarrow> Some (Ok ((put_net i n b)\<lparr>b_writes := b_writes b @ w\<rparr>, False))
       | Dropped d n \<Rightarrow> Some (Ok ((put_net i n b)\<lparr>b_writes := b_writes b @ w\<rparr>, True))
       | Command_line \<Rightarrow> obind (dcc_command_handler env i j line b) (\<lambda>b'. Some (Ok (b', False))))"

end
