(* ===== verification/Bot_Run.thy ===== *)
theory Bot_Run
  imports Bot
begin

text \<open>
  What the bot does with a line, from the bytes to the state: the theory of \<^verbatim>\<open>Irc\<close> on the line, that of
  \<^verbatim>\<open>Triggers\<close> on the choice of the handlers and that of \<^verbatim>\<open>Members\<close> on what they do.
\<close>

section \<open>The state\<close>

lemma put_net_simps [simp]:
  "length (dl_all (networks (b_cfg (put_net i n b)))) = length (dl_all (networks (b_cfg b)))"
  "b_exited (put_net i n b) = b_exited b" "b_writes (put_net i n b) = b_writes b"
  by (simp_all add: put_net_def)

lemma net_at_put [simp]:
  "i < length (dl_all (networks (b_cfg b))) \<Longrightarrow> net_at i (put_net i n b) = n"
  by (simp add: net_at_def put_net_def)

lemma net_at_put_other [simp]: "j \<noteq> i \<Longrightarrow> net_at j (put_net i n b) = net_at j b"
  by (simp add: net_at_def put_net_def)

lemma net_at_extra [simp]:
  "net_at i (b\<lparr>b_writes := w\<rparr>) = net_at i b" "net_at i (b\<lparr>b_exited := e\<rparr>) = net_at i b"
  by (simp_all add: net_at_def)

definition has_net :: "nat \<Rightarrow> bot \<Rightarrow> bool" where
  "has_net i b \<longleftrightarrow> i < length (dl_all (networks (b_cfg b)))"

lemma has_net_put [simp]: "has_net i (put_net j n b) = has_net i b"
  by (simp add: has_net_def)

lemma on_net_Ok_iff: "on_net i b r = Some (Inr b') \<longleftrightarrow> (\<exists>n. r = Inr n \<and> b' = put_net i n b)"
  by (auto simp: on_net_def rbind_Ok_iff)

lemma obind_Ok_iff: "obind m f = Some (Inr y) \<longleftrightarrow> (\<exists>x. m = Some (Inr x) \<and> f x = Some (Inr y))"
  by (auto simp: obind_def split: option.splits sum.splits)

lemma obind_Fault [simp]: "obind (Some (Inl e)) f = Some (Inl e)"
  by (simp add: obind_def)

section \<open>A line as it goes through\<close>

text \<open>A message of a user, as a server sends it.\<close>

definition message :: "irc_prefix \<Rightarrow> string \<Rightarrow> string list \<Rightarrow> string list \<Rightarrow> irc_data" where
  "message p cmd params words =
     \<lparr>prefix_of = Some p, command = cmd, c_params = opt_list params, c_params_str = params_str params words,
      rest = opt_list words, rest_str = (if words = [] then None else Some (join_blank words))\<rparr>"

definition message_line :: "irc_prefix \<Rightarrow> string \<Rightarrow> string list \<Rightarrow> string list \<Rightarrow> string" where
  "message_line p cmd params words = show_prefix p @ show_body cmd params words"

definition message_ok :: "string \<Rightarrow> irc_prefix \<Rightarrow> string \<Rightarrow> string list \<Rightarrow> string list \<Rightarrow> bool" where
  "message_ok me p cmd params words \<longleftrightarrow>
     list_all param_ok params \<and> list_all text_ok words \<and> command_ok cmd \<and> prefix_ok me p"

lemma parse_message:
  "message_ok me p cmd params words \<Longrightarrow> parse_irc_data (Some me) (message_line p cmd params words) = Ok (message p cmd params words)"
  using parse_show_message [where params = params and words = words and cmd = cmd and pre = "Some p" and nick = me] by (simp add: message_ok_def message_line_def message_def)

lemma message_simps [simp]:
  "command (message p cmd params words) = cmd" "prefix_of (message p cmd params words) = Some p"
  "c_params (message p cmd params words) = opt_list params" "rest (message p cmd params words) = opt_list words"
  "words \<noteq> [] \<Longrightarrow> rest_str (message p cmd params words) = Some (join_blank words)"
  by (simp_all add: message_def)

lemma parse_irc_line_message:
  assumes "nick (net_at i b) = Some me" and "message_ok me p cmd params words" and "cmd \<noteq> ''PING''" and "cmd \<noteq> ''302''"
  shows "parse_irc_line env i (message_line p cmd params words) b =
    obind (Some (trigger_match (botnick (net_at i b)) (trigs (net_at i b)) (message p cmd params words)))
      (\<lambda>(tt, fired). call_handlers env i (message p cmd params words) fired (put_net i ((net_at i b)\<lparr>trigs := tt\<rparr>) b))"
  using assms(3,4) by (simp add: parse_irc_line_def assms(1) parse_message [OF assms(2)] answer_ping_def learn_host_def)

text \<open>The mask \<open>*\<close> matches everything.\<close>

lemma star_matches [simp]: "troll_matchwilds (Some s) (Some ''*'') = 0"
  by (cases s) (simp_all add: troll_matchwilds_def skip_star_def next_char_def)

section \<open>A bot without triggers\<close>

lemma trigger_match_none:
  assumes "command data \<noteq> ''JOIN''" and "command data \<noteq> ''PRIVMSG''"
  shows "trigger_match b new_trig_table data = Ok (new_trig_table, [])"
  using assms by (simp add: trigger_match_def fire_list_def new_trig_table_def)

lemma join_without_triggers:
  assumes "command data = ''JOIN''" and "rest data = Some (w # ws)" and "prefix_of data = Some p"
  shows "trigger_match b new_trig_table data = Fault NullDeref"
  using assms by (simp add: trigger_match_def match_join_def user_mask_def new_trig_table_def)

lemma bare_bot_faults:
  assumes init: "config_engine_init load_crypto fs f = Ok (Running cfg)" and b: "b_cfg b = cfg" and i: "has_net i b"
    and me: "nick (net_at i b) = Some me" and ok: "message_ok me p ''JOIN'' params (w # ws)"
  shows "parse_irc_line env i (message_line p ''JOIN'' params (w # ws)) b = Some (Fault NullDeref)"
proof -
  obtain ns where ns: "networks cfg = DList [] ns" "list_all fresh ns" using config_engine_init_bare [OF init] by blast
  have "trigs (net_at i b) = new_trig_table"
    using ns i b by (auto simp: has_net_def net_at_def list_all_iff fresh_def)
  then show ?thesis
    using parse_irc_line_message [OF me ok] join_without_triggers [of "message p ''JOIN'' params (w # ws)" w ws p]
    by (simp add: opt_list_def)
qed

section \<open>Joining, leaving and quitting\<close>

lemma dl_update_all_same [simp]: "dl_update_all i (\<lambda>_. dl_all d ! i) d = d"
  by (cases d) (simp add: dl_update_all_def)

lemma put_net_same [simp]: "put_net i (net_at i b) b = b"
  by (simp add: put_net_def net_at_def)

text \<open>Nothing fires, nothing changes.\<close>

lemma fire_list_idle: "\<forall>t \<in> set (dl_from d). test t = Ok False \<Longrightarrow> fire_list fire_all test d = Ok (d, [])"
  using fire_all_spec [of "dl_from d" test "\<lambda>_. False"] by (cases d) (simp add: fire_list_def)

lemma line_without_handler:
  assumes "nick (net_at i b) = Some me" and "message_ok me p cmd params words" and "cmd \<noteq> ''PING''" and "cmd \<noteq> ''302''"
    and "trigger_match (botnick (net_at i b)) (trigs (net_at i b)) (message p cmd params words) = Ok (trigs (net_at i b), [])"
  shows "parse_irc_line env i (message_line p cmd params words) b = Some (Ok b)"
  using parse_irc_line_message [OF assms(1-4)] assms(5) by simp

text \<open>A \<open>PART\<close> without a reason and every \<open>QUIT\<close> go by unnoticed.\<close>

lemma part_unnoticed:
  assumes "nick (net_at i b) = Some me" and "message_ok me p ''PART'' params []"
  shows "parse_irc_line env i (message_line p ''PART'' params []) b = Some (Ok b)"
proof (rule line_without_handler [OF assms])
  show "trigger_match (botnick (net_at i b)) (trigs (net_at i b)) (message p ''PART'' params []) = Ok (trigs (net_at i b), [])"
    by (simp add: trigger_match_def test_part_def opt_list_def fire_list_idle)
qed simp_all

lemma quit_unnoticed:
  assumes "nick (net_at i b) = Some me" and "message_ok me p ''QUIT'' params words"
  shows "parse_irc_line env i (message_line p ''QUIT'' params words) b = Some (Ok b)"
  by (rule line_without_handler [OF assms]) (simp_all add: quit_calls_nothing)

text \<open>A \<open>JOIN\<close> reaches the channel.\<close>

definition reacts_to_join :: "network \<Rightarrow> bool" where
  "reacts_to_join net \<longleftrightarrow>
     (case dl_from (tt_join (trigs net)) of
        [] \<Rightarrow> False
      | t # _ \<Rightarrow> t_mask t = Some ''*'' \<and> t_handler_of t = Some New_join)"

lemma reacts_default: "reacts_to_join (net\<lparr>trigs := default_trigs new_trig_table\<rparr>)"
  by (simp add: reacts_to_join_def default_trigs_def add_all_from new_trig_table_def)

lemma join_line:
  assumes me: "nick (net_at i b) = Some me" and ok: "message_ok me p ''JOIN'' [] [name]" and k: "pnick p = Some k"
    and here: "has_net i b" and run: "\<not> b_exited b" and re: "reacts_to_join (net_at i b)"
    and bn: "botnick (net_at i b) = Some bn" and ts: "tsock (net_at i b) = Some s"
    and j: "find_index (\<lambda>c. same_name (ch_name c) name) (dl_all (n_chans (net_at i b))) = Some j"
    and ne: "dl_from (n_chans (net_at i b)) \<noteq> []" and cok: "chan_ok (dl_all (n_chans (net_at i b)) ! j)"
  shows "\<exists>b' c. parse_irc_line env i (message_line p ''JOIN'' [] [name]) b = Some (Ok b') \<and>
    n_chans (net_at i b') = dl_update_all j (\<lambda>_. c) (n_chans (net_at i b)) \<and> chan_ok c \<and>
    ch_name c = ch_name (dl_all (n_chans (net_at i b)) ! j) \<and>
    (\<forall>l. lookup_cuser l (user_list c) =
       (if same_name k l
        then Some (at_join p (case lookup_cuser k (user_list (dl_all (n_chans (net_at i b)) ! j)) of
                                None \<Rightarrow> new_channel_user\<lparr>cu_nick := Some k\<rparr> | Some u \<Rightarrow> u))
        else lookup_cuser l (user_list (dl_all (n_chans (net_at i b)) ! j))))"
proof -
  let ?net = "net_at i b" and ?data = "message p ''JOIN'' [] [name]"
  obtain t r where t: "dl_from (tt_join (trigs ?net)) = t # r" "t_mask t = Some ''*''" "t_handler_of t = Some New_join"
    using re by (auto simp: reacts_to_join_def split: list.splits)
  let ?tt = "(trigs ?net)\<lparr>tt_join := DList (dl_before (tt_join (trigs ?net))) (bump t # r)\<rparr>"
  have m: "trigger_match (botnick ?net) (trigs ?net) ?data = Ok (?tt, [bump t])"
    using t by (simp add: trigger_match_def match_join_def user_mask_def opt_list_def)
  let ?n = "?net\<lparr>trigs := ?tt\<rparr>"
  obtain c where c: "new_join ?n ?data = Ok (?n\<lparr>n_chans := dl_update_all j (\<lambda>_. c) (n_chans ?n),
        sent := sent ?n @ (if same_name bn k then map (\<lambda>s. take 2047 s @ [NL]) (join_questions (ch_name c)) else [])\<rparr>)"
      "chan_ok c" "ch_name c = ch_name (dl_all (n_chans ?net) ! j)"
      "\<forall>l. lookup_cuser l (user_list c) =
       (if same_name k l
        then Some (at_join p (case lookup_cuser k (user_list (dl_all (n_chans ?net) ! j)) of
                                None \<Rightarrow> new_channel_user\<lparr>cu_nick := Some k\<rparr> | Some u \<Rightarrow> u))
        else lookup_cuser l (user_list (dl_all (n_chans ?net) ! j)))"
    using new_join_spec [of ?data p k name ?n j bn s] k j ne cok bn ts by auto
  have i: "i < length (dl_all (networks (b_cfg b)))" using here by (simp add: has_net_def)
  let ?n' = "?n\<lparr>n_chans := dl_update_all j (\<lambda>_. c) (n_chans ?n),
        sent := sent ?n @ (if same_name bn k then map (\<lambda>s. take 2047 s @ [NL]) (join_questions (ch_name c)) else [])\<rparr>"
  have "parse_irc_line env i (message_line p ''JOIN'' [] [name]) b = Some (Ok (put_net i ?n' (put_net i ?n b)))"
    using parse_irc_line_message [OF me ok] m run t(3) i c(1)
    by (simp add: irc_handler_def on_net_def Let_def)
  moreover have "net_at i (put_net i ?n' (put_net i ?n b)) = ?n'" using i by simp
  ultimately show ?thesis using c(2-4) by (intro exI [of _ "put_net i ?n' (put_net i ?n b)"] exI [of _ c]) simp
qed

section \<open>What the handlers of messages leave alone\<close>

text \<open>
  No built-in handler of a message changes a trigger: the list that is gone through while they are
  called stays as it was.
\<close>

abbreviation keeps :: "network \<Rightarrow> network res \<Rightarrow> bool" where
  "keeps net r \<equiv> all_ok (\<lambda>n. trigs n = trigs net) r"

lemma printf_trigs: "tsocket_printf net s = Ok n \<Longrightarrow> trigs n = trigs net"
  by (auto simp: tsocket_printf_def split: if_splits)

lemma printfs_trigs: "tsocket_printfs net ss = Ok n \<Longrightarrow> trigs n = trigs net"
  by (induction ss arbitrary: net) (auto simp: rbind_Ok_iff dest: printf_trigs)

lemma keeps_printf [simp]:
  "trigs n = trigs net \<Longrightarrow> keeps net (tsocket_printf n s)" "trigs n = trigs net \<Longrightarrow> keeps net (tsocket_printfs n ss)"
  by (auto simp: all_ok_def dest: printf_trigs printfs_trigs)

lemma send_join_trigs: "send_join net = Ok n \<Longrightarrow> trigs n = trigs net"
  by (auto simp: send_join_def rbind_Ok_iff split: option.splits dest: printf_trigs)

lemma set_chan_trigs [simp]: "trigs (set_chan i c net) = trigs net"
  by (simp add: set_chan_def)

lemma keeps_at_channel: "keeps net (at_channel net data p f)"
  unfolding at_channel_def by (intro all_ok_rules) simp_all



lemma keeps_simple:
  "keeps net (return_ctcp_version net data)" "keeps net (return_ctcp_ping now net data)"
  "keeps net (return_ctcp_time d net data)" "keeps net (channel_set_modes net data)"
  "keeps net (channel_set_topic net data)" "keeps net (channel_banlist_add net data)"
  "keeps net (do_join_channels net)"
  using keeps_at_channel
  by (simp_all add: return_ctcp_version_def return_ctcp_ping_def return_ctcp_time_def notice_def
      channel_set_modes_def channel_set_topic_def channel_banlist_add_def do_join_channels_def all_ok_rbind)
     (auto simp: all_ok_def dest: send_join_trigs)

lemma keeps_members:
  "keeps net (new_join net data)" "keeps net (new_part net data)" "keeps net (new_quit net data)"
  unfolding new_join_def new_part_def new_quit_def Let_def
  by (intro all_ok_rules; simp)+

lemma keeps_kick: "keeps net (new_kick net data)"
  unfolding new_kick_def
  by (intro all_ok_rbind) (auto simp: rbind_Ok_iff split: if_splits option.splits dest: printf_trigs)

lemma keeps_troll:
  "keeps net (troll_trig_update_topic net data)" "keeps net (troll_undernet_hack net data)"
  "keeps net (troll_parse_who now net data)" "keeps net (troll_trig_update_nick net data)"
  "keeps net (troll_trig_update_mode now net data)" "keeps net (troll_trig_channel_redirect net data)"
  unfolding troll_trig_update_topic_def troll_undernet_hack_def troll_parse_who_def
    troll_trig_update_nick_def troll_trig_update_mode_def troll_trig_channel_redirect_def Let_def
  by (intro all_ok_rules; simp split: option.split)+

lemma keeps_registration: "keeps net (troll_nick_in_use_handler net)" "keeps net (troll_user_host_handler net)"
  unfolding troll_nick_in_use_handler_def troll_user_host_handler_def
  by (auto simp: all_ok_def rbind_Ok_iff split: if_splits dest!: printf_trigs send_join_trigs)

lemma keeps_reverse: "keeps net (reverse_dcc_chat resolve net data)"
  unfolding reverse_dcc_chat_def Let_def by (intro all_ok_rules) simp_all

lemma keeps_introduce: "keeps net (introduce_user cfg net data)"
  unfolding introduce_user_def greet_def Let_def
  by (intro all_ok_rules) (simp_all del: tsocket_printfs.simps)

lemma initiate_trigs [simp]: "trigs (initiate_dcc_chat connects net data) = trigs net"
  by (simp add: initiate_dcc_chat_def Let_def split: option.split)

lemma keeps_pass:
  "new_user_pass cfg writable net data = Some (Ok (n, w)) \<Longrightarrow> trigs n = trigs net"
  by (auto simp: new_user_pass_def obind_Ok_iff rbind_Ok_iff Let_def split: if_splits option.splits dest!: printf_trigs)

lemma on_net_trigs:
  "on_net i b r = Some (Ok b') \<Longrightarrow> has_net i b \<Longrightarrow> keeps (net_at i b) r \<Longrightarrow>
   has_net i b' \<and> trigs (net_at i b') = trigs (net_at i b)"
  by (auto simp: on_net_Ok_iff all_ok_def has_net_def)

lemma keeps_populate: "keeps net (rbind (channel_list_populate (n_chans net) data) (\<lambda>cs. Ok (net\<lparr>n_chans := cs\<rparr>)))"
  by (intro all_ok_rules) simp

lemmas keeps_handlers =
  keeps_simple keeps_members keeps_kick keeps_troll keeps_registration keeps_reverse keeps_introduce keeps_populate

lemma irc_handler_trigs:
  assumes "irc_handler env i data t h b = Some (Ok b')" and "has_net i b"
    and "h \<noteq> Rehash_bot" and "\<forall>n. h \<noteq> Script n"
  shows "has_net i b' \<and> trigs (net_at i b') = trigs (net_at i b)"
proof (cases h)
  case New_user_pass
  then show ?thesis
    using assms(1,2) keeps_pass by (auto simp: irc_handler_def with_writes_def obind_Ok_iff has_net_def)
next
  case Disconnect_bot
  then show ?thesis
    using assms(1,2) by (auto simp: irc_handler_def disconnect_bot_def obind_Ok_iff has_net_def dest: printf_trigs)
next
  case Dcc_saveall
  then show ?thesis using assms(1,2) by (auto simp: irc_handler_def obind_Ok_iff has_net_def)
next
  case Initiate_dcc_chat
  then show ?thesis using assms(1,2) by (auto simp: irc_handler_def on_net_Ok_iff has_net_def)
next
  case Check_user_pass
  then show ?thesis using assms(1,2) by (auto simp: irc_handler_def on_net_Ok_iff has_net_def check_user_pass_def)
qed (use assms on_net_trigs [OF _ assms(2)] keeps_handlers in \<open>auto simp: irc_handler_def Let_def\<close>)

text \<open>The commands of the party line are not looked at for a message.\<close>

lemma match_privmsg_dcc:
  "match_privmsg b (tt\<lparr>tt_dcc := x\<rparr>) data = rbind (match_privmsg b tt data) (\<lambda>(tt', f). Ok (tt'\<lparr>tt_dcc := x\<rparr>, f))"
  unfolding match_privmsg_def rbind_assoc
  by (intro rbind_cong refl)
    (auto simp: rbind_assoc split_beta split: option.split intro!: rbind_cong)

lemma match_join_dcc:
  "match_join (tt\<lparr>tt_dcc := x\<rparr>) data = rbind (match_join tt data) (\<lambda>(tt', f). Ok (tt'\<lparr>tt_dcc := x\<rparr>, f))"
  by (auto simp: match_join_def rbind_assoc split: list.split intro!: rbind_cong)

lemma trigger_match_dcc:
  "trigger_match b (tt\<lparr>tt_dcc := x\<rparr>) data = rbind (trigger_match b tt data) (\<lambda>(tt', f). Ok (tt'\<lparr>tt_dcc := x\<rparr>, f))"
  unfolding trigger_match_def
  by (simp add: match_privmsg_dcc match_join_dcc rbind_assoc, intro conjI impI rbind_cong refl; clarsimp)

lemma fired_no_command:
  assumes "trigger_match b tt data = Ok (tt', fired)" and "t \<in> set fired"
  shows "registered (tt\<lparr>tt_dcc := dl_null\<rparr>) t"
proof -
  have "trigger_match b (tt\<lparr>tt_dcc := dl_null\<rparr>) data = Ok (tt'\<lparr>tt_dcc := dl_null\<rparr>, fired)"
    using assms(1) by (simp add: trigger_match_dcc)
  then show ?thesis using trigger_match_same assms(2) by blast
qed

text \<open>A whole line changes no more than use counts.\<close>

definition built_in :: "trig_table \<Rightarrow> bool" where
  "built_in tt \<longleftrightarrow> (\<forall>t. registered (tt\<lparr>tt_dcc := dl_null\<rparr>) t \<longrightarrow> t_handler_of t \<noteq> Some Rehash_bot \<and> (\<forall>n. t_handler_of t \<noteq> Some (Script n)))"

lemma call_handlers_trigs:
  assumes "call_handlers env i data ts b = Some (Ok b')" and "has_net i b"
    and "\<forall>t \<in> set ts. t_handler_of t \<noteq> None \<and> t_handler_of t \<noteq> Some Rehash_bot \<and> (\<forall>n. t_handler_of t \<noteq> Some (Script n))"
  shows "has_net i b' \<and> trigs (net_at i b') = trigs (net_at i b)"
  using assms
proof (induction ts arbitrary: b)
  case (Cons t ts)
  show ?case
  proof (cases "b_exited b")
    case True
    then show ?thesis using Cons.prems by simp
  next
    case False
    then obtain b1 where b1: "irc_handler env i data t (the (t_handler_of t)) b = Some (Ok b1)"
      "call_handlers env i data ts b1 = Some (Ok b')"
      using Cons.prems(1) by (auto simp: obind_Ok_iff)
    have "the (t_handler_of t) \<noteq> Rehash_bot" "\<forall>n. the (t_handler_of t) \<noteq> Script n"
      using Cons.prems(3) by auto
    from irc_handler_trigs [OF b1(1) Cons.prems(2) this] Cons.IH [OF b1(2)] Cons.prems(3) show ?thesis by auto
  qed
qed simp

lemma answer_ping_trigs: "answer_ping data net = Ok n \<Longrightarrow> trigs n = trigs net \<and> nick n = nick net"
  by (auto simp: answer_ping_def rbind_Ok_iff tsocket_printf_def split: if_splits option.splits)

lemma learn_host_trigs [simp]: "trigs (learn_host env data net) = trigs net"
  by (simp add: learn_host_def dcc_init_listener_def split: option.split)

lemma parse_irc_line_trigs:
  assumes "parse_irc_line env i l b = Some (Ok b')" and "has_net i b" and "built_in (trigs (net_at i b))"
  shows "has_net i b' \<and> table_shape (trigs (net_at i b')) = table_shape (trigs (net_at i b))"
proof -
  obtain data n tt fired where p: "answer_ping data (net_at i b) = Ok n"
    "trigger_match (botnick (learn_host env data n)) (trigs (learn_host env data n)) data = Ok (tt, fired)"
    "call_handlers env i data fired (put_net i ((learn_host env data n)\<lparr>trigs := tt\<rparr>) b) = Some (Ok b')"
    using assms(1) by (auto simp: parse_irc_line_def obind_Ok_iff rbind_Ok_iff)
  define net where "net = learn_host env data n"
  have d: "trigs net = trigs (net_at i b)" using answer_ping_trigs [OF p(1)] by (simp add: net_def)
  have m: "table_shape tt = table_shape (trigs net)" "\<forall>t \<in> set fired. t_handler_of t \<noteq> None \<and> registered ((trigs net)\<lparr>tt_dcc := dl_null\<rparr>) t"
    using trigger_match_same [OF p(2)] fired_no_command [OF p(2)] by (auto simp: net_def)
  have "\<forall>t \<in> set fired. t_handler_of t \<noteq> None \<and> t_handler_of t \<noteq> Some Rehash_bot \<and> (\<forall>n. t_handler_of t \<noteq> Some (Script n))"
    using m(2) assms(3) d by (auto simp: built_in_def)
  from call_handlers_trigs [OF p(3) _ this] assms(2) m(1) d show ?thesis
    by (simp add: has_net_def)
qed

lemma unbumped_handler: "unbumped t = unbumped u \<Longrightarrow> t_handler_of t = t_handler_of u"
  by (auto simp: unbumped_def dest: arg_cong [of _ _ t_handler_of])

lemma built_in_default: "built_in (default_trigs new_trig_table)"
proof -
  let ?tt = "(default_trigs new_trig_table)\<lparr>tt_dcc := dl_null\<rparr>"
  have "t_handler_of u \<noteq> Some Rehash_bot \<and> (\<forall>n. t_handler_of u \<noteq> Some (Script n))"
    if "d \<in> set (table_lists ?tt)" "u \<in> set (dl_from d)" for d u
    using that
    by (auto simp: table_lists_def default_trigs_def add_all_from new_trig_table_def default_msg_def default_raw_def)
  then show ?thesis
    unfolding built_in_def registered_def list_ex_iff using unbumped_handler by metis
qed

end
