(* ===== verification/Ics.thy ===== *)
theory Ics
  imports Network
begin

text \<open>
  The records of the module for chess servers, \<^verbatim>\<open>src/src/modules/ics\<close>: the triggers of
  \<^verbatim>\<open>ics_trigger.c\<close>, the games of \<^verbatim>\<open>ics_game.c\<close>, the servers of \<^verbatim>\<open>ics_server.c\<close> and the functions for
  scripts of \<^verbatim>\<open>ics_lib.c\<close>.
\<close>

section \<open>Triggers\<close>

text \<open>
  The handlers that C code registers, and the procedures of scripts by number. The two kinds are those
  that go through another list of triggers, which are registered for messages only, and the others.
\<close>

datatype ics_leaf =
    Ics_internal_login | Ics_internal_enter | Ics_internal_anti_anti_idle
  | Ics_internal_style_twelve_init | Ics_internal_my_name | Ics_internal_announce_new_game
  | Ics_script nat

datatype ics_handler =
    Leaf ics_leaf
  | Ics_internal_connect | Ics_internal_tell | Ics_internal_notify
  | Ics_internal_board_get_info | Ics_internal_endgame

datatype ics_trigger_types =
    ICS_TRIG_MSG | ICS_TRIG_NOTIFY | ICS_TRIG_CONNECT | ICS_TRIG_GAME | ICS_TRIG_MOVE | ICS_TRIG_TELL
  | ICS_TRIG_ENDGAME | ICS_TRIG_ERROR

record 'h ics_trigger =
  it_type :: "ics_trigger_types option"
  it_mask :: cstr
  it_handler :: "'h option"
  it_command :: cstr
  it_usecount :: int

text \<open>The type \<open>-1\<close> of a fresh trigger is none of the enumeration.\<close>

definition new_ics_trigger :: "'h ics_trigger" where
  "new_ics_trigger = \<lparr>it_type = None, it_mask = None, it_handler = None, it_command = None, it_usecount = 0\<rparr>"

definition ics_trigger_add :: "'h ics_trigger dlist \<Rightarrow> 'h ics_trigger \<Rightarrow> 'h ics_trigger dlist" where
  "ics_trigger_add ics_triggers add = (if dl_from ics_triggers = [] then DList [] [add] else dl_add ics_triggers add)"

definition ics_trigger_del :: "'h ics_trigger dlist \<Rightarrow> nat option \<Rightarrow> 'h ics_trigger dlist" where
  "ics_trigger_del ics_triggers del = (if dl_from ics_triggers = [] then dl_null else dl_del ics_triggers del)"

record ics_trigger_table =
  it_msg :: "ics_handler ics_trigger dlist"
  it_notify :: "ics_leaf ics_trigger dlist"
  it_error :: "ics_leaf ics_trigger dlist"
  it_connect :: "ics_leaf ics_trigger dlist"
  it_game :: "ics_leaf ics_trigger dlist"
  it_move :: "ics_leaf ics_trigger dlist"
  it_endgame :: "ics_leaf ics_trigger dlist"
  it_tell :: "ics_leaf ics_trigger dlist"

definition new_ics_trigger_table :: ics_trigger_table where
  "new_ics_trigger_table =
     \<lparr>it_msg = dl_null, it_notify = dl_null, it_error = dl_null, it_connect = dl_null, it_game = dl_null,
      it_move = dl_null, it_endgame = dl_null, it_tell = dl_null\<rparr>"

text \<open>What the destructors free, in order.\<close>

definition free_ics_triggers :: "'h ics_trigger dlist \<Rightarrow> 'h ics_trigger list" where
  "free_ics_triggers ics_triggers = dl_from ics_triggers"

definition free_ics_trigger_table :: "ics_trigger_table \<Rightarrow> ics_leaf ics_trigger list \<times> ics_handler ics_trigger list" where
  "free_ics_trigger_table xtt =
     (concat (map free_ics_triggers [it_error xtt, it_notify xtt, it_tell xtt, it_connect xtt, it_move xtt,
        it_game xtt, it_endgame xtt]), free_ics_triggers (it_msg xtt))"

section \<open>Games\<close>

datatype ics_game_types =
    ICS_GAME_UNHANDLED | ICS_GAME_STANDARD | ICS_GAME_BLITZ | ICS_GAME_CRAZYHOUSE | ICS_GAME_LIGHTNING

record ics_game =
  g_type :: ics_game_types
  board :: "string list"
  turn :: char
  pawn_double_push_file :: int
  white_can_castle_short :: int
  white_can_castle_long :: int
  black_can_castle_short :: int
  black_can_castle_long :: int
  last_irreversible_move :: int
  game_number :: int
  white_name :: cstr
  black_name :: cstr
  my_relation :: int
  initial_time :: int
  increment_time :: int
  white_strength :: int
  black_strength :: int
  white_time_remaining :: int
  black_time_remaining :: int
  next_move_number :: int
  verbose_notation :: cstr
  last_move_time :: cstr
  pretty_notation :: cstr
  flip_field_orientation :: int
  style_twelve :: cstr
  winner_name :: cstr
  loser_name :: cstr
  end_result :: cstr
  end_message :: cstr

definition new_ics_game :: ics_game where
  "new_ics_game =
     \<lparr>g_type = ICS_GAME_UNHANDLED, board = replicate 8 (replicate 8 (CHR ''-'')), turn = CHR ''-'',
      pawn_double_push_file = -1, white_can_castle_short = -1, white_can_castle_long = -1,
      black_can_castle_short = -1, black_can_castle_long = -1, last_irreversible_move = -1,
      game_number = -1, white_name = None, black_name = None, my_relation = -1, initial_time = -1,
      increment_time = -1, white_strength = -1, black_strength = -1, white_time_remaining = -1,
      black_time_remaining = -1, next_move_number = -1, verbose_notation = None, last_move_time = None,
      pretty_notation = None, flip_field_orientation = -1, style_twelve = None, winner_name = None,
      loser_name = None, end_result = None, end_message = None\<rparr>"

definition ics_game_add :: "ics_game dlist \<Rightarrow> ics_game \<Rightarrow> ics_game dlist" where
  "ics_game_add ics_games add = (if dl_from ics_games = [] then DList [] [add] else dl_add ics_games add)"

definition ics_game_del :: "ics_game dlist \<Rightarrow> nat option \<Rightarrow> ics_game dlist" where
  "ics_game_del ics_games del = (if dl_from ics_games = [] then dl_null else dl_del ics_games del)"

definition free_ics_games :: "ics_game dlist \<Rightarrow> ics_game list" where
  "free_ics_games ics_games = dl_from ics_games"

section \<open>Servers\<close>

datatype ics_status =
    ICS_DISCONNECTED | ICS_INPROGRESS | ICS_NONBLOCKCONNECT | ICS_WAITINGCONNECT | ICS_NOTREADY
  | ICS_CONNECTED | ICS_AUTHORIZED | ICS_IDLE

text \<open>
  As for a network, \<open>i_tsock\<close> is NULL or a socket with a number, and \<open>i_sent\<close> what was sent on it.
  \<open>cur_server\<close> and \<open>tcfg\<close>, which nothing sets or reads, are left out.
\<close>

record ics_server =
  i_label :: cstr
  i_servers :: "server dlist"
  i_username :: cstr
  i_password :: cstr
  i_tsock :: "nat option"
  i_sent :: "string list"
  i_trigs :: ics_trigger_table
  i_vhost :: cstr
  i_shost :: cstr
  i_status :: ics_status
  my_name :: cstr
  i_never_give_up :: int
  connected :: int
  i_connect_delay :: int
  i_last_try :: int
  i_timers :: "t_timer list"
  game :: "ics_game dlist"

definition new_ics_server :: "cstr \<Rightarrow> ics_server" where
  "new_ics_server label =
     \<lparr>i_label = label, i_servers = dl_null, i_username = None, i_password = None, i_tsock = None, i_sent = [],
      i_trigs = new_ics_trigger_table, i_vhost = None, i_shost = None, i_status = ICS_DISCONNECTED,
      my_name = None, i_never_give_up = -1, connected = 0, i_connect_delay = -1, i_last_try = 0,
      i_timers = [], game = dl_null\<rparr>"

definition ics_server_add :: "ics_server dlist \<Rightarrow> ics_server \<Rightarrow> ics_server dlist" where
  "ics_server_add ics_server add = (if dl_from ics_server = [] then DList [] [add] else dl_add ics_server add)"

definition ics_server_del :: "ics_server dlist \<Rightarrow> nat option \<Rightarrow> ics_server dlist" where
  "ics_server_del ics_server del = (if dl_from ics_server = [] then dl_null else dl_del ics_server del)"

text \<open>\<open>free_ics_servers\<close> starts at the first server.\<close>

definition free_ics_servers :: "ics_server dlist \<Rightarrow> ics_server list" where
  "free_ics_servers ics_server = (if dl_from ics_server = [] then [] else dl_all ics_server)"

text \<open>One line of a block \<open>ics_server\<close>. The keys are compared in turn.\<close>

definition ics_setting :: "tblock \<Rightarrow> ics_server \<Rightarrow> ics_server res" where
  "ics_setting b ics =
     rbind (deref (tb_key b)) (\<lambda>k.
       let v = tb_value b in
       if tstrcasecmp k ''server'' = 0 then Ok (ics\<lparr>i_servers := server_list_add (i_servers ics) (new_server v)\<rparr>)
       else if tstrcasecmp k ''username'' = 0 then Ok (ics\<lparr>i_username := or_else (i_username ics) v\<rparr>)
       else if tstrcasecmp k ''password'' = 0 then Ok (ics\<lparr>i_password := or_else (i_password ics) v\<rparr>)
       else if tstrcasecmp k ''vhost'' = 0 then Ok (ics\<lparr>i_vhost := or_else (i_vhost ics) v\<rparr>)
       else Ok ics)"

fun ics_settings :: "tblock list \<Rightarrow> ics_server \<Rightarrow> ics_server res" where
  "ics_settings [] ics = Ok ics"
| "ics_settings (b # bs) ics = rbind (ics_setting b ics) (ics_settings bs)"

definition ics_server_from_tconfig_block :: "tblock option \<Rightarrow> ics_server option res" where
  "ics_server_from_tconfig_block tcfg =
     (case tcfg of
        None \<Rightarrow> Ok None
      | Some b \<Rightarrow>
          rbind (deref (tb_key b)) (\<lambda>k.
            if tstrcasecmp k ''ics_server'' \<noteq> 0 then Ok None
            else if tb_child b = [] then Ok None
            else rbind (ics_settings (tb_child b) (new_ics_server (tb_value b))) (\<lambda>ics. Ok (Some ics))))"

section \<open>What is sent\<close>

text \<open>The first argument of \<open>ics_printf\<close> is the format; no call has others.\<close>

definition ics_printf :: "ics_server \<Rightarrow> cstr \<Rightarrow> ics_server res" where
  "ics_printf ics fmt =
     rbind (deref fmt) (\<lambda>f. rbind (fmt_text f) (\<lambda>s.
       if i_tsock ics = None then Fault NullDeref
       else Ok (ics\<lparr>i_sent := i_sent ics @ [take 2047 s @ [NL]]\<rparr>)))"

fun ics_printfs :: "ics_server \<Rightarrow> string list \<Rightarrow> ics_server res" where
  "ics_printfs ics [] = Ok ics"
| "ics_printfs ics (s # ss) = rbind (ics_printf ics (Some s)) (\<lambda>i. ics_printfs i ss)"

section \<open>The triggers of the module\<close>

definition ics_masked :: "ics_trigger_types \<Rightarrow> cstr \<Rightarrow> 'h \<Rightarrow> 'h ics_trigger" where
  "ics_masked ty m h = new_ics_trigger\<lparr>it_type := Some ty, it_mask := m, it_handler := Some h\<rparr>"

abbreviation LOGIN_TRIGGER :: string where
  "LOGIN_TRIGGER \<equiv> ''*(If your return key does not work, use cntrl-J)*''"

abbreviation ENTER_TRIGGER :: string where
  "ENTER_TRIGGER \<equiv> ''*Press return*''"

abbreviation ANTI_ANTI_IDLE_TRIGGER :: string where
  "ANTI_ANTI_IDLE_TRIGGER \<equiv> ''*unrated blitz*''"

abbreviation CONNECT_TRIGGER :: string where
  "CONNECT_TRIGGER \<equiv> ''fics*''"

abbreviation TELL_TRIGGER :: string where
  "TELL_TRIGGER \<equiv> ''* tells you: *''"

abbreviation NOTIFY_TRIGGER :: string where
  "NOTIFY_TRIGGER \<equiv> ''Notification:*''"

abbreviation MY_NAME_TRIGGER :: string where
  "MY_NAME_TRIGGER \<equiv> [BACKSLASH, CHR ''*'', BACKSLASH, CHR ''*'', BACKSLASH, CHR ''*'', BACKSLASH, CHR ''*''] @
     '' Starting FICS session as*''"

abbreviation STYLE_TWELVE_TRIGGER :: string where
  "STYLE_TWELVE_TRIGGER \<equiv> ''<12>*''"

abbreviation ENDGAME_TRIGGER :: string where
  "ENDGAME_TRIGGER \<equiv> ''{Game % (% vs. %) *}*''"

definition builtin_msg :: "ics_handler ics_trigger list" where
  "builtin_msg = map (\<lambda>(m, h). ics_masked ICS_TRIG_MSG (Some m) h)
     [(LOGIN_TRIGGER, Leaf Ics_internal_login),
      (ENTER_TRIGGER, Leaf Ics_internal_enter),
      (ANTI_ANTI_IDLE_TRIGGER, Leaf Ics_internal_anti_anti_idle),
      (CONNECT_TRIGGER, Ics_internal_connect),
      (TELL_TRIGGER, Ics_internal_tell),
      (NOTIFY_TRIGGER, Ics_internal_notify),
      (MY_NAME_TRIGGER, Leaf Ics_internal_my_name),
      (STYLE_TWELVE_TRIGGER, Ics_internal_board_get_info),
      (ENDGAME_TRIGGER, Ics_internal_endgame)]"

definition init_ics_triggers :: "ics_server \<Rightarrow> ics_server" where
  "init_ics_triggers ics =
     (let t = i_trigs ics in
      ics\<lparr>i_trigs := t
        \<lparr>it_msg := fold (\<lambda>x l. ics_trigger_add l x) builtin_msg (it_msg t),
         it_connect := ics_trigger_add (it_connect t)
           (ics_masked ICS_TRIG_CONNECT (Some CONNECT_TRIGGER) Ics_internal_style_twelve_init),
         it_game := ics_trigger_add (it_game t)
           (ics_masked ICS_TRIG_GAME None Ics_internal_announce_new_game)\<rparr>\<rparr>)"

section \<open>Connecting\<close>

text \<open>The connect callback is \<open>ics_ball_start_rolling\<close>, which adds the triggers.\<close>

definition ics_ball_start_rolling :: "ics_server \<Rightarrow> ics_server" where
  "ics_ball_start_rolling ics = init_ics_triggers ics"

fun ics_try_servers :: "(string \<Rightarrow> int \<Rightarrow> conn) \<Rightarrow> server list \<Rightarrow> ics_server \<Rightarrow> ics_server \<times> bool" where
  "ics_try_servers connects [] ics = (ics, False)"
| "ics_try_servers connects (srv # r) ics =
     (case sv_host srv of
        None \<Rightarrow> ics_try_servers connects r ics
      | Some h \<Rightarrow>
          (case connects h (sv_port srv) of
             ConnFailed \<Rightarrow> ics_try_servers connects r ics
           | ConnNow \<Rightarrow> (ics_ball_start_rolling ics, True)
           | ConnPending \<Rightarrow> (ics, True)))"

text \<open>
  The argument \<open>tsock\<close>, here \<open>old\<close>, is NULL for a new socket, whose number is given; otherwise it is used
  again. When no server can be reached \<open>tsock\<close> is freed, and reading its name through NULL is what a first connection
  ends with. The result has the list of the module's sockets, and whether the socket was freed.
\<close>

definition ics_server_connect ::
  "(string \<Rightarrow> int \<Rightarrow> conn) \<Rightarrow> nat \<Rightarrow> ics_server \<Rightarrow> nat option \<Rightarrow> nat list \<Rightarrow> (ics_server \<times> nat list \<times> bool) res" where
  "ics_server_connect connects new_sock ics old tsockets =
     (let s = (case old of None \<Rightarrow> new_sock | Some k \<Rightarrow> k);
          (i, ok) = ics_try_servers connects (dl_from (i_servers ics)) (ics\<lparr>i_tsock := Some s\<rparr>) in
      if \<not> ok then (if old = None then Fault NullDeref else Ok (i, tsockets, True))
      else Ok (i, if old = None then s # tsockets else tsockets, False))"

text \<open>The socket is closed, and connected again.\<close>

definition ics_disconnected ::
  "(string \<Rightarrow> int \<Rightarrow> conn) \<Rightarrow> ics_server \<Rightarrow> nat list \<Rightarrow> (ics_server \<times> nat list \<times> bool) res" where
  "ics_disconnected connects ics tsockets =
     rbind (deref (i_tsock ics)) (\<lambda>s. ics_server_connect connects s ics (Some s) tsockets)"

section \<open>Loading the module\<close>

text \<open>
  \<open>tmodule_load\<close> of \<^verbatim>\<open>tmod_ics.c\<close>: every block makes a server, which goes to the front of the list; only
  the last is connected. A block without a server makes what follows read through NULL.
\<close>

fun ics_blocks :: "tblock list \<Rightarrow> ics_server list \<Rightarrow> ics_server list res" where
  "ics_blocks [] acc = Ok acc"
| "ics_blocks (b # bs) acc =
     rbind (deref (tb_key b)) (\<lambda>k.
       if k = ''ics_server'' then
         rbind (ics_server_from_tconfig_block (Some b)) (\<lambda>r. rbind (deref r) (\<lambda>ics. ics_blocks bs (ics # acc)))
       else ics_blocks bs acc)"

definition ics_tmodule_load ::
  "(string \<Rightarrow> int \<Rightarrow> conn) \<Rightarrow> nat \<Rightarrow> tblock list \<Rightarrow> (ics_server list \<times> nat list) res" where
  "ics_tmodule_load connects new_sock tcfg =
     rbind (ics_blocks tcfg []) (\<lambda>servers.
       case servers of
         [] \<Rightarrow> Fault NullDeref
       | ics # r \<Rightarrow>
           rbind (ics_server_connect connects new_sock ics None []) (\<lambda>(i, tsockets, freed). Ok (i # r, tsockets)))"

end
