(* ===== verification/Ics_Proto.thy ===== *)
theory Ics_Proto
  imports Ics
begin

text \<open>
  The handlers of \<^verbatim>\<open>src/src/modules/ics/ics_proto.c\<close>, the dispatch of \<^verbatim>\<open>ics_trigger.c\<close>, and the reading of
  what a chess server sends. A procedure of a script gets the command it was bound with and the message,
  and may do anything to the server; what it does is an argument. The walks through the lists of triggers
  look at the list as it is when they get there, so that a script can make them go on for ever, and
  are partial functions.
\<close>

section \<open>Messages\<close>

record ics_data =
  txt_packet :: string
  tokens :: "string list option"

text \<open>\<open>data->tokens[i]\<close>; behind the entries is one byte.\<close>

definition token :: "ics_data \<Rightarrow> nat \<Rightarrow> string res" where
  "token data i =
     rbind (deref (tokens data)) (\<lambda>ts. if i < length ts then Ok (ts ! i) else Fault OutOfBounds)"

type_synonym ics_scripts = "nat \<Rightarrow> cstr \<Rightarrow> ics_data \<Rightarrow> ics_server \<Rightarrow> ics_server res"

text \<open>The static counter of \<open>ics_internal_anti_anti_idle\<close> is one for all servers.\<close>

type_synonym ics_state = "int \<times> ics_server"

abbreviation ANTI_ANTI_IDLE_INTERVAL :: int where
  "ANTI_ANTI_IDLE_INTERVAL \<equiv> 20"

section \<open>Handlers that answer\<close>

definition ics_internal_login :: "ics_server \<Rightarrow> ics_server res" where
  "ics_internal_login ics = ics_printf ics (i_username ics)"

definition ics_internal_enter :: "ics_server \<Rightarrow> ics_server res" where
  "ics_internal_enter ics = ics_printf ics (Some [CR, NL])"

definition ics_internal_style_twelve_init :: "ics_server \<Rightarrow> ics_server res" where
  "ics_internal_style_twelve_init ics =
     ics_printfs ics
       [''style 12'', ''set shout 0'', ''set cshout 0'', ''set open 1'', ''set highlight 0'', ''set bell 0'',
        ''set interface Trollbot, by poutine/DALnet'']"

definition ics_internal_my_name :: "ics_server \<Rightarrow> ics_data \<Rightarrow> ics_server res" where
  "ics_internal_my_name ics data =
     rbind (token data 5) (\<lambda>s. Ok (ics\<lparr>my_name := Some (takeWhile (\<lambda>c. c \<noteq> CHR ''('') s)\<rparr>))"

definition ics_internal_anti_anti_idle :: "ics_state \<Rightarrow> ics_state res" where
  "ics_internal_anti_anti_idle st =
     (let interval = fst st - 1 in
      if interval = 0 then rbind (ics_printf (snd st) (Some ''games'')) (\<lambda>i. Ok (ANTI_ANTI_IDLE_INTERVAL, i))
      else Ok (interval, snd st))"

definition on_server :: "ics_state \<Rightarrow> ics_server res \<Rightarrow> ics_state res" where
  "on_server st r = rbind r (\<lambda>i. Ok (fst st, i))"

definition call_leaf :: "ics_scripts \<Rightarrow> ics_data \<Rightarrow> cstr \<Rightarrow> ics_leaf \<Rightarrow> ics_state \<Rightarrow> ics_state res" where
  "call_leaf scripts data cmd h st =
     (let ics = snd st in
      case h of
        Ics_internal_login \<Rightarrow> on_server st (ics_internal_login ics)
      | Ics_internal_enter \<Rightarrow> on_server st (ics_internal_enter ics)
      | Ics_internal_anti_anti_idle \<Rightarrow> ics_internal_anti_anti_idle st
      | Ics_internal_style_twelve_init \<Rightarrow> on_server st (ics_internal_style_twelve_init ics)
      | Ics_internal_my_name \<Rightarrow> on_server st (ics_internal_my_name ics data)
      | Ics_internal_announce_new_game \<Rightarrow> Ok st
      | Ics_script n \<Rightarrow> on_server st (scripts n cmd data ics))"

section \<open>Going through a list\<close>

text \<open>
  The lists other than that for messages, by how they are read and written. Some of the loops count
  what they call, behind the call.
\<close>

type_synonym ics_get = "ics_trigger_table \<Rightarrow> ics_leaf ics_trigger dlist"
type_synonym ics_upd =
  "(ics_leaf ics_trigger dlist \<Rightarrow> ics_leaf ics_trigger dlist) \<Rightarrow> ics_trigger_table \<Rightarrow> ics_trigger_table"

definition count_use :: "ics_upd \<Rightarrow> nat \<Rightarrow> ics_state \<Rightarrow> ics_state" where
  "count_use upd i st =
     (fst st, (snd st)\<lparr>i_trigs := upd (dl_update i (\<lambda>t. t\<lparr>it_usecount := it_usecount t + 1\<rparr>)) (i_trigs (snd st))\<rparr>)"

definition call_trigger ::
  "ics_scripts \<Rightarrow> ics_upd option \<Rightarrow> (ics_leaf ics_trigger \<Rightarrow> bool res) \<Rightarrow> ics_data \<Rightarrow> nat \<Rightarrow> ics_leaf ics_trigger \<Rightarrow>
   ics_state \<Rightarrow> ics_state res" where
  "call_trigger scripts upd test data i t st =
     rbind (test t) (\<lambda>b.
       if \<not> b then Ok st
       else case it_handler t of
              None \<Rightarrow> Ok st
            | Some h \<Rightarrow>
                rbind (call_leaf scripts data (it_command t) h st) (\<lambda>st'.
                  Ok (case upd of None \<Rightarrow> st' | Some u \<Rightarrow> count_use u i st')))"

partial_function (option) ics_walk ::
  "ics_scripts \<Rightarrow> ics_get \<Rightarrow> ics_upd option \<Rightarrow> (ics_leaf ics_trigger \<Rightarrow> bool res) \<Rightarrow> ics_data \<Rightarrow> nat \<Rightarrow>
   ics_state \<Rightarrow> ics_state res option" where
  "ics_walk scripts get upd test data i st =
     (let l = dl_from (get (i_trigs (snd st))) in
      if i < length l then
        (case call_trigger scripts upd test data i (l ! i) st of
           Inl e \<Rightarrow> Some (Fault e)
         | Inr st' \<Rightarrow> ics_walk scripts get upd test data (Suc i) st')
      else Some (Ok st))"

section \<open>Games\<close>

text \<open>\<open>strncpy(row, s, 8)\<close>: eight bytes, with zeros behind a shorter text.\<close>

definition board_row :: "string \<Rightarrow> string" where
  "board_row s = take 8 (s @ replicate 8 (CHR 0x00))"

definition style_twelve_game :: "ics_data \<Rightarrow> ics_game res" where
  "style_twelve_game data =
     rbind (deref (tokens data)) (\<lambda>ts.
       if length ts \<le> 30 then Fault OutOfBounds
       else Ok (new_ics_game
         \<lparr>board := map (\<lambda>i. board_row (ts ! (i + 1))) [0..<8],
          turn := (case ts ! 9 of [] \<Rightarrow> CHR 0x00 | c # _ \<Rightarrow> c),
          pawn_double_push_file := atoi (ts ! 10), white_can_castle_short := atoi (ts ! 11),
          white_can_castle_long := atoi (ts ! 12), black_can_castle_short := atoi (ts ! 13),
          black_can_castle_long := atoi (ts ! 14), last_irreversible_move := atoi (ts ! 15),
          game_number := atoi (ts ! 16), white_name := Some (ts ! 17), black_name := Some (ts ! 18),
          my_relation := atoi (ts ! 19), initial_time := atoi (ts ! 20), increment_time := atoi (ts ! 21),
          white_strength := atoi (ts ! 22), black_strength := atoi (ts ! 23),
          white_time_remaining := atoi (ts ! 24), black_time_remaining := atoi (ts ! 25),
          next_move_number := atoi (ts ! 26), verbose_notation := Some (ts ! 27),
          last_move_time := Some (ts ! 28), pretty_notation := Some (ts ! 29),
          flip_field_orientation := atoi (ts ! 30), style_twelve := Some (txt_packet data)\<rparr>))"

definition ics_internal_call_game_triggers :: "ics_scripts \<Rightarrow> ics_data \<Rightarrow> ics_state \<Rightarrow> ics_state res option" where
  "ics_internal_call_game_triggers scripts data st =
     ics_walk scripts it_game (Some it_game_update) (\<lambda>_. Ok True) data 0 st"

definition ics_internal_board_get_info :: "ics_scripts \<Rightarrow> ics_data \<Rightarrow> ics_state \<Rightarrow> ics_state res option" where
  "ics_internal_board_get_info scripts data st =
     (case style_twelve_game data of
        Inl e \<Rightarrow> Some (Fault e)
      | Inr g \<Rightarrow>
          (let st' = (fst st, (snd st)\<lparr>game := ics_game_add (game (snd st)) g\<rparr>) in
           if dl_from (game (snd st)) = [] then ics_internal_call_game_triggers scripts data st'
           else Some (Ok st')))"

text \<open>What the end of a game is taken for: the word at the end, and the one before it.\<close>

definition word_before :: "string list \<Rightarrow> string res" where
  "word_before ts = (if length ts < 2 then Fault OutOfBounds else Ok (ts ! (length ts - 2)))"

definition white_wins :: "ics_game \<Rightarrow> ics_game" where
  "white_wins g = g\<lparr>winner_name := white_name g, loser_name := black_name g\<rparr>"

definition black_wins :: "ics_game \<Rightarrow> ics_game" where
  "black_wins g = g\<lparr>winner_name := black_name g, loser_name := white_name g\<rparr>"

definition game_result :: "string list \<Rightarrow> ics_game \<Rightarrow> ics_game res" where
  "game_result ts g =
     (let w = last ts in
      if w = ''*'' then Ok (white_wins g)
      else if w = ''1/2-1/2'' then
        rbind (word_before ts) (\<lambda>p.
          Ok (white_wins (g\<lparr>end_result := Some (if strncmp_eq p ''stalemate'' 9 then ''stalemate'' else ''draw'')\<rparr>)))
      else if w = ''1-0'' then
        rbind (word_before ts) (\<lambda>p.
          Ok (white_wins (if strncmp_eq p ''checkmated'' 10 then g\<lparr>end_result := Some ''checkmate''\<rparr> else g)))
      else if w = ''0-1'' then
        rbind (word_before ts) (\<lambda>p.
          Ok (black_wins (if strncmp_eq p ''checkmated'' 10 then g\<lparr>end_result := Some ''checkmate''\<rparr> else g)))
      else Ok g)"

text \<open>
  The triggers for the end are called with the first of the boards, which has got the result; then
  all boards go. A game is only read, and can be NULL.
\<close>

definition ended_game :: "ics_data \<Rightarrow> ics_server \<Rightarrow> ics_server res" where
  "ended_game data ics =
     rbind (deref (tokens data)) (\<lambda>ts.
       case dl_from (game ics) of
         [] \<Rightarrow> Fault NullDeref
       | g # gs \<Rightarrow>
           rbind (game_result ts g) (\<lambda>g'.
             Ok (ics\<lparr>game := DList (dl_before (game ics))
                   (g'\<lparr>end_result := or_else (end_result g') (Some ''WIN''), end_message := Some (txt_packet data)\<rparr> # gs)\<rparr>)))"

definition ics_internal_endgame :: "ics_scripts \<Rightarrow> ics_data \<Rightarrow> ics_state \<Rightarrow> ics_state res option" where
  "ics_internal_endgame scripts data st =
     (case ended_game data (snd st) of
        Inl e \<Rightarrow> Some (Fault e)
      | Inr ics \<Rightarrow>
          obind (ics_walk scripts it_endgame (Some it_endgame_update) (\<lambda>_. Ok True) data 0 (fst st, ics)) (\<lambda>st'.
            Some (Ok (fst st', (snd st')\<lparr>game := dl_null\<rparr>))))"

section \<open>Handlers that call others\<close>

definition ics_internal_connect :: "ics_scripts \<Rightarrow> ics_data \<Rightarrow> ics_state \<Rightarrow> ics_state res option" where
  "ics_internal_connect scripts data st =
     (if connected (snd st) \<noteq> 0 then Some (Ok st)
      else obind (ics_walk scripts it_connect None (\<lambda>_. Ok True) data 0 st) (\<lambda>st'.
        Some (Ok (fst st', (snd st')\<lparr>connected := 1\<rparr>))))"

text \<open>Triggers for \<open>tell\<close> are called when the mask does \<^emph>\<open>not\<close> match.\<close>

definition ics_internal_tell :: "ics_scripts \<Rightarrow> ics_data \<Rightarrow> ics_state \<Rightarrow> ics_state res option" where
  "ics_internal_tell scripts data st =
     ics_walk scripts it_tell (Some it_tell_update)
       (\<lambda>t. Ok (matchwilds (Some (txt_packet data)) (it_mask t) \<noteq> 0)) data 0 st"

definition ics_internal_notify :: "ics_scripts \<Rightarrow> ics_data \<Rightarrow> ics_state \<Rightarrow> ics_state res option" where
  "ics_internal_notify scripts data st =
     ics_walk scripts it_notify None
       (\<lambda>t. rbind (token data 1) (\<lambda>s. Ok (matchwilds (Some s) (it_mask t) = 0))) data 0 st"

definition call_ics :: "ics_scripts \<Rightarrow> ics_data \<Rightarrow> cstr \<Rightarrow> ics_handler \<Rightarrow> ics_state \<Rightarrow> ics_state res option" where
  "call_ics scripts data cmd h st =
     (case h of
        Leaf l \<Rightarrow> Some (call_leaf scripts data cmd l st)
      | Ics_internal_connect \<Rightarrow> ics_internal_connect scripts data st
      | Ics_internal_tell \<Rightarrow> ics_internal_tell scripts data st
      | Ics_internal_notify \<Rightarrow> ics_internal_notify scripts data st
      | Ics_internal_board_get_info \<Rightarrow> ics_internal_board_get_info scripts data st
      | Ics_internal_endgame \<Rightarrow> ics_internal_endgame scripts data st)"

section \<open>A line\<close>

text \<open>The handler of a trigger for messages whose mask matches; the result counts the calls.\<close>

definition ics_fire :: "ics_scripts \<Rightarrow> ics_data \<Rightarrow> ics_handler ics_trigger \<Rightarrow> int \<times> ics_state \<Rightarrow> (int \<times> ics_state) res option" where
  "ics_fire scripts data t st =
     (if matchwilds (Some (txt_packet data)) (it_mask t) = 0 then
        (case it_handler t of
           None \<Rightarrow> Some (Ok st)
         | Some h \<Rightarrow> obind (call_ics scripts data (it_command t) h (snd st)) (\<lambda>s. Some (Ok (fst st + 1, s))))
      else Some (Ok st))"

partial_function (option) ics_trigger_match ::
  "ics_scripts \<Rightarrow> ics_data \<Rightarrow> nat \<Rightarrow> int \<times> ics_state \<Rightarrow> (int \<times> ics_state) res option" where
  "ics_trigger_match scripts data i st =
     (let l = dl_from (it_msg (i_trigs (snd (snd st)))) in
      if i < length l then
        Option.bind (ics_fire scripts data (l ! i) st) (\<lambda>r.
          case r of Inl e \<Rightarrow> Some (Fault e) | Inr st' \<Rightarrow> ics_trigger_match scripts data (Suc i) st')
      else Some (Ok st))"

definition parse_ics_line :: "ics_scripts \<Rightarrow> string \<Rightarrow> ics_state \<Rightarrow> ics_state res option" where
  "parse_ics_line scripts buffer st =
     obind (ics_trigger_match scripts \<lparr>txt_packet = buffer, tokens = tssv_split buffer\<rparr> 0 (0, st))
       (\<lambda>(n, st'). Some (Ok st'))"

fun parse_ics_lines :: "ics_scripts \<Rightarrow> string list \<Rightarrow> ics_state \<Rightarrow> ics_state res option" where
  "parse_ics_lines scripts [] st = Some (Ok st)"
| "parse_ics_lines scripts (l # ls) st = obind (parse_ics_line scripts l st) (parse_ics_lines scripts ls)"

text \<open>
  The bytes are cut into lines by the same code as in \<open>irc_in\<close>, with a buffer of its own. At the end of the stream
  \<open>sock\<close> is set to \<open>-1\<close>, which \<open>tsocket_close\<close> then takes for a closed socket.
\<close>

definition ics_in ::
  "ics_scripts \<Rightarrow> irc_buf \<Rightarrow> recv_result \<Rightarrow> ics_state \<Rightarrow> (int \<times> irc_buf \<times> ics_state) res option" where
  "ics_in scripts buf recved st =
     (if i_tsock (snd st) = None then Some (Fault NullDeref)
      else obind (Some (irc_in buf recved)) (\<lambda>(r, ls, buf').
        obind (parse_ics_lines scripts ls st) (\<lambda>st'. Some (Ok (r, buf', st')))))"

section \<open>Functions for scripts\<close>

text \<open>The last board of the game. There is none for any number but \<open>-1\<close>.\<close>

definition ics_getboard :: "ics_server \<Rightarrow> int \<Rightarrow> string list option res" where
  "ics_getboard ics game_id =
     (if game_id = -1 then
        (if dl_from (game ics) = [] then Fault NullDeref else Ok (Some (board (last (dl_from (game ics))))))
      else Ok None)"

text \<open>A name is compared with those on the first board; the strength is that on the last.\<close>

definition ics_get_score :: "ics_server \<Rightarrow> string \<Rightarrow> int res" where
  "ics_get_score ics whom =
     (case dl_from (game ics) of
        [] \<Rightarrow> Ok 0
      | g # gs \<Rightarrow>
          (let bs = last (g # gs) in
           if tstrcasecmp whom ''white'' = 0 then Ok (white_strength bs)
           else if tstrcasecmp whom ''black'' = 0 then
             rbind (tstrcasecmp_p (Some whom) (white_name g)) (\<lambda>w.
               Ok (if w = 0 then white_strength bs else black_strength bs))
           else rbind (tstrcasecmp_p (Some whom) (white_name g)) (\<lambda>w.
             if w = 0 then Ok (white_strength bs)
             else rbind (tstrcasecmp_p (Some whom) (black_name g)) (\<lambda>b.
               Ok (if b = 0 then black_strength bs else 0)))))"

definition ics_type_named :: "string \<Rightarrow> ics_trigger_types option" where
  "ics_type_named ty =
     map_option snd (find (\<lambda>(n, t). tstrcasecmp n ty = 0)
       [(''msg'', ICS_TRIG_MSG), (''notify'', ICS_TRIG_NOTIFY), (''error'', ICS_TRIG_ERROR),
        (''connect'', ICS_TRIG_CONNECT), (''game'', ICS_TRIG_GAME), (''move'', ICS_TRIG_MOVE),
        (''endgame'', ICS_TRIG_ENDGAME)])"

text \<open>The masks of the list of a type, in order.\<close>

definition ics_masks :: "ics_trigger_types option \<Rightarrow> ics_trigger_table \<Rightarrow> cstr list" where
  "ics_masks ty tt =
     (case ty of
        None \<Rightarrow> []
      | Some t \<Rightarrow>
          (case t of
             ICS_TRIG_MSG \<Rightarrow> map it_mask (dl_from (it_msg tt))
           | ICS_TRIG_NOTIFY \<Rightarrow> map it_mask (dl_from (it_notify tt))
           | ICS_TRIG_ERROR \<Rightarrow> map it_mask (dl_from (it_error tt))
           | ICS_TRIG_CONNECT \<Rightarrow> map it_mask (dl_from (it_connect tt))
           | ICS_TRIG_GAME \<Rightarrow> map it_mask (dl_from (it_game tt))
           | ICS_TRIG_MOVE \<Rightarrow> map it_mask (dl_from (it_move tt))
           | ICS_TRIG_ENDGAME \<Rightarrow> map it_mask (dl_from (it_endgame tt))
           | ICS_TRIG_TELL \<Rightarrow> []))"

definition ics_bound :: "ics_trigger_types \<Rightarrow> cstr \<Rightarrow> cstr \<Rightarrow> 'h \<Rightarrow> 'h ics_trigger" where
  "ics_bound ty msk cmd h =
     new_ics_trigger\<lparr>it_type := Some ty, it_mask := msk, it_handler := Some h, it_command := cmd\<rparr>"

text \<open>
  Without a handler the masks are compared, and the result is empty: nothing is counted, and the second
  loop starts at the end of the list. The result is the array up to its NULL.
\<close>

definition ics_bind :: "ics_server \<Rightarrow> string \<Rightarrow> cstr \<Rightarrow> cstr \<Rightarrow> ics_leaf option \<Rightarrow> (string list \<times> ics_server) res" where
  "ics_bind ics ty msk cmd handler =
     (case handler of
        None \<Rightarrow>
          rbind (mapM_res (\<lambda>m. strcmp_p m msk) (ics_masks (ics_type_named ty) (i_trigs ics))) (\<lambda>_. Ok ([], ics))
      | Some h \<Rightarrow>
          (case ics_type_named ty of
             None \<Rightarrow> Ok ([], ics)
           | Some t \<Rightarrow>
               (let tt = i_trigs ics; leaf = ics_bound t msk cmd h in
                Ok (case cmd of None \<Rightarrow> [] | Some c \<Rightarrow> [c],
                  ics\<lparr>i_trigs :=
                    (case t of
                       ICS_TRIG_MSG \<Rightarrow> tt\<lparr>it_msg := ics_trigger_add (it_msg tt) (ics_bound t msk cmd (Leaf h))\<rparr>
                     | ICS_TRIG_NOTIFY \<Rightarrow> tt\<lparr>it_notify := ics_trigger_add (it_notify tt) leaf\<rparr>
                     | ICS_TRIG_ERROR \<Rightarrow> tt\<lparr>it_error := ics_trigger_add (it_error tt) leaf\<rparr>
                     | ICS_TRIG_CONNECT \<Rightarrow> tt\<lparr>it_connect := ics_trigger_add (it_connect tt) leaf\<rparr>
                     | ICS_TRIG_GAME \<Rightarrow> tt\<lparr>it_game := ics_trigger_add (it_game tt) leaf\<rparr>
                     | ICS_TRIG_MOVE \<Rightarrow> tt\<lparr>it_move := ics_trigger_add (it_move tt) leaf\<rparr>
                     | ICS_TRIG_ENDGAME \<Rightarrow> tt\<lparr>it_endgame := ics_trigger_add (it_endgame tt) leaf\<rparr>
                     | ICS_TRIG_TELL \<Rightarrow> tt)\<rparr>))))"

end
