(* ===== verification/Ics_Run.thy ===== *)
theory Ics_Run
  imports Ics_Proto
begin

text \<open>
  What the module for chess servers does with a line: every walk through the triggers ends as long as
  scripts leave the triggers alone, and calls each of them once and in order. From this follows what the
  built-in triggers do with a prompt, a board and the end of a game, also after a connection was lost.
\<close>

section \<open>Quiet scripts\<close>

definition quiet :: "ics_scripts \<Rightarrow> bool" where
  "quiet scripts \<longleftrightarrow> (\<forall>n cmd data ics ics'. scripts n cmd data ics = Ok ics' \<longrightarrow> i_trigs ics' = i_trigs ics)"

abbreviation no_scripts :: ics_scripts where
  "no_scripts \<equiv> (\<lambda>n cmd data ics. Ok ics)"

lemma quiet_no_scripts [simp]: "quiet no_scripts"
  by (simp add: quiet_def)

lemma ics_printf_all: "all_ok (\<lambda>i. i_trigs i = i_trigs ics \<and> connected i = connected ics \<and> game i = game ics) (ics_printf ics f)"
  unfolding ics_printf_def by (intro all_ok_rules) simp_all

lemma ics_printfs_trigs: "ics_printfs ics ss = Ok i \<Longrightarrow> i_trigs i = i_trigs ics"
  by (induction ss arbitrary: ics) (auto simp: rbind_Ok_iff dest!: all_okD [OF ics_printf_all])

lemma on_server_Ok_iff: "on_server st r = Ok st' \<longleftrightarrow> (\<exists>i. r = Ok i \<and> st' = (fst st, i))"
  by (auto simp: on_server_def rbind_Ok_iff)

lemma call_leaf_trigs:
  assumes "quiet scripts" and "call_leaf scripts data cmd h st = Ok st'"
  shows "i_trigs (snd st') = i_trigs (snd st)"
  using assms
  by (cases h)
     (auto simp: call_leaf_def on_server_Ok_iff ics_internal_login_def ics_internal_enter_def rbind_Ok_iff Let_def
        ics_internal_anti_anti_idle_def ics_internal_style_twelve_init_def ics_internal_my_name_def quiet_def
        split: if_splits dest!: ics_printfs_trigs all_okD [OF ics_printf_all])

lemma masked_simps [simp]:
  "it_mask (ics_masked ty m h) = m" "it_handler (ics_masked ty m h) = Some h" "it_command (ics_masked ty m h) = None"
  by (simp_all add: ics_masked_def new_ics_trigger_def)

section \<open>Going through a list\<close>

text \<open>
  What the walks rely on: counting a use writes the list that is read, and no other, and leaves it as long
  as it is. A list whose triggers are not counted has nothing written.
\<close>

locale walked_list =
  fixes get :: ics_get
    and upd :: "ics_upd option"
  assumes get_upd: "upd = Some u \<Longrightarrow> get (u f t) = f (get t)"
    and msg_upd: "upd = Some u \<Longrightarrow> it_msg (u f t) = it_msg t"
begin

lemma call_trigger_keeps:
  assumes "quiet scripts" and "call_trigger scripts upd test data i t st = Ok st'"
  shows "length (dl_from (get (i_trigs (snd st')))) = length (dl_from (get (i_trigs (snd st))))"
    and "it_msg (i_trigs (snd st')) = it_msg (i_trigs (snd st))"
proof -
  have "length (dl_from (get (i_trigs (snd st')))) = length (dl_from (get (i_trigs (snd st)))) \<and>
    it_msg (i_trigs (snd st')) = it_msg (i_trigs (snd st))"
    using assms(2)
    by (auto simp: call_trigger_def rbind_Ok_iff count_use_def get_upd msg_upd
        split: if_splits option.splits dest!: call_leaf_trigs [OF assms(1)])
  then show "length (dl_from (get (i_trigs (snd st')))) = length (dl_from (get (i_trigs (snd st))))"
    "it_msg (i_trigs (snd st')) = it_msg (i_trigs (snd st))" by simp_all
qed

text \<open>The walk ends, and does not touch the triggers for messages.\<close>

lemma walk_ends:
  assumes q: "quiet scripts"
  shows "\<exists>r. ics_walk scripts get upd test data i st = Some r \<and>
    all_ok (\<lambda>s. it_msg (i_trigs (snd s)) = it_msg (i_trigs (snd st))) r"
proof (induction "length (dl_from (get (i_trigs (snd st)))) - i" arbitrary: i st rule: less_induct)
  case less
  let ?l = "dl_from (get (i_trigs (snd st)))"
  show ?case
  proof (cases "i < length ?l")
    case False
    then show ?thesis by (subst ics_walk.simps) (simp add: Let_def)
  next
    case True
    show ?thesis
    proof (cases "call_trigger scripts upd test data i (?l ! i) st")
      case (Inl e)
      then show ?thesis using True by (subst ics_walk.simps) (simp add: Let_def)
    next
      case (Inr st1)
      note k = call_trigger_keeps [OF q Inr]
      then obtain r where "ics_walk scripts get upd test data (Suc i) st1 = Some r"
        "all_ok (\<lambda>s. it_msg (i_trigs (snd s)) = it_msg (i_trigs (snd st1))) r"
        using less [of st1 "Suc i"] True by fastforce
      then show ?thesis using True Inr k by (subst ics_walk.simps) (simp add: Let_def)
    qed
  qed
qed

lemma walk_Nil: "dl_from (get (i_trigs (snd st))) = [] \<Longrightarrow> ics_walk scripts get upd test data 0 st = Some (Ok st)"
  by (subst ics_walk.simps) simp

end

interpretation tells: walked_list it_tell "Some it_tell_update" by unfold_locales auto
interpretation endgames: walked_list it_endgame "Some it_endgame_update" by unfold_locales auto
interpretation games: walked_list it_game "Some it_game_update" by unfold_locales auto
interpretation notifies: walked_list it_notify None by unfold_locales auto
interpretation connects: walked_list it_connect None by unfold_locales auto

lemma call_ics_ends:
  assumes q: "quiet scripts"
  shows "\<exists>r. call_ics scripts data cmd h st = Some r \<and>
    all_ok (\<lambda>s. it_msg (i_trigs (snd s)) = it_msg (i_trigs (snd st))) r"
proof (cases h)
  case (Leaf l)
  then show ?thesis using call_leaf_trigs [OF q] by (simp add: call_ics_def all_ok_def del: split_paired_All)
next
  case Ics_internal_connect
  obtain r where "ics_walk scripts it_connect None (\<lambda>_. Ok True) data 0 st = Some r"
    "all_ok (\<lambda>s. it_msg (i_trigs (snd s)) = it_msg (i_trigs (snd st))) r"
    using connects.walk_ends [OF q] by blast
  then show ?thesis using Ics_internal_connect
    by (cases r) (auto simp: call_ics_def ics_internal_connect_def)
next
  case Ics_internal_tell
  then show ?thesis using tells.walk_ends [OF q] by (simp add: call_ics_def ics_internal_tell_def)
next
  case Ics_internal_notify
  then show ?thesis using notifies.walk_ends [OF q] by (simp add: call_ics_def ics_internal_notify_def)
next
  case Ics_internal_board_get_info
  show ?thesis
  proof (cases "style_twelve_game data")
    case (Inr g)
    then show ?thesis
      using Ics_internal_board_get_info
        games.walk_ends [OF q, of "\<lambda>_. Ok True" data 0 "(fst st, (snd st)\<lparr>game := ics_game_add (game (snd st)) g\<rparr>)"]
      by (simp add: call_ics_def ics_internal_board_get_info_def ics_internal_call_game_triggers_def Let_def)
  qed (simp add: call_ics_def ics_internal_board_get_info_def Ics_internal_board_get_info)
next
  case Ics_internal_endgame
  show ?thesis
  proof (cases "ended_game data (snd st)")
    case (Inr ics)
    have t: "i_trigs ics = i_trigs (snd st)"
      using Inr by (cases "dl_from (game (snd st))") (auto simp: ended_game_def rbind_Ok_iff)
    obtain r where "ics_walk scripts it_endgame (Some it_endgame_update) (\<lambda>_. Ok True) data 0 (fst st, ics) = Some r"
      "all_ok (\<lambda>s. it_msg (i_trigs (snd s)) = it_msg (i_trigs ics)) r"
      using endgames.walk_ends [OF q, of "\<lambda>_. Ok True" data 0 "(fst st, ics)"] by auto
    then show ?thesis using Ics_internal_endgame Inr t
      by (cases r) (auto simp: call_ics_def ics_internal_endgame_def)
  qed (simp add: call_ics_def ics_internal_endgame_def Ics_internal_endgame)
qed

section \<open>A line\<close>

text \<open>The triggers that are there when a line comes, one after the other.\<close>

fun fire_list ::
  "ics_scripts \<Rightarrow> ics_data \<Rightarrow> ics_handler ics_trigger list \<Rightarrow> int \<times> ics_state \<Rightarrow> (int \<times> ics_state) res option" where
  "fire_list scripts data [] st = Some (Ok st)"
| "fire_list scripts data (t # ts) st = obind (ics_fire scripts data t st) (fire_list scripts data ts)"

lemma ics_fire_ends:
  assumes q: "quiet scripts"
  shows "\<exists>r. ics_fire scripts data t st = Some r \<and>
    all_ok (\<lambda>s. it_msg (i_trigs (snd (snd s))) = it_msg (i_trigs (snd (snd st)))) r"
proof (cases "it_handler t")
  case (Some h)
  obtain r where "call_ics scripts data (it_command t) h (snd st) = Some r"
    "all_ok (\<lambda>s. it_msg (i_trigs (snd s)) = it_msg (i_trigs (snd (snd st)))) r"
    using call_ics_ends [OF q] by blast
  then show ?thesis using Some by (cases r) (auto simp: ics_fire_def)
qed (simp add: ics_fire_def)

lemma ics_trigger_match_list:
  assumes q: "quiet scripts"
  shows "ics_trigger_match scripts data i st =
    fire_list scripts data (drop i (dl_from (it_msg (i_trigs (snd (snd st)))))) st"
proof (induction "length (dl_from (it_msg (i_trigs (snd (snd st))))) - i" arbitrary: i st rule: less_induct)
  case less
  let ?l = "dl_from (it_msg (i_trigs (snd (snd st))))"
  show ?case
  proof (cases "i < length ?l")
    case False
    then show ?thesis by (subst ics_trigger_match.simps) (simp add: Let_def)
  next
    case True
    obtain r where r: "ics_fire scripts data (?l ! i) st = Some r"
      "all_ok (\<lambda>s. it_msg (i_trigs (snd (snd s))) = it_msg (i_trigs (snd (snd st)))) r"
      using ics_fire_ends [OF q] by blast
    have d: "drop i ?l = ?l ! i # drop (Suc i) ?l" using True by (rule Cons_nth_drop_Suc [symmetric])
    show ?thesis
    proof (cases r)
      case (Inl e)
      then show ?thesis using r True d by (subst ics_trigger_match.simps) (simp add: Let_def)
    next
      case (Inr st1)
      then have "it_msg (i_trigs (snd (snd st1))) = it_msg (i_trigs (snd (snd st)))" using r by simp
      then show ?thesis using r Inr True d less [of st1 "Suc i"]
        by (subst ics_trigger_match.simps) (simp add: Let_def)
    qed
  qed
qed

lemma fire_list_ends: "quiet scripts \<Longrightarrow> \<exists>r. fire_list scripts data ts st = Some r"
proof (induction ts arbitrary: st)
  case (Cons t ts)
  obtain r where "ics_fire scripts data t st = Some r" using ics_fire_ends [OF Cons.prems] by blast
  then show ?case using Cons by (cases r) auto
qed simp

lemma parse_ics_line_ends:
  assumes "quiet scripts"
  shows "\<exists>r. parse_ics_line scripts l st = Some r"
proof -
  obtain r where "fire_list scripts \<lparr>txt_packet = l, tokens = tssv_split l\<rparr> (dl_from (it_msg (i_trigs (snd st)))) (0, st) = Some r"
    using fire_list_ends [OF assms] by blast
  then show ?thesis using ics_trigger_match_list [OF assms]
    by (cases r) (auto simp: parse_ics_line_def split: prod.splits)
qed

text \<open>A line goes to the triggers whose masks match it.\<close>

lemma fire_list_append:
  "fire_list scripts data (a @ b) st = obind (fire_list scripts data a st) (fire_list scripts data b)"
proof (induction a arbitrary: st)
  case (Cons t a)
  then show ?case
    by (cases "ics_fire scripts data t st") (auto simp: obind_def split: sum.split)
qed simp

lemma fire_list_filter:
  "fire_list scripts data ts st =
   fire_list scripts data (filter (\<lambda>t. matchwilds (Some (txt_packet data)) (it_mask t) = 0) ts) st"
proof (induction ts arbitrary: st)
  case (Cons t ts)
  then show ?case
    by (cases "ics_fire scripts data t st") (auto simp: obind_def ics_fire_def split: sum.split)
qed simp

text \<open>The built-in triggers after a number of connections.\<close>

lemma it_msg_connections:
  assumes "it_msg (i_trigs ics) = dl_null"
  shows "dl_from (it_msg (i_trigs ((ics_ball_start_rolling ^^ n) ics))) = concat (replicate n builtin_msg)"
proof (induction n)
  case 0
  then show ?case using assms by simp
next
  case (Suc n)
  have f: "dl_from (fold (\<lambda>x l. ics_trigger_add l x) ts l) = dl_from l @ ts" for ts :: "'h ics_trigger list" and l
    by (induction ts arbitrary: l) (auto simp: ics_trigger_add_def)
  have r: "concat (replicate n builtin_msg) @ builtin_msg = builtin_msg @ concat (replicate n builtin_msg)"
    by (induction n) auto
  show ?case using Suc r
    by (simp add: ics_ball_start_rolling_def init_ics_triggers_def Let_def f)
qed

text \<open>The text of a line, and the only built-in mask that it matches.\<close>

definition only_mask :: "string \<Rightarrow> string \<Rightarrow> bool" where
  "only_mask l m \<longleftrightarrow> filter (\<lambda>t. matchwilds (Some l) (it_mask t) = 0) builtin_msg =
     filter (\<lambda>t. it_mask t = Some m) builtin_msg"

lemma parse_only_mask:
  assumes "quiet scripts" and "it_msg (i_trigs (snd st)) = dl" and "dl_from dl = concat (replicate n builtin_msg)"
    and "only_mask l m"
  shows "parse_ics_line scripts l st =
    obind (fire_list scripts \<lparr>txt_packet = l, tokens = tssv_split l\<rparr>
      (concat (replicate n (filter (\<lambda>t. it_mask t = Some m) builtin_msg))) (0, st)) (\<lambda>(n, st'). Some (Ok st'))"
proof -
  have "filter (\<lambda>t. matchwilds (Some l) (it_mask t) = 0) (concat (replicate n builtin_msg)) =
      concat (replicate n (filter (\<lambda>t. it_mask t = Some m) builtin_msg))"
    using assms(4) by (induction n) (simp_all add: only_mask_def)
  then show ?thesis
    using assms(2,3) fire_list_filter [of scripts "\<lparr>txt_packet = l, tokens = tssv_split l\<rparr>" "concat (replicate n builtin_msg)"]
    by (simp add: parse_ics_line_def ics_trigger_match_list [OF assms(1)])
qed

section \<open>Connections\<close>

lemma connections_keep [simp]:
  "i_tsock ((ics_ball_start_rolling ^^ n) ics) = i_tsock ics"
  "i_sent ((ics_ball_start_rolling ^^ n) ics) = i_sent ics"
  "i_username ((ics_ball_start_rolling ^^ n) ics) = i_username ics"
  "i_servers ((ics_ball_start_rolling ^^ n) ics) = i_servers ics"
  "connected ((ics_ball_start_rolling ^^ n) ics) = connected ics"
  "game ((ics_ball_start_rolling ^^ n) ics) = game ics"
  by (induction n) (simp_all add: ics_ball_start_rolling_def init_ics_triggers_def Let_def)

text \<open>A server that takes a connection at once.\<close>

definition reachable_server :: "(string \<Rightarrow> int \<Rightarrow> conn) \<Rightarrow> ics_server \<Rightarrow> bool" where
  "reachable_server connects ics \<longleftrightarrow>
     (\<exists>srv r h. dl_from (i_servers ics) = srv # r \<and> sv_host srv = Some h \<and> connects h (sv_port srv) = ConnNow)"

lemma ics_server_connect_now:
  assumes "reachable_server connects ics"
  shows "ics_server_connect connects s ics None ts = Ok (ics_ball_start_rolling (ics\<lparr>i_tsock := Some s\<rparr>), s # ts, False)"
    and "ics_server_connect connects k ics (Some s) ts = Ok (ics_ball_start_rolling (ics\<lparr>i_tsock := Some s\<rparr>), ts, False)"
  using assms by (auto simp: reachable_server_def ics_server_connect_def)

text \<open>The connection is lost, and made again, a number of times.\<close>

fun ics_reconnect :: "(string \<Rightarrow> int \<Rightarrow> conn) \<Rightarrow> nat \<Rightarrow> ics_server \<times> nat list \<Rightarrow> (ics_server \<times> nat list) res" where
  "ics_reconnect connects 0 st = Ok st"
| "ics_reconnect connects (Suc n) st =
     rbind (ics_disconnected connects (fst st) (snd st)) (\<lambda>(i, ts, freed). ics_reconnect connects n (i, ts))"

lemma ics_reconnect_rolling:
  assumes "reachable_server connects ics" and "i_tsock ics = Some s"
  shows "ics_reconnect connects n ((ics_ball_start_rolling ^^ k) ics, ts) = Ok ((ics_ball_start_rolling ^^ (n + k)) ics, ts)"
proof (induction n arbitrary: k)
  case (Suc n)
  let ?i = "(ics_ball_start_rolling ^^ k) ics"
  have "reachable_server connects ?i" "i_tsock ?i = Some s" using assms by (simp_all add: reachable_server_def)
  then have "ics_disconnected connects ?i ts = Ok (ics_ball_start_rolling (?i\<lparr>i_tsock := Some s\<rparr>), ts, False)"
    using ics_server_connect_now(2) [of connects ?i s s ts] by (simp add: ics_disconnected_def)
  moreover have "?i\<lparr>i_tsock := Some s\<rparr> = ?i" using \<open>i_tsock ?i = Some s\<close> by simp
  ultimately show ?case using Suc [of "Suc k"] by simp
qed simp

lemma ics_server_connect_unreachable:
  assumes "\<forall>srv \<in> set (dl_from (i_servers ics)). sv_host srv = None \<or> connects (the (sv_host srv)) (sv_port srv) = ConnFailed"
  shows "ics_server_connect connects s ics None ts = Fault NullDeref"
    and "ics_server_connect connects k ics (Some s) ts = Ok (ics\<lparr>i_tsock := Some s\<rparr>, ts, True)"
proof -
  have "ics_try_servers connects srvs i = (i, False)"
    if "\<forall>srv \<in> set srvs. sv_host srv = None \<or> connects (the (sv_host srv)) (sv_port srv) = ConnFailed" for srvs i
    using that by (induction srvs) (auto split: option.splits)
  then show "ics_server_connect connects s ics None ts = Fault NullDeref"
    "ics_server_connect connects k ics (Some s) ts = Ok (ics\<lparr>i_tsock := Some s\<rparr>, ts, True)"
    using assms by (simp_all add: ics_server_connect_def)
qed

section \<open>Prompts\<close>

lemma builtin_masks:
  "filter (\<lambda>t. it_mask t = Some LOGIN_TRIGGER) builtin_msg = [ics_masked ICS_TRIG_MSG (Some LOGIN_TRIGGER) (Leaf Ics_internal_login)]"
  "filter (\<lambda>t. it_mask t = Some CONNECT_TRIGGER) builtin_msg = [ics_masked ICS_TRIG_MSG (Some CONNECT_TRIGGER) Ics_internal_connect]"
  "filter (\<lambda>t. it_mask t = Some STYLE_TWELVE_TRIGGER) builtin_msg =
     [ics_masked ICS_TRIG_MSG (Some STYLE_TWELVE_TRIGGER) Ics_internal_board_get_info]"
  "filter (\<lambda>t. it_mask t = Some ENDGAME_TRIGGER) builtin_msg = [ics_masked ICS_TRIG_MSG (Some ENDGAME_TRIGGER) Ics_internal_endgame]"
  by (simp_all add: builtin_msg_def ics_masked_def)

lemma concat_replicate_one: "concat (replicate n [x]) = replicate n x"
  by (induction n) auto

lemma ics_printf_plain:
  "CHR ''%'' \<notin> set u \<Longrightarrow> i_tsock ics = Some s \<Longrightarrow> ics_printf ics (Some u) = Ok (ics\<lparr>i_sent := i_sent ics @ [take 2047 u @ [NL]]\<rparr>)"
  by (simp add: ics_printf_def fmt_text_plain)

text \<open>The prompt for the name is answered once for every connection there has been.\<close>

lemma login_prompt:
  assumes q: "quiet scripts" and m: "it_msg (i_trigs ics) = dl_null" and t: "i_tsock ics = Some s"
    and u: "i_username ics = Some u" "CHR ''%'' \<notin> set u" and l: "only_mask l LOGIN_TRIGGER"
  shows "parse_ics_line scripts l (k, (ics_ball_start_rolling ^^ n) ics) =
    Some (Ok (k, ((ics_ball_start_rolling ^^ n) ics)\<lparr>i_sent := i_sent ics @ replicate n (take 2047 u @ [NL])\<rparr>))"
proof -
  let ?d = "\<lparr>txt_packet = l, tokens = tssv_split l\<rparr>"
  let ?t = "ics_masked ICS_TRIG_MSG (Some LOGIN_TRIGGER) (Leaf Ics_internal_login)"
  have lm: "matchwilds (Some l) (Some LOGIN_TRIGGER) = 0"
  proof -
    have "?t \<in> set (filter (\<lambda>t. matchwilds (Some l) (it_mask t) = 0) builtin_msg)"
      using l by (simp only: only_mask_def builtin_masks list.set_intros)
    then show ?thesis by (simp add: ics_masked_def)
  qed
  have f: "fire_list scripts ?d (replicate m ?t) (c, k, i) =
      Some (Ok (c + int m, k, i\<lparr>i_sent := i_sent i @ replicate m (take 2047 u @ [NL])\<rparr>))"
    if "i_tsock i = Some s" "i_username i = Some u" for m c i
    using that
  proof (induction m arbitrary: c i)
    case (Suc m)
    have "ics_fire scripts ?d ?t (c, k, i) = Some (Ok (c + 1, k, i\<lparr>i_sent := i_sent i @ [take 2047 u @ [NL]]\<rparr>))"
      using Suc.prems u(2) lm
      by (simp add: ics_fire_def ics_masked_def call_ics_def call_leaf_def on_server_def ics_internal_login_def ics_printf_plain)
    then show ?case using Suc by simp
  qed simp
  show ?thesis
    using parse_only_mask [OF q, of "(k, (ics_ball_start_rolling ^^ n) ics)" _ n l LOGIN_TRIGGER] l t u
      it_msg_connections [OF m, of n] f [of "(ics_ball_start_rolling ^^ n) ics" n 0]
    by (simp add: builtin_masks concat_replicate_one)
qed

lemma only_mask_matches:
  assumes "only_mask l m" and "ics_masked ICS_TRIG_MSG (Some m) h \<in> set builtin_msg"
  shows "matchwilds (Some l) (Some m) = 0"
proof -
  have "ics_masked ICS_TRIG_MSG (Some m) h \<in> set (filter (\<lambda>t. it_mask t = Some m) builtin_msg)"
    using assms(2) by (simp add: ics_masked_def)
  then have "ics_masked ICS_TRIG_MSG (Some m) h \<in> set (filter (\<lambda>t. matchwilds (Some l) (it_mask t) = 0) builtin_msg)"
    using assms(1) by (simp only: only_mask_def)
  then show ?thesis by (simp add: ics_masked_def)
qed

text \<open>A line for one built-in trigger goes to its handler alone, after the first connection.\<close>

lemma one_handler:
  assumes q: "quiet scripts" and m: "dl_from (it_msg (i_trigs ics)) = builtin_msg" and l: "only_mask l msk"
    and h: "filter (\<lambda>t. it_mask t = Some msk) builtin_msg = [ics_masked ICS_TRIG_MSG (Some msk) hn]"
  shows "parse_ics_line scripts l (k, ics) = call_ics scripts \<lparr>txt_packet = l, tokens = tssv_split l\<rparr> None hn (k, ics)"
proof -
  let ?d = "\<lparr>txt_packet = l, tokens = tssv_split l\<rparr>"
  have "ics_masked ICS_TRIG_MSG (Some msk) hn \<in> set (filter (\<lambda>t. it_mask t = Some msk) builtin_msg)" unfolding h by simp
  then have lm: "matchwilds (Some l) (Some msk) = 0" using only_mask_matches [OF l, of hn] by simp
  obtain r where r: "call_ics scripts ?d None hn (k, ics) = Some r" using call_ics_ends [OF q] by blast
  have "parse_ics_line scripts l (k, ics) =
      obind (fire_list scripts ?d [ics_masked ICS_TRIG_MSG (Some msk) hn] (0, k, ics)) (\<lambda>(n, st'). Some (Ok st'))"
    using parse_only_mask [OF q refl, of "(k, ics)" 1 l msk] m l h by simp
  also have "\<dots> = Some r"
    using lm r by (cases r) (simp_all add: ics_fire_def ics_masked_def new_ics_trigger_def)
  finally show ?thesis using r by simp
qed

text \<open>The first prompt is answered with the settings, and no later one, whatever connections there are between.\<close>

lemma walk_one:
  assumes "dl_from (get (i_trigs (snd st))) = [t]" and "it_handler t = Some h"
    and "call_leaf scripts data (it_command t) h st = Ok st'" and "i_trigs (snd st') = i_trigs (snd st)"
  shows "ics_walk scripts get None (\<lambda>_. Ok True) data 0 st = Some (Ok st')"
  using assms by (subst ics_walk.simps) (simp add: call_trigger_def Let_def ics_walk.simps [where i = "Suc 0"])

definition setup_lines :: "string list" where
  "setup_lines = map (\<lambda>s. s @ [NL])
     [''style 12'', ''set shout 0'', ''set cshout 0'', ''set open 1'', ''set highlight 0'', ''set bell 0'',
      ''set interface Trollbot, by poutine/DALnet'']"

lemma first_prompt:
  assumes q: "quiet scripts" and m: "dl_from (it_msg (i_trigs ics)) = builtin_msg" and l: "only_mask l CONNECT_TRIGGER"
    and c: "connected ics = 0" and t: "i_tsock ics = Some s"
    and w: "dl_from (it_connect (i_trigs ics)) = [ics_masked ICS_TRIG_CONNECT (Some CONNECT_TRIGGER) Ics_internal_style_twelve_init]"
  shows "parse_ics_line scripts l (k, ics) = Some (Ok (k, ics\<lparr>i_sent := i_sent ics @ setup_lines, connected := 1\<rparr>))"
proof -
  let ?d = "\<lparr>txt_packet = l, tokens = tssv_split l\<rparr>"
  have p: "ics_printfs i ss = Ok (i\<lparr>i_sent := i_sent i @ map (\<lambda>u. take 2047 u @ [NL]) ss\<rparr>)"
    if "i_tsock i = Some s" "\<forall>u \<in> set ss. CHR ''%'' \<notin> set u" for i ss
    using that by (induction ss arbitrary: i) (simp_all add: ics_printf_plain)
  have "call_leaf scripts ?d None Ics_internal_style_twelve_init (k, ics) = Ok (k, ics\<lparr>i_sent := i_sent ics @ setup_lines\<rparr>)"
    using t by (simp add: call_leaf_def on_server_def ics_internal_style_twelve_init_def setup_lines_def p del: ics_printfs.simps)
  then have "ics_walk scripts it_connect None (\<lambda>_. Ok True) ?d 0 (k, ics) = Some (Ok (k, ics\<lparr>i_sent := i_sent ics @ setup_lines\<rparr>))"
    using walk_one [where get = it_connect and st = "(k, ics)", unfolded snd_conv, OF w] by simp
  then show ?thesis
    using one_handler [OF q m l builtin_masks(2)] c by (simp add: call_ics_def ics_internal_connect_def)
qed

lemma later_prompt:
  assumes q: "quiet scripts" and m: "dl_from (it_msg (i_trigs ics)) = concat (replicate n builtin_msg)"
    and l: "only_mask l CONNECT_TRIGGER" and c: "connected ics \<noteq> 0"
  shows "parse_ics_line scripts l (k, ics) = Some (Ok (k, ics))"
proof -
  let ?d = "\<lparr>txt_packet = l, tokens = tssv_split l\<rparr>"
  have f: "\<exists>b. fire_list scripts ?d (replicate j (ics_masked ICS_TRIG_MSG (Some CONNECT_TRIGGER) Ics_internal_connect)) (a, k, ics)
      = Some (Ok (b, k, ics))" for j a
    using c by (induction j arbitrary: a) (simp_all add: ics_fire_def ics_masked_def call_ics_def ics_internal_connect_def)
  obtain b where "fire_list scripts ?d (replicate n (ics_masked ICS_TRIG_MSG (Some CONNECT_TRIGGER) Ics_internal_connect)) (0, k, ics)
      = Some (Ok (b, k, ics))" using f by blast
  then show ?thesis
    using parse_only_mask [OF q refl, of "(k, ics)" n l CONNECT_TRIGGER] m l
    by (simp add: builtin_masks concat_replicate_one)
qed

lemma settings_once:
  assumes q: "quiet scripts" and m: "it_msg (i_trigs ics) = dl_null" and w: "it_connect (i_trigs ics) = dl_null"
    and c: "connected ics = 0" and t: "i_tsock ics = Some s" and l: "only_mask l CONNECT_TRIGGER"
  shows "\<exists>ics'. parse_ics_line scripts l (k, ics_ball_start_rolling ics) = Some (Ok (k, ics')) \<and>
    i_sent ics' = i_sent ics @ setup_lines \<and>
    (\<forall>n. parse_ics_line scripts l (k, (ics_ball_start_rolling ^^ n) ics') = Some (Ok (k, (ics_ball_start_rolling ^^ n) ics')))"
proof -
  let ?i = "ics_ball_start_rolling ics"
  let ?j = "?i\<lparr>i_sent := i_sent ?i @ setup_lines, connected := 1\<rparr>"
  have b: "dl_from (it_msg (i_trigs ?i)) = builtin_msg" using it_msg_connections [OF m, of 1] by simp
  have cn: "dl_from (it_connect (i_trigs ?i)) = [ics_masked ICS_TRIG_CONNECT (Some CONNECT_TRIGGER) Ics_internal_style_twelve_init]"
    using w by (simp add: ics_ball_start_rolling_def init_ics_triggers_def Let_def ics_trigger_add_def)
  have k: "connected ?i = 0" "i_tsock ?i = Some s" "i_sent ?i = i_sent ics" using connections_keep [of 1 ics] c t by simp_all
  have f: "dl_from (it_msg (i_trigs ((ics_ball_start_rolling ^^ n) ?j))) = concat (replicate (n + 1) builtin_msg)" for n
  proof -
    have "i_trigs ((ics_ball_start_rolling ^^ n) ?j) = i_trigs ((ics_ball_start_rolling ^^ n) ?i)"
      by (induction n) (simp_all add: ics_ball_start_rolling_def init_ics_triggers_def Let_def)
    then show ?thesis using it_msg_connections [OF m, of "n + 1"] by (simp add: funpow_swap1)
  qed
  show ?thesis
    using first_prompt [OF q b l k(1,2) cn] k(3) later_prompt [OF q f l] by (intro exI [of _ ?j]) simp
qed

section \<open>Boards\<close>

lemma next_board:
  assumes q: "quiet scripts" and m: "dl_from (it_msg (i_trigs ics)) = builtin_msg" and l: "only_mask l STYLE_TWELVE_TRIGGER"
    and g: "style_twelve_game \<lparr>txt_packet = l, tokens = tssv_split l\<rparr> = Ok g" and n: "dl_from (game ics) \<noteq> []"
  shows "parse_ics_line scripts l (k, ics) = Some (Ok (k, ics\<lparr>game := ics_game_add (game ics) g\<rparr>))"
  using one_handler [OF q m l builtin_masks(3)] g n by (simp add: call_ics_def ics_internal_board_get_info_def Let_def)

lemma end_without_board:
  assumes q: "quiet scripts" and m: "dl_from (it_msg (i_trigs ics)) = builtin_msg" and l: "only_mask l ENDGAME_TRIGGER"
    and n: "dl_from (game ics) = []"
  shows "parse_ics_line scripts l (k, ics) = Some (Fault NullDeref)"
  using one_handler [OF q m l builtin_masks(4)] n
  by (cases "tssv_split l") (simp_all add: call_ics_def ics_internal_endgame_def ended_game_def)

lemma game_result_total: "\<exists>g'. game_result (pre @ [w, r]) g = Ok g'"
proof -
  have "word_before (pre @ [w, r]) = Ok w" by (simp add: word_before_def nth_append)
  then show ?thesis
    by (cases "game_result (pre @ [w, r]) g") (auto simp: game_result_def Let_def split: if_splits)
qed

lemma end_with_board:
  assumes q: "quiet scripts" and m: "dl_from (it_msg (i_trigs ics)) = builtin_msg" and l: "only_mask l ENDGAME_TRIGGER"
    and e: "dl_from (it_endgame (i_trigs ics)) = []"
    and ts: "tssv_split l = Some (pre @ [w, r])" and n: "dl_from (game ics) = g # gs"
  shows "parse_ics_line scripts l (k, ics) = Some (Ok (k, ics\<lparr>game := dl_null\<rparr>))"
proof -
  let ?d = "\<lparr>txt_packet = l, tokens = tssv_split l\<rparr>"
  obtain g' where "game_result (pre @ [w, r]) g = Ok g'" using game_result_total by blast
  then obtain gm where "ended_game ?d ics = Ok (ics\<lparr>game := gm\<rparr>)" using ts n by (simp add: ended_game_def)
  moreover have "ics_walk scripts it_endgame (Some it_endgame_update) (\<lambda>_. Ok True) ?d 0 (k, ics\<lparr>game := gm\<rparr>) =
      Some (Ok (k, ics\<lparr>game := gm\<rparr>))" using e by (intro endgames.walk_Nil) simp
  ultimately show ?thesis
    using one_handler [OF q m l builtin_masks(4)] by (simp add: call_ics_def ics_internal_endgame_def)
qed

text \<open>Who is said to have won.\<close>

lemma game_result_winner:
  assumes "game_result ts g = Ok g'" and "last ts \<in> {''*'', ''1/2-1/2'', ''1-0'', ''0-1''}"
  shows "winner_name g' = (if last ts = ''0-1'' then black_name g else white_name g) \<and>
    loser_name g' = (if last ts = ''0-1'' then white_name g else black_name g)"
  using assms by (auto simp: game_result_def Let_def rbind_Ok_iff white_wins_def black_wins_def)

text \<open>A board as the server writes it, and as it is read.\<close>

lemma atoi_show_int:
  assumes "- (2 ^ 31) \<le> i" and "i < 2 ^ 31"
  shows "atoi (show_int i) = i"
proof (cases "i < 0")
  case False
  then show ?thesis using assms atoi_show_nat [of "nat i"] by (simp add: show_int_def)
next
  case True
  have "strtol10 (show_int i) = max (- (2 ^ 63)) (min (2 ^ 63 - 1) i)"
    using True by (simp add: strtol10_def show_int_def digits_val_show_nat isspace_c_def)
  then have "strtol10 (show_int i) = i" using assms by simp
  then show ?thesis using assms by (simp only: atoi_def sint_sbintrunc') (simp add: signed_take_bit_int_eq_self)
qed

lemma word_ok_show_int: "word_ok (show_int i)"
proof -
  have "\<not> blank c" if "c \<in> set (show_nat n)" for c n
    using that show_nat_digits [of n] isdigit_not [of c] by (auto simp: list_all_iff blank_def isspace_c_def)
  then show ?thesis using show_nat_nonempty by (auto simp: word_ok_def show_int_def list_all_iff) (simp_all add: blank_def)
qed

definition game_numbers :: "ics_game \<Rightarrow> int list \<times> int list" where
  "game_numbers g =
     ([pawn_double_push_file g, white_can_castle_short g, white_can_castle_long g, black_can_castle_short g,
       black_can_castle_long g, last_irreversible_move g, game_number g],
      [my_relation g, initial_time g, increment_time g, white_strength g, black_strength g,
       white_time_remaining g, black_time_remaining g, next_move_number g])"

definition style_twelve_line :: "ics_game \<Rightarrow> string list" where
  "style_twelve_line g =
     ''<12>'' # board g @ [[turn g]] @ map show_int (fst (game_numbers g)) @ [the (white_name g), the (black_name g)] @
     map show_int (snd (game_numbers g)) @ [the (verbose_notation g), the (last_move_time g), the (pretty_notation g),
     show_int (flip_field_orientation g)]"

text \<open>A game that is going on, as far as a line can say.\<close>

definition game_ok :: "ics_game \<Rightarrow> bool" where
  "game_ok g \<longleftrightarrow>
     length (board g) = 8 \<and> list_all (\<lambda>r. length r = 8 \<and> word_ok r) (board g) \<and> word_ok [turn g] \<and>
     list_all (\<lambda>n. n \<noteq> None \<and> word_ok (the n))
       [white_name g, black_name g, verbose_notation g, last_move_time g, pretty_notation g] \<and>
     list_all (\<lambda>i. - (2 ^ 31) \<le> i \<and> i < 2 ^ 31)
       (fst (game_numbers g) @ snd (game_numbers g) @ [flip_field_orientation g]) \<and>
     g_type g = ICS_GAME_UNHANDLED \<and> winner_name g = None \<and> loser_name g = None \<and> end_result g = None \<and>
     end_message g = None"

lemma length_8_iff: "length xs = 8 \<longleftrightarrow> (\<exists>a b c d e f g h. xs = [a, b, c, d, e, f, g, h])"
  by (auto simp: numeral_eq_Suc length_Suc_conv)

lemma board_row_8: "length r = 8 \<Longrightarrow> board_row r = r"
  by (simp add: board_row_def)

lemma style_twelve_roundtrip:
  assumes "game_ok g"
  shows "style_twelve_game \<lparr>txt_packet = l, tokens = tssv_split (join_blank (style_twelve_line g))\<rparr> =
    Ok (g\<lparr>style_twelve := Some l\<rparr>)"
proof -
  have w: "list_all word_ok (style_twelve_line g)"
    using assms by (auto simp: style_twelve_line_def game_ok_def list_all_iff word_ok_show_int) (simp add: word_ok_def blank_def)
  have ts: "tssv_split (join_blank (style_twelve_line g)) = Some (style_twelve_line g)"
    by (rule tssv_split_join [OF w]) (simp add: style_twelve_line_def)
  obtain a b c d e f h i where b: "board g = [a, b, c, d, e, f, h, i]"
    using assms by (auto simp: game_ok_def length_8_iff)
  have rows: "board_row r = r" if "r \<in> set (board g)" for r
    using assms that by (simp add: game_ok_def list_all_iff board_row_8)
  have r: "map (\<lambda>i. board_row (style_twelve_line g ! (i + 1))) [0..<8] = board g"
    using rows by (simp add: b style_twelve_line_def upt_rec)
  have len: "length (style_twelve_line g) = 31" by (simp add: style_twelve_line_def b game_numbers_def)
  have n: "atoi (show_int x) = x" if "x \<in> set (fst (game_numbers g) @ snd (game_numbers g) @ [flip_field_orientation g])" for x
    using assms that by (intro atoi_show_int) (simp_all only: game_ok_def list_all_iff)
  have names: "Some (the (white_name g)) = white_name g" "Some (the (black_name g)) = black_name g"
    "Some (the (verbose_notation g)) = verbose_notation g" "Some (the (last_move_time g)) = last_move_time g"
    "Some (the (pretty_notation g)) = pretty_notation g" using assms by (auto simp: game_ok_def)
  show ?thesis
    unfolding style_twelve_game_def
    using r assms n by (simp add: ts len names) (simp add: style_twelve_line_def b game_numbers_def names game_ok_def new_ics_game_def)
qed

end
