(* ===== verification/Tcl_Lib.thy ===== *)
theory Tcl_Lib
  imports Egg_Bind Bot_Run Ics_Run
begin

text \<open>
  The commands for scripts in Tcl, \<^verbatim>\<open>src/src/tcl_lib.c\<close>: what a command makes of its words, the function of
  \<^verbatim>\<open>egg_lib.c\<close> behind it, and what the script gets back.
\<close>

section \<open>Words and results\<close>

text \<open>
  A command gets the words of its call, the name included. Of the library of Tcl there are the result that a command sets, the
  message of \<open>Tcl_WrongNumArgs\<close>, and \<open>Tcl_GetIntFromObj\<close>, which leaves its variable alone and sets a message when the
  word is not a number. \<open>tl_rand\<close> is what \<open>rand\<close> gives.
\<close>

datatype tcl_code = TCL_OK | TCL_ERROR

datatype tcl_result =
    Empty_result | Set_result string | Set_int int | Set_list "string list"
  | Wrong_num_args "string list" string | Not_an_int string

record tcl_lib =
  tl_int :: "string \<Rightarrow> int option"
  tl_rand :: int

type_synonym tcl_answer = "(tcl_code \<times> tcl_result \<times> bot) res option"

type_synonym tcl_command = "tcl_lib \<Rightarrow> env \<Rightarrow> nat \<Rightarrow> string list \<Rightarrow> bot \<Rightarrow> tcl_answer"

definition obj :: "string list \<Rightarrow> nat \<Rightarrow> string res" where
  "obj objv k = (if k < length objv then Ok (objv ! k) else Fault OutOfBounds)"

definition tcl_done :: "tcl_result \<Rightarrow> bot \<Rightarrow> tcl_answer" where
  "tcl_done r b = Some (Ok (TCL_OK, r, b))"

definition tcl_wrong :: "string list \<Rightarrow> string \<Rightarrow> bot \<Rightarrow> tcl_answer" where
  "tcl_wrong objv usage b = Some (Ok (TCL_ERROR, Wrong_num_args objv usage, b))"

text \<open>The texts \<open>0\<close> and \<open>1\<close>; a string that is NULL is an empty result.\<close>

definition zero_one :: "int \<Rightarrow> tcl_result" where
  "zero_one n = Set_result (if n = 0 then ''0'' else ''1'')"

definition text_result :: "cstr \<Rightarrow> tcl_result" where
  "text_result s = (case s of None \<Rightarrow> Empty_result | Some t \<Rightarrow> Set_result t)"

text \<open>A question: the bot stays as it is.\<close>

definition tcl_ask :: "'a res \<Rightarrow> ('a \<Rightarrow> tcl_result) \<Rightarrow> bot \<Rightarrow> tcl_answer" where
  "tcl_ask r f b = obind (Some r) (\<lambda>x. tcl_done (f x) b)"

text \<open>A change of the network.\<close>

definition tcl_change :: "nat \<Rightarrow> network res \<Rightarrow> bot \<Rightarrow> tcl_answer" where
  "tcl_change i r b = obind (Some r) (\<lambda>n. tcl_done Empty_result (put_net i n b))"

section \<open>Bans\<close>

definition tcl_chanbans :: tcl_command where
  "tcl_chanbans lib env i objv b =
     (if length objv \<noteq> 2 then tcl_wrong objv ''<channel>'' b
      else obind (Some (egg_chanbans (e_now env) (net_at i b) (Some (objv ! 1)))) (\<lambda>r.
        case r of
          None \<Rightarrow> Some (Ok (TCL_ERROR, Empty_result, b))
        | Some ls \<Rightarrow> tcl_done (Set_list (takeWhile (\<lambda>l. l \<noteq> []) ls)) b))"

text \<open>The case of six words goes on into that of seven.\<close>

definition tcl_newchanban :: tcl_command where
  "tcl_newchanban lib env i objv b =
     (if length objv < 5 \<or> length objv > 7 then
        tcl_wrong objv ''<channel> <ban> <creator> <comment> [lifetime] [options]'' b
      else
        (let life = (if length objv = 6 then (case tl_int lib (objv ! 5) of None \<Rightarrow> -1 | Some n \<Rightarrow> n) else -1) in
         obind (Some (if length objv = 5 then Ok [] else obj objv 6)) (\<lambda>options.
           tcl_change i (egg_newchanban (e_now env) (net_at i b) (Some (objv ! 1)) (Some (objv ! 2)) (Some (objv ! 3))
             (Some (objv ! 4)) life) b)))"

definition tcl_isban :: tcl_command where
  "tcl_isban lib env i objv b =
     (if length objv < 2 \<or> length objv > 3 then tcl_wrong objv ''<ban> [channel]'' b
      else tcl_ask (egg_isban (net_at i b) (Some (objv ! 1)) (if length objv = 3 then Some (objv ! 2) else None)) zero_one b)"

definition tcl_ispermban :: tcl_command where
  "tcl_ispermban lib env i objv b =
     (if length objv \<noteq> 2 \<and> length objv \<noteq> 3 then tcl_wrong objv ''<ban> [channel]'' b
      else tcl_ask (egg_ispermban (net_at i b) (Some (objv ! 1)) (if length objv = 2 then None else Some (objv ! 2))) Set_int b)"

section \<open>Users and accounts\<close>

definition tcl_isbotnick :: tcl_command where
  "tcl_isbotnick lib env i objv b =
     (if length objv \<noteq> 2 then tcl_wrong objv ''<nickname>'' b
      else tcl_ask (egg_isbotnick (net_at i b) (Some (objv ! 1))) zero_one b)"

definition tcl_adduser :: tcl_command where
  "tcl_adduser lib env i objv b =
     (if length objv < 2 \<or> length objv > 3 then tcl_wrong objv ''<username> [hostmask]'' b
      else obind (egg_adduser (b_cfg b) (e_writable env) (net_at i b) (Some (objv ! 1))
          (if length objv = 3 then Some (objv ! 2) else None)) (\<lambda>(r, n, w).
        tcl_done (zero_one r) ((put_net i n b)\<lparr>b_writes := b_writes b @ w\<rparr>)))"

definition tcl_passwdok :: tcl_command where
  "tcl_passwdok lib env i objv b =
     (if length objv \<noteq> 3 then tcl_wrong objv ''<handle> <password>'' b
      else tcl_ask (egg_passwdok (b_cfg b) (net_at i b) (Some (objv ! 1)) (Some (objv ! 2))) zero_one b)"

definition tcl_validuser :: tcl_command where
  "tcl_validuser lib env i objv b =
     (if length objv \<noteq> 2 then tcl_wrong objv ''<handle>'' b
      else tcl_ask (egg_validuser (net_at i b) (Some (objv ! 1))) zero_one b)"

definition tcl_finduser :: tcl_command where
  "tcl_finduser lib env i objv b =
     (if length objv \<noteq> 2 then tcl_wrong objv ''<mask>'' b
      else (case egg_finduser (net_at i b) (Some (objv ! 1)) of
              None \<Rightarrow> tcl_done (Set_result ''*'') b
            | Some k \<Rightarrow> tcl_done (text_result (username (dl_from (n_users (net_at i b)) ! k))) b))"

definition tcl_matchattr :: tcl_command where
  "tcl_matchattr lib env i objv b =
     (if length objv \<noteq> 3 \<and> length objv \<noteq> 4 then tcl_wrong objv ''<handle> <flags> [channel]'' b
      else tcl_ask (egg_matchattr (net_at i b) (Some (objv ! 1)) (Some (objv ! 2)) None) Set_int b)"

definition tcl_countusers :: tcl_command where
  "tcl_countusers lib env i objv b = tcl_done (Set_int (egg_countusers (net_at i b))) b"

definition tcl_encpass :: tcl_command where
  "tcl_encpass lib env i objv b =
     (if length objv \<noteq> 2 then tcl_wrong objv ''<password>'' b
      else tcl_done (text_result (egg_encpass (b_cfg b) (Some (objv ! 1)))) b)"

section \<open>Channels\<close>

text \<open>With a channel, the nick and the channel are looked for one word too late.\<close>

definition ask_mode :: "(network \<Rightarrow> cstr \<Rightarrow> cstr \<Rightarrow> int res) \<Rightarrow> nat \<Rightarrow> string list \<Rightarrow> bot \<Rightarrow> tcl_answer" where
  "ask_mode f i objv b =
     (if length objv = 2 then tcl_ask (f (net_at i b) (Some (objv ! 1)) None) zero_one b
      else if length objv = 3 then
        obind (Some (obj objv 2)) (\<lambda>nickname. obind (Some (obj objv 3)) (\<lambda>channel.
          tcl_ask (f (net_at i b) (Some nickname) (Some channel)) zero_one b))
      else tcl_wrong objv ''<nickname> [channel]'' b)"

definition tcl_isvoice :: tcl_command where
  "tcl_isvoice lib env i objv b = ask_mode egg_isvoice i objv b"

definition tcl_isop :: tcl_command where
  "tcl_isop lib env i objv b = ask_mode egg_isop i objv b"

definition tcl_getchanmode :: tcl_command where
  "tcl_getchanmode lib env i objv b =
     (if length objv \<noteq> 2 then tcl_wrong objv ''<channel>'' b
      else obind (Some (egg_getchanmode (net_at i b) (Some (objv ! 1)))) (\<lambda>r.
        case r of None \<Rightarrow> Some (Ok (TCL_ERROR, Empty_result, b)) | Some s \<Rightarrow> tcl_done (Set_result s) b))"

definition tcl_topic :: tcl_command where
  "tcl_topic lib env i objv b =
     (if length objv \<noteq> 2 then tcl_wrong objv ''<channel>'' b
      else tcl_ask (egg_topic (Some (net_at i b)) (Some (objv ! 1))) text_result b)"

definition tcl_channels :: tcl_command where
  "tcl_channels lib env i objv b = tcl_ask (egg_channels (net_at i b)) Set_result b"

text \<open>The third word is read without looking whether there is one.\<close>

definition tcl_onchan :: tcl_command where
  "tcl_onchan lib env i objv b =
     (if length objv \<noteq> 2 \<and> length objv \<noteq> 3 then tcl_wrong objv ''<nick> [channel]'' b
      else obind (Some (obj objv 2)) (\<lambda>chan.
        tcl_ask (egg_onchan (Some (net_at i b)) (Some (objv ! 1)) (Some chan)) zero_one b))"

section \<open>Triggers and timers\<close>

text \<open>The functions behind the triggers and the timers of Tcl scripts are the first of the scripts.\<close>

definition tcl_handler_of :: handler where
  "tcl_handler_of = Script 0"

definition tcl_timer_handler :: nat where
  "tcl_timer_handler = 0"

definition tcl_bind :: tcl_command where
  "tcl_bind lib env i objv b =
     (if length objv \<noteq> 5 then tcl_wrong objv ''<type> <flags> <keyword> <proc>'' b
      else obind (Some (egg_bind (net_at i b) (objv ! 1) (Some (objv ! 2)) (Some (objv ! 3)) (Some (objv ! 4)) (Some tcl_handler_of))) (\<lambda>(r, n).
        Some (Ok (if r = None then TCL_ERROR else TCL_OK, Empty_result, put_net i n b))))"

definition tcl_unbind :: tcl_command where
  "tcl_unbind lib env i objv b =
     (if length objv \<noteq> 5 then tcl_wrong objv ''<type> <flags> <keyword/mask> <proc-name>'' b
      else tcl_change i (rbind (egg_unbind (net_at i b) (objv ! 1) (Some (objv ! 2)) (Some (objv ! 3)) (Some (objv ! 4)))
        (\<lambda>(m, n). Ok n)) b)"

text \<open>The number of the triggers is printed; the script gets nothing.\<close>

definition tcl_binds :: tcl_command where
  "tcl_binds lib env i objv b =
     (if length objv > 2 then tcl_wrong objv ''[type/mask]'' b else tcl_done Empty_result b)"

definition tcl_utimer :: tcl_command where
  "tcl_utimer lib env i objv b =
     (if length objv \<noteq> 3 then tcl_wrong objv ''<seconds> <command>'' b
      else tcl_change i (Ok (snd (egg_utimer (e_now env) (net_at i b) (atoi (objv ! 1)) (Some (objv ! 2)) (Some tcl_timer_handler)))) b)"

definition tcl_timer :: tcl_command where
  "tcl_timer lib env i objv b = tcl_done Empty_result b"

section \<open>The rest\<close>

text \<open>The text is taken for a format.\<close>

definition tcl_putlog :: tcl_command where
  "tcl_putlog lib env i objv b =
     (if length objv \<noteq> 2 then tcl_wrong objv ''<text>'' b
      else tcl_ask (fmt_text (objv ! 1)) (\<lambda>s. Empty_result) b)"

text \<open>A number that is none leaves \<open>idx\<close> without a value.\<close>

definition tcl_putdcc :: tcl_command where
  "tcl_putdcc lib env i objv b =
     (if length objv \<noteq> 3 then tcl_wrong objv ''<idx> <text>'' b
      else (case tl_int lib (objv ! 1) of
              None \<Rightarrow> Some (Fault Uninitialised)
            | Some idx \<Rightarrow> tcl_change i (egg_putdcc (net_at i b) idx (objv ! 2)) b))"

definition tcl_die :: tcl_command where
  "tcl_die lib env i objv b =
     obind (Some (egg_die (b_cfg b) (if length objv = 1 then None else Some (objv ! 1)))) (\<lambda>c.
       tcl_done Empty_result (b\<lparr>b_cfg := c, b_exited := True\<rparr>))"

definition tcl_writes :: "writes res option \<Rightarrow> bot \<Rightarrow> tcl_answer" where
  "tcl_writes r b = obind r (\<lambda>w. tcl_done Empty_result (b\<lparr>b_writes := b_writes b @ w\<rparr>))"

definition tcl_savechannels :: tcl_command where
  "tcl_savechannels lib env i objv b = tcl_writes (egg_savechannels (b_cfg b) (e_writable env) (Some (net_at i b))) b"

definition tcl_save :: tcl_command where
  "tcl_save lib env i objv b = tcl_writes (egg_save (b_cfg b) (e_writable env) (Some (net_at i b))) b"

definition tcl_botname :: tcl_command where
  "tcl_botname lib env i objv b = tcl_ask (egg_botname (net_at i b)) Set_result b"

text \<open>The matcher gives 0 for a match.\<close>

definition tcl_matchwild :: tcl_command where
  "tcl_matchwild lib env i objv b =
     (if length objv \<noteq> 3 then tcl_wrong objv ''<haystack> <needle>'' b
      else tcl_done (zero_one (troll_matchwilds (Some (objv ! 1)) (Some (objv ! 2)))) b)"

definition tcl_rand :: tcl_command where
  "tcl_rand lib env i objv b =
     (if length objv \<noteq> 2 then tcl_wrong objv ''<limit>'' b
      else (case tl_int lib (objv ! 1) of
              None \<Rightarrow> Some (Fault Uninitialised)
            | Some n \<Rightarrow>
                if n = 0 then Some (Fault DivideByZero)
                else tcl_done (Set_result (show_int (tl_rand lib mod \<bar>n\<bar>))) b))"

section \<open>What is shown\<close>

lemmas tcl_defs = tcl_wrong_def tcl_done_def tcl_ask_def tcl_change_def

text \<open>The numbers of words that a command takes, the name included, and what it says otherwise.\<close>

definition tcl_usages :: "(tcl_command \<times> nat \<times> nat \<times> string) list" where
  "tcl_usages =
     [(tcl_chanbans, 2, 2, ''<channel>''),
      (tcl_newchanban, 5, 7, ''<channel> <ban> <creator> <comment> [lifetime] [options]''),
      (tcl_isban, 2, 3, ''<ban> [channel]''), (tcl_ispermban, 2, 3, ''<ban> [channel]''),
      (tcl_isbotnick, 2, 2, ''<nickname>''), (tcl_adduser, 2, 3, ''<username> [hostmask]''),
      (tcl_passwdok, 3, 3, ''<handle> <password>''), (tcl_validuser, 2, 2, ''<handle>''), (tcl_finduser, 2, 2, ''<mask>''),
      (tcl_matchattr, 3, 4, ''<handle> <flags> [channel]''), (tcl_encpass, 2, 2, ''<password>''),
      (tcl_isvoice, 2, 3, ''<nickname> [channel]''), (tcl_isop, 2, 3, ''<nickname> [channel]''),
      (tcl_getchanmode, 2, 2, ''<channel>''), (tcl_topic, 2, 2, ''<channel>''), (tcl_onchan, 2, 3, ''<nick> [channel]''),
      (tcl_bind, 5, 5, ''<type> <flags> <keyword> <proc>''),
      (tcl_unbind, 5, 5, ''<type> <flags> <keyword/mask> <proc-name>''), (tcl_binds, 0, 2, ''[type/mask]''),
      (tcl_utimer, 3, 3, ''<seconds> <command>''), (tcl_putlog, 2, 2, ''<text>''), (tcl_putdcc, 3, 3, ''<idx> <text>''),
      (tcl_matchwild, 3, 3, ''<haystack> <needle>''), (tcl_rand, 2, 2, ''<limit>'')]"

lemma tcl_wrong_number:
  assumes "(f, lo, hi, usage) \<in> set tcl_usages" and "length objv < lo \<or> hi < length objv"
  shows "f lib env i objv b = Some (Ok (TCL_ERROR, Wrong_num_args objv usage, b))"
  using assms
  by (auto simp: tcl_usages_def tcl_wrong_def tcl_chanbans_def tcl_newchanban_def tcl_isban_def tcl_ispermban_def tcl_isbotnick_def
      tcl_adduser_def tcl_passwdok_def tcl_validuser_def tcl_finduser_def tcl_matchattr_def tcl_encpass_def tcl_isvoice_def
      tcl_isop_def ask_mode_def tcl_getchanmode_def tcl_topic_def tcl_onchan_def tcl_bind_def tcl_unbind_def tcl_binds_def tcl_utimer_def
      tcl_putlog_def tcl_putdcc_def tcl_matchwild_def tcl_rand_def)

text \<open>The commands that only ask: whatever they give, the bot is as it was.\<close>

definition tcl_questions :: "tcl_command list" where
  "tcl_questions =
     [tcl_chanbans, tcl_isban, tcl_ispermban, tcl_isbotnick, tcl_passwdok, tcl_validuser, tcl_finduser, tcl_matchattr, tcl_countusers,
      tcl_encpass, tcl_isvoice, tcl_isop, tcl_getchanmode, tcl_topic, tcl_channels, tcl_onchan, tcl_binds, tcl_timer, tcl_putlog,
      tcl_botname, tcl_matchwild, tcl_rand]"

lemma tcl_ask_same: "tcl_ask r f b = Some (Ok (c, x, b')) \<Longrightarrow> b' = b"
  by (auto simp: tcl_ask_def tcl_done_def obind_Ok_iff)

lemma ask_mode_same: "ask_mode f i objv b = Some (Ok (c, x, b')) \<Longrightarrow> b' = b"
  by (auto simp: ask_mode_def tcl_wrong_def obind_Ok_iff dest: tcl_ask_same split: if_splits)

lemma tcl_question_same:
  assumes "f \<in> set tcl_questions" and "f lib env i objv b = Some (Ok (c, x, b'))"
  shows "b' = b"
  using assms
  by (auto simp: tcl_questions_def tcl_wrong_def tcl_done_def tcl_chanbans_def tcl_isban_def tcl_ispermban_def tcl_isbotnick_def
      tcl_passwdok_def tcl_validuser_def tcl_finduser_def tcl_matchattr_def tcl_countusers_def tcl_encpass_def tcl_isvoice_def
      tcl_isop_def tcl_getchanmode_def tcl_topic_def tcl_channels_def tcl_onchan_def tcl_binds_def tcl_timer_def tcl_putlog_def
      tcl_botname_def tcl_matchwild_def tcl_rand_def obind_Ok_iff dest: tcl_ask_same ask_mode_same split: if_splits option.splits)

text \<open>A channel makes the words run out.\<close>

lemma tcl_words_run_out:
  "length objv = 3 \<Longrightarrow> tcl_isop lib env i objv b = Some (Fault OutOfBounds)"
  "length objv = 3 \<Longrightarrow> tcl_isvoice lib env i objv b = Some (Fault OutOfBounds)"
  "length objv = 2 \<Longrightarrow> tcl_onchan lib env i objv b = Some (Fault OutOfBounds)"
  "length objv = 6 \<Longrightarrow> tcl_newchanban lib env i objv b = Some (Fault OutOfBounds)"
  by (simp_all add: tcl_isop_def tcl_isvoice_def ask_mode_def tcl_onchan_def tcl_newchanban_def obj_def Let_def)

text \<open>A match is told to the script as 0.\<close>

lemma tcl_matchwild_inverted:
  "tcl_matchwild lib env i [w, s, p] b = tcl_done (zero_one (troll_matchwilds (Some s) (Some p))) b"
  by (simp add: tcl_matchwild_def)

text \<open>A script in any language: a new word for messages on channels.\<close>

definition bound_word :: "handler \<Rightarrow> string \<Rightarrow> string \<Rightarrow> network \<Rightarrow> network" where
  "bound_word h m proc net =
     put_trigs TRIG_PUB (trigger_list_add (tt_pub (trigs net)) (new_trigger None TRIG_PUB (Some m) (Some proc) (Some h))) net"

lemma egg_bind_pub:
  assumes "\<forall>t \<in> set (dl_from (tt_pub (trigs net))). \<exists>m'. t_mask t = Some m' \<and> \<not> same_name m' m"
  shows "egg_bind net ''pub'' flags (Some m) (Some proc) (Some h) = Ok (Some [Some proc], bound_word h m proc net)"
proof -
  have "find_mask (Some m) (tt_pub (trigs net)) = Ok None"
    using find_mask_index [of "tt_pub (trigs net)" m] assms by (force simp: named_trigs_def find_index_None_iff)
  then show ?thesis by (simp add: egg_bind_def type_named_def bind_names_def same_name_def Let_def bound_word_def)
qed

lemma tcl_bind_pub:
  assumes "\<forall>t \<in> set (dl_from (tt_pub (trigs (net_at i b)))). \<exists>m'. t_mask t = Some m' \<and> \<not> same_name m' m"
  shows "tcl_bind lib env i [w, ''pub'', flags, m, proc] b =
    Some (Ok (TCL_OK, Empty_result, put_net i (bound_word tcl_handler_of m proc (net_at i b)) b))"
  using egg_bind_pub [OF assms] by (simp add: tcl_bind_def)

end
