(* ===== verification/Script_Lists.thy ===== *)
theory Script_Lists
  imports Config_Engine
begin

text \<open>
  The lists of scripts that \<^verbatim>\<open>src/src/config_engine.c\<close> makes of a network block in builds with script languages: arrays of
  pointers to names that end with NULL.
\<close>

section \<open>An array of names\<close>

text \<open>
  The cells of the array and its size as the code has it: the number of cells at first, and what \<open>tsrealloc0\<close> stores later. A
  pointer has 8 bytes. The loop looks for a cell that is NULL before the last one.
\<close>

type_synonym script_list = "cstr list \<times> nat"

function free_cell :: "cstr list \<Rightarrow> nat \<Rightarrow> nat \<Rightarrow> nat res" where
  "free_cell cells i n =
     (if n \<le> i then Ok n
      else if length cells \<le> i then Fault OutOfBounds
      else if cells ! i = None then Ok i
      else free_cell cells (i + 1) n)"
  by pat_completeness auto
termination by (relation "measure (\<lambda>(cells, i, n). n - i)") auto

text \<open>
  \<open>tsrealloc0(ptr, size, &bufsize)\<close> takes the size in bytes, and clears as many bytes as it grows from the cell
  \<open>bufsize / 8 - 1\<close> on. Of a cell that is cleared in part nothing is known: the cells from the second one on are then NULL anyway.
\<close>

definition tsrealloc0 :: "cstr list \<Rightarrow> nat \<Rightarrow> nat \<Rightarrow> script_list" where
  "tsrealloc0 ptr newsize bufsize =
     (let cells = take (newsize div 8) (ptr @ replicate (newsize div 8 - length ptr) None) in
      (if bufsize < newsize then cells[bufsize div 8 - 1 := None] else cells, newsize))"

definition script_add :: "cstr \<Rightarrow> script_list \<Rightarrow> script_list res" where
  "script_add v = (\<lambda>(cells, n).
     let (cells, n) = (if n = 0 then (replicate 10 None, 10) else (cells, n)) in
     rbind (free_cell cells 0 (n - 1)) (\<lambda>i.
       let cells = (if i < n - 1 then cells[i := v] else cells) in
       if length cells \<le> i then Fault OutOfBounds
       else if cells ! i \<noteq> None then Ok (cells, n)
       else (let (cells, n) = tsrealloc0 cells (n + 10) n in
             if length cells \<le> i then Fault OutOfBounds else Ok (cells[i := v], n))))"

section \<open>The settings\<close>

text \<open>The lists of a network, and that of the configuration for PHP. Python is started at once for every script, which is left out.\<close>

record script_lists =
  js_scripts :: script_list
  tcl_scripts :: script_list
  php_scripts :: script_list
  py_scripts :: script_list

definition no_script_lists :: script_lists where
  "no_script_lists = \<lparr>js_scripts = ([], 0), tcl_scripts = ([], 0), php_scripts = ([], 0), py_scripts = ([], 0)\<rparr>"

definition script_setting :: "string \<Rightarrow> cstr \<Rightarrow> script_lists \<Rightarrow> script_lists res" where
  "script_setting k v s =
     (if k = ''javascript'' then rbind (script_add v (js_scripts s)) (\<lambda>l. Ok (s\<lparr>js_scripts := l\<rparr>))
      else if k = ''tclscript'' then rbind (script_add v (tcl_scripts s)) (\<lambda>l. Ok (s\<lparr>tcl_scripts := l\<rparr>))
      else if k = ''phpscript'' then rbind (script_add v (php_scripts s)) (\<lambda>l. Ok (s\<lparr>php_scripts := l\<rparr>))
      else if k = ''pythonscript'' \<or> k = ''pyscript'' then rbind (script_add v (py_scripts s)) (\<lambda>l. Ok (s\<lparr>py_scripts := l\<rparr>))
      else Ok s)"

fun script_settings :: "tblock list \<Rightarrow> script_lists \<Rightarrow> script_lists res" where
  "script_settings [] s = Ok s"
| "script_settings (b # bs) s =
     rbind (deref (tb_key b)) (\<lambda>k. rbind (script_setting k (tb_value b) s) (script_settings bs))"

section \<open>How many scripts there may be\<close>

text \<open>A list with some names: nothing yet, or up to nine in an array of ten.\<close>

definition names_list :: "string list \<Rightarrow> script_list" where
  "names_list ns = (if ns = [] then ([], 0) else (map Some ns @ replicate (10 - length ns) None, 10))"

lemma free_cell_names:
  assumes "length ns \<le> 9" and "i \<le> length ns"
  shows "free_cell (map Some ns @ replicate (10 - length ns) None) i 9 = Ok (length ns)"
  using assms(2)
proof (induction "9 - i" arbitrary: i rule: less_induct)
  case less
  show ?case
  proof (cases "i < length ns")
    case True
    then have "free_cell (map Some ns @ replicate (10 - length ns) None) (i + 1) 9 = Ok (length ns)"
      using less assms(1) by (intro less.hyps) auto
    then show ?thesis using True assms(1) by (subst free_cell.simps) (simp add: nth_append)
  next
    case False
    then show ?thesis using less.prems assms(1) by (subst free_cell.simps) (auto simp: nth_append)
  qed
qed

lemma script_add_names:
  assumes "length ns \<le> 9"
  shows "script_add (Some v) (names_list ns) = (if length ns < 9 then Ok (names_list (ns @ [v])) else Fault OutOfBounds)"
proof -
  let ?c = "map Some ns @ replicate (10 - length ns) None"
  have cells: "(if snd (names_list ns) = 0 then (replicate 10 None, 10) else names_list ns) = (?c, 10)"
    by (simp add: names_list_def)
  have free: "free_cell ?c 0 9 = Ok (length ns)" using free_cell_names [OF assms, of 0] by simp
  obtain a n where l: "names_list ns = (a, n)" by (cases "names_list ns")
  show ?thesis
  proof (cases "length ns < 9")
    case True
    have "10 - length ns = Suc (9 - length ns)" using True by simp
    then have "?c[length ns := Some v] = map Some (ns @ [v]) @ replicate (9 - length ns) None"
      by (simp add: list_update_append)
    then show ?thesis
      using cells free True l by (simp add: script_add_def nth_list_update names_list_def [of "ns @ [v]"] nth_append Let_def del: free_cell.simps split: if_splits)
  next
    case False
    then have "length ns = 9" using assms by simp
    then show ?thesis
      using cells free l by (auto simp: script_add_def tsrealloc0_def nth_append simp del: free_cell.simps split: if_splits)
  qed
qed

text \<open>The scripts of one language.\<close>

fun scripts_add :: "string list \<Rightarrow> script_list \<Rightarrow> script_list res" where
  "scripts_add [] l = Ok l"
| "scripts_add (v # vs) l = rbind (script_add (Some v) l) (scripts_add vs)"

lemma scripts_add_names:
  "length ns \<le> 9 \<Longrightarrow> scripts_add vs (names_list ns) = (if length (ns @ vs) \<le> 9 then Ok (names_list (ns @ vs)) else Fault OutOfBounds)"
proof (induction vs arbitrary: ns)
  case (Cons v vs)
  then show ?case using script_add_names [of ns v] Cons.IH [of "ns @ [v]"] by (cases "length ns < 9") auto
qed simp

text \<open>A network block whose Tcl scripts are among other settings, none of which is a script.\<close>

definition tcl_names :: "tblock list \<Rightarrow> string list" where
  "tcl_names bs = map (the \<circ> tb_value) (filter (\<lambda>b. tb_key b = Some ''tclscript'') bs)"

definition other_setting :: "tblock \<Rightarrow> bool" where
  "other_setting b \<longleftrightarrow> (\<exists>k. tb_key b = Some k \<and> k \<notin> {''javascript'', ''phpscript'', ''pythonscript'', ''pyscript''}) \<and> tb_value b \<noteq> None"

lemma script_settings_tcl:
  assumes "list_all other_setting bs"
  shows "script_settings bs s = rbind (scripts_add (tcl_names bs) (tcl_scripts s)) (\<lambda>l. Ok (s\<lparr>tcl_scripts := l\<rparr>))"
  using assms
proof (induction bs arbitrary: s)
  case (Cons b bs)
  obtain k v where b: "tb_key b = Some k" "tb_value b = Some v" "k \<notin> {''javascript'', ''phpscript'', ''pythonscript'', ''pyscript''}"
    using Cons.prems by (auto simp: other_setting_def)
  show ?case
  proof (cases "k = ''tclscript''")
    case True
    then show ?thesis using b Cons by (cases "script_add (Some v) (tcl_scripts s)") (simp_all add: script_setting_def tcl_names_def)
  next
    case False
    then show ?thesis using b Cons by (simp add: script_setting_def tcl_names_def)
  qed
qed (simp add: tcl_names_def)

lemma tcl_scripts_bound:
  assumes "list_all other_setting bs"
  shows "script_settings bs no_script_lists =
    (if length (tcl_names bs) \<le> 9 then Ok (no_script_lists\<lparr>tcl_scripts := names_list (tcl_names bs)\<rparr>) else Fault OutOfBounds)"
  using script_settings_tcl [OF assms, of no_script_lists] scripts_add_names [of "[]" "tcl_names bs"]
  by (simp add: no_script_lists_def names_list_def)

end
