(* ===== verification/Tcl_Embed.thy ===== *)
theory Tcl_Embed
  imports Tcl_Lib Script_Lists
begin

text \<open>
  Scripts in Tcl, \<^verbatim>\<open>src/src/tcl_embed.c\<close>: the commands that an interpreter knows, the files it runs, and the call of a procedure
  for a trigger, a timer or a line of the party line. The interpreter is an argument.
\<close>

section \<open>Commands\<close>

text \<open>
  Those of \<open>net_tcl_init_commands\<close>, without \<open>putserv\<close> and \<open>puthelp\<close>, which use a field that networks do not have.
\<close>

definition net_tcl_commands :: "(string \<times> tcl_command) list" where
  "net_tcl_commands =
     [(''binds'', tcl_binds), (''newchanban'', tcl_newchanban), (''putlog'', tcl_putlog), (''putdcc'', tcl_putdcc),
      (''isbotnick'', tcl_isbotnick), (''adduser'', tcl_adduser), (''isban'', tcl_isban), (''passwdok'', tcl_passwdok),
      (''unbind'', tcl_unbind), (''die'', tcl_die), (''utimer'', tcl_utimer), (''isop'', tcl_isop), (''isvoice'', tcl_isvoice),
      (''getchanmode'', tcl_getchanmode), (''encpass'', tcl_encpass), (''topic'', tcl_topic), (''validuser'', tcl_validuser),
      (''savechannels'', tcl_savechannels), (''finduser'', tcl_finduser), (''channels'', tcl_channels), (''save'', tcl_save),
      (''botname'', tcl_botname), (''onchan'', tcl_onchan), (''matchwild'', tcl_matchwild), (''rand'', tcl_rand),
      (''bind'', tcl_bind), (''matchattr'', tcl_matchattr), (''countusers'', tcl_countusers), (''ispermban'', tcl_ispermban),
      (''chanbans'', tcl_chanbans)]"

text \<open>A command is called by its first word.\<close>

definition tcl_call_command :: "tcl_lib \<Rightarrow> env \<Rightarrow> nat \<Rightarrow> string list \<Rightarrow> bot \<Rightarrow> tcl_answer option" where
  "tcl_call_command lib env i objv b =
     (case objv of [] \<Rightarrow> None | w # ws \<Rightarrow> map_option (\<lambda>f. f lib env i objv b) (map_of net_tcl_commands w))"

section \<open>Files\<close>

text \<open>The array is gone through up to its NULL. An error in a file is only reported.\<close>

fun tcl_run_files :: "(string \<Rightarrow> 's \<Rightarrow> 's res) \<Rightarrow> cstr list \<Rightarrow> 's \<Rightarrow> 's res" where
  "tcl_run_files eval [] s = Fault OutOfBounds"
| "tcl_run_files eval (None # cells) s = Ok s"
| "tcl_run_files eval (Some f # cells) s = rbind (eval f s) (tcl_run_files eval cells)"

text \<open>The array of a network, or NULL, and whether the network has an interpreter.\<close>

type_synonym tcl_net = "cstr list option \<times> bool"

fun tcl_load_scripts :: "(nat \<Rightarrow> string \<Rightarrow> 's \<Rightarrow> 's res) \<Rightarrow> nat \<Rightarrow> tcl_net list \<Rightarrow> 's \<Rightarrow> (tcl_net list \<times> 's) res" where
  "tcl_load_scripts eval i [] s = Ok ([], s)"
| "tcl_load_scripts eval i ((scripts, interp) # nets) s =
     rbind (case scripts of None \<Rightarrow> Ok (interp, s) | Some cells \<Rightarrow> rbind (tcl_run_files (eval i) cells s) (\<lambda>s'. Ok (True, s'))) (\<lambda>(interp', s').
     rbind (tcl_load_scripts eval (i + 1) nets s') (\<lambda>(r, s''). Ok ((scripts, interp') # r, s'')))"

section \<open>Calls\<close>

text \<open>An interpreter runs the words of a call; it gives a code, a text, and the network.\<close>

type_synonym tcl_interp = "string list \<Rightarrow> network \<Rightarrow> (tcl_code \<times> string \<times> network) res"

text \<open>Who sent a message: the nick, the host, and the nick for the handle.\<close>

definition tcl_sender :: "irc_data \<Rightarrow> string list res" where
  "tcl_sender data =
     rbind (deref (prefix_of data)) (\<lambda>p. rbind (deref (pnick p)) (\<lambda>n. rbind (deref (phost p)) (\<lambda>h. Ok [n, h, n])))"

definition tcl_param :: "irc_data \<Rightarrow> string res" where
  "tcl_param data = rbind (arr_get (c_params data) 0) deref"

text \<open>
  What follows the mask: for a message on a channel with \<open>troll_makearg\<close>, for one to the bot the text behind the character
  after the mask, which need not be there.
\<close>

definition tcl_arg :: "irc_data \<Rightarrow> trigger \<Rightarrow> string res" where
  "tcl_arg data trig = rbind (deref (rest_str data)) (\<lambda>s. rbind (deref (t_mask trig)) (troll_makearg s))"

definition behind_mask :: "irc_data \<Rightarrow> trigger \<Rightarrow> string res" where
  "behind_mask data trig =
     rbind (deref (rest_str data)) (\<lambda>s. rbind (deref (t_mask trig)) (\<lambda>m.
       if length s \<le> length m then Fault OutOfBounds else Ok (drop (length m + 1) s)))"

text \<open>The words behind the name of the procedure, for each type.\<close>

definition words_pub :: "irc_data \<Rightarrow> trigger \<Rightarrow> string list res" where
  "words_pub data trig = rbind (tcl_sender data) (\<lambda>ws. rbind (tcl_param data) (\<lambda>ch. rbind (tcl_arg data trig) (\<lambda>a. Ok (ws @ [ch, a]))))"

definition words_pubm :: "irc_data \<Rightarrow> string list res" where
  "words_pubm data = rbind (tcl_sender data) (\<lambda>ws. rbind (tcl_param data) (\<lambda>ch. rbind (deref (rest_str data)) (\<lambda>s. Ok (ws @ [ch, s]))))"

definition words_msg :: "irc_data \<Rightarrow> trigger \<Rightarrow> string list res" where
  "words_msg data trig = rbind (tcl_sender data) (\<lambda>ws. rbind (behind_mask data trig) (\<lambda>a. Ok (ws @ [a])))"

definition words_msgm :: "irc_data \<Rightarrow> string list res" where
  "words_msgm data = rbind (tcl_sender data) (\<lambda>ws. rbind (deref (rest_str data)) (\<lambda>s. Ok (ws @ [s])))"

definition words_topc :: "irc_data \<Rightarrow> string list res" where
  "words_topc data = rbind (tcl_sender data) (\<lambda>ws. rbind (tcl_param data) (\<lambda>ch. rbind (deref (rest_str data)) (\<lambda>s. Ok (ws @ [ch, s]))))"

text \<open>The first parameter is taken for the sender, and the procedure for the keyword.\<close>

definition words_raw :: "irc_data \<Rightarrow> string \<Rightarrow> string list res" where
  "words_raw data proc = rbind (tcl_param data) (\<lambda>ch. rbind (deref (rest_str data)) (\<lambda>s. Ok [ch, proc, s]))"

definition words_join :: "irc_data \<Rightarrow> string list res" where
  "words_join data = rbind (tcl_sender data) (\<lambda>ws. rbind (deref (rest_str data)) (\<lambda>ch. Ok (ws @ [ch])))"

definition words_part :: "irc_data \<Rightarrow> string list res" where
  "words_part data = rbind (tcl_sender data) (\<lambda>ws. rbind (tcl_param data) (\<lambda>ch. rbind (deref (rest_str data)) (\<lambda>s. Ok (ws @ [ch, s]))))"

text \<open>The words of the call; other types call nothing.\<close>

definition tcl_call :: "trigger \<Rightarrow> irc_data option \<Rightarrow> (irc_data \<Rightarrow> string \<Rightarrow> string list res) \<Rightarrow> string list option res" where
  "tcl_call trig msg f =
     rbind (deref (t_cmd trig)) (\<lambda>proc. rbind (deref msg) (\<lambda>data. rbind (f data proc) (\<lambda>ws. Ok (Some (proc # ws)))))"

definition tcl_words :: "trigger \<Rightarrow> irc_data option \<Rightarrow> string list option res" where
  "tcl_words trig msg =
     (case t_type trig of
        TRIG_PUB \<Rightarrow> tcl_call trig msg (\<lambda>data proc. words_pub data trig)
      | TRIG_PUBM \<Rightarrow> tcl_call trig msg (\<lambda>data proc. words_pubm data)
      | TRIG_MSG \<Rightarrow> tcl_call trig msg (\<lambda>data proc. words_msg data trig)
      | TRIG_MSGM \<Rightarrow> tcl_call trig msg (\<lambda>data proc. words_msgm data)
      | TRIG_TOPC \<Rightarrow> tcl_call trig msg (\<lambda>data proc. words_topc data)
      | TRIG_RAW \<Rightarrow> tcl_call trig msg words_raw
      | TRIG_JOIN \<Rightarrow> tcl_call trig msg (\<lambda>data proc. words_join data)
      | TRIG_PART \<Rightarrow> tcl_call trig msg (\<lambda>data proc. words_part data)
      | _ \<Rightarrow> Ok None)"

definition tcl_handler :: "tcl_interp \<Rightarrow> network \<Rightarrow> trigger \<Rightarrow> irc_data option \<Rightarrow> network res" where
  "tcl_handler interp net trig data =
     rbind (tcl_words trig data) (\<lambda>w.
       case w of None \<Rightarrow> Ok net | Some objv \<Rightarrow> rbind (interp objv net) (\<lambda>(code, text, net'). Ok net'))"

text \<open>With it the surroundings of a bot whose scripts are in Tcl.\<close>

definition tcl_env :: "tcl_interp \<Rightarrow> env \<Rightarrow> env" where
  "tcl_env interp env = env\<lparr>e_script := (\<lambda>n trig data j line net. tcl_handler interp net trig data)\<rparr>"

text \<open>The command of a timer is a script of its own; \<open>Tcl_VarEval\<close> runs a text.\<close>

definition t_timer_tcl_handler :: "(cstr \<Rightarrow> network \<Rightarrow> (tcl_code \<times> string \<times> network) res) \<Rightarrow> t_timer \<Rightarrow> network \<Rightarrow> network res" where
  "t_timer_tcl_handler eval timer net = rbind (eval (t_command timer) net) (\<lambda>(code, text, net'). Ok net')"

text \<open>A line of the party line behind its mask; an error goes to the session.\<close>

definition dcc_tcl :: "(cstr \<Rightarrow> network \<Rightarrow> (tcl_code \<times> string \<times> network) res) \<Rightarrow> network \<Rightarrow> trigger \<Rightarrow> nat \<Rightarrow> string \<Rightarrow> network res" where
  "dcc_tcl eval net trig j dccbuf =
     rbind (deref (t_mask trig)) (\<lambda>m. rbind (troll_makearg dccbuf m) (\<lambda>a.
     rbind (eval (Some a) net) (\<lambda>(code, text, net').
       Ok (if code = TCL_ERROR then session_printf j (''TCL Error: '' @ text) net' else net'))))"

section \<open>What is shown\<close>

text \<open>The files of the array that the configuration makes are run in their order.\<close>

lemma tcl_run_names:
  "tcl_run_files eval (map Some fs @ None # cells) s = foldl (\<lambda>r f. rbind r (eval f)) (Ok s) fs"
proof (induction fs arbitrary: s)
  case (Cons f fs)
  have fault: "foldl (\<lambda>r f. rbind r (eval f)) (Inl e) gs = Inl e" for e gs by (induction gs) simp_all
  show ?case using Cons by (cases "eval f s") (simp_all add: fault)
qed simp

lemma tcl_runs_scripts:
  assumes "list_all other_setting bs" and "script_settings bs no_script_lists = Ok ls" and "tcl_names bs \<noteq> []"
  shows "tcl_run_files eval (fst (tcl_scripts ls)) s = foldl (\<lambda>r f. rbind r (eval f)) (Ok s) (tcl_names bs)"
proof -
  have le: "length (tcl_names bs) \<le> 9" and ls: "ls = no_script_lists\<lparr>tcl_scripts := names_list (tcl_names bs)\<rparr>"
    using tcl_scripts_bound [OF assms(1)] assms(2) by (auto split: if_splits)
  have "replicate (10 - length (tcl_names bs)) None = None # replicate (9 - length (tcl_names bs)) (None :: cstr)"
    using le by (simp add: Suc_diff_le flip: replicate_Suc)
  then show ?thesis using assms(3) ls tcl_run_names by (simp add: names_list_def)
qed

text \<open>A procedure that a script binds to a word is called for a message on a channel that starts with it.\<close>

lemma put_net_twice: "put_net i n (put_net i m b) = put_net i n b"
proof -
  have "length (dl_before (dl_update_all i f d)) = length (dl_before d)" for f and d :: "network dlist"
    by (cases d) (simp add: dl_update_all_def Let_def)
  then have "dl_update_all i (\<lambda>_. n) (dl_update_all i (\<lambda>_. m) d) = dl_update_all i (\<lambda>_. n) d" for d
    by (simp add: dl_update_all_def [of i "\<lambda>_. n"] Let_def)
  then show ?thesis by (simp add: put_net_def)
qed

lemma fire_first_end:
  assumes "\<forall>t \<in> set ts. test t = Ok False" and "test u = Ok True" and "t_handler_of u \<noteq> None"
  shows "fire_first test (ts @ [u]) = Ok (ts @ [bump u], [bump u])"
  using assms by (induction ts) auto

lemma tcl_words_pub:
  assumes "t_type u = TRIG_PUB" and "t_cmd u = Some proc" and "t_mask u = Some m" and "pnick p = Some n" and "phost p = Some h"
    and "words \<noteq> []" and "join_blank words = m @ arg"
  shows "tcl_words u (Some (message p cmd [ch] words)) = Ok (Some [proc, n, h, n, ch, dropWhile (\<lambda>c. c = SPC \<or> c = TAB) arg])"
  using assms by (simp add: tcl_words_def tcl_call_def words_pub_def tcl_sender_def tcl_param_def tcl_arg_def troll_makearg_def opt_list_def arr_get_def)

lemma bound_word_called:
  assumes i: "has_net i b" and run: "\<not> b_exited b" and me: "nick (net_at i b) = Some me" and bn: "botnick (net_at i b) = Some bn"
    and ok: "message_ok me p ''PRIVMSG'' [ch] words" and ws: "words \<noteq> []" and pub: "lower ch \<noteq> lower bn"
    and said: "join_blank words = m @ arg"
    and pubs: "\<forall>t \<in> set (dl_from (tt_pub (trigs (net_at i b)))). \<exists>m'. t_mask t = Some m' \<and> \<not> same_name m' m \<and> take (length m') (join_blank words) \<noteq> m'"
    and pubms: "\<forall>t \<in> set (dl_from (tt_pubm (trigs (net_at i b)))). troll_matchwilds (Some (join_blank words)) (t_mask t) \<noteq> 0"
  shows "\<exists>net' u. net'\<lparr>trigs := trigs (net_at i b)\<rparr> = net_at i b \<and>
    t_type u = TRIG_PUB \<and> t_cmd u = Some proc \<and> t_mask u = Some m \<and>
    parse_irc_line env i (message_line p ''PRIVMSG'' [ch] words) (put_net i (bound_word (Script k) m proc (net_at i b)) b) =
      on_net i b (e_script env k u (Some (message p ''PRIVMSG'' [ch] words)) None [] net')"
proof -
  let ?tt = "trigs (net_at i b)" and ?u = "new_trigger None TRIG_PUB (Some m) (Some proc) (Some (Script k))"
  let ?data = "message p ''PRIVMSG'' [ch] words"
  define d where "d = trigger_list_add (tt_pub ?tt) ?u"
  define b' where "b' = put_net i (bound_word (Script k) m proc (net_at i b)) b"
  have at: "net_at i b' = put_trigs TRIG_PUB d (net_at i b)" using i by (simp add: b'_def has_net_def bound_word_def d_def)
  have d: "dl_from d = dl_from (tt_pub ?tt) @ [?u]"
    by (auto simp: d_def trigger_list_add_def)
  have u: "t_type (bump ?u) = TRIG_PUB" "t_cmd (bump ?u) = Some proc" "t_mask (bump ?u) = Some m" "t_handler_of (bump ?u) = Some (Script k)"
    "t_mask ?u = Some m" "t_handler_of ?u = Some (Script k)"
    by (simp_all add: new_trigger_def bump_def)
  have first: "fire_first (test_prefix ?data) (dl_from d) = Ok (dl_from (tt_pub ?tt) @ [bump ?u], [bump ?u])"
    unfolding d
  proof (rule fire_first_end)
    show "\<forall>t \<in> set (dl_from (tt_pub ?tt)). test_prefix ?data t = Ok False"
      using pubs ws by (force simp: test_prefix_def deref_def strncmp_eq_def)
    show "test_prefix ?data ?u = Ok True" using ws said u(5) by (simp add: test_prefix_def strncmp_eq_def)
  qed (simp add: u)
  define net' where "net' = (net_at i b)\<lparr>trigs := ?tt\<lparr>tt_pub := DList (dl_before d) (dl_from (tt_pub ?tt) @ [bump ?u])\<rparr>\<rparr>"
  have idle: "Triggers.fire_list fire_all (has_text ?data (test_wild ?data)) (tt_pubm ?tt) = Ok (tt_pubm ?tt, [])"
    using pubms ws by (intro fire_list_idle) (auto simp: has_text_def test_wild_def opt_list_def arr_get_def)
  have "match_privmsg (Some bn) (tt_put TRIG_PUB d ?tt) ?data = Ok (?tt\<lparr>tt_pub := DList (dl_before d) (dl_from (tt_pub ?tt) @ [bump ?u])\<rparr>, [bump ?u])"
    using pub ws first idle by (simp add: match_privmsg_def Triggers.fire_list_def opt_list_def arr_get_def)
  then have line: "parse_irc_line env i (message_line p ''PRIVMSG'' [ch] words) b' = call_handlers env i ?data [bump ?u] (put_net i net' b)"
    using parse_irc_line_message [of i b' me p "''PRIVMSG''" "[ch]" words env] me ok bn at
    by (simp add: put_trigs_def trigger_match_def net'_def b'_def put_net_twice)
  have call: "irc_handler env i ?data (bump ?u) (Script k) (put_net i net' b) = on_net i b (e_script env k (bump ?u) (Some ?data) None [] net')"
    using i by (simp add: irc_handler_def on_net_def put_net_twice has_net_def)
  moreover have "call_handlers env i ?data [bump ?u] (put_net i net' b) = irc_handler env i ?data (bump ?u) (Script k) (put_net i net' b)"
    using run u(4) by (simp add: obind_def split: option.split sum.split)
  ultimately have "parse_irc_line env i (message_line p ''PRIVMSG'' [ch] words) b' = on_net i b (e_script env k (bump ?u) (Some ?data) None [] net')"
    using line by simp
  then show ?thesis unfolding b'_def using u(1-3) by (intro exI [of _ net'] exI [of _ "bump ?u"]) (simp add: net'_def)
qed

text \<open>A message to the bot that is just the bound word is read past its end.\<close>

lemma bare_word_overruns:
  assumes "t_type u = TRIG_MSG" and "t_cmd u \<noteq> None" and "t_mask u = Some m" and "pnick p \<noteq> None" and "phost p \<noteq> None"
    and "words \<noteq> []" and "join_blank words = m"
  shows "tcl_handler interp net u (Some (message p cmd params words)) = Fault OutOfBounds"
  using assms by (auto simp: tcl_handler_def tcl_words_def tcl_call_def words_msg_def tcl_sender_def behind_mask_def)

text \<open>For the other types nothing is called.\<close>

lemma never_called: "t_type u \<in> {TRIG_NOTC, TRIG_SIGN, TRIG_CTCP, TRIG_KICK, TRIG_DCC} \<Longrightarrow> tcl_handler interp net u data = Ok net"
  by (auto simp: tcl_handler_def tcl_words_def)

end
