(* ===== verification/Js_Lib.thy ===== *)
theory Js_Lib
  imports Tcl_Embed
begin

text \<open>
  Scripts in Javascript: the functions that they call, \<^verbatim>\<open>src/src/js_lib.c\<close>, and the files and the calls of functions in
  \<^verbatim>\<open>js_embed.c\<close>. The engine is an argument.
\<close>

section \<open>Values\<close>

text \<open>
  The values that are passed and made: a string is made of a C string, which may be NULL. Of the engine are used
  the text of a value and its number, if it has one, and \<open>nargs\<close>: a function is registered with a number
  of arguments, and those that a call leaves out are \<open>undefined\<close>.
\<close>

datatype jsval = JSVAL_VOID | JSVAL_NULL | Js_int int | Js_string cstr | Js_array "string list" | Js_other nat

record js_lib =
  js_text :: "jsval \<Rightarrow> string"
  js_number :: "jsval \<Rightarrow> int option"

definition js_arg :: "nat \<Rightarrow> jsval list \<Rightarrow> nat \<Rightarrow> jsval res" where
  "js_arg nargs argv k =
     (if k < length argv then Ok (argv ! k) else if k < nargs then Ok JSVAL_VOID else Fault OutOfBounds)"

definition js_str :: "js_lib \<Rightarrow> nat \<Rightarrow> jsval list \<Rightarrow> nat \<Rightarrow> string res" where
  "js_str lib nargs argv k = rbind (js_arg nargs argv k) (\<lambda>v. Ok (js_text lib v))"

text \<open>\<open>JS_FALSE\<close> ends the script; otherwise a value goes back to it.\<close>

datatype js_result = JS_FALSE | JS_TRUE jsval

type_synonym js_answer = "(js_result \<times> bot) res option"

type_synonym js_function = "js_lib \<Rightarrow> env \<Rightarrow> nat \<Rightarrow> jsval list \<Rightarrow> bot \<Rightarrow> js_answer"

definition js_false :: "bot \<Rightarrow> js_answer" where
  "js_false b = Some (Ok (JS_FALSE, b))"

definition js_true :: "jsval \<Rightarrow> bot \<Rightarrow> js_answer" where
  "js_true v b = Some (Ok (JS_TRUE v, b))"

definition js_ask :: "'a res \<Rightarrow> ('a \<Rightarrow> jsval) \<Rightarrow> bot \<Rightarrow> js_answer" where
  "js_ask r f b = obind (Some r) (\<lambda>x. js_true (f x) b)"

definition js_change :: "nat \<Rightarrow> network res \<Rightarrow> bot \<Rightarrow> js_answer" where
  "js_change i r b = obind (Some r) (\<lambda>n. js_true JSVAL_VOID (put_net i n b))"

section \<open>Functions that look at the number of their arguments\<close>

text \<open>One argument is passed and two are asked for.\<close>

definition js_putlog :: js_function where
  "js_putlog lib env i argv b =
     (if length argv \<noteq> 2 then js_false b else js_ask (fmt_text (js_text lib (argv ! 0))) (\<lambda>s. JSVAL_VOID) b)"

text \<open>The answer no is an error.\<close>

definition js_adduser :: js_function where
  "js_adduser lib env i argv b =
     (if length argv < 1 \<or> length argv > 2 then js_false b
      else obind (egg_adduser (b_cfg b) (e_writable env) (net_at i b) (Some (js_text lib (argv ! 0)))
          (if length argv = 2 then Some (js_text lib (argv ! 1)) else None)) (\<lambda>(r, n, w).
        let b' = (put_net i n b)\<lparr>b_writes := b_writes b @ w\<rparr> in
        if r = 1 then js_true JSVAL_VOID b' else js_false b'))"

definition js_botisop :: js_function where
  "js_botisop lib env i argv b =
     (if length argv \<noteq> 1 then js_false b
      else obind (Some (egg_botisop (net_at i b) (Some (js_text lib (argv ! 0))))) (\<lambda>r.
        if r = 1 then js_true JSVAL_VOID b else js_false b))"

definition js_unbind :: js_function where
  "js_unbind lib env i argv b =
     (if length argv \<noteq> 4 then js_false b
      else js_change i (rbind (egg_unbind (net_at i b) (js_text lib (argv ! 0)) (Some (js_text lib (argv ! 1)))
        (Some (js_text lib (argv ! 2))) (Some (js_text lib (argv ! 3)))) (\<lambda>(m, n). Ok n)) b)"

definition js_die :: js_function where
  "js_die lib env i argv b =
     obind (Some (egg_die (b_cfg b) (if argv = [] then None else Some (js_text lib (argv ! 0))))) (\<lambda>c.
       js_true JSVAL_VOID (b\<lparr>b_cfg := c, b_exited := True\<rparr>))"

text \<open>A name, and a channel that may be left out.\<close>

definition js_with_channel :: "(network \<Rightarrow> cstr \<Rightarrow> cstr \<Rightarrow> int res) \<Rightarrow> js_function" where
  "js_with_channel f lib env i argv b =
     (if length argv = 1 then js_ask (f (net_at i b) (Some (js_text lib (argv ! 0))) None) Js_int b
      else if length argv = 2 then js_ask (f (net_at i b) (Some (js_text lib (argv ! 0))) (Some (js_text lib (argv ! 1)))) Js_int b
      else js_false b)"

definition js_isbansticky :: js_function where
  "js_isbansticky = js_with_channel egg_isbansticky"

definition js_ispermban :: js_function where
  "js_ispermban = js_with_channel egg_ispermban"

definition js_isban :: js_function where
  "js_isban = js_with_channel egg_isban"

definition js_isvoice :: js_function where
  "js_isvoice = js_with_channel egg_isvoice"

definition js_isop :: js_function where
  "js_isop = js_with_channel egg_isop"

definition js_getchanmode :: js_function where
  "js_getchanmode lib env i argv b =
     (if length argv \<noteq> 1 then js_false b
      else js_ask (egg_getchanmode (net_at i b) (Some (js_text lib (argv ! 0)))) Js_string b)"

definition js_getting_users :: js_function where
  "js_getting_users lib env i argv b = js_true (Js_int 0) b"

definition js_dccbroadcast :: js_function where
  "js_dccbroadcast lib env i argv b =
     (if length argv \<noteq> 1 then js_false b else js_change i (egg_dccbroadcast (net_at i b) (js_text lib (argv ! 0))) b)"

text \<open>A value that is no number leaves \<open>idx\<close> without a value.\<close>

definition js_putdcc :: js_function where
  "js_putdcc lib env i argv b =
     (if length argv \<noteq> 2 then js_false b
      else (case js_number lib (argv ! 0) of
              None \<Rightarrow> Some (Fault Uninitialised)
            | Some idx \<Rightarrow> js_change i (egg_putdcc (net_at i b) idx (js_text lib (argv ! 1))) b))"

definition js_isbotnick :: js_function where
  "js_isbotnick lib env i argv b =
     (if length argv \<noteq> 1 then js_false b else js_ask (egg_isbotnick (net_at i b) (Some (js_text lib (argv ! 0)))) Js_int b)"

definition js_encpass :: js_function where
  "js_encpass lib env i argv b =
     (if length argv \<noteq> 1 then js_false b else js_true (Js_string (egg_encpass (b_cfg b) (Some (js_text lib (argv ! 0))))) b)"

definition js_topic :: js_function where
  "js_topic lib env i argv b =
     (if length argv \<noteq> 1 then js_false b else js_ask (egg_topic (Some (net_at i b)) (Some (js_text lib (argv ! 0)))) Js_string b)"

definition js_validuser :: js_function where
  "js_validuser lib env i argv b =
     (if length argv \<noteq> 1 then js_false b else js_ask (egg_validuser (net_at i b) (Some (js_text lib (argv ! 0)))) Js_int b)"

definition js_finduser :: js_function where
  "js_finduser lib env i argv b =
     (if length argv \<noteq> 1 then js_true (Js_string (Some ''*'')) b
      else (case egg_finduser (net_at i b) (Some (js_text lib (argv ! 0))) of
              None \<Rightarrow> js_true (Js_string (Some ''*'')) b
            | Some k \<Rightarrow> js_true (Js_string (username (dl_from (n_users (net_at i b)) ! k))) b))"

definition js_matchattr :: js_function where
  "js_matchattr lib env i argv b =
     (if length argv < 2 then js_false b
      else js_ask (egg_matchattr (net_at i b) (Some (js_text lib (argv ! 0))) (Some (js_text lib (argv ! 1)))
        (if length argv = 3 then Some (js_text lib (argv ! 2)) else None)) Js_int b)"

section \<open>Functions that do not\<close>

definition js_countusers :: js_function where
  "js_countusers lib env i argv b = js_true (Js_int (egg_countusers (net_at i b))) b"

definition js_writes :: "writes res option \<Rightarrow> bot \<Rightarrow> js_answer" where
  "js_writes r b = obind r (\<lambda>w. js_true JSVAL_VOID (b\<lparr>b_writes := b_writes b @ w\<rparr>))"

definition js_savechannels :: js_function where
  "js_savechannels lib env i argv b = js_writes (egg_savechannels (b_cfg b) (e_writable env) (Some (net_at i b))) b"

definition js_save :: js_function where
  "js_save lib env i argv b = js_writes (egg_save (b_cfg b) (e_writable env) (Some (net_at i b))) b"

text \<open>
  \<open>bind\<close> is registered with five arguments. Without a function the trigger is bound all the same, with NULL for its
  command; then the array that came back is freed, read and freed again.
\<close>

definition js_handler_of :: handler where
  "js_handler_of = Script 1"

definition js_bind :: js_function where
  "js_bind lib env i argv b =
     obind (Some (js_str lib 5 argv 0)) (\<lambda>ty. obind (Some (js_str lib 5 argv 1)) (\<lambda>flags. obind (Some (js_str lib 5 argv 2)) (\<lambda>m.
     obind (Some (js_arg 5 argv 3)) (\<lambda>v.
       let func = (if v = JSVAL_NULL \<or> v = JSVAL_VOID then None else Some (js_text lib v)) in
       obind (Some (egg_bind (net_at i b) ty (Some flags) (Some m) func (Some js_handler_of))) (\<lambda>(r, n).
         case r of
           None \<Rightarrow> js_false (put_net i n b)
         | Some ret \<Rightarrow>
             if func = None then Some (Fault UseAfterFree)
             else obind (Some (if ret = [] then Fault OutOfBounds else Ok (hd ret))) (\<lambda>s. js_true (Js_string s) (put_net i n b)))))))"

definition js_putserv :: js_function where
  "js_putserv lib env i argv b =
     obind (Some (js_str lib 1 argv 0)) (\<lambda>s. js_change i (tsocket_printf (net_at i b) s) b)"

definition js_botname :: js_function where
  "js_botname lib env i argv b = js_ask (egg_botname (net_at i b)) (\<lambda>s. Js_string (Some s)) b"

definition js_onchan :: js_function where
  "js_onchan lib env i argv b =
     obind (Some (js_str lib 5 argv 0)) (\<lambda>k.
       js_ask (egg_onchan (Some (net_at i b)) (Some k)
         (if length argv = 2 \<and> argv ! 1 \<noteq> JSVAL_NULL \<and> argv ! 1 \<noteq> JSVAL_VOID then Some (js_text lib (argv ! 1)) else None)) Js_int b)"

definition js_passwdok :: js_function where
  "js_passwdok lib env i argv b =
     obind (Some (js_str lib 2 argv 0)) (\<lambda>handle. obind (Some (js_str lib 2 argv 1)) (\<lambda>pass.
       js_ask (egg_passwdok (b_cfg b) (net_at i b) (Some handle) (Some pass)) Js_int b))"

definition js_chhandle :: js_function where
  "js_chhandle lib env i argv b =
     obind (Some (js_str lib 2 argv 0)) (\<lambda>old. obind (Some (js_str lib 2 argv 1)) (\<lambda>new.
     obind (Some (egg_chhandle (net_at i b) (Some old) (Some new))) (\<lambda>(r, n). js_true (Js_int r) (put_net i n b))))"

definition js_channels :: js_function where
  "js_channels lib env i argv b = js_ask (egg_channels (net_at i b)) (\<lambda>s. Js_string (Some s)) b"

text \<open>What \<open>net_init_js_global_object\<close> registers, without the version.\<close>

definition js_functions :: "(string \<times> js_function) list" where
  "js_functions =
     [(''putlog'', js_putlog), (''adduser'', js_adduser), (''unbind'', js_unbind), (''die'', js_die), (''isban'', js_isban),
      (''ispermban'', js_ispermban), (''isbansticky'', js_isbansticky), (''botisop'', js_botisop), (''isop'', js_isop),
      (''isvoice'', js_isvoice), (''getchanmode'', js_getchanmode), (''getting-users'', js_getting_users),
      (''dccbroadcast'', js_dccbroadcast), (''putdcc'', js_putdcc), (''isbotnick'', js_isbotnick), (''encpass'', js_encpass),
      (''topic'', js_topic), (''validuser'', js_validuser), (''countusers'', js_countusers), (''savechannels'', js_savechannels),
      (''finduser'', js_finduser), (''matchattr'', js_matchattr), (''bind'', js_bind), (''putserv'', js_putserv),
      (''botname'', js_botname), (''onchan'', js_onchan), (''passwdok'', js_passwdok), (''chhandle'', js_chhandle),
      (''channels'', js_channels), (''save'', js_save)]"

section \<open>Calls\<close>

text \<open>A call: the name of the function, which may be NULL, and its arguments. The engine does them in order.\<close>

type_synonym js_call = "cstr \<times> jsval list"

type_synonym js_engine = "js_call \<Rightarrow> network \<Rightarrow> network res"

text \<open>The nick and the host of the sender, and a star for the handle.\<close>

definition js_sender :: "irc_data \<Rightarrow> jsval list res" where
  "js_sender data = rbind (deref (prefix_of data)) (\<lambda>p. Ok [Js_string (pnick p), Js_string (phost p), Js_string (Some ''*'')])"

definition js_param :: "irc_data \<Rightarrow> jsval res" where
  "js_param data = rbind (arr_get (c_params data) 0) (\<lambda>ch. Ok (Js_string ch))"

definition js_makearg :: "irc_data \<Rightarrow> trigger \<Rightarrow> jsval res" where
  "js_makearg data trig = rbind (tcl_arg data trig) (\<lambda>s. Ok (Js_string (Some s)))"

definition js_pub :: "irc_data \<Rightarrow> trigger \<Rightarrow> jsval list res" where
  "js_pub data trig = rbind (js_sender data) (\<lambda>vs. rbind (js_param data) (\<lambda>ch. rbind (js_makearg data trig) (\<lambda>a. Ok (vs @ [ch, a]))))"

definition js_text_on_channel :: "irc_data \<Rightarrow> jsval list res" where
  "js_text_on_channel data = rbind (js_sender data) (\<lambda>vs. rbind (js_param data) (\<lambda>ch. Ok (vs @ [ch, Js_string (rest_str data)])))"

definition js_msg :: "irc_data \<Rightarrow> trigger \<Rightarrow> jsval list res" where
  "js_msg data trig = rbind (js_sender data) (\<lambda>vs. rbind (js_makearg data trig) (\<lambda>a. Ok (vs @ [a])))"

definition js_msgm :: "irc_data \<Rightarrow> jsval list res" where
  "js_msgm data = rbind (js_sender data) (\<lambda>vs. Ok (vs @ [Js_string (rest_str data)]))"

definition js_ctcp :: "irc_data \<Rightarrow> jsval list res" where
  "js_ctcp data = rbind (js_sender data) (\<lambda>vs. rbind (js_param data) (\<lambda>ch.
     Ok (vs @ [ch, Js_string (Some (command data)), Js_string (rest_str data)])))"

text \<open>
  The argument lists of the calls for a trigger, in order. The case of \<open>topc\<close> goes on into that of \<open>join\<close>. For a line of the party line
  the arguments are built and nothing is called.
\<close>

definition js_calls :: "trigger \<Rightarrow> irc_data option \<Rightarrow> dcc_session option \<Rightarrow> jsval list list res" where
  "js_calls trig msg dcc =
     (case t_type trig of
        TRIG_PUB \<Rightarrow> rbind (deref msg) (\<lambda>data. rbind (js_pub data trig) (\<lambda>vs. Ok [vs]))
      | TRIG_PUBM \<Rightarrow> rbind (deref msg) (\<lambda>data. rbind (js_text_on_channel data) (\<lambda>vs. Ok [vs]))
      | TRIG_MSG \<Rightarrow> rbind (deref msg) (\<lambda>data. rbind (js_msg data trig) (\<lambda>vs. Ok [vs]))
      | TRIG_MSGM \<Rightarrow> rbind (deref msg) (\<lambda>data. rbind (js_msgm data) (\<lambda>vs. Ok [vs]))
      | TRIG_TOPC \<Rightarrow> rbind (deref msg) (\<lambda>data. rbind (js_text_on_channel data) (\<lambda>vs. rbind (js_msgm data) (\<lambda>ws. Ok [vs, ws])))
      | TRIG_JOIN \<Rightarrow> rbind (deref msg) (\<lambda>data. rbind (js_msgm data) (\<lambda>vs. Ok [vs]))
      | TRIG_PART \<Rightarrow> rbind (deref msg) (\<lambda>data. rbind (js_text_on_channel data) (\<lambda>vs. Ok [vs]))
      | TRIG_SIGN \<Rightarrow> rbind (deref msg) (\<lambda>data. rbind (js_text_on_channel data) (\<lambda>vs. Ok [vs]))
      | TRIG_CTCP \<Rightarrow> rbind (deref msg) (\<lambda>data. rbind (js_ctcp data) (\<lambda>vs. Ok [vs]))
      | TRIG_DCC \<Rightarrow> rbind (deref dcc) (\<lambda>d. rbind (deref (d_user d)) (\<lambda>u. Ok []))
      | _ \<Rightarrow> Ok [])"

fun js_run :: "js_engine \<Rightarrow> cstr \<Rightarrow> jsval list list \<Rightarrow> network \<Rightarrow> network res" where
  "js_run engine f [] net = Ok net"
| "js_run engine f (vs # vss) net = rbind (engine (f, vs) net) (js_run engine f vss)"

text \<open>\<open>context\<close>: the network has a context and a global object.\<close>

definition js_handler :: "js_engine \<Rightarrow> bool \<Rightarrow> network \<Rightarrow> trigger \<Rightarrow> irc_data option \<Rightarrow> dcc_session option \<Rightarrow> network res" where
  "js_handler engine cx net trig data dcc =
     (if \<not> cx then Ok net else rbind (js_calls trig data dcc) (\<lambda>vss. js_run engine (t_cmd trig) vss net))"

section \<open>Files\<close>

text \<open>\<open>compile\<close> tells whether a file can be compiled, \<open>run\<close> what it does.\<close>

definition js_eval_file :: "(string \<Rightarrow> bool) \<Rightarrow> (string \<Rightarrow> 's \<Rightarrow> 's res) \<Rightarrow> string \<Rightarrow> 's \<Rightarrow> (int \<times> 's) res" where
  "js_eval_file compile run filename s = (if \<not> compile filename then Ok (0, s) else rbind (run filename s) (\<lambda>s'. Ok (1, s')))"

fun js_run_files :: "(string \<Rightarrow> 's \<Rightarrow> (int \<times> 's) res) \<Rightarrow> cstr list \<Rightarrow> 's \<Rightarrow> 's res" where
  "js_run_files eval [] s = Fault OutOfBounds"
| "js_run_files eval (None # cells) s = Ok s"
| "js_run_files eval (Some f # cells) s = rbind (eval f s) (\<lambda>(r, s'). js_run_files eval cells s')"

fun js_load_scripts :: "(nat \<Rightarrow> string \<Rightarrow> 's \<Rightarrow> (int \<times> 's) res) \<Rightarrow> nat \<Rightarrow> cstr list option list \<Rightarrow> 's \<Rightarrow> 's res" where
  "js_load_scripts eval i [] s = Ok s"
| "js_load_scripts eval i (scripts # nets) s =
     rbind (case scripts of None \<Rightarrow> Ok s | Some cells \<Rightarrow> js_run_files (eval i) cells s) (js_load_scripts eval (i + 1) nets)"

text \<open>Lines of the party line: a text to evaluate, and a file to load. The session is told that it was loaded in any case.\<close>

definition dcc_javascript :: "(string \<Rightarrow> network \<Rightarrow> network res) \<Rightarrow> network \<Rightarrow> trigger \<Rightarrow> string \<Rightarrow> network res" where
  "dcc_javascript eval net trig dccbuf =
     rbind (deref (t_mask trig)) (\<lambda>m. rbind (troll_makearg dccbuf m) (\<lambda>a. if a = [] then Ok net else eval a net))"

definition dcc_javascript_load ::
  "(string \<Rightarrow> network \<Rightarrow> (int \<times> network) res) \<Rightarrow> network \<Rightarrow> trigger \<Rightarrow> nat \<Rightarrow> string \<Rightarrow> network res" where
  "dcc_javascript_load eval net trig j dccbuf =
     rbind (deref (t_mask trig)) (\<lambda>m.
       if m = dccbuf then Ok net
       else rbind (troll_makearg dccbuf m) (\<lambda>a. rbind (eval a net) (\<lambda>(r, net').
         Ok (session_printf j (''Loaded Javascript file: '' @ a) net'))))"

text \<open>
  An error of a script with its line and the place in it: line ends and tabs are replaced from one character behind the place down to
  the first, and the place is marked below. Nothing is printed for an empty line.
\<close>

definition js_clean :: "char \<Rightarrow> char" where
  "js_clean c = (if c = CR \<or> c = NL then CHR 0x00 else if c = TAB then SPC else c)"

definition js_error_handler :: "(string \<times> nat) option \<Rightarrow> (string \<times> string) option res" where
  "js_error_handler er =
     (case er of
        None \<Rightarrow> Ok None
      | Some (linebuf, place) \<Rightarrow>
          (let len = place + 2; cells = linebuf @ [CHR 0x00] in
           if length cells < len then Fault OutOfBounds
           else (let line = takeWhile (\<lambda>c. c \<noteq> CHR 0x00) (map js_clean (take len cells) @ drop len cells) in
                 Ok (if line = [] then None else Some (line, replicate place (CHR ''-'') @ ''^'')))))"

section \<open>What is shown\<close>

lemma js_ask_same: "js_ask r f b = Some (Ok (x, b')) \<Longrightarrow> b' = b"
  by (auto simp: js_ask_def js_true_def obind_Ok_iff)

lemma js_with_channel_same: "js_with_channel f lib env i argv b = Some (Ok (x, b')) \<Longrightarrow> b' = b"
  by (auto simp: js_with_channel_def js_false_def dest: js_ask_same split: if_splits)

text \<open>The functions that only ask.\<close>

definition js_questions :: "js_function list" where
  "js_questions =
     [js_putlog, js_botisop, js_isbansticky, js_ispermban, js_isban, js_isvoice, js_isop, js_getchanmode, js_getting_users,
      js_isbotnick, js_encpass, js_topic, js_validuser, js_finduser, js_matchattr, js_countusers, js_botname, js_onchan, js_passwdok,
      js_channels]"

lemma js_question_same:
  assumes "f \<in> set js_questions" and "f lib env i argv b = Some (Ok (x, b'))"
  shows "b' = b"
  using assms
  by (auto simp: js_questions_def js_false_def js_true_def js_putlog_def js_botisop_def js_isbansticky_def js_ispermban_def js_isban_def
      js_isvoice_def js_isop_def js_getchanmode_def js_getting_users_def js_isbotnick_def js_encpass_def js_topic_def js_validuser_def
      js_finduser_def js_matchattr_def js_countusers_def js_botname_def js_onchan_def js_passwdok_def js_channels_def obind_Ok_iff
      dest: js_ask_same js_with_channel_same split: if_splits option.splits)

text \<open>In both languages a question gives what \<open>egg_lib.c\<close> does; only \<open>isop\<close> and \<open>isvoice\<close> with a channel differ.\<close>

lemma isop_in_both:
  assumes "egg_isop (net_at i b) (Some k) None = Ok n"
  shows "tcl_isop tlib env i [w, k] b = Some (Ok (TCL_OK, zero_one n, b))"
    and "js_text jlib v = k \<Longrightarrow> js_isop jlib env i [v] b = Some (Ok (JS_TRUE (Js_int n), b))"
  using assms by (simp_all add: tcl_isop_def ask_mode_def tcl_ask_def tcl_done_def js_isop_def js_with_channel_def js_ask_def js_true_def)

text \<open>A change of the topic calls the function twice, the second time with the arguments of a join.\<close>

lemma topic_called_twice:
  assumes "t_type u = TRIG_TOPC" and "words \<noteq> []"
  shows "js_handler engine True net u (Some (message p ''TOPIC'' [ch] words)) dcc =
    (let s = [Js_string (pnick p), Js_string (phost p), Js_string (Some ''*'')]; t = Js_string (Some (join_blank words)) in
     rbind (engine (t_cmd u, s @ [Js_string (Some ch), t]) net) (engine (t_cmd u, s @ [t])))"
proof -
  have one: "rbind (engine c net') Ok = engine c net'" for c net' by (cases "engine c net'") simp_all
  show ?thesis
    using assms by (simp add: js_handler_def js_calls_def js_text_on_channel_def js_msgm_def js_sender_def js_param_def opt_list_def arr_get_def
        one Let_def cong: rbind_cong)
qed

text \<open>A binding without a function uses memory that was freed.\<close>

lemma js_bind_without_function:
  assumes "length argv = 3" and "type_named bind_names (js_text lib (argv ! 0)) = Some t" and "t \<notin> {TRIG_PUB, TRIG_MSG, TRIG_PUBM}"
  shows "js_bind lib env i argv b = Some (Fault UseAfterFree)"
  using assms by (simp add: js_bind_def js_str_def js_arg_def egg_bind_def js_handler_of_def Let_def)

text \<open>No call with one argument reaches the log.\<close>

lemma js_putlog_refuses: "js_putlog lib env i [v] b = Some (Ok (JS_FALSE, b))"
  by (simp add: js_putlog_def js_false_def)

text \<open>An error at the end of a line is looked for behind it.\<close>

lemma js_error_at_end: "js_error_handler (Some (linebuf, length linebuf)) = Fault OutOfBounds"
  by (simp add: js_error_handler_def Let_def)

end
