(* ===== verification/Php_Lib.thy ===== *)
theory Php_Lib
  imports Js_Lib
begin

text \<open>
  Scripts in PHP: the functions that they call, \<^verbatim>\<open>src/src/php_lib.c\<close>, and the calls of functions in \<^verbatim>\<open>php_embed.c\<close>. There is one
  interpreter for all networks, so that a function gets the label of a network first.
\<close>

section \<open>Arguments\<close>

text \<open>
  \<open>zend_parse_parameters\<close> takes a list of types, of which the last ones may be optional: it fails when there are too few or too many
  arguments, or when one cannot be converted, and it leaves the variables of missing ones alone. What values can be converted
  to is an argument.
\<close>

datatype zval = Z_false | Z_true | Z_long int | Z_string string | Z_null

record zend =
  z_string :: "zval \<Rightarrow> string option"
  z_long :: "zval \<Rightarrow> int option"

datatype zparam = Zp_s string | Zp_l int | Zp_missing

definition zend_one :: "zend \<Rightarrow> char \<Rightarrow> zval \<Rightarrow> zparam option" where
  "zend_one z c v = (if c = CHR ''s'' then map_option Zp_s (z_string z v) else map_option Zp_l (z_long z v))"

fun zend_some :: "zend \<Rightarrow> string \<Rightarrow> zval list \<Rightarrow> zparam list option" where
  "zend_some z [] vs = (if vs = [] then Some [] else None)"
| "zend_some z cs [] = Some (map (\<lambda>c. Zp_missing) cs)"
| "zend_some z (c # cs) (v # vs) = Option.bind (zend_one z c v) (\<lambda>p. map_option ((#) p) (zend_some z cs vs))"

definition zend_parse_parameters :: "zend \<Rightarrow> string \<Rightarrow> nat \<Rightarrow> zval list \<Rightarrow> zparam list option" where
  "zend_parse_parameters z types needed vs = (if length vs < needed then None else zend_some z types vs)"

text \<open>Reading a variable that was not filled.\<close>

definition zs :: "zparam list \<Rightarrow> nat \<Rightarrow> string res" where
  "zs ps k = (case ps ! k of Zp_s s \<Rightarrow> Ok s | _ \<Rightarrow> Fault Uninitialised)"

definition zl :: "zparam list \<Rightarrow> nat \<Rightarrow> int res" where
  "zl ps k = (case ps ! k of Zp_l n \<Rightarrow> Ok n | _ \<Rightarrow> Fault Uninitialised)"

text \<open>\<open>(int)\<close> of a \<open>long\<close>.\<close>

definition to_int :: "int \<Rightarrow> int" where
  "to_int n = sint (word_of_int n :: 32 word)"

text \<open>The network with a label, from the pointer on; some functions compare with \<open>strcmp\<close>.\<close>

fun php_find :: "(cstr \<Rightarrow> cstr \<Rightarrow> bool res) \<Rightarrow> string \<Rightarrow> network list \<Rightarrow> nat option res" where
  "php_find same name [] = Ok None"
| "php_find same name (n # ns) =
     rbind (same (n_label n) (Some name)) (\<lambda>hit. if hit then Ok (Some 0) else rbind (php_find same name ns) (\<lambda>i. Ok (map_option Suc i)))"

definition cased :: "cstr \<Rightarrow> cstr \<Rightarrow> bool res" where
  "cased a b = rbind (tstrcasecmp_p a b) (\<lambda>r. Ok (r = 0))"

definition php_net :: "(cstr \<Rightarrow> cstr \<Rightarrow> bool res) \<Rightarrow> string \<Rightarrow> bot \<Rightarrow> nat option res" where
  "php_net same name b =
     (let ns = networks (b_cfg b) in
      rbind (php_find same name (dl_from ns)) (\<lambda>i. Ok (map_option ((+) (length (dl_before ns))) i)))"

section \<open>Functions\<close>

type_synonym php_answer = "(zval \<times> bot) res option"

type_synonym php_function = "zend \<Rightarrow> env \<Rightarrow> zval list \<Rightarrow> bot \<Rightarrow> php_answer"

text \<open>What all functions on a network do first: parse, find the network, or give FALSE.\<close>

definition on_network ::
  "(cstr \<Rightarrow> cstr \<Rightarrow> bool res) \<Rightarrow> string \<Rightarrow> nat \<Rightarrow> (zparam list \<Rightarrow> nat \<Rightarrow> bot \<Rightarrow> php_answer) \<Rightarrow> zend \<Rightarrow> zval list \<Rightarrow> bot \<Rightarrow> php_answer" where
  "on_network same types needed f z vs b =
     (case zend_parse_parameters z types needed vs of
        None \<Rightarrow> Some (Ok (Z_false, b))
      | Some ps \<Rightarrow>
          obind (Some (zs ps 0)) (\<lambda>name. obind (Some (php_net same name b)) (\<lambda>m.
            case m of None \<Rightarrow> Some (Ok (Z_false, b)) | Some i \<Rightarrow> f ps i b)))"

definition php_return :: "zval \<Rightarrow> bot \<Rightarrow> php_answer" where
  "php_return v b = Some (Ok (v, b))"

definition z_bool :: "int \<Rightarrow> zval" where
  "z_bool n = (if n = 1 then Z_true else Z_false)"

text \<open>\<open>RETURN_STRING\<close> reads the string.\<close>

definition return_string :: "cstr \<Rightarrow> bot \<Rightarrow> php_answer" where
  "return_string s b = obind (Some (deref s)) (\<lambda>t. php_return (Z_string t) b)"

definition php_change :: "nat \<Rightarrow> network res \<Rightarrow> zval \<Rightarrow> bot \<Rightarrow> php_answer" where
  "php_change i r v b = obind (Some r) (\<lambda>n. php_return v (put_net i n b))"

text \<open>A question about a ban, whose third argument is used also when it was left out.\<close>

definition php_ban_question :: "(network \<Rightarrow> cstr \<Rightarrow> cstr \<Rightarrow> int res) \<Rightarrow> zend \<Rightarrow> zval list \<Rightarrow> bot \<Rightarrow> php_answer" where
  "php_ban_question f = on_network cased ''sss'' 2 (\<lambda>ps i b.
     obind (Some (zs ps 1)) (\<lambda>ban. obind (Some (zs ps 2)) (\<lambda>channel.
     obind (Some (f (net_at i b) (Some ban) (Some channel))) (\<lambda>r. php_return (z_bool r) b))))"

text \<open>\<open>adduser\<close> adds nobody: it asks for a permanent ban.\<close>

definition php_adduser :: php_function where
  "php_adduser z env vs b = php_ban_question egg_ispermban z vs b"

definition php_ispermban :: php_function where
  "php_ispermban z env vs b = php_ban_question egg_ispermban z vs b"

definition php_isbansticky :: php_function where
  "php_isbansticky z env vs b = php_ban_question egg_isbansticky z vs b"

definition php_isban :: php_function where
  "php_isban z env vs b = php_ban_question egg_isban z vs b"

definition php_matchattr :: php_function where
  "php_matchattr z env vs b = on_network cased ''ssss'' 3 (\<lambda>ps i b.
     obind (Some (zs ps 1)) (\<lambda>handle. obind (Some (zs ps 2)) (\<lambda>flags. obind (Some (zs ps 3)) (\<lambda>channel.
     obind (Some (egg_matchattr (net_at i b) (Some handle) (Some flags) (Some channel))) (\<lambda>r. php_return (Z_long r) b))))) z vs b"

definition php_unbind :: php_function where
  "php_unbind z env vs b = on_network cased ''sssss'' 5 (\<lambda>ps i b.
     obind (Some (zs ps 1)) (\<lambda>ty. obind (Some (zs ps 2)) (\<lambda>flags. obind (Some (zs ps 3)) (\<lambda>m. obind (Some (zs ps 4)) (\<lambda>cmd.
     php_change i (rbind (egg_unbind (net_at i b) ty (Some flags) (Some m) (Some cmd)) (\<lambda>(r, n). Ok n)) Z_true b))))) z vs b"

definition php_timer_handler :: nat where
  "php_timer_handler = 2"

definition php_utimer :: php_function where
  "php_utimer z env vs b = on_network cased ''sls'' 3 (\<lambda>ps i b.
     obind (Some (zl ps 1)) (\<lambda>seconds. obind (Some (zs ps 2)) (\<lambda>evalstr.
     php_change i (Ok (snd (egg_utimer (e_now env) (net_at i b) (to_int seconds) (Some evalstr) (Some php_timer_handler)))) Z_true b))) z vs b"

definition php_botnick :: php_function where
  "php_botnick z env vs b = on_network cased ''s'' 1 (\<lambda>ps i b. return_string (botnick (net_at i b)) b) z vs b"

definition php_chhandle :: php_function where
  "php_chhandle z env vs b = on_network cased ''sss'' 3 (\<lambda>ps i b.
     obind (Some (zs ps 1)) (\<lambda>old. obind (Some (zs ps 2)) (\<lambda>new.
     obind (Some (egg_chhandle (net_at i b) (Some old) (Some new))) (\<lambda>(r, n). php_return (Z_long r) (put_net i n b))))) z vs b"

definition php_passwdok :: php_function where
  "php_passwdok z env vs b = on_network cased ''sss'' 3 (\<lambda>ps i b.
     obind (Some (zs ps 1)) (\<lambda>u. obind (Some (zs ps 2)) (\<lambda>passwd.
     obind (Some (egg_passwdok (b_cfg b) (net_at i b) (Some u) (Some passwd))) (\<lambda>r. php_return (Z_long r) b)))) z vs b"

definition php_save :: php_function where
  "php_save z env vs b = on_network cased ''s'' 1 (\<lambda>ps i b.
     obind (egg_save (b_cfg b) (e_writable env) (Some (net_at i b))) (\<lambda>w. php_return Z_true (b\<lparr>b_writes := b_writes b @ w\<rparr>))) z vs b"

definition php_countusers :: php_function where
  "php_countusers z env vs b = on_network cased ''s'' 1 (\<lambda>ps i b. php_return (Z_long (egg_countusers (net_at i b))) b) z vs b"

definition php_savechannels :: php_function where
  "php_savechannels z env vs b = on_network strcmp_p ''s'' 1 (\<lambda>ps i b.
     obind (egg_savechannels (b_cfg b) (e_writable env) (Some (net_at i b))) (\<lambda>w. php_return Z_true (b\<lparr>b_writes := b_writes b @ w\<rparr>))) z vs b"

text \<open>The nick and not the name of the user is returned.\<close>

definition php_finduser :: php_function where
  "php_finduser z env vs b = on_network cased ''ss'' 2 (\<lambda>ps i b.
     obind (Some (zs ps 1)) (\<lambda>whom.
       case egg_finduser (net_at i b) (Some whom) of
         None \<Rightarrow> php_return Z_false b
       | Some k \<Rightarrow> return_string (u_nick (dl_from (n_users (net_at i b)) ! k)) b)) z vs b"

definition php_validuser :: php_function where
  "php_validuser z env vs b = on_network strcmp_p ''ss'' 2 (\<lambda>ps i b.
     obind (Some (zs ps 1)) (\<lambda>whom. obind (Some (egg_validuser (net_at i b) (Some whom))) (\<lambda>r.
       php_return (if r \<noteq> 0 then Z_true else Z_false) b))) z vs b"

definition php_putdcc :: php_function where
  "php_putdcc z env vs b = on_network strcmp_p ''sls'' 3 (\<lambda>ps i b.
     obind (Some (zl ps 1)) (\<lambda>idx. obind (Some (zs ps 2)) (\<lambda>m.
     php_change i (egg_putdcc (net_at i b) (to_int idx) m) Z_true b))) z vs b"

text \<open>Without its two arguments it gives TRUE; a match is FALSE.\<close>

definition php_matchwild :: php_function where
  "php_matchwild z env vs b =
     (case zend_parse_parameters z ''ss'' 2 vs of
        None \<Rightarrow> php_return Z_true b
      | Some ps \<Rightarrow>
          obind (Some (zs ps 0)) (\<lambda>haystack. obind (Some (zs ps 1)) (\<lambda>needle.
            php_return (if troll_matchwilds (Some haystack) (Some needle) \<noteq> 0 then Z_true else Z_false) b)))"

definition php_handler_of :: handler where
  "php_handler_of = Script 2"

definition php_bind :: php_function where
  "php_bind z env vs b = on_network strcmp_p ''sssss'' 5 (\<lambda>ps i b.
     obind (Some (zs ps 1)) (\<lambda>ty. obind (Some (zs ps 2)) (\<lambda>flags. obind (Some (zs ps 3)) (\<lambda>m. obind (Some (zs ps 4)) (\<lambda>func.
     obind (Some (egg_bind (net_at i b) ty (Some flags) (Some m) (Some func) (Some php_handler_of))) (\<lambda>(r, n).
       php_return (if r = None then Z_false else Z_true) (put_net i n b))))))) z vs b"

text \<open>The text is taken for a format; nothing is returned.\<close>

definition php_putserv :: php_function where
  "php_putserv z env vs b = on_network strcmp_p ''ss'' 2 (\<lambda>ps i b.
     obind (Some (zs ps 1)) (\<lambda>m. php_change i (rbind (fmt_text m) (tsocket_printf (net_at i b))) Z_null b)) z vs b"

definition trollbot_functions :: "(string \<times> php_function) list" where
  "trollbot_functions =
     [(''adduser'', php_adduser), (''ispermban'', php_ispermban), (''matchattr'', php_matchattr), (''isbansticky'', php_isbansticky),
      (''isban'', php_isban), (''unbind'', php_unbind), (''utimer'', php_utimer), (''savechannels'', php_savechannels),
      (''validuser'', php_validuser), (''putdcc'', php_putdcc), (''matchwild'', php_matchwild), (''putserv'', php_putserv),
      (''bind'', php_bind), (''chhandle'', php_chhandle), (''passwdok'', php_passwdok), (''save'', php_save),
      (''finduser'', php_finduser), (''countusers'', php_countusers), (''botnick'', php_botnick)]"

section \<open>Calls\<close>

text \<open>A call: the name of the function and its arguments. \<open>ZVAL_STRING\<close> reads the string.\<close>

type_synonym php_call = "string \<times> zval list"

definition zval_string :: "cstr \<Rightarrow> zval res" where
  "zval_string s = rbind (deref s) (\<lambda>t. Ok (Z_string t))"

definition php_sender :: "network \<Rightarrow> irc_data \<Rightarrow> zval list res" where
  "php_sender net data =
     rbind (zval_string (n_label net)) (\<lambda>w. rbind (deref (prefix_of data)) (\<lambda>p.
     rbind (zval_string (pnick p)) (\<lambda>n. rbind (zval_string (phost p)) (\<lambda>h. Ok [w, n, h, Z_string ''*'']))))"

definition php_pub :: "network \<Rightarrow> trigger \<Rightarrow> irc_data \<Rightarrow> zval list res" where
  "php_pub net trig data =
     rbind (php_sender net data) (\<lambda>vs. rbind (rbind (arr_get (c_params data) 0) zval_string) (\<lambda>ch.
     rbind (tcl_arg data trig) (\<lambda>a. Ok (vs @ [ch, Z_string a]))))"

definition php_pubm :: "network \<Rightarrow> irc_data \<Rightarrow> zval list res" where
  "php_pubm net data =
     rbind (php_sender net data) (\<lambda>vs. rbind (rbind (arr_get (c_params data) 0) zval_string) (\<lambda>ch.
     rbind (zval_string (rest_str data)) (\<lambda>a. Ok (vs @ [ch, a]))))"

definition php_msg :: "network \<Rightarrow> trigger \<Rightarrow> irc_data \<Rightarrow> zval list res" where
  "php_msg net trig data = rbind (php_sender net data) (\<lambda>vs. rbind (tcl_arg data trig) (\<lambda>a. Ok (vs @ [Z_string a])))"

definition php_topc :: "network \<Rightarrow> irc_data \<Rightarrow> zval list res" where
  "php_topc net data = rbind (php_sender net data) (\<lambda>vs. rbind (zval_string (rest_str data)) (\<lambda>a. Ok (vs @ [a])))"

definition php_msgm :: "network \<Rightarrow> irc_data \<Rightarrow> zval list res" where
  "php_msgm net data = rbind (php_sender net data) (\<lambda>vs. rbind (zval_string (rest_str data)) (\<lambda>a. Ok (vs @ [a])))"

text \<open>On the party line the handle comes before the network.\<close>

definition php_dcc :: "network \<Rightarrow> dcc_session \<Rightarrow> string \<Rightarrow> zval list res" where
  "php_dcc net d line =
     rbind (zval_string (n_label net)) (\<lambda>w. rbind (deref (session_user net d)) (\<lambda>u. rbind (zval_string (username u)) (\<lambda>h.
       Ok [h, w, Z_long (d_id d), Z_string line])))"

definition php_words :: "network \<Rightarrow> trigger \<Rightarrow> irc_data option \<Rightarrow> dcc_session option \<Rightarrow> string \<Rightarrow> php_call option res" where
  "php_words net trig msg dcc line =
     (let call = (\<lambda>r. rbind (deref (t_cmd trig)) (\<lambda>f. rbind r (\<lambda>vs. Ok (Some (f, vs))))) in
      case t_type trig of
        TRIG_PUB \<Rightarrow> call (rbind (deref msg) (php_pub net trig))
      | TRIG_PUBM \<Rightarrow> call (rbind (deref msg) (php_pubm net))
      | TRIG_MSG \<Rightarrow> call (rbind (deref msg) (php_msg net trig))
      | TRIG_TOPC \<Rightarrow> call (rbind (deref msg) (php_topc net))
      | TRIG_MSGM \<Rightarrow> call (rbind (deref msg) (php_msgm net))
      | TRIG_DCC \<Rightarrow> call (rbind (deref dcc) (\<lambda>d. php_dcc net d line))
      | _ \<Rightarrow> Ok None)"

definition php_handler ::
  "(php_call \<Rightarrow> network \<Rightarrow> network res) \<Rightarrow> network \<Rightarrow> trigger \<Rightarrow> irc_data option \<Rightarrow> dcc_session option \<Rightarrow> string \<Rightarrow> network res" where
  "php_handler engine net trig msg dcc line =
     rbind (php_words net trig msg dcc line) (\<lambda>c. case c of None \<Rightarrow> Ok net | Some call \<Rightarrow> engine call net)"

definition t_timer_php_handler :: "(cstr \<Rightarrow> network \<Rightarrow> network res) \<Rightarrow> t_timer \<Rightarrow> network \<Rightarrow> network res" where
  "t_timer_php_handler eval timer net = eval (t_command timer) net"

text \<open>Files: one that cannot be opened is passed over; the interpreter starts with the first one.\<close>

definition myphp_eval_file :: "(string \<Rightarrow> bool) \<Rightarrow> (string \<Rightarrow> 's \<Rightarrow> 's res) \<Rightarrow> string \<Rightarrow> bool \<times> 's \<Rightarrow> (bool \<times> 's) res" where
  "myphp_eval_file opens run filename st =
     (if \<not> opens filename then Ok st else rbind (run filename (snd st)) (\<lambda>s'. Ok (True, s')))"

definition php_load_scripts :: "(string \<Rightarrow> bool) \<Rightarrow> (string \<Rightarrow> 's \<Rightarrow> 's res) \<Rightarrow> cstr list option \<Rightarrow> bool \<times> 's \<Rightarrow> (bool \<times> 's) res" where
  "php_load_scripts opens run scripts st =
     (case scripts of None \<Rightarrow> Ok st | Some cells \<Rightarrow> tcl_run_files (myphp_eval_file opens run) cells st)"

section \<open>What is shown\<close>

lemma on_network_Ok:
  assumes "on_network same types needed f z vs b = Some (Ok (v, b'))"
  shows "v = Z_false \<and> b' = b \<or> (\<exists>ps i. f ps i b = Some (Ok (v, b')))"
proof (cases "zend_parse_parameters z types needed vs")
  case None
  then show ?thesis using assms by (simp add: on_network_def)
next
  case (Some ps)
  then obtain name m where "(case m of None \<Rightarrow> Some (Ok (Z_false, b)) | Some i \<Rightarrow> f ps i b) = Some (Ok (v, b'))"
    using assms by (auto simp: on_network_def obind_Ok_iff)
  then show ?thesis by (cases m) auto
qed

text \<open>A name that no network has makes every function on a network fail and change nothing.\<close>

lemma php_find_none:
  assumes "\<forall>n \<in> set ns. \<exists>l. n_label n = Some l \<and> \<not> same_name l name"
  shows "php_find cased name ns = Ok None" and "php_find strcmp_p name ns = Ok None"
proof -
  show "php_find cased name ns = Ok None" using assms by (induction ns) (auto simp: cased_def same_name_def)
  have "\<not> same_name l name \<Longrightarrow> l \<noteq> name" for l by auto
  then show "php_find strcmp_p name ns = Ok None" using assms by (induction ns) (auto simp: strcmp_p_def deref_def)
qed

lemma on_network_unknown:
  assumes "\<forall>n \<in> set (dl_from (networks (b_cfg b))). \<exists>l. n_label n = Some l \<and> \<not> same_name l name"
    and "zend_parse_parameters z types needed vs = Some (Zp_s name # ps)" and "same \<in> {cased, strcmp_p}"
  shows "on_network same types needed f z vs b = Some (Ok (Z_false, b))"
  using php_find_none [OF assms(1)] assms(2,3) by (auto simp: on_network_def zs_def php_net_def Let_def)

text \<open>A question without a channel reads a variable that was never set.\<close>

lemma php_ban_without_channel:
  assumes "php_net cased name b = Ok (Some i)" and "z_string z v = Some name" and "z_string z w = Some ban"
  shows "php_ban_question f z [v, w] b = Some (Fault Uninitialised)"
  using assms by (simp add: php_ban_question_def on_network_def zend_parse_parameters_def zend_one_def zs_def)

lemma php_adduser_asks: "php_adduser z env vs b = Some (Ok (v, b')) \<Longrightarrow> b' = b"
  unfolding php_adduser_def php_ban_question_def
  by (drule on_network_Ok) (auto simp: obind_Ok_iff php_return_def)

text \<open>The words of a call on a channel differ from those in Tcl only in the network and the handle.\<close>

lemma php_and_tcl_words:
  assumes "t_type u = TRIG_PUB" and "tcl_words u msg = Ok (Some [f, n, h, n', ch, a])" and "n_label net = Some l"
  shows "php_words net u msg dcc line = Ok (Some (f, map Z_string [l, n, h, ''*'', ch, a]))"
proof -
  obtain data where d: "t_cmd u = Some f" "msg = Some data" "words_pub data u = Ok [n, h, n', ch, a]"
    using assms(1,2) by (cases "t_cmd u"; cases msg) (auto simp: tcl_words_def tcl_call_def rbind_Ok_iff)
  then obtain ws where w: "tcl_sender data = Ok ws" "tcl_param data = Ok ch" "tcl_arg data u = Ok a" "ws = [n, h, n']"
    by (auto simp: words_pub_def rbind_Ok_iff)
  obtain p where p: "prefix_of data = Some p" "pnick p = Some n" "phost p = Some h"
    using w(1,4) by (auto simp: tcl_sender_def rbind_Ok_iff deref_def split: option.splits)
  obtain c where c: "arr_get (c_params data) 0 = Ok (Some c)" "c = ch"
    using w(2) by (auto simp: tcl_param_def rbind_Ok_iff deref_def split: option.splits)
  show ?thesis using d p c w(3) assms(1,3) by (simp add: php_words_def php_pub_def php_sender_def zval_string_def Let_def)
qed

end
