(* ===== verification/Python_Lib.thy ===== *)
theory Python_Lib
  imports Php_Lib
begin

text \<open>
  Scripts in Python: the functions of the module \<open>trollbot\<close>, \<^verbatim>\<open>src/src/python_lib.c\<close>, and the calls of functions in
  \<^verbatim>\<open>python_embed.c\<close>. A network is passed as an object with a pointer to it. The interpreter is an argument.
\<close>

section \<open>Arguments\<close>

text \<open>
  Of \<open>PyArg_ParseTuple\<close> are used the formats \<open>O\<close>, \<open>s\<close> and \<open>i\<close>; it fails unless there is one argument for each letter that can be
  converted. \<open>PyCObject_AsVoidPtr\<close> gives the pointer of an object that was made for one, and NULL for others.
\<close>

datatype pyval = Py_net nat | Py_str string | Py_num int | Py_other

datatype pyparam = Pp_O pyval | Pp_s string | Pp_i int

record pylib =
  py_string :: "pyval \<Rightarrow> string option"
  py_number :: "pyval \<Rightarrow> int option"

definition py_one :: "pylib \<Rightarrow> char \<Rightarrow> pyval \<Rightarrow> pyparam option" where
  "py_one py c v =
     (if c = CHR ''O'' then Some (Pp_O v) else if c = CHR ''s'' then map_option Pp_s (py_string py v) else map_option Pp_i (py_number py v))"

fun py_parse :: "pylib \<Rightarrow> string \<Rightarrow> pyval list \<Rightarrow> pyparam list option" where
  "py_parse py [] vs = (if vs = [] then Some [] else None)"
| "py_parse py (c # cs) [] = None"
| "py_parse py (c # cs) (v # vs) = Option.bind (py_one py c v) (\<lambda>p. map_option ((#) p) (py_parse py cs vs))"

definition as_pointer :: "pyparam \<Rightarrow> nat option" where
  "as_pointer p = (case p of Pp_O (Py_net i) \<Rightarrow> Some i | _ \<Rightarrow> None)"

definition as_string :: "pyparam \<Rightarrow> string" where
  "as_string p = (case p of Pp_s s \<Rightarrow> s | _ \<Rightarrow> [])"

definition as_number :: "pyparam \<Rightarrow> int" where
  "as_number p = (case p of Pp_i n \<Rightarrow> n | _ \<Rightarrow> 0)"

section \<open>Functions\<close>

text \<open>True or False goes back to the script.\<close>

type_synonym py_answer = "(bool \<times> bot) res option"

type_synonym py_function = "pylib \<Rightarrow> env \<Rightarrow> pyval list \<Rightarrow> bot \<Rightarrow> py_answer"

definition py_return :: "bool \<Rightarrow> bot \<Rightarrow> py_answer" where
  "py_return v b = Some (Ok (v, b))"

definition py_on_network :: "string \<Rightarrow> (pyparam list \<Rightarrow> nat \<Rightarrow> bot \<Rightarrow> py_answer) \<Rightarrow> pylib \<Rightarrow> pyval list \<Rightarrow> bot \<Rightarrow> py_answer" where
  "py_on_network types f py vs b =
     (case py_parse py types vs of
        None \<Rightarrow> py_return False b
      | Some ps \<Rightarrow> (case as_pointer (ps ! 0) of None \<Rightarrow> py_return False b | Some i \<Rightarrow> f ps i b))"

definition py_change :: "nat \<Rightarrow> network res \<Rightarrow> bot \<Rightarrow> py_answer" where
  "py_change i r b = obind (Some r) (\<lambda>n. py_return True (put_net i n b))"

definition py_unbind :: py_function where
  "py_unbind py env vs b = py_on_network ''Ossss'' (\<lambda>ps i b.
     py_change i (rbind (egg_unbind (net_at i b) (as_string (ps ! 1)) (Some (as_string (ps ! 2))) (Some (as_string (ps ! 3)))
       (Some (as_string (ps ! 4)))) (\<lambda>(m, n). Ok n)) b) py vs b"

definition py_savechannels :: py_function where
  "py_savechannels py env vs b = py_on_network ''O'' (\<lambda>ps i b.
     obind (egg_savechannels (b_cfg b) (e_writable env) (Some (net_at i b))) (\<lambda>w. py_return True (b\<lparr>b_writes := b_writes b @ w\<rparr>))) py vs b"

definition py_validuser :: py_function where
  "py_validuser py env vs b = py_on_network ''Os'' (\<lambda>ps i b.
     obind (Some (egg_validuser (net_at i b) (Some (as_string (ps ! 1))))) (\<lambda>r. py_return (r \<noteq> 0) b)) py vs b"

definition py_handler_of :: handler where
  "py_handler_of = Script 3"

definition py_bind :: py_function where
  "py_bind py env vs b = py_on_network ''Ossss'' (\<lambda>ps i b.
     obind (Some (egg_bind (net_at i b) (as_string (ps ! 1)) (Some (as_string (ps ! 2))) (Some (as_string (ps ! 3)))
       (Some (as_string (ps ! 4))) (Some py_handler_of))) (\<lambda>(r, n). py_return (r \<noteq> None) (put_net i n b))) py vs b"

text \<open>The texts are taken for formats, also that which \<open>snprintf\<close> has made.\<close>

definition py_putserv :: py_function where
  "py_putserv py env vs b = py_on_network ''Os'' (\<lambda>ps i b.
     py_change i (rbind (fmt_text (as_string (ps ! 1))) (tsocket_printf (net_at i b))) b) py vs b"

definition py_privmsg :: py_function where
  "py_privmsg py env vs b = py_on_network ''Oss'' (\<lambda>ps i b.
     let raw_msg = take 508 (''PRIVMSG '' @ as_string (ps ! 1) @ '' :'' @ as_string (ps ! 2)) in
     py_change i (rbind (fmt_text raw_msg) (tsocket_printf (net_at i b))) b) py vs b"

definition py_troll_debug :: py_function where
  "py_troll_debug py env vs b = py_on_network ''Ois'' (\<lambda>ps i b.
     obind (Some (fmt_text (take 2046 (''[python-script] '' @ as_string (ps ! 2))))) (\<lambda>s. py_return True b)) py vs b"

definition PyTbMethods :: "(string \<times> py_function) list" where
  "PyTbMethods =
     [(''unbind'', py_unbind), (''savechannels'', py_savechannels), (''validuser'', py_validuser), (''bind'', py_bind),
      (''putserv'', py_putserv), (''log'', py_troll_debug), (''privmsg'', py_privmsg)]"

section \<open>Calls\<close>

text \<open>
  The arguments are entries of a dictionary; \<open>PyString_FromString\<close> reads the string. The function \<open>__TB_call_method\<close> of the module that
  is part of the bot gets the network, the name of the procedure and the dictionary.
\<close>

type_synonym pydict = "string \<rightharpoonup> string"

definition PY_DICT_ADD :: "string \<Rightarrow> cstr \<Rightarrow> pydict \<Rightarrow> pydict res" where
  "PY_DICT_ADD k v d = rbind (deref v) (\<lambda>s. Ok (d(k \<mapsto> s)))"

definition py_nick :: "irc_data \<Rightarrow> pydict \<Rightarrow> pydict res" where
  "py_nick data d = rbind (deref (prefix_of data)) (\<lambda>p. PY_DICT_ADD ''user_nick'' (pnick p) d)"

definition py_host :: "irc_data \<Rightarrow> pydict \<Rightarrow> pydict res" where
  "py_host data d = rbind (deref (prefix_of data)) (\<lambda>p. PY_DICT_ADD ''user_host'' (phost p) d)"

definition py_param :: "string \<Rightarrow> irc_data \<Rightarrow> pydict \<Rightarrow> pydict res" where
  "py_param k data d = rbind (arr_get (c_params data) 0) (\<lambda>c. PY_DICT_ADD k c d)"

definition py_text :: "irc_data \<Rightarrow> pydict \<Rightarrow> pydict res" where
  "py_text data d = PY_DICT_ADD ''text'' (rest_str data) d"

definition py_makearg :: "irc_data \<Rightarrow> trigger \<Rightarrow> pydict \<Rightarrow> pydict res" where
  "py_makearg data trig d = rbind (tcl_arg data trig) (\<lambda>s. PY_DICT_ADD ''text'' (Some s) d)"

fun py_entries :: "(pydict \<Rightarrow> pydict res) list \<Rightarrow> pydict \<Rightarrow> pydict res" where
  "py_entries [] d = Ok d"
| "py_entries (f # fs) d = rbind (f d) (py_entries fs)"

text \<open>The entries of each type; the others call nothing.\<close>

definition py_words :: "trigger \<Rightarrow> irc_data \<Rightarrow> (pydict \<Rightarrow> pydict res) list option" where
  "py_words trig data =
     (case t_type trig of
        TRIG_PUB \<Rightarrow> Some [py_nick data, py_host data, py_param ''channel'' data, py_makearg data trig]
      | TRIG_PUBM \<Rightarrow> Some [py_nick data, py_nick data, py_host data, py_param ''channel'' data, py_text data]
      | TRIG_TOPC \<Rightarrow> Some [py_nick data, py_nick data, py_host data, py_param ''channel'' data, py_text data]
      | TRIG_MSG \<Rightarrow> Some [py_nick data, py_nick data, py_makearg data trig]
      | TRIG_MSGM \<Rightarrow> Some [py_nick data, py_nick data, py_text data]
      | TRIG_NOTC \<Rightarrow> Some [py_nick data, py_host data, py_text data, py_param ''dest'' data]
      | _ \<Rightarrow> None)"

type_synonym py_engine = "string \<Rightarrow> pydict \<Rightarrow> network \<Rightarrow> network res"

text \<open>The name of the procedure and the label of the network are read for every type, the message only for those with a call.\<close>

definition py_handler :: "py_engine \<Rightarrow> network \<Rightarrow> trigger \<Rightarrow> irc_data option \<Rightarrow> network res" where
  "py_handler engine net trig msg =
     rbind (deref (t_cmd trig)) (\<lambda>proc.
     rbind (py_entries [PY_DICT_ADD ''network'' (n_label net), PY_DICT_ADD ''handle'' (Some ''*'')] Map.empty) (\<lambda>d.
       if t_type trig \<notin> {TRIG_PUB, TRIG_PUBM, TRIG_TOPC, TRIG_MSG, TRIG_MSGM, TRIG_NOTC} then Ok net
       else rbind (deref msg) (\<lambda>data.
         case py_words trig data of
           None \<Rightarrow> Ok net
         | Some fs \<Rightarrow> rbind (py_entries fs d) (\<lambda>d'. engine proc d' net))))"

text \<open>The scripts of the networks, each loaded for its network by a function of the same module.\<close>

fun python_load_scripts :: "(nat \<Rightarrow> string \<Rightarrow> 's \<Rightarrow> 's res) \<Rightarrow> nat \<Rightarrow> cstr list option list \<Rightarrow> 's \<Rightarrow> 's res" where
  "python_load_scripts load_module i [] s = Ok s"
| "python_load_scripts load_module i (scripts # nets) s =
     rbind (case scripts of None \<Rightarrow> Ok s | Some cells \<Rightarrow> tcl_run_files (load_module i) cells s) (python_load_scripts load_module (i + 1) nets)"

section \<open>What is shown\<close>

text \<open>Arguments that do not fit, or something else than a network, change nothing.\<close>

lemma py_refuses:
  assumes "(name, f) \<in> set PyTbMethods" and "vs = [] \<or> as_pointer (Pp_O (hd vs)) = None"
  shows "f py env vs b = Some (Ok (False, b))"
proof -
  have o: "py_one py (CHR ''O'') v = Some (Pp_O v)" for v by (simp add: py_one_def)
  have "py_on_network (CHR ''O'' # cs) g py vs b = Some (Ok (False, b))" for cs g
    using assms(2) by (cases vs) (auto simp: py_on_network_def py_return_def o split: option.splits)
  then show ?thesis
    using assms(1) by (auto simp: PyTbMethods_def py_unbind_def py_savechannels_def py_validuser_def py_bind_def py_putserv_def
        py_privmsg_def py_troll_debug_def)
qed

text \<open>What a procedure gets for a message on a channel.\<close>

lemma py_pub_dict:
  assumes "t_type u = TRIG_PUB" and "t_cmd u = Some proc" and "t_mask u = Some m" and "pnick p = Some n" and "phost p = Some h"
    and "words \<noteq> []" and "join_blank words = m @ arg" and "n_label net = Some l"
  shows "py_handler engine net u (Some (message p cmd [ch] words)) =
    engine proc [''network'' \<mapsto> l, ''handle'' \<mapsto> ''*'', ''user_nick'' \<mapsto> n, ''user_host'' \<mapsto> h, ''channel'' \<mapsto> ch,
      ''text'' \<mapsto> dropWhile (\<lambda>c. c = SPC \<or> c = TAB) arg] net"
  using assms
  by (simp add: py_handler_def py_words_def py_nick_def py_host_def py_param_def py_makearg_def PY_DICT_ADD_def tcl_arg_def troll_makearg_def
      opt_list_def arr_get_def)

text \<open>A private message never tells the host, nor does any handler look at JOIN, PART and the like.\<close>

lemma py_msg_without_host:
  assumes "t_type u = TRIG_MSGM" and "py_handler (\<lambda>f d net. if d ''user_host'' = None then Ok net else Fault ExitFailure) net u msg = r"
    and "r \<noteq> Fault NullDeref"
  shows "r = Ok net"
  using assms by (auto simp: py_handler_def py_words_def py_nick_def py_text_def PY_DICT_ADD_def deref_def split: option.splits)

end
