(* ===== verification/Scripts.thy ===== *)
theory Scripts
  imports Python_Lib
begin

text \<open>
  A bot with scripts in all four languages: which handler a binding leads to, and what a procedure is called with. The interpreters
  are arguments, and so are the conversions of their values.
\<close>

section \<open>The handlers\<close>

text \<open>A trigger has the handler of the language in which it was bound; the session is NULL for a message.\<close>

definition scripts_env :: "tcl_interp \<Rightarrow> js_engine \<Rightarrow> (php_call \<Rightarrow> network \<Rightarrow> network res) \<Rightarrow> py_engine \<Rightarrow> env \<Rightarrow> env" where
  "scripts_env tcl js php py env = env\<lparr>e_script := (\<lambda>k trig data j line net.
     let dcc = map_option (session_at net) j in
     if k = 0 then tcl_handler tcl net trig data
     else if k = 1 then js_handler js True net trig data dcc
     else if k = 2 then php_handler php net trig data dcc line
     else if k = 3 then py_handler py net trig data
     else Ok net)\<rparr>"

section \<open>What every language does\<close>

text \<open>
  The part of a language that \<open>bind\<close> and the handlers rely on: a word that nobody has bound is bound to the handler number \<open>k\<close>, and that handler
  calls the procedure with the parts of the message. \<open>known\<close> is what the arguments of \<open>bind\<close> must be for that.
\<close>

definition text_behind :: "string \<Rightarrow> string" where
  "text_behind arg = dropWhile (\<lambda>c. c = SPC \<or> c = TAB) arg"

definition new_word :: "string \<Rightarrow> network \<Rightarrow> bool" where
  "new_word m net = (\<forall>t \<in> set (dl_from (tt_pub (trigs net))). \<exists>m'. t_mask t = Some m' \<and> \<not> same_name m' m)"

lemma same_label: "net'\<lparr>trigs := tt\<rparr> = net \<Longrightarrow> n_label net' = n_label net"
  by auto

locale script_language =
  fixes i k :: nat and label :: cstr and known :: "bot \<Rightarrow> bool"
    and bind :: "string \<Rightarrow> string \<Rightarrow> string \<Rightarrow> bot \<Rightarrow> 'r res option" and answer :: "string \<Rightarrow> bot \<Rightarrow> 'r"
    and handler :: "network \<Rightarrow> trigger \<Rightarrow> irc_data option \<Rightarrow> network res"
    and call :: "string \<Rightarrow> string \<Rightarrow> string \<Rightarrow> string \<Rightarrow> string \<Rightarrow> network \<Rightarrow> network res"
  assumes binds: "known b \<Longrightarrow> new_word m (net_at i b) \<Longrightarrow>
      bind flags m proc b = Some (Ok (answer proc (put_net i (bound_word (Script k) m proc (net_at i b)) b)))"
    and calls: "t_type u = TRIG_PUB \<Longrightarrow> t_cmd u = Some proc \<Longrightarrow> t_mask u = Some m \<Longrightarrow> pnick p = Some n \<Longrightarrow> phost p = Some h \<Longrightarrow>
      words \<noteq> [] \<Longrightarrow> join_blank words = m @ arg \<Longrightarrow> n_label net = label \<Longrightarrow>
      handler net u (Some (message p cmd [ch] words)) = call proc n h ch (text_behind arg) net"
begin

lemma procedure_called:
  assumes "has_net i b" and "\<not> b_exited b" and "nick (net_at i b) = Some me" and "botnick (net_at i b) = Some bn"
    and "message_ok me p ''PRIVMSG'' [ch] words" and ws: "words \<noteq> []" and "lower ch \<noteq> lower bn"
    and said: "join_blank words = m @ arg" and sender: "pnick p = Some n" "phost p = Some h"
    and pubs: "\<forall>t \<in> set (dl_from (tt_pub (trigs (net_at i b)))). \<exists>m'. t_mask t = Some m' \<and> \<not> same_name m' m \<and> take (length m') (join_blank words) \<noteq> m'"
    and pubms: "\<forall>t \<in> set (dl_from (tt_pubm (trigs (net_at i b)))). troll_matchwilds (Some (join_blank words)) (t_mask t) \<noteq> 0"
    and label: "n_label (net_at i b) = label" and known: "known b"
    and env: "\<And>u data net. e_script env k u (Some data) None [] net = handler net u (Some data)"
  shows "\<exists>b' net'. bind flags m proc b = Some (Ok (answer proc b')) \<and> net'\<lparr>trigs := trigs (net_at i b)\<rparr> = net_at i b \<and>
    parse_irc_line env i (message_line p ''PRIVMSG'' [ch] words) b' = on_net i b (call proc n h ch (text_behind arg) net')"
proof -
  obtain net' u where net': "net'\<lparr>trigs := trigs (net_at i b)\<rparr> = net_at i b" and u: "t_type u = TRIG_PUB" "t_cmd u = Some proc" "t_mask u = Some m"
    and line: "parse_irc_line env i (message_line p ''PRIVMSG'' [ch] words) (put_net i (bound_word (Script k) m proc (net_at i b)) b) =
      on_net i b (e_script env k u (Some (message p ''PRIVMSG'' [ch] words)) None [] net')"
    using bound_word_called [OF assms(1-8) pubs pubms] by blast
  have "n_label net' = label" using same_label [OF net'] label by simp
  then have "e_script env k u (Some (message p ''PRIVMSG'' [ch] words)) None [] net' = call proc n h ch (text_behind arg) net'"
    using calls [OF u sender ws said] env by simp
  moreover have "new_word m (net_at i b)" unfolding new_word_def using pubs by blast
  ultimately show ?thesis using binds [OF known] line net' by auto
qed

end

section \<open>The four languages\<close>

interpretation tcl_script: script_language i 0 label "\<lambda>b. True" "\<lambda>flags m proc. tcl_bind lib env i [w, ''pub'', flags, m, proc]"
  "\<lambda>proc b. (TCL_OK, Empty_result, b)" "tcl_handler interp"
  "\<lambda>proc n h ch text net. rbind (interp [proc, n, h, n, ch, text] net) (\<lambda>(code, res, net'). Ok net')" for i label lib env w interp
  by unfold_locales (simp_all add: tcl_bind_pub new_word_def tcl_handler_def tcl_words_pub text_behind_def flip: tcl_handler_of_def)

interpretation js_script: script_language i 1 label "\<lambda>b. \<forall>s. js_text lib (Js_string (Some s)) = s"
  "\<lambda>flags m proc. js_bind lib env i (map (\<lambda>s. Js_string (Some s)) [''pub'', flags, m, proc])"
  "\<lambda>proc b. (JS_TRUE (Js_string (Some proc)), b)" "\<lambda>net trig data. js_handler js True net trig data dcc"
  "\<lambda>proc n h ch text. js (Some proc, map (\<lambda>s. Js_string (Some s)) [n, h, ''*'', ch, text])" for i label lib env js dcc
proof unfold_locales
  show "js_bind lib env i (map (\<lambda>s. Js_string (Some s)) [''pub'', flags, m, proc]) b =
      Some (Ok (JS_TRUE (Js_string (Some proc)), put_net i (bound_word (Script 1) m proc (net_at i b)) b))"
    if "\<forall>s. js_text lib (Js_string (Some s)) = s" "new_word m (net_at i b)" for b m flags proc
    using that egg_bind_pub [of "net_at i b" m]
    by (simp add: js_bind_def js_str_def js_arg_def js_handler_of_def js_true_def new_word_def Let_def numeral_eq_Suc)
  have one: "rbind (js c net) Ok = js c net" for c net by (cases "js c net") simp_all
  show "js_handler js True net u (Some (message p cmd [ch] words)) dcc =
      js (Some proc, map (\<lambda>s. Js_string (Some s)) [n, h, ''*'', ch, text_behind arg]) net"
    if "t_type u = TRIG_PUB" "t_cmd u = Some proc" "t_mask u = Some m" "pnick p = Some n" "phost p = Some h" "words \<noteq> []" "join_blank words = m @ arg"
    for u proc m p n h words arg net cmd ch
    using that by (simp add: js_handler_def js_calls_def js_pub_def js_sender_def js_param_def js_makearg_def tcl_arg_def troll_makearg_def
        opt_list_def arr_get_def one text_behind_def cong: rbind_cong)
qed

interpretation php_script: script_language i 2 "Some l" "\<lambda>b. (\<forall>s. z_string z (Z_string s) = Some s) \<and> php_net strcmp_p l b = Ok (Some i)"
  "\<lambda>flags m proc. php_bind z env (map Z_string [l, ''pub'', flags, m, proc])" "\<lambda>proc b. (Z_true, b)"
  "\<lambda>net trig data. php_handler php net trig data dcc line" "\<lambda>proc n h ch text. php (proc, map Z_string [l, n, h, ''*'', ch, text])" for i l z env php dcc line
proof unfold_locales
  show "php_bind z env (map Z_string [l, ''pub'', flags, m, proc]) b = Some (Ok (Z_true, put_net i (bound_word (Script 2) m proc (net_at i b)) b))"
    if "(\<forall>s. z_string z (Z_string s) = Some s) \<and> php_net strcmp_p l b = Ok (Some i)" "new_word m (net_at i b)" for b m flags proc
    using that egg_bind_pub [of "net_at i b" m]
    by (simp add: php_bind_def on_network_def zend_parse_parameters_def zend_one_def zs_def php_handler_of_def php_return_def new_word_def numeral_eq_Suc)
  show "php_handler php net u (Some (message p cmd [ch] words)) dcc line = php (proc, map Z_string [l, n, h, ''*'', ch, text_behind arg]) net"
    if "t_type u = TRIG_PUB" "t_cmd u = Some proc" "t_mask u = Some m" "pnick p = Some n" "phost p = Some h" "words \<noteq> []" "join_blank words = m @ arg"
      "n_label net = Some l" for u proc m p n h words arg net cmd ch
    using php_and_tcl_words [OF that(1) tcl_words_pub [OF that(1-7)] that(8)] by (simp add: php_handler_def text_behind_def)
qed

interpretation py_script: script_language i 3 "Some l" "\<lambda>b. \<forall>s. py_string lib (Py_str s) = Some s"
  "\<lambda>flags m proc. py_bind lib env (Py_net i # map Py_str [''pub'', flags, m, proc])" "\<lambda>proc b. (True, b)" "py_handler py"
  "\<lambda>proc n h ch text. py proc [''network'' \<mapsto> l, ''handle'' \<mapsto> ''*'', ''user_nick'' \<mapsto> n, ''user_host'' \<mapsto> h, ''channel'' \<mapsto> ch, ''text'' \<mapsto> text]"
  for i l lib env py
proof unfold_locales
  show "py_bind lib env (Py_net i # map Py_str [''pub'', flags, m, proc]) b = Some (Ok (True, put_net i (bound_word (Script 3) m proc (net_at i b)) b))"
    if "\<forall>s. py_string lib (Py_str s) = Some s" "new_word m (net_at i b)" for b m flags proc
    using that egg_bind_pub [of "net_at i b" m]
    by (simp add: py_bind_def py_on_network_def py_one_def as_pointer_def as_string_def py_handler_of_def py_return_def new_word_def numeral_eq_Suc)
qed (simp add: py_pub_dict text_behind_def)

text \<open>In a bot with all four each trigger reaches its own.\<close>

lemma scripts_env_handlers:
  "e_script (scripts_env tcl js php py env) 0 u data None line net = tcl_handler tcl net u data"
  "e_script (scripts_env tcl js php py env) 1 u data None line net = js_handler js True net u data None"
  "e_script (scripts_env tcl js php py env) 2 u data None line net = php_handler php net u data None line"
  "e_script (scripts_env tcl js php py env) 3 u data None line net = py_handler py net u data"
  by (simp_all add: scripts_env_def)

end
