(* ===== verification/Tsocket.thy ===== *)
theory Tsocket
  imports Network
begin

text \<open>
  \<^verbatim>\<open>src/src/tsocket.c\<close>: sockets with callbacks, and the part of the select loop of \<^verbatim>\<open>src/src/sockets.c\<close> that
  serves them. What the operating system answers is an argument. A callback works on the socket and on the
  state of who owns it.
\<close>

section \<open>Sockets\<close>

datatype tsocket_status =
    TSOCK_IGNORE | TSOCK_DISCONNECTED | TSOCK_UNINITIALIZED | TSOCK_NOTINFDSET | TSOCK_INFDSET
  | TSOCK_LISTENER | TSOCK_CONNECTING

record tsocket =
  ts_name :: cstr
  ts_sock :: int
  ts_status :: tsocket_status
  ts_save_status :: tsocket_status
  last_attempt :: int
  retry_limit :: int
  retry_amount :: int
  retry_wait :: int

text \<open>
  What a callback gives: its result with the socket and the state. The one for a lost connection may
  free the socket.
\<close>

record 's callbacks =
  read_cb :: "(recv_result \<Rightarrow> tsocket \<times> 's \<Rightarrow> (int \<times> tsocket \<times> 's) res option) option"
  write_cb :: "(tsocket \<times> 's \<Rightarrow> (int \<times> tsocket \<times> 's) res option) option"
  connect_cb :: "('s \<Rightarrow> 's res) option"
  disconnect_cb :: "(tsocket \<times> 's \<Rightarrow> (tsocket option \<times> 's) res option) option"

definition tsocket_new :: tsocket where
  "tsocket_new =
     \<lparr>ts_name = None, ts_sock = -1, ts_status = TSOCK_UNINITIALIZED, ts_save_status = TSOCK_UNINITIALIZED,
      last_attempt = 0, retry_limit = 0, retry_amount = 0, retry_wait = 0\<rparr>"

definition tsocket_close :: "tsocket \<Rightarrow> tsocket" where
  "tsocket_close t =
     (if ts_sock t \<noteq> -1 then t\<lparr>ts_status := TSOCK_UNINITIALIZED, ts_sock := -1\<rparr> else t)"

definition call_connect_cb :: "'s callbacks \<Rightarrow> 's \<Rightarrow> 's res" where
  "call_connect_cb cbs s = (case connect_cb cbs of None \<Rightarrow> Ok s | Some f \<Rightarrow> f s)"

section \<open>Connecting and listening\<close>

text \<open>
  The answers of the system: a descriptor (\<open>-1\<close> if there is none), the address of a name, whether a
  socket can be bound and listened on, what \<open>connect\<close> does, and the time. A port goes through
  \<open>htons\<close>, which takes 16 bits.
\<close>

record os =
  os_socket :: int
  os_options :: bool
  os_resolve :: "string \<Rightarrow> cstr"
  os_bind :: "cstr \<Rightarrow> 16 word \<Rightarrow> bool"
  os_listen :: bool
  os_connect :: "string \<Rightarrow> 16 word \<Rightarrow> conn"
  os_now :: int

definition htons :: "int \<Rightarrow> 16 word" where
  "htons port = word_of_int port"

text \<open>A listener without a name, or with one that is not known, listens on all addresses.\<close>

definition tsocket_listen :: "os \<Rightarrow> tsocket \<Rightarrow> cstr \<Rightarrow> int \<Rightarrow> int \<times> tsocket" where
  "tsocket_listen os t hostname port =
     (let t' = t\<lparr>ts_sock := os_socket os\<rparr> in
      if os_socket os = -1 \<or> \<not> os_options os \<or> \<not> os_bind os (Option.bind hostname (os_resolve os)) (htons port) \<or>
         \<not> os_listen os then (0, t')
      else (1, t'\<lparr>ts_status := TSOCK_LISTENER\<rparr>))"

definition tsocket_connect ::
  "os \<Rightarrow> 's callbacks \<Rightarrow> tsocket \<times> 's \<Rightarrow> cstr \<Rightarrow> string \<Rightarrow> int \<Rightarrow> (int \<times> tsocket \<times> 's) res" where
  "tsocket_connect os cbs ts from_hostname to_hostname port =
     (let t = (fst ts)\<lparr>ts_sock := os_socket os\<rparr>; s = snd ts;
          bound = (case from_hostname of
                     None \<Rightarrow> True
                   | Some h \<Rightarrow> (case os_resolve os h of None \<Rightarrow> False | Some ip \<Rightarrow> os_bind os (Some ip) (htons 0))) in
      if os_socket os = -1 \<or> \<not> bound then Ok (0, t, s)
      else case os_resolve os to_hostname of
             None \<Rightarrow> Ok (0, t, s)
           | Some ip \<Rightarrow>
               (case os_connect os ip (htons port) of
                  ConnFailed \<Rightarrow> Ok (0, t, s)
                | ConnNow \<Rightarrow> rbind (call_connect_cb cbs s) (\<lambda>s'. Ok (1, t\<lparr>ts_status := TSOCK_NOTINFDSET\<rparr>, s'))
                | ConnPending \<Rightarrow> Ok (1, t\<lparr>last_attempt := os_now os, ts_status := TSOCK_CONNECTING\<rparr>, s)))"

text \<open>
  \<open>getsockopt\<close> for the outcome of a pending connection: it may fail (\<open>None\<close>), and 0 is success.
\<close>

definition tsocket_check_nonblocking_connect ::
  "'s callbacks \<Rightarrow> int option \<Rightarrow> tsocket \<times> 's \<Rightarrow> (int \<times> tsocket \<times> 's) res" where
  "tsocket_check_nonblocking_connect cbs valopt ts =
     (let t = fst ts; s = snd ts in
      if ts_status t \<noteq> TSOCK_CONNECTING then Ok (0, t, s)
      else if valopt \<noteq> Some 0 then Ok (0, t\<lparr>ts_sock := -1, ts_status := TSOCK_UNINITIALIZED\<rparr>, s)
      else rbind (call_connect_cb cbs s) (\<lambda>s'. Ok (1, t\<lparr>ts_status := TSOCK_NOTINFDSET\<rparr>, s')))"

text \<open>The list of sockets and what it frees: the sockets, in order.\<close>

definition tsockets_free :: "tsocket slist option \<Rightarrow> tsocket list" where
  "tsockets_free tsockets = (case tsockets of None \<Rightarrow> [] | Some l \<Rightarrow> map snd (sl_nodes l))"

section \<open>The select loop\<close>

text \<open>
  \<open>FD_SET\<close> and \<open>FD_ISSET\<close> index a bit set of 1024 bits. Before \<open>select\<close> a socket goes into one of the
  two sets, or into none.
\<close>

definition in_fd_set :: "int \<Rightarrow> bool" where
  "in_fd_set s \<longleftrightarrow> 0 \<le> s \<and> s < 1024"

datatype fd_set = Reads | Writes

definition tsocket_prepare :: "tsocket \<Rightarrow> (fd_set option \<times> tsocket) res" where
  "tsocket_prepare t =
     (if ts_status t = TSOCK_CONNECTING then (if in_fd_set (ts_sock t) then Ok (Some Writes, t) else Fault OutOfBounds)
      else if ts_status t = TSOCK_INFDSET \<or> ts_status t = TSOCK_NOTINFDSET then
        (if in_fd_set (ts_sock t) then Ok (Some Reads, t\<lparr>ts_status := TSOCK_INFDSET\<rparr>) else Fault OutOfBounds)
      else Ok (None, t))"

text \<open>What \<open>select\<close> says about a socket, and what is read from it or known about its connection.\<close>

record fd_event =
  fd_readable :: "int \<Rightarrow> bool"
  fd_writable :: "int \<Rightarrow> bool"
  fd_recv :: recv_result
  fd_valopt :: "int option"

definition fd_isset :: "(int \<Rightarrow> bool) \<Rightarrow> int \<Rightarrow> bool res" where
  "fd_isset f s = (if in_fd_set s then Ok (f s) else Fault OutOfBounds)"

definition call_disconnect_cb :: "'s callbacks \<Rightarrow> tsocket \<times> 's \<Rightarrow> (tsocket option \<times> 's) res option" where
  "call_disconnect_cb cbs ts = (case disconnect_cb cbs of None \<Rightarrow> Some (Fault NullDeref) | Some f \<Rightarrow> f ts)"

text \<open>A callback, and the one for a lost connection if it gives 0.\<close>

definition or_disconnect ::
  "'s callbacks \<Rightarrow> (int \<times> tsocket \<times> 's) res option \<Rightarrow> (tsocket option \<times> 's) res option" where
  "or_disconnect cbs m =
     obind m (\<lambda>(r, t, s). if r = 0 then call_disconnect_cb cbs (t, s) else Some (Ok (Some t, s)))"

definition serve_read :: "'s callbacks \<Rightarrow> fd_event \<Rightarrow> tsocket \<times> 's \<Rightarrow> (tsocket option \<times> 's) res option" where
  "serve_read cbs ev ts =
     obind (Some (fd_isset (fd_readable ev) (ts_sock (fst ts)))) (\<lambda>b.
       case read_cb cbs of
         None \<Rightarrow> Some (Ok (Some (fst ts), snd ts))
       | Some f \<Rightarrow>
           if b then or_disconnect cbs (f (fd_recv ev) ts) else Some (Ok (Some (fst ts), snd ts)))"

definition serve_write :: "'s callbacks \<Rightarrow> fd_event \<Rightarrow> tsocket \<times> 's \<Rightarrow> (tsocket option \<times> 's) res option" where
  "serve_write cbs ev ts =
     obind (Some (fd_isset (fd_writable ev) (ts_sock (fst ts)))) (\<lambda>b.
       case write_cb cbs of
         None \<Rightarrow> Some (Ok (Some (fst ts), snd ts))
       | Some f \<Rightarrow> if b then or_disconnect cbs (f ts) else Some (Ok (Some (fst ts), snd ts)))"

text \<open>After \<open>select\<close>. The socket is read again after the first callback, even if it was freed.\<close>

definition tsocket_serve :: "'s callbacks \<Rightarrow> fd_event \<Rightarrow> tsocket \<times> 's \<Rightarrow> (tsocket option \<times> 's) res option" where
  "tsocket_serve cbs ev ts =
     (if ts_status (fst ts) = TSOCK_CONNECTING then
        obind (Some (fd_isset (fd_writable ev) (ts_sock (fst ts)))) (\<lambda>b.
          if b then obind (Some (tsocket_check_nonblocking_connect cbs (fd_valopt ev) ts)) (\<lambda>(r, t, s). Some (Ok (Some t, s)))
          else Some (Ok (Some (fst ts), snd ts)))
      else if ts_status (fst ts) = TSOCK_INFDSET then
        obind (serve_read cbs ev ts) (\<lambda>(t, s).
          case t of None \<Rightarrow> Some (Fault UseAfterFree) | Some t \<Rightarrow> serve_write cbs ev (t, s))
      else Some (Ok (Some (fst ts), snd ts)))"

text \<open>One turn of the loop for one socket.\<close>

definition tsocket_turn :: "'s callbacks \<Rightarrow> fd_event \<Rightarrow> tsocket \<times> 's \<Rightarrow> (tsocket option \<times> 's) res option" where
  "tsocket_turn cbs ev ts =
     obind (Some (tsocket_prepare (fst ts))) (\<lambda>(w, t). tsocket_serve cbs ev (t, snd ts))"

section \<open>What holds of a socket\<close>

text \<open>A socket that \<open>select\<close> waits for has a descriptor that fits into the sets.\<close>

definition ts_ok :: "tsocket \<Rightarrow> bool" where
  "ts_ok t \<longleftrightarrow> (ts_status t \<in> {TSOCK_CONNECTING, TSOCK_INFDSET, TSOCK_NOTINFDSET} \<longrightarrow> in_fd_set (ts_sock t))"

text \<open>How a connection attempt ends, by what the system answers.\<close>

definition conn_of :: "os \<Rightarrow> cstr \<Rightarrow> string \<Rightarrow> int \<Rightarrow> conn" where
  "conn_of os from to_hostname port =
     (if os_socket os = -1 \<or>
         \<not> (case from of None \<Rightarrow> True | Some h \<Rightarrow> (case os_resolve os h of None \<Rightarrow> False | Some ip \<Rightarrow> os_bind os (Some ip) (htons 0)))
      then ConnFailed
      else case os_resolve os to_hostname of None \<Rightarrow> ConnFailed | Some ip \<Rightarrow> os_connect os ip (htons port))"

lemma tsocket_connect_conn:
  "tsocket_connect os cbs (t, s) from h port =
     (case conn_of os from h port of
        ConnFailed \<Rightarrow> Ok (0, t\<lparr>ts_sock := os_socket os\<rparr>, s)
      | ConnNow \<Rightarrow> rbind (call_connect_cb cbs s) (\<lambda>s'. Ok (1, t\<lparr>ts_sock := os_socket os, ts_status := TSOCK_NOTINFDSET\<rparr>, s'))
      | ConnPending \<Rightarrow> Ok (1, t\<lparr>ts_sock := os_socket os, last_attempt := os_now os, ts_status := TSOCK_CONNECTING\<rparr>, s))"
  by (simp add: tsocket_connect_def conn_of_def Let_def split: option.split)

text \<open>The servers of a list in turn, as \<open>network_connect\<close> and \<open>ics_server_connect\<close> try them.\<close>

fun connect_servers ::
  "os \<Rightarrow> 's callbacks \<Rightarrow> cstr \<Rightarrow> server list \<Rightarrow> tsocket \<times> 's \<Rightarrow> (bool \<times> tsocket \<times> 's) res" where
  "connect_servers os cbs from [] ts = Ok (False, ts)"
| "connect_servers os cbs from (srv # r) ts =
     (case sv_host srv of
        None \<Rightarrow> connect_servers os cbs from r ts
      | Some h \<Rightarrow>
          rbind (tsocket_connect os cbs ts from h (sv_port srv)) (\<lambda>(v, ts').
            if v \<noteq> 0 then Ok (True, ts') else connect_servers os cbs from r ts'))"

text \<open>A socket that a server took is one that the loop waits for.\<close>

lemma connect_servers_ok:
  assumes "connect_servers os cbs from srvs (t, s) = Ok (True, t', s')" and "os_socket os \<noteq> -1 \<Longrightarrow> in_fd_set (os_socket os)"
  shows "ts_ok t' \<and> ts_status t' \<in> {TSOCK_NOTINFDSET, TSOCK_CONNECTING} \<and> ts_sock t' = os_socket os"
  using assms(1)
proof (induction srvs arbitrary: t s)
  case (Cons srv r)
  show ?case
  proof (cases "sv_host srv")
    case None
    then show ?thesis using Cons by simp
  next
    case (Some h)
    have "in_fd_set (os_socket os)" if "conn_of os from h (sv_port srv) \<noteq> ConnFailed"
      using that assms(2) by (auto simp: conn_of_def split: if_splits)
    then show ?thesis using Cons.IH Cons.prems Some
      by (cases "conn_of os from h (sv_port srv)")
         (force simp: tsocket_connect_conn ts_ok_def rbind_Ok_iff)+
  qed
qed simp

text \<open>Turns of the loop, as long as the socket is there.\<close>

inductive turn_step :: "'s callbacks \<Rightarrow> tsocket \<times> 's \<Rightarrow> tsocket \<times> 's \<Rightarrow> bool" for cbs where
  Turn: "tsocket_turn cbs ev (t, s) = Some (Ok (Some t', s')) \<Longrightarrow> turn_step cbs (t, s) (t', s')"

text \<open>
  What the loop relies on: a callback that does not give 0 leaves the socket fit for the sets, and so
  does one for a lost connection that does not free it.
\<close>

locale tsocket_client =
  fixes cbs :: "'s callbacks"
  assumes read_ok: "read_cb cbs = Some f \<Longrightarrow> f ev (t, s) = Some (Ok (v, t', s')) \<Longrightarrow> v \<noteq> 0 \<Longrightarrow> ts_ok t \<Longrightarrow> ts_ok t'"
    and write_ok: "write_cb cbs = Some g \<Longrightarrow> g (t, s) = Some (Ok (v, t', s')) \<Longrightarrow> v \<noteq> 0 \<Longrightarrow> ts_ok t \<Longrightarrow> ts_ok t'"
    and disconnect_ok: "disconnect_cb cbs = Some h \<Longrightarrow> h (t, s) = Some (Ok (Some t', s')) \<Longrightarrow> ts_ok t'"
begin

lemma or_disconnect_ok:
  assumes "or_disconnect cbs m = Some (Ok (Some t', s'))" and "\<And>v t s. m = Some (Ok (v, t, s)) \<Longrightarrow> v \<noteq> 0 \<Longrightarrow> ts_ok t"
  shows "ts_ok t'"
proof -
  obtain v t s where m: "m = Some (Ok (v, t, s))"
    using assms(1) by (auto simp: or_disconnect_def obind_def split: option.splits sum.splits)
  show ?thesis
  proof (cases "v = 0")
    case True
    then obtain h where "disconnect_cb cbs = Some h" "h (t, s) = Some (Ok (Some t', s'))"
      using assms(1) m by (cases "disconnect_cb cbs") (auto simp: or_disconnect_def call_disconnect_cb_def)
    then show ?thesis by (rule disconnect_ok)
  next
    case False
    then show ?thesis using assms m by (auto simp: or_disconnect_def)
  qed
qed

lemma serve_read_ok:
  assumes "serve_read cbs ev (t, s) = Some (Ok (Some t', s'))" and "ts_ok t"
  shows "ts_ok t'"
proof (cases "read_cb cbs")
  case None
  then show ?thesis using assms by (cases "fd_isset (fd_readable ev) (ts_sock t)") (auto simp: serve_read_def)
next
  case (Some f)
  then show ?thesis
    using assms read_ok [OF Some]
    by (cases "fd_isset (fd_readable ev) (ts_sock t)")
       (auto simp: serve_read_def split: if_splits intro: or_disconnect_ok)
qed

lemma serve_write_ok:
  assumes "serve_write cbs ev (t, s) = Some (Ok (Some t', s'))" and "ts_ok t"
  shows "ts_ok t'"
proof (cases "write_cb cbs")
  case None
  then show ?thesis using assms by (cases "fd_isset (fd_writable ev) (ts_sock t)") (auto simp: serve_write_def)
next
  case (Some f)
  then show ?thesis
    using assms write_ok [OF Some]
    by (cases "fd_isset (fd_writable ev) (ts_sock t)")
       (auto simp: serve_write_def split: if_splits intro: or_disconnect_ok)
qed

lemma turn_ok:
  assumes "tsocket_turn cbs ev (t, s) = Some (Ok (Some t', s'))" and "ts_ok t"
  shows "ts_ok t'"
proof -
  obtain w t1 where p: "tsocket_prepare t = Ok (w, t1)" "tsocket_serve cbs ev (t1, s) = Some (Ok (Some t', s'))"
    using assms(1) by (cases "tsocket_prepare t") (auto simp: tsocket_turn_def)
  have t1: "ts_ok t1" using p(1) assms(2) by (auto simp: tsocket_prepare_def ts_ok_def split: if_splits)
  show ?thesis
  proof (cases "ts_status t1 = TSOCK_INFDSET")
    case True
    then obtain t2 s2 where "serve_read cbs ev (t1, s) = Some (Ok (Some t2, s2))" "serve_write cbs ev (t2, s2) = Some (Ok (Some t', s'))"
      using p(2) by (auto simp: tsocket_serve_def obind_def split: option.splits sum.splits)
    then show ?thesis using serve_read_ok [OF _ t1] serve_write_ok by blast
  next
    case False
    then show ?thesis
      using p(2) t1
      by (cases "fd_isset (fd_writable ev) (ts_sock t1)")
         (auto simp: tsocket_serve_def obind_def tsocket_check_nonblocking_connect_def ts_ok_def rbind_Ok_iff Let_def
           split: if_splits sum.splits)
  qed
qed

lemma reachable_ok: "(turn_step cbs)\<^sup>*\<^sup>* ts ts' \<Longrightarrow> ts_ok (fst ts) \<Longrightarrow> ts_ok (fst ts')"
  by (induction rule: rtranclp_induct) (auto elim!: turn_step.cases intro: turn_ok)

end

text \<open>A socket whose connection failed is never looked at again.\<close>

lemma turn_dead:
  assumes "ts_status t = TSOCK_UNINITIALIZED"
  shows "tsocket_turn cbs ev (t, s) = Some (Ok (Some t, s))"
  using assms by (simp add: tsocket_turn_def tsocket_prepare_def tsocket_serve_def)

lemma turn_connect_failed:
  assumes "ts_status t = TSOCK_CONNECTING" and "in_fd_set (ts_sock t)" and "fd_writable ev (ts_sock t)" and "fd_valopt ev \<noteq> Some 0"
  shows "tsocket_turn cbs ev (t, s) = Some (Ok (Some (t\<lparr>ts_sock := -1, ts_status := TSOCK_UNINITIALIZED\<rparr>), s))"
  using assms
  by (simp add: tsocket_turn_def tsocket_prepare_def tsocket_serve_def fd_isset_def tsocket_check_nonblocking_connect_def Let_def)

end
