(* ===== verification/Select_Loop.thy ===== *)
theory Select_Loop
  imports Bot_Run Ics_Run Tsocket
begin

text \<open>
  The two clients of the sockets in the select loop of \<^verbatim>\<open>src/src/sockets.c\<close>: the networks, with the callbacks that
  \<open>network_connect\<close> installs, and the servers of the module for chess servers, with those of
  \<open>ics_server_connect\<close>.
\<close>

section \<open>Networks\<close>

text \<open>
  The state is the static buffer of \<open>irc_in\<close>, which all networks share, and the bot. At the end of the
  stream the socket that the network has at that time is closed; it is the one that was read from.
  There is no callback for a lost connection.
\<close>

definition irc_read :: "env \<Rightarrow> nat \<Rightarrow> recv_result \<Rightarrow> tsocket \<times> irc_buf \<times> bot \<Rightarrow> (int \<times> tsocket \<times> irc_buf \<times> bot) res option" where
  "irc_read env i recved = (\<lambda>(t, buf, b).
     if recved = RecvClosed \<and> tsock (net_at i b) = None then Some (Fault NullDeref)
     else obind (Some (irc_in buf recved)) (\<lambda>(r, ls, buf').
       obind (parse_irc_lines env i ls b) (\<lambda>b'.
         Some (Ok (r, if recved = RecvClosed then tsocket_close t else t, buf', b')))))"

definition irc_connected :: "nat \<Rightarrow> irc_buf \<times> bot \<Rightarrow> (irc_buf \<times> bot) res" where
  "irc_connected i = (\<lambda>(buf, b). rbind (irc_ball_start_rolling (net_at i b)) (\<lambda>n. Ok (buf, put_net i n b)))"

definition irc_callbacks :: "env \<Rightarrow> nat \<Rightarrow> (irc_buf \<times> bot) callbacks" where
  "irc_callbacks env i =
     \<lparr>read_cb = Some (irc_read env i), write_cb = None, connect_cb = Some (irc_connected i), disconnect_cb = None\<rparr>"

lemma irc_in_closed: "irc_in buf RecvClosed = Ok (r, ls, buf') \<Longrightarrow> r = 0 \<and> ls = []"
  by (auto simp: irc_in_def split: option.splits)

lemma irc_in_value: "irc_in buf recved = Ok (r, ls, buf') \<Longrightarrow> r = (if recved = RecvClosed then 0 else 1)"
  by (auto simp: irc_in_def Let_def split: option.splits recv_result.splits prod.splits if_splits)

lemma irc_read_keeps:
  assumes "irc_read env i recved (t, s) = Some (Ok (v, t', s'))" and "v \<noteq> 0"
  shows "t' = t"
proof -
  obtain buf b where s: "s = (buf, b)" by (cases s)
  obtain r ls buf' b' where "irc_in buf recved = Ok (r, ls, buf')" "v = r" "t' = (if recved = RecvClosed then tsocket_close t else t)"
    using assms(1)
    by (auto simp: irc_read_def s obind_def split: option.splits sum.splits prod.splits if_splits)
  then show ?thesis using assms(2) irc_in_value [of buf recved r ls buf'] by (auto split: if_splits)
qed

interpretation irc_client: tsocket_client "irc_callbacks env i" for env i
  by unfold_locales (auto simp: irc_callbacks_def dest: irc_read_keeps)

text \<open>The connection to a network is lost: there is nothing to call.\<close>

lemma irc_closed_turn:
  assumes "ts_status t = TSOCK_INFDSET" and "in_fd_set (ts_sock t)" and "fd_readable ev (ts_sock t)" and "fd_recv ev = RecvClosed"
  shows "tsocket_turn (irc_callbacks env i) ev (t, buf, b) = Some (Fault NullDeref)"
proof (cases "tsock (net_at i b)")
  case None
  then show ?thesis using assms
    by (simp add: tsocket_turn_def tsocket_prepare_def tsocket_serve_def serve_read_def fd_isset_def irc_callbacks_def
        irc_read_def or_disconnect_def)
next
  case (Some k)
  obtain buf' where "irc_in buf RecvClosed = Ok (0, [], buf')" by (auto simp: irc_in_def split: option.splits)
  then show ?thesis using assms Some
    by (simp add: tsocket_turn_def tsocket_prepare_def tsocket_serve_def serve_read_def fd_isset_def irc_callbacks_def
        irc_read_def or_disconnect_def call_disconnect_cb_def)
qed

text \<open>What is received goes through the lines to the bot.\<close>

lemma irc_received_turn:
  assumes "ts_status t \<in> {TSOCK_INFDSET, TSOCK_NOTINFDSET}" and "in_fd_set (ts_sock t)" and "fd_readable ev (ts_sock t)"
    and "fd_recv ev = Received chunk" and "ib_ok buf" and "length chunk \<le> 1023"
    and "ib_buffer buf = None \<Longrightarrow> NL \<in> set chunk \<or> length chunk < ib_size buf \<and> ib_size buf \<le> 1026"
  shows "\<exists>buf'. ib_ok buf' \<and> pending buf' = snd (split_lines (pending buf @ chunk)) \<and>
    tsocket_turn (irc_callbacks env i) ev (t, buf, b) =
      obind (parse_irc_lines env i (fst (split_lines (pending buf @ chunk))) b)
        (\<lambda>b'. Some (Ok (Some (t\<lparr>ts_status := TSOCK_INFDSET\<rparr>), buf', b')))"
proof -
  obtain buf' where i: "irc_in buf (Received chunk) = Ok (1, fst (split_lines (pending buf @ chunk)), buf')"
    "ib_ok buf'" "pending buf' = snd (split_lines (pending buf @ chunk))"
    using irc_in_Received [OF assms(5-7)] by blast
  have "tsocket_turn (irc_callbacks env i) ev (t, buf, b) =
      obind (parse_irc_lines env i (fst (split_lines (pending buf @ chunk))) b)
        (\<lambda>b'. Some (Ok (Some (t\<lparr>ts_status := TSOCK_INFDSET\<rparr>), buf', b')))"
    using assms(1-4) i(1)
    by (cases "parse_irc_lines env i (fst (split_lines (pending buf @ chunk))) b")
       (auto simp: tsocket_turn_def tsocket_prepare_def tsocket_serve_def serve_read_def fd_isset_def irc_callbacks_def
        irc_read_def or_disconnect_def serve_write_def obind_def split: sum.splits)
  then show ?thesis using i(2,3) by blast
qed

text \<open>The servers of a network, one after the other: the detailed loop does what \<open>try_servers\<close> says.\<close>

lemma network_connect_refines:
  assumes "connect_cb cbs = Some irc_ball_start_rolling"
  shows "rbind (connect_servers os cbs from srvs (t, net)) (\<lambda>(ok, t, n). Ok (n, ok)) = try_servers (conn_of os from) srvs net"
proof (induction srvs arbitrary: t)
  case (Cons srv r)
  show ?case
  proof (cases "sv_host srv")
    case (Some h)
    then show ?thesis using Cons assms
      by (cases "conn_of os from h (sv_port srv)"; cases "irc_ball_start_rolling net")
         (simp_all add: tsocket_connect_conn call_connect_cb_def)
  qed (use Cons in simp)
qed simp

section \<open>Chess servers\<close>

text \<open>
  The socket is closed, unless its descriptor is \<open>-1\<close> already, as it is after the end of the stream;
  then the servers are tried again with the same socket. When none takes it, the socket is freed.
\<close>

definition ics_read ::
  "ics_scripts \<Rightarrow> recv_result \<Rightarrow> tsocket \<times> irc_buf \<times> ics_state \<Rightarrow> (int \<times> tsocket \<times> irc_buf \<times> ics_state) res option" where
  "ics_read scripts recved = (\<lambda>(t, buf, st).
     obind (ics_in scripts buf recved st) (\<lambda>(r, buf', st').
       Some (Ok (r, if recved = RecvClosed then t\<lparr>ts_sock := -1\<rparr> else t, buf', st'))))"

definition ics_connected :: "irc_buf \<times> ics_state \<Rightarrow> (irc_buf \<times> ics_state) res" where
  "ics_connected = (\<lambda>(buf, k, ics). Ok (buf, k, ics_ball_start_rolling ics))"

definition ics_connect_callbacks :: "(irc_buf \<times> ics_state) callbacks" where
  "ics_connect_callbacks = \<lparr>read_cb = None, write_cb = None, connect_cb = Some ics_connected, disconnect_cb = None\<rparr>"

definition ics_lost :: "os \<Rightarrow> tsocket \<times> irc_buf \<times> ics_state \<Rightarrow> (tsocket option \<times> irc_buf \<times> ics_state) res option" where
  "ics_lost os = (\<lambda>(t, s).
     Some (rbind (connect_servers os ics_connect_callbacks None (dl_from (i_servers (snd (snd s)))) (tsocket_close t, s))
       (\<lambda>(ok, t', s'). Ok (if ok then Some t' else None, s'))))"

definition ics_callbacks :: "ics_scripts \<Rightarrow> os \<Rightarrow> (irc_buf \<times> ics_state) callbacks" where
  "ics_callbacks scripts os =
     \<lparr>read_cb = Some (ics_read scripts), write_cb = None, connect_cb = Some ics_connected, disconnect_cb = Some (ics_lost os)\<rparr>"

lemma ics_in_value: "ics_in scripts buf recved st = Some (Ok (r, buf', st')) \<Longrightarrow> r = (if recved = RecvClosed then 0 else 1)"
  by (auto simp: ics_in_def obind_def dest: irc_in_value split: if_splits sum.splits option.splits prod.splits)

lemma ics_read_keeps:
  assumes "ics_read scripts recved (t, s) = Some (Ok (v, t', s'))" and "v \<noteq> 0"
  shows "t' = t"
proof -
  obtain buf st where s: "s = (buf, st)" by (cases s)
  obtain r buf' st' where "ics_in scripts buf recved st = Some (Ok (r, buf', st'))" "v = r"
    "t' = (if recved = RecvClosed then t\<lparr>ts_sock := -1\<rparr> else t)"
    using assms(1) by (auto simp: ics_read_def s obind_def split: option.splits sum.splits prod.splits)
  then show ?thesis using assms(2) ics_in_value [of scripts buf recved st r buf' st'] by (auto split: if_splits)
qed

lemma ics_lost_ok:
  assumes "ics_lost os (t, s) = Some (Ok (Some t', s'))" and "os_socket os \<noteq> -1 \<Longrightarrow> in_fd_set (os_socket os)"
  shows "ts_ok t' \<and> ts_status t' \<in> {TSOCK_NOTINFDSET, TSOCK_CONNECTING} \<and> ts_sock t' = os_socket os"
proof -
  have c: "connect_servers os ics_connect_callbacks None (dl_from (i_servers (snd (snd s)))) (tsocket_close t, s) = Ok (True, t', s')"
    using assms(1) by (auto simp: ics_lost_def rbind_Ok_iff split: if_splits)
  show ?thesis by (rule connect_servers_ok [OF c assms(2)])
qed

text \<open>A system that hands out descriptors that fit the sets.\<close>

definition os_small :: "os \<Rightarrow> os" where
  "os_small os = os\<lparr>os_socket := (if in_fd_set (os_socket os) then os_socket os else -1)\<rparr>"

interpretation ics_client: tsocket_client "ics_callbacks scripts (os_small os)" for scripts os
proof
  fix f ev t s v t' s'
  assume "read_cb (ics_callbacks scripts (os_small os)) = Some f" "f ev (t, s) = Some (Ok (v, t', s'))" "v \<noteq> 0" "ts_ok t"
  then show "ts_ok t'" using ics_read_keeps [of scripts ev t s v t' s'] by (auto simp: ics_callbacks_def)
next
  fix h t s t' s'
  assume "disconnect_cb (ics_callbacks scripts (os_small os)) = Some h" "h (t, s) = Some (Ok (Some t', s'))"
  then have "ics_lost (os_small os) (t, s) = Some (Ok (Some t', s'))" by (auto simp: ics_callbacks_def)
  moreover have "in_fd_set (os_socket (os_small os))" if "os_socket (os_small os) \<noteq> -1" using that by (auto simp: os_small_def split: if_splits)
  ultimately show "ts_ok t'" using ics_lost_ok by blast
qed (simp add: ics_callbacks_def)

text \<open>What is tried, on the records: \<open>ics_try_servers\<close>.\<close>

lemma ics_connect_refines:
  "connect_servers os ics_connect_callbacks None srvs (t, buf, k, ics) = Ok (ok, t', buf', k', ics') \<Longrightarrow>
   ics_try_servers (conn_of os None) srvs ics = (ics', ok) \<and> buf' = buf \<and> k' = k"
proof (induction srvs arbitrary: t)
  case (Cons srv r)
  show ?case
  proof (cases "sv_host srv")
    case (Some h)
    then show ?thesis using Cons
      by (cases "conn_of os None h (sv_port srv)")
         (auto simp: tsocket_connect_conn call_connect_cb_def ics_connect_callbacks_def ics_connected_def)
  qed (use Cons in simp)
qed simp

lemma ics_connect_total:
  "\<exists>r. connect_servers os ics_connect_callbacks None srvs (t, s) = Ok r"
proof (induction srvs arbitrary: t)
  case (Cons srv r)
  show ?case
  proof (cases "sv_host srv")
    case (Some h)
    obtain buf k ics where "s = (buf, k, ics)" by (cases s)
    then show ?thesis using Cons Some
      by (cases "conn_of os None h (sv_port srv)")
         (auto simp: tsocket_connect_conn call_connect_cb_def ics_connect_callbacks_def ics_connected_def)
  qed (use Cons in simp)
qed (simp del: split_paired_Ex)

text \<open>A lost connection is made again, or the socket is freed and the loop reads it.\<close>

lemma ics_closed_turn:
  assumes t: "ts_status t = TSOCK_INFDSET" "in_fd_set (ts_sock t)" "fd_readable ev (ts_sock t)" "fd_recv ev = RecvClosed"
    and s: "i_tsock ics = Some s" and os: "os_socket os \<noteq> -1 \<Longrightarrow> in_fd_set (os_socket os)"
  shows "\<exists>t' buf' ics' ok. ics_try_servers (conn_of os None) (dl_from (i_servers ics)) ics = (ics', ok) \<and>
    tsocket_turn (ics_callbacks scripts os) ev (t, buf, k, ics) =
      (if ok then Some (Ok (Some t', buf', k, ics')) else Some (Fault UseAfterFree)) \<and>
    (ok \<longrightarrow> ts_status t' \<in> {TSOCK_NOTINFDSET, TSOCK_CONNECTING} \<and> ts_sock t' = os_socket os)"
proof -
  obtain buf' where b: "irc_in buf RecvClosed = Ok (0, [], buf')" by (auto simp: irc_in_def split: option.splits)
  have r: "ics_read scripts RecvClosed (t, buf, k, ics) = Some (Ok (0, t\<lparr>ts_sock := -1\<rparr>, buf', k, ics))"
    using b s by (simp add: ics_read_def ics_in_def)
  obtain ok t' s' where c: "connect_servers os ics_connect_callbacks None (dl_from (i_servers ics)) (tsocket_close (t\<lparr>ts_sock := -1\<rparr>), buf', k, ics) = Ok (ok, t', s')"
    using ics_connect_total by (metis prod_cases3)
  obtain ics' where tried: "ics_try_servers (conn_of os None) (dl_from (i_servers ics)) ics = (ics', ok)" and s': "s' = (buf', k, ics')"
    using ics_connect_refines c by (cases s') blast
  have l: "ics_lost os (t\<lparr>ts_sock := -1\<rparr>, buf', k, ics) = Some (Ok (if ok then Some t' else None, s'))"
    using c by (simp add: ics_lost_def)
  have w: "ok \<longrightarrow> ts_status t' \<in> {TSOCK_NOTINFDSET, TSOCK_CONNECTING} \<and> ts_sock t' = os_socket os \<and> in_fd_set (ts_sock t')"
  proof
    assume ok
    then have c': "connect_servers os ics_connect_callbacks None (dl_from (i_servers ics)) (tsocket_close (t\<lparr>ts_sock := -1\<rparr>), buf', k, ics) = Ok (True, t', s')"
      using c by simp
    show "ts_status t' \<in> {TSOCK_NOTINFDSET, TSOCK_CONNECTING} \<and> ts_sock t' = os_socket os \<and> in_fd_set (ts_sock t')"
      using connect_servers_ok [OF c' os] by (auto simp: ts_ok_def)
  qed
  have e: "t\<lparr>ts_status := TSOCK_INFDSET\<rparr> = t" using t(1) by (cases t) simp
  have "tsocket_turn (ics_callbacks scripts os) ev (t, buf, k, ics) =
      (if ok then Some (Ok (Some t', buf', k, ics')) else Some (Fault UseAfterFree))"
    using t r l s' w
    by (auto simp: e tsocket_turn_def tsocket_prepare_def tsocket_serve_def serve_read_def serve_write_def fd_isset_def
        ics_callbacks_def or_disconnect_def call_disconnect_cb_def)
  then show ?thesis using tried w by blast
qed

end
