(* ===== verification/Dcc_Loop.thy ===== *)
theory Dcc_Loop
  imports Bot_Run Tsocket Dcc_Login
begin

text \<open>
  The part of \<open>irc_loop\<close> in \<^verbatim>\<open>src/src/sockets.c\<close> on the sessions of the party line: which descriptors
  \<open>select\<close> waits for, and what is done with the sessions afterwards.
\<close>

section \<open>Before select\<close>

text \<open>A descriptor goes into a set, if it fits.\<close>

definition fd_put :: "int \<Rightarrow> int list \<Rightarrow> int list res" where
  "fd_put s fds = (if in_fd_set s then Ok (fds @ [s]) else Fault OutOfBounds)"

text \<open>One session: a connection is read from, a pending one is waited for once.\<close>

definition dcc_prepare_session :: "dcc_session \<Rightarrow> int list \<times> int list \<Rightarrow> (dcc_session \<times> int list \<times> int list) res" where
  "dcc_prepare_session d = (\<lambda>(socks, writefds).
     rbind (if d_sock d \<noteq> -1 \<and> d_status d \<ge> DCC_NOTREADY then fd_put (d_sock d) socks else Ok socks) (\<lambda>socks.
     rbind (if d_status d = DCC_NONBLOCKCONNECT then fd_put (d_sock d) writefds else Ok writefds) (\<lambda>writefds.
       Ok (session_select d, socks, writefds))))"

fun dcc_prepare_sessions :: "dcc_session list \<Rightarrow> int list \<times> int list \<Rightarrow> (dcc_session list \<times> int list \<times> int list) res" where
  "dcc_prepare_sessions [] fds = Ok ([], fds)"
| "dcc_prepare_sessions (d # ds) fds =
     rbind (dcc_prepare_session d fds) (\<lambda>(d', fds').
     rbind (dcc_prepare_sessions ds fds') (\<lambda>(ds', fds''). Ok (d' # ds', fds'')))"

definition dcc_prepare :: "network \<Rightarrow> (network \<times> int list \<times> int list) res" where
  "dcc_prepare net =
     rbind (if dcc_listener net \<noteq> -1 then fd_put (dcc_listener net) [] else Ok []) (\<lambda>socks.
     rbind (dcc_prepare_sessions (dl_from (n_dccs net)) (socks, [])) (\<lambda>(ds, fds).
       Ok (net\<lparr>n_dccs := DList (dl_before (n_dccs net)) ds\<rparr>, fds)))"

section \<open>After select\<close>

text \<open>A descriptor is reported if it was in the set.\<close>

definition fd_set_isset :: "int list \<Rightarrow> (int \<Rightarrow> bool) \<Rightarrow> int \<Rightarrow> bool res" where
  "fd_set_isset fds f s = (if in_fd_set s then Ok (s \<in> set fds \<and> f s) else Fault OutOfBounds)"

text \<open>
  The lines of a session. When the session is freed at one of them, what follows uses it: the next line, or the
  loop when \<open>dcc_in\<close> is back.
\<close>

fun dcc_lines :: "env \<Rightarrow> nat \<Rightarrow> nat \<Rightarrow> string list \<Rightarrow> bot \<Rightarrow> bot res option" where
  "dcc_lines env i j [] b = Some (Ok b)"
| "dcc_lines env i j (l # ls) b =
     (if b_exited b then Some (Ok b)
      else obind (dcc_line env i j l b) (\<lambda>(b', freed).
        if freed then Some (Fault UseAfterFree) else dcc_lines env i j ls b'))"

text \<open>Reading: the result says whether the session is at its end.\<close>

definition dcc_read :: "env \<Rightarrow> nat \<Rightarrow> (int \<Rightarrow> fd_event) \<Rightarrow> int list \<Rightarrow> nat \<Rightarrow> irc_buf \<times> bot \<Rightarrow> (bool \<times> irc_buf \<times> bot) res option" where
  "dcc_read env i evs socks j = (\<lambda>(buf, b).
     let d = session_at (net_at i b) j in
     if d_status d \<le> DCC_NOTREADY then Some (Ok (False, buf, b))
     else obind (Some (fd_set_isset socks (fd_readable (evs (d_sock d))) (d_sock d))) (\<lambda>readable.
       if \<not> readable then Some (Ok (False, buf, b))
       else obind (Some (dcc_in buf (fd_recv (evs (d_sock d))))) (\<lambda>(r, ls, buf').
         if r = 0 then Some (Ok (True, buf', b))
         else obind (dcc_lines env i j ls b) (\<lambda>b'. Some (Ok (False, buf', b'))))))"

text \<open>The end of a pending connection.\<close>

definition dcc_pending :: "nat \<Rightarrow> (int \<Rightarrow> fd_event) \<Rightarrow> int list \<Rightarrow> nat \<Rightarrow> bot \<Rightarrow> (bool \<times> bot) res" where
  "dcc_pending i evs writefds j b =
     (let net = net_at i b; d = session_at net j in
      if length (dl_from (n_dccs net)) \<le> j then Fault UseAfterFree
      else if d_status d \<noteq> DCC_WAITINGCONNECT then Ok (False, b)
      else rbind (fd_set_isset writefds (fd_writable (evs (d_sock d))) (d_sock d)) (\<lambda>writable.
        Ok (if \<not> writable then (False, b)
            else if fd_valopt (evs (d_sock d)) \<noteq> Some 0 then (True, b)
            else (False, put_net i (set_session j session_connected net) b))))"

definition dcc_serve_session ::
  "env \<Rightarrow> nat \<Rightarrow> (int \<Rightarrow> fd_event) \<Rightarrow> int list \<times> int list \<Rightarrow> nat \<Rightarrow> irc_buf \<times> bot \<Rightarrow> (bool \<times> irc_buf \<times> bot) res option" where
  "dcc_serve_session env i evs fds j st =
     (if d_sock (session_at (net_at i (snd st)) j) = -1 then Some (Ok (True, st))
      else obind (dcc_read env i evs (fst fds) j st) (\<lambda>(gone, buf, b).
        if gone \<or> b_exited b then Some (Ok (gone, buf, b))
        else obind (Some (dcc_pending i evs (snd fds) j b)) (\<lambda>(gone, b). Some (Ok (gone, buf, b)))))"

text \<open>
  \<open>dcc_list_del\<close> gives the session before the deleted one, so that the one behind it is at distance 1 from the new
  \<open>net->dccs\<close>; without one before, it is \<open>net->dccs\<close> itself.
\<close>

definition dcc_remove :: "nat \<Rightarrow> network \<Rightarrow> network \<times> nat" where
  "dcc_remove j net =
     (net\<lparr>n_dccs := dcc_list_del (n_dccs net) (Some j)\<rparr>, if j = 0 \<and> dl_before (n_dccs net) = [] then 0 else 1)"

text \<open>
  The walk over the sessions, from the one at distance \<open>j\<close> on. A command that takes sessions out of the list
  is not followed any further than that the distance is kept.
\<close>

partial_function (option) dcc_serve ::
  "env \<Rightarrow> nat \<Rightarrow> (int \<Rightarrow> fd_event) \<Rightarrow> int list \<times> int list \<Rightarrow> nat \<Rightarrow> irc_buf \<times> bot \<Rightarrow> (irc_buf \<times> bot) res option" where
  "dcc_serve env i evs fds j st =
     (if b_exited (snd st) \<or> length (dl_from (n_dccs (net_at i (snd st)))) \<le> j then Some (Ok st)
      else (case dcc_serve_session env i evs fds j st of
              None \<Rightarrow> None
            | Some (Inl e) \<Rightarrow> Some (Fault e)
            | Some (Inr (gone, buf, b)) \<Rightarrow>
                if gone then
                  dcc_serve env i evs fds (snd (dcc_remove j (net_at i b))) (buf, put_net i (fst (dcc_remove j (net_at i b))) b)
                else dcc_serve env i evs fds (j + 1) (buf, b)))"

text \<open>A connection to the listener, with what \<open>accept\<close> gives.\<close>

definition dcc_accept :: "(int \<Rightarrow> fd_event) \<Rightarrow> int option \<Rightarrow> int list \<Rightarrow> network \<Rightarrow> network res" where
  "dcc_accept evs accepted socks net =
     (if dcc_listener net > 0
      then rbind (fd_set_isset socks (fd_readable (evs (dcc_listener net))) (dcc_listener net)) (\<lambda>r.
        Ok (if r then new_dcc_connection accepted net else net))
      else Ok net)"

text \<open>One turn, for one network.\<close>

definition dcc_turn :: "env \<Rightarrow> nat \<Rightarrow> (int \<Rightarrow> fd_event) \<Rightarrow> int option \<Rightarrow> irc_buf \<times> bot \<Rightarrow> (irc_buf \<times> bot) res option" where
  "dcc_turn env i evs accepted st =
     obind (Some (dcc_prepare (net_at i (snd st)))) (\<lambda>(net, fds).
     obind (Some (dcc_accept evs accepted (fst fds) net)) (\<lambda>net.
       dcc_serve env i evs fds 0 (fst st, put_net i net (snd st))))"

section \<open>Turns\<close>

lemma dcc_serve_end:
  "length (dl_from (n_dccs (net_at i b))) \<le> j \<Longrightarrow> dcc_serve env i evs fds j (buf, b) = Some (Ok (buf, b))"
  by (subst dcc_serve.simps) simp

text \<open>A session for which nothing is reported.\<close>

definition at_rest :: "(int \<Rightarrow> fd_event) \<Rightarrow> int list \<times> int list \<Rightarrow> dcc_session \<Rightarrow> bool" where
  "at_rest evs fds d \<longleftrightarrow> in_fd_set (d_sock d) \<and>
     (d_status d > DCC_NOTREADY \<longrightarrow> \<not> (d_sock d \<in> set (fst fds) \<and> fd_readable (evs (d_sock d)) (d_sock d))) \<and>
     (d_status d = DCC_WAITINGCONNECT \<longrightarrow> \<not> (d_sock d \<in> set (snd fds) \<and> fd_writable (evs (d_sock d)) (d_sock d)))"

lemma dcc_serve_rest:
  assumes "at_rest evs fds (session_at (net_at i b) j)" and "j < length (dl_from (n_dccs (net_at i b)))"
  shows "dcc_serve_session env i evs fds j (buf, b) = Some (Ok (False, buf, b))"
proof -
  let ?d = "session_at (net_at i b) j"
  have "d_sock ?d \<noteq> -1" using assms(1) by (auto simp: at_rest_def in_fd_set_def)
  moreover have "dcc_read env i evs (fst fds) j (buf, b) = Some (Ok (False, buf, b))"
    using assms(1) by (auto simp: dcc_read_def at_rest_def fd_set_isset_def Let_def not_le)
  moreover have "dcc_pending i evs (snd fds) j b = Ok (False, b)"
    using assms by (auto simp: dcc_pending_def at_rest_def fd_set_isset_def Let_def)
  ultimately show ?thesis by (simp add: dcc_serve_session_def)
qed

lemma dcc_serve_all_rest:
  assumes "\<forall>k. j \<le> k \<longrightarrow> k < n \<longrightarrow> at_rest evs fds (session_at (net_at i b) k)"
    and "n \<le> length (dl_from (n_dccs (net_at i b)))" and "j \<le> n" and "\<not> b_exited b"
  shows "dcc_serve env i evs fds j (buf, b) = dcc_serve env i evs fds n (buf, b)"
  using assms
proof (induction "n - j" arbitrary: j)
  case (Suc m)
  then have jl: "j < length (dl_from (n_dccs (net_at i b)))" by simp
  have "dcc_serve_session env i evs fds j (buf, b) = Some (Ok (False, buf, b))"
    using Suc.prems(1) Suc.hyps(2) jl by (intro dcc_serve_rest) auto
  then have "dcc_serve env i evs fds j (buf, b) = dcc_serve env i evs fds (j + 1) (buf, b)"
    using jl Suc.prems(4) by (subst dcc_serve.simps) simp
  also have "\<dots> = dcc_serve env i evs fds n (buf, b)" using Suc by simp
  finally show ?case .
qed simp

text \<open>Sessions whose connection is awaited: no turn puts them into a set again.\<close>

definition awaited :: "dcc_session \<Rightarrow> bool" where
  "awaited d \<longleftrightarrow> d_status d = DCC_WAITINGCONNECT \<and> in_fd_set (d_sock d)"

lemma dcc_prepare_awaited: "list_all awaited ds \<Longrightarrow> dcc_prepare_sessions ds fds = Ok (ds, fds)"
  by (induction ds) (simp_all add: dcc_prepare_session_def awaited_def session_select_def dcc_status_order case_prod_beta)

lemma dcc_turn_awaited:
  assumes "list_all awaited (dl_from (n_dccs (net_at i b)))" and "dcc_listener (net_at i b) = -1"
    and "i < length (dl_all (networks (b_cfg b)))" and "\<not> b_exited b"
  shows "dcc_turn env i evs accepted (buf, b) = Some (Ok (buf, b))"
proof -
  let ?net = "net_at i b"
  have "dcc_prepare ?net = Ok (?net, [], [])"
    using assms(1,2) dcc_prepare_awaited [of "dl_from (n_dccs ?net)" "([], [])"] by (simp add: dcc_prepare_def)
  moreover have "at_rest evs ([], []) (session_at ?net k)" if "k < length (dl_from (n_dccs ?net))" for k
    using assms(1) that by (simp add: at_rest_def list_all_length session_at_def awaited_def)
  then have "dcc_serve env i evs ([], []) 0 (buf, b) = Some (Ok (buf, b))"
    using dcc_serve_all_rest [of 0 "length (dl_from (n_dccs ?net))" evs "([], [])" i b env buf] assms(4)
      dcc_serve_end [of i b "length (dl_from (n_dccs ?net))" env evs "([], [])" buf] by simp
  ultimately show ?thesis using assms(2,3) by (simp add: dcc_turn_def dcc_accept_def put_net_same)
qed

text \<open>Connections that are not there yet when \<open>select\<close> returns are awaited from then on.\<close>

definition outgoing :: "dcc_session \<Rightarrow> bool" where
  "outgoing d \<longleftrightarrow> d_status d \<in> {DCC_NONBLOCKCONNECT, DCC_WAITINGCONNECT} \<and> in_fd_set (d_sock d)"

lemma session_select_outgoing: "outgoing d \<Longrightarrow> awaited (session_select d)"
  by (auto simp: outgoing_def awaited_def session_select_def)

lemma dcc_prepare_outgoing:
  "list_all outgoing ds \<Longrightarrow> \<exists>fds'. dcc_prepare_sessions ds fds = Ok (map session_select ds, fds')"
proof (induction ds arbitrary: fds)
  case (Cons d ds)
  obtain f1 where "dcc_prepare_session d fds = Ok (session_select d, f1)"
    using Cons.prems by (cases fds) (auto simp: dcc_prepare_session_def outgoing_def fd_put_def dcc_status_order)
  moreover obtain f2 where "dcc_prepare_sessions ds f1 = Ok (map session_select ds, f2)"
    using Cons.IH [of f1] Cons.prems by auto
  ultimately show ?case by simp
qed simp

lemma dcc_turn_outgoing:
  assumes out: "list_all outgoing (dl_from (n_dccs (net_at i b)))" and lst: "dcc_listener (net_at i b) = -1"
    and i: "i < length (dl_all (networks (b_cfg b)))" and run: "\<not> b_exited b" and late: "\<And>s. \<not> fd_writable (evs s) s"
  shows "dcc_turn env i evs accepted (buf, b) = Some (Ok (buf, put_net i ((net_at i b)\<lparr>n_dccs :=
    DList (dl_before (n_dccs (net_at i b))) (map session_select (dl_from (n_dccs (net_at i b))))\<rparr>) b))"
proof -
  let ?net = "net_at i b"
  let ?ds = "map session_select (dl_from (n_dccs ?net))"
  let ?net' = "?net\<lparr>n_dccs := DList (dl_before (n_dccs ?net)) ?ds\<rparr>"
  obtain fds where p: "dcc_prepare_sessions (dl_from (n_dccs ?net)) ([], []) = Ok (?ds, fds)"
    using dcc_prepare_outgoing [OF out] by blast
  have prep: "dcc_prepare ?net = Ok (?net', fds)" using lst p by (simp add: dcc_prepare_def)
  have "at_rest evs fds (session_at ?net' k)" if "k < length ?ds" for k
  proof -
    have "awaited (session_at ?net' k)"
      using out that session_select_outgoing by (simp add: session_at_def list_all_length)
    then show ?thesis using late by (simp add: at_rest_def awaited_def dcc_status_order)
  qed
  then have "dcc_serve env i evs fds 0 (buf, put_net i ?net' b) = Some (Ok (buf, put_net i ?net' b))"
    using dcc_serve_all_rest [of 0 "length ?ds" evs fds i "put_net i ?net' b" env buf] i run
      dcc_serve_end [of i "put_net i ?net' b" "length ?ds" env evs fds buf] by simp
  then show ?thesis using prep lst by (simp add: dcc_turn_def dcc_accept_def)
qed

text \<open>Sessions that are connected are all read from.\<close>

definition live :: "dcc_session \<Rightarrow> bool" where
  "live d \<longleftrightarrow> d_status d > DCC_NOTREADY \<and> in_fd_set (d_sock d)"

lemma dcc_prepare_live: "list_all live ds \<Longrightarrow> dcc_prepare_sessions ds (s, w) = Ok (ds, s @ map d_sock ds, w)"
proof (induction ds arbitrary: s)
  case (Cons d ds)
  have "dcc_prepare_session d (s, w) = Ok (d, s @ [d_sock d], w)"
    using Cons.prems
    by (auto simp: dcc_prepare_session_def live_def fd_put_def session_select_def in_fd_set_def dcc_status_order)
  then show ?case using Cons by simp
qed simp

lemma dcc_turn_live:
  assumes "list_all live (dl_from (n_dccs (net_at i b)))" and "dcc_listener (net_at i b) = -1"
    and "i < length (dl_all (networks (b_cfg b)))"
  shows "dcc_turn env i evs accepted (buf, b) =
    dcc_serve env i evs (map d_sock (dl_from (n_dccs (net_at i b))), []) 0 (buf, b)"
proof -
  have "dcc_prepare (net_at i b) = Ok (net_at i b, map d_sock (dl_from (n_dccs (net_at i b))), [])"
    using assms(1,2) dcc_prepare_live [of "dl_from (n_dccs (net_at i b))" "[]" "[]"] by (simp add: dcc_prepare_def)
  then show ?thesis using assms(2,3) by (simp add: dcc_turn_def dcc_accept_def put_net_same)
qed

text \<open>What is said on a session that is read from.\<close>

lemma dcc_read_lines:
  assumes "live (session_at (net_at i b) j)" and "d_sock (session_at (net_at i b) j) \<in> set socks"
    and "fd_readable (evs (d_sock (session_at (net_at i b) j))) (d_sock (session_at (net_at i b) j))"
  shows "dcc_read env i evs socks j (buf, b) =
    obind (Some (dcc_in buf (fd_recv (evs (d_sock (session_at (net_at i b) j)))))) (\<lambda>(r, ls, buf').
      if r = 0 then Some (Ok (True, buf', b)) else obind (dcc_lines env i j ls b) (\<lambda>b'. Some (Ok (False, buf', b'))))"
  using assms by (auto simp: dcc_read_def live_def fd_set_isset_def Let_def)

lemma dcc_serve_live:
  assumes "live (session_at (net_at i b) j)"
  shows "dcc_serve_session env i evs fds j (buf, b) =
    obind (dcc_read env i evs (fst fds) j (buf, b)) (\<lambda>(gone, buf, b).
      if gone \<or> b_exited b then Some (Ok (gone, buf, b))
      else obind (Some (dcc_pending i evs (snd fds) j b)) (\<lambda>(gone, b). Some (Ok (gone, buf, b))))"
  using assms by (auto simp: dcc_serve_session_def live_def in_fd_set_def)

lemma dcc_dropped_line:
  assumes "parse_dcc_line (b_cfg b) (e_writable env) (e_files env) (net_at i b) j l = Some (Ok (Dropped d n, w))" and "\<not> b_exited b"
  shows "dcc_lines env i j (l # ls) b = Some (Fault UseAfterFree)"
  using assms by (simp add: dcc_line_def)

lemma dcc_turn_dropped:
  assumes live: "list_all live (dl_from (n_dccs (net_at i b)))" and some: "dl_from (n_dccs (net_at i b)) = d # ds"
    and lst: "dcc_listener (net_at i b) = -1" and i: "i < length (dl_all (networks (b_cfg b)))" and run: "\<not> b_exited b"
    and rd: "fd_readable (evs (d_sock d)) (d_sock d)" and inp: "dcc_in buf (fd_recv (evs (d_sock d))) = Ok (r, l # ls, buf')" "r \<noteq> 0"
    and drop: "parse_dcc_line (b_cfg b) (e_writable env) (e_files env) (net_at i b) 0 l = Some (Ok (Dropped d' n, w))"
  shows "dcc_turn env i evs accepted (buf, b) = Some (Fault UseAfterFree)"
proof -
  have at: "session_at (net_at i b) 0 = d" using some by (simp add: session_at_def)
  have "dcc_serve_session env i evs (map d_sock (d # ds), []) 0 (buf, b) = Some (Fault UseAfterFree)"
    using dcc_serve_live [of i b 0] dcc_read_lines [of i b 0] live some rd inp at dcc_dropped_line [OF drop run, of ls] by simp
  then show ?thesis
    using dcc_turn_live [OF live lst i] some run by (subst (asm) dcc_serve.simps) simp
qed

text \<open>A session that is closed goes out of the list, and so do those before the one in front of it.\<close>

lemma dcc_remove_behind:
  "n_dccs net = DList bf (pre @ p # d # behind) \<Longrightarrow>
   dcc_remove (Suc (length pre)) net = (net\<lparr>n_dccs := DList (rev pre @ bf) (p # behind)\<rparr>, 1)"
  by (simp add: dcc_remove_def dcc_list_del_def dl_del_def)

lemma dcc_turn_closed:
  assumes ds: "n_dccs (net_at i b) = DList [] (pre @ p # d # behind)" and live: "list_all live (pre @ p # d # behind)"
    and lst: "dcc_listener (net_at i b) = -1" and i: "i < length (dl_all (networks (b_cfg b)))" and run: "\<not> b_exited b"
    and rd: "fd_readable (evs (d_sock d)) (d_sock d)" "fd_recv (evs (d_sock d)) = RecvClosed"
    and quiet: "\<forall>x \<in> set (pre @ p # behind). \<not> fd_readable (evs (d_sock x)) (d_sock x)"
  shows "\<exists>buf'. dcc_turn env i evs accepted (buf, b) =
    Some (Ok (buf', put_net i ((net_at i b)\<lparr>n_dccs := DList (rev pre) (p # behind)\<rparr>) b))"
proof -
  let ?net = "net_at i b" and ?k = "Suc (length pre)"
  let ?fds = "(map d_sock (dl_from (n_dccs ?net)), []) :: int list \<times> int list"
  let ?net' = "?net\<lparr>n_dccs := DList (rev pre) (p # behind)\<rparr>" 
  let ?b' = "put_net i ?net' b"
  have rest: "at_rest evs ?fds x" if "x \<in> set (pre @ p # behind)" for x
    using quiet live that by (auto simp: at_rest_def live_def list_all_iff)
  have at: "session_at ?net ?k = d" using ds by (simp add: session_at_def nth_append)
  have before: "at_rest evs ?fds (session_at ?net k)" if "k < ?k" for k
    using that ds by (intro rest) (auto simp: session_at_def nth_append nth_Cons' less_Suc_eq)
  have after: "at_rest evs ?fds (session_at (net_at i ?b') k)" if "1 \<le> k" "k < Suc (length behind)" for k
  proof -
    have "(p # behind) ! k \<in> set (p # behind)" using that by (intro nth_mem) simp
    then have "at_rest evs ?fds ((p # behind) ! k)" by (intro rest) auto
    then show ?thesis using i by (simp add: session_at_def)
  qed
  obtain buf' where c: "dcc_in buf RecvClosed = Ok (0, [], buf')"
    by (auto simp: dcc_in_def Let_def split: option.split prod.split)
  have gone: "dcc_serve_session env i evs ?fds ?k (buf, b) = Some (Ok (True, buf', b))"
    using dcc_serve_live [of i b ?k] dcc_read_lines [of i b ?k] live rd at c ds by simp
  have "dcc_serve env i evs ?fds 0 (buf, b) = dcc_serve env i evs ?fds ?k (buf, b)"
    using before ds run by (intro dcc_serve_all_rest) simp_all
  also have "\<dots> = dcc_serve env i evs ?fds 1 (buf', ?b')"
    using gone dcc_remove_behind [OF ds] ds run by (subst dcc_serve.simps) simp
  also have "\<dots> = dcc_serve env i evs ?fds (Suc (length behind)) (buf', ?b')"
    using after i run by (intro dcc_serve_all_rest) simp_all
  also have "\<dots> = Some (Ok (buf', ?b'))" using i by (intro dcc_serve_end) simp
  finally show ?thesis using dcc_turn_live [OF _ lst i] live ds by (auto simp: list_all_append)
qed

text \<open>Many turns.\<close>

fun dcc_turns :: "env \<Rightarrow> nat \<Rightarrow> ((int \<Rightarrow> fd_event) \<times> int option) list \<Rightarrow> irc_buf \<times> bot \<Rightarrow> (irc_buf \<times> bot) res option" where
  "dcc_turns env i [] st = Some (Ok st)"
| "dcc_turns env i ((evs, accepted) # es) st = obind (dcc_turn env i evs accepted st) (dcc_turns env i es)"

lemma dcc_turns_awaited:
  assumes "list_all awaited (dl_from (n_dccs (net_at i b)))" and "dcc_listener (net_at i b) = -1"
    and "i < length (dl_all (networks (b_cfg b)))" and "\<not> b_exited b"
  shows "dcc_turns env i es (buf, b) = Some (Ok (buf, b))"
  using dcc_turn_awaited [OF assms] by (induction es) auto

lemma dcc_turns_late:
  assumes out: "list_all outgoing (dl_from (n_dccs (net_at i b)))" and lst: "dcc_listener (net_at i b) = -1"
    and i: "i < length (dl_all (networks (b_cfg b)))" and run: "\<not> b_exited b" and late: "\<And>s. \<not> fd_writable (evs s) s"
  shows "dcc_turns env i ((evs, accepted) # es) (buf, b) = Some (Ok (buf, put_net i ((net_at i b)\<lparr>n_dccs :=
    DList (dl_before (n_dccs (net_at i b))) (map session_select (dl_from (n_dccs (net_at i b))))\<rparr>) b))"
proof -
  let ?b = "put_net i ((net_at i b)\<lparr>n_dccs :=
    DList (dl_before (n_dccs (net_at i b))) (map session_select (dl_from (n_dccs (net_at i b))))\<rparr>) b"
  have "list_all awaited (dl_from (n_dccs (net_at i ?b)))"
    using out i session_select_outgoing by (auto simp: list_all_iff)
  then have "dcc_turns env i es (buf, ?b) = Some (Ok (buf, ?b))"
    using i lst run by (intro dcc_turns_awaited) simp_all
  then show ?thesis using dcc_turn_outgoing [OF assms] by simp
qed

end
