(* ===== verification/Http.thy ===== *)
theory Http
  imports Tsocket
begin

text \<open>
  The module for web servers, \<^verbatim>\<open>src/src/modules/http\<close>: the servers of \<^verbatim>\<open>http_server.c\<close>, the requests of
  \<^verbatim>\<open>http_request.c\<close> and the listener and the reader of \<^verbatim>\<open>http_proto.c\<close>, with the parts of the loop in
  \<^verbatim>\<open>src/src/sockets.c\<close> that are on web servers. What the operating system answers is the record \<open>os\<close>.
\<close>

section \<open>Requests\<close>

datatype http_request_status =
    HTTP_DISCONNECTED | HTTP_INPROGRESS | HTTP_NONBLOCKCONNECT | HTTP_WAITINGCONNECT | HTTP_NOTREADY
  | HTTP_CONNECTED | HTTP_AUTHORIZED | HTTP_IDLE

text \<open>The pointer to the server, in whose list a request is, is left out.\<close>

record http_request =
  rq_sock :: int
  rq_status :: http_request_status
  rq_host :: cstr
  rq_port :: int
  request_time :: int
  return_buffer :: cstr
  headers :: "string list option"
  post :: "string list option"
  get :: "string list option"
  response :: cstr

definition new_http_request :: http_request where
  "new_http_request =
     \<lparr>rq_sock = -1, rq_status = HTTP_NOTREADY, rq_host = None, rq_port = 1, request_time = -1,
      return_buffer = None, headers = None, post = None, get = None, response = None\<rparr>"

definition http_request_add :: "http_request dlist \<Rightarrow> http_request \<Rightarrow> http_request dlist" where
  "http_request_add http_request add = (if dl_from http_request = [] then DList [] [add] else dl_add http_request add)"

definition http_request_del :: "http_request dlist \<Rightarrow> nat option \<Rightarrow> http_request dlist" where
  "http_request_del http_request del = (if dl_from http_request = [] then dl_null else dl_del http_request del)"

text \<open>The requests that \<open>free_http_request\<close> is called for, in order.\<close>

definition free_http_requests :: "http_request dlist \<Rightarrow> http_request list" where
  "free_http_requests reqs = dl_from reqs"

section \<open>Servers\<close>

datatype http_status = HTTP_UNINITIALIZED | HTTP_LISTENING

record http_server =
  h_label :: cstr
  h_username :: cstr
  h_password :: cstr
  h_sock :: int
  h_host :: cstr
  h_port :: int
  h_status :: http_status
  web_root :: cstr
  h_timers :: "t_timer list"
  requests :: "http_request dlist"

definition new_http_server :: "cstr \<Rightarrow> http_server" where
  "new_http_server label =
     \<lparr>h_label = label, h_username = None, h_password = None, h_sock = -1, h_host = None, h_port = -1,
      h_status = HTTP_UNINITIALIZED, web_root = None, h_timers = [], requests = dl_null\<rparr>"

text \<open>A pointer \<open>add\<close> that is NULL is read through, unless the list is empty.\<close>

definition http_server_add :: "http_server dlist \<Rightarrow> http_server option \<Rightarrow> http_server dlist res" where
  "http_server_add http_server add =
     (case add of
        None \<Rightarrow> if dl_from http_server = [] then Ok dl_null else Fault NullDeref
      | Some a \<Rightarrow> Ok (if dl_from http_server = [] then DList [] [a] else dl_add http_server a))"

definition http_server_del :: "http_server dlist \<Rightarrow> nat option \<Rightarrow> http_server dlist" where
  "http_server_del http_server del = (if dl_from http_server = [] then dl_null else dl_del http_server del)"

text \<open>What \<open>free_http_http_server\<close> frees: all servers from the first on, and with each its requests and timers.\<close>

definition free_http_server :: "http_server \<Rightarrow> http_request list \<times> t_timer list" where
  "free_http_server http = (free_http_requests (requests http), t_timers_free (h_timers http))"

definition free_http_http_server :: "http_server dlist \<Rightarrow> (http_server \<times> http_request list \<times> t_timer list) list" where
  "free_http_http_server http_server =
     (if dl_from http_server = [] then [] else map (\<lambda>h. (h, free_http_server h)) (dl_all http_server))"

definition http_setting :: "tblock \<Rightarrow> http_server \<Rightarrow> http_server res" where
  "http_setting b http =
     rbind (deref (tb_key b)) (\<lambda>k.
       let v = tb_value b in
       if tstrcasecmp k ''username'' = 0 then Ok (http\<lparr>h_username := or_else (h_username http) v\<rparr>)
       else if tstrcasecmp k ''password'' = 0 then Ok (http\<lparr>h_password := or_else (h_password http) v\<rparr>)
       else if tstrcasecmp k ''web_root'' = 0 then Ok (http\<lparr>web_root := or_else (web_root http) v\<rparr>)
       else if tstrcasecmp k ''host'' = 0 then Ok (http\<lparr>h_host := or_else (h_host http) v\<rparr>)
       else if tstrcasecmp k ''port'' = 0 then
         (if h_port http = -1 then rbind (deref v) (\<lambda>p. Ok (http\<lparr>h_port := atoi p\<rparr>)) else Ok http)
       else Ok http)"

fun http_settings :: "tblock list \<Rightarrow> http_server \<Rightarrow> http_server res" where
  "http_settings [] http = Ok http"
| "http_settings (b # bs) http = rbind (http_setting b http) (http_settings bs)"

definition http_server_from_tconfig_block :: "tblock option \<Rightarrow> http_server option res" where
  "http_server_from_tconfig_block tcfg =
     (case tcfg of
        None \<Rightarrow> Ok None
      | Some b \<Rightarrow>
          rbind (deref (tb_key b)) (\<lambda>k.
            if tstrcasecmp k ''http_server'' \<noteq> 0 then Ok None
            else if tb_child b = [] then Ok None
            else rbind (http_settings (tb_child b) (new_http_server (tb_value b))) (\<lambda>http. Ok (Some http))))"

text \<open>The blocks of the configuration for web servers, as \<open>config_engine_load\<close> goes through them.\<close>

fun http_blocks :: "tblock list \<Rightarrow> http_server dlist \<Rightarrow> http_server dlist res" where
  "http_blocks [] http_servers = Ok http_servers"
| "http_blocks (topmost # bs) http_servers =
     rbind (deref (tb_key topmost)) (\<lambda>k.
       if k = ''http_server'' then
         rbind (http_server_from_tconfig_block (Some topmost)) (\<lambda>h.
         rbind (http_server_add http_servers h) (http_blocks bs))
       else http_blocks bs http_servers)"

section \<open>Listening\<close>

text \<open>
  The listener at the start of the loop. When the host is not known its address is NULL, and
  \<open>inet_addr\<close> reads through it.
\<close>

definition http_server_listen :: "os \<Rightarrow> http_server \<Rightarrow> http_server res" where
  "http_server_listen os http =
     (case h_host http of
        None \<Rightarrow> Ok http
      | Some host \<Rightarrow>
          (let h = http\<lparr>h_sock := os_socket os\<rparr> in
           if os_socket os = -1 \<or> \<not> os_options os then Ok h
           else (case os_resolve os host of
                   None \<Rightarrow> Fault NullDeref
                 | Some hostip \<Rightarrow>
                     (let h = (if h_port h = -1 then h\<lparr>h_port := 4964\<rparr> else h) in
                      if \<not> os_bind os (Some hostip) (htons (h_port h)) \<or> \<not> os_listen os then Ok h
                      else Ok (h\<lparr>h_status := HTTP_LISTENING\<rparr>)))))"

text \<open>The listener inside the loop, for a server that has no socket.\<close>

definition http_init_listener :: "os \<Rightarrow> http_server \<Rightarrow> http_server" where
  "http_init_listener os http =
     (case Option.bind (h_host http) (os_resolve os) of
        None \<Rightarrow> http\<lparr>h_sock := -2\<rparr>
      | Some httphostip \<Rightarrow>
          if os_socket os = -1 \<or> \<not> os_options os then http\<lparr>h_sock := -2\<rparr>
          else (let h = (if h_port http = -1 then http\<lparr>h_port := 84191\<rparr> else http) in
                if \<not> os_bind os (Some httphostip) (htons (h_port h)) \<or> \<not> os_listen os then h\<lparr>h_sock := -2\<rparr>
                else h\<lparr>h_sock := os_socket os\<rparr>))"

section \<open>Connections\<close>

text \<open>\<open>accept\<close> gives a descriptor, or \<open>-1\<close>.\<close>

definition new_http_connection :: "int \<Rightarrow> http_server \<Rightarrow> http_server" where
  "new_http_connection sock http =
     (if sock = -1 then http
      else http\<lparr>requests := http_request_add (requests http) (new_http_request\<lparr>rq_sock := sock, rq_status := HTTP_NOTREADY\<rparr>)\<rparr>)"

record http_data =
  h_txt_packet :: string
  h_tokens :: "string list option"

text \<open>What \<open>parse_http_line\<close> makes of a line before it frees it again.\<close>

definition parse_http_line :: "string \<Rightarrow> http_data" where
  "parse_http_line buffer = \<lparr>h_txt_packet = buffer, h_tokens = tssv_split buffer\<rparr>"

text \<open>
  \<open>http_in\<close> is the reader of \<open>irc.c\<close> with static variables of its own, on the socket of the server. The
  result has what the lines were taken for.
\<close>

definition http_in :: "irc_buf \<Rightarrow> recv_result \<Rightarrow> http_server \<Rightarrow> (int \<times> http_data list \<times> irc_buf \<times> http_server) res" where
  "http_in buf recved http =
     rbind (irc_in buf recved) (\<lambda>(r, ls, buf').
       Ok (r, map parse_http_line ls, buf', if recved = RecvClosed then http\<lparr>h_sock := -1\<rparr> else http))"

section \<open>The loop\<close>

text \<open>Before the loop, every server gets a listener.\<close>

fun http_start :: "(nat \<Rightarrow> os) \<Rightarrow> nat \<Rightarrow> http_server list \<Rightarrow> http_server list res" where
  "http_start oss i [] = Ok []"
| "http_start oss i (h # r) =
     rbind (http_server_listen (oss i) (h\<lparr>h_status := HTTP_UNINITIALIZED\<rparr>)) (\<lambda>h'.
     rbind (http_start oss (i + 1) r) (\<lambda>r'. Ok (h' # r')))"

text \<open>
  Before \<open>select\<close>: a server whose socket is \<open>-2\<close> is to be passed over with \<open>continue\<close>, which goes on with the same
  server. The result has the servers and the descriptors to read from.
\<close>

partial_function (option) http_select ::
  "(nat \<Rightarrow> os) \<Rightarrow> nat \<Rightarrow> http_server list \<Rightarrow> (http_server list \<times> int list) res option" where
  "http_select oss i hs =
     (case hs of
        [] \<Rightarrow> Some (Ok ([], []))
      | h # r \<Rightarrow>
          if h_sock h = -2 then http_select oss i hs
          else (let h' = (if h_sock h = -1 then http_init_listener (oss i) h else h) in
                if \<not> in_fd_set (h_sock h') then Some (Fault OutOfBounds)
                else Option.bind (http_select oss (i + 1) r) (\<lambda>m.
                  Some (rbind m (\<lambda>(r', socks). Ok (h' # r', h_sock h' # socks))))))"

text \<open>After \<open>select\<close>, with what \<open>accept\<close> gives for each descriptor.\<close>

definition http_serve :: "(int \<Rightarrow> bool) \<Rightarrow> (int \<Rightarrow> int) \<Rightarrow> http_server \<Rightarrow> http_server res" where
  "http_serve readable accepts http =
     (if h_sock http > 0 then
        rbind (fd_isset readable (h_sock http)) (\<lambda>b.
          Ok (if b then new_http_connection (accepts (h_sock http)) http else http))
      else Ok http)"

definition http_turn ::
  "(nat \<Rightarrow> os) \<Rightarrow> (int \<Rightarrow> bool) \<Rightarrow> (int \<Rightarrow> int) \<Rightarrow> http_server list \<Rightarrow> http_server list res option" where
  "http_turn oss readable accepts hs =
     obind (http_select oss 0 hs) (\<lambda>(hs', socks). Some (mapM_res (http_serve readable accepts) hs'))"

section \<open>What the loop does\<close>

text \<open>A server whose listener was given up: the loop never gets past it.\<close>

lemma http_select_stuck:
  assumes "http_select oss i hs = Some y"
  shows "hs = [] \<or> h_sock (hd hs) \<noteq> -2"
proof (rule http_select.raw_induct [of "\<lambda>oss i hs y. hs = [] \<or> h_sock (hd hs) \<noteq> -2", OF _ assms])
  fix f :: "(nat \<Rightarrow> os) \<Rightarrow> nat \<Rightarrow> http_server list \<Rightarrow> (http_server list \<times> int list) res option" and oss i hs y
  assume IH: "\<And>oss i hs y. f oss i hs = Some y \<Longrightarrow> hs = [] \<or> h_sock (hd hs) \<noteq> -2"
    and step: "(case hs of [] \<Rightarrow> Some (Ok ([], [])) | h # r \<Rightarrow>
       if h_sock h = -2 then f oss i hs
       else (let h' = (if h_sock h = -1 then http_init_listener (oss i) h else h) in
             if \<not> in_fd_set (h_sock h') then Some (Fault OutOfBounds)
             else Option.bind (f oss (i + 1) r) (\<lambda>m. Some (rbind m (\<lambda>(r', socks). Ok (h' # r', h_sock h' # socks)))))) = Some y"
  show "hs = [] \<or> h_sock (hd hs) \<noteq> -2"
  proof (cases "hs = [] \<or> h_sock (hd hs) \<noteq> -2")
    case False
    then obtain h r where hs: "hs = h # r" "h_sock h = -2" by (cases hs) auto
    then have "f oss i hs = Some y" using step by simp
    then show ?thesis by (rule IH)
  qed
qed

lemma http_select_hangs: "h_sock h = -2 \<Longrightarrow> http_select oss i (h # r) = None"
  using http_select_stuck [of oss i "h # r"] by (cases "http_select oss i (h # r)") auto

text \<open>Servers that listen are all waited for.\<close>

definition listening :: "http_server \<Rightarrow> bool" where
  "listening h \<longleftrightarrow> in_fd_set (h_sock h)"

lemma listening_sock: "listening h \<Longrightarrow> h_sock h \<noteq> -1 \<and> h_sock h \<noteq> -2 \<and> in_fd_set (h_sock h)"
  by (auto simp: listening_def in_fd_set_def)

lemma http_select_Cons:
  "listening h \<Longrightarrow> http_select oss i (h # r) =
     Option.bind (http_select oss (i + 1) r) (\<lambda>m. Some (rbind m (\<lambda>(r', socks). Ok (h # r', h_sock h # socks))))"
  using listening_sock [of h] by (subst http_select.simps) simp

lemma http_select_listening:
  "list_all listening pre \<Longrightarrow> http_select oss i (pre @ hs) =
     Option.bind (http_select oss (i + length pre) hs) (\<lambda>m. Some (rbind m (\<lambda>(r', socks). Ok (pre @ r', map h_sock pre @ socks))))"
proof (induction pre arbitrary: i)
  case Nil
  have "(\<lambda>m. Some (rbind m (\<lambda>(r', socks). Ok (r', socks)))) = Some" by (intro ext) (simp add: case_prod_beta')
  then show ?case by simp
next
  case (Cons h r)
  then show ?case
    by (cases "http_select oss (Suc (i + length r)) hs") (auto simp: http_select_Cons rbind_assoc case_prod_beta')
qed

lemma http_select_all: "list_all listening hs \<Longrightarrow> http_select oss i hs = Some (Ok (hs, map h_sock hs))"
  using http_select_listening [of hs oss i "[]"] by (simp add: http_select.simps [of _ _ "[]"])

text \<open>A server that does not listen stops the loop, one way or the other.\<close>

lemma http_select_failed:
  assumes "list_all listening pre" and "h_sock h \<in> {-1, -2}" and "h_sock (http_init_listener (oss (length pre)) h) = -2"
  shows "http_select oss 0 (pre @ h # behind) = (if h_sock h = -1 then Some (Fault OutOfBounds) else None)"
proof (cases "h_sock h = -1")
  case True
  have "http_select oss (length pre) (h # behind) = Some (Fault OutOfBounds)"
    using True assms(3) by (subst http_select.simps) (simp add: in_fd_set_def)
  then show ?thesis using http_select_listening [OF assms(1), of oss 0] True by simp
next
  case False
  then have "http_select oss (length pre) (h # behind) = None" using assms(2) http_select_hangs by simp
  then show ?thesis using http_select_listening [OF assms(1), of oss 0] False by simp
qed

lemma http_init_listener_sock:
  "h_sock (http_init_listener os h) =
     (case Option.bind (h_host h) (os_resolve os) of
        None \<Rightarrow> -2
      | Some ip \<Rightarrow>
          if os_socket os \<noteq> -1 \<and> os_options os \<and> os_listen os \<and>
             os_bind os (Some ip) (htons (if h_port h = -1 then 84191 else h_port h))
          then os_socket os else -2)"
  by (auto simp: http_init_listener_def Let_def split: option.split)

text \<open>A port is what its last 16 bits say.\<close>

lemma uint_htons: "uint (htons p) = p mod 65536"
  by (simp add: htons_def uint_word_of_int)

lemma htons_mod: "htons (p mod 65536) = htons p"
  by (rule word_uint_eqI) (simp add: uint_htons)

text \<open>What a turn does to servers that listen: each takes at most one connection, and nothing is done for it.\<close>

definition http_accepted :: "(int \<Rightarrow> bool) \<Rightarrow> (int \<Rightarrow> int) \<Rightarrow> http_server \<Rightarrow> http_server" where
  "http_accepted readable accepts h =
     (if h_sock h > 0 \<and> readable (h_sock h) then new_http_connection (accepts (h_sock h)) h else h)"

lemma http_accepted_sock [simp]: "h_sock (http_accepted readable accepts h) = h_sock h"
  by (simp add: http_accepted_def new_http_connection_def)

lemma http_serve_listening: "listening h \<Longrightarrow> http_serve readable accepts h = Ok (http_accepted readable accepts h)"
  by (auto simp: http_serve_def http_accepted_def fd_isset_def listening_def)

lemma mapM_res_Ok: "(\<And>x. x \<in> set xs \<Longrightarrow> f x = Ok (g x)) \<Longrightarrow> mapM_res f xs = Ok (map g xs)"
  by (induction xs) auto

lemma http_turn_listening:
  assumes "list_all listening hs"
  shows "http_turn oss readable accepts hs = Some (Ok (map (http_accepted readable accepts) hs))"
proof -
  have "mapM_res (http_serve readable accepts) hs = Ok (map (http_accepted readable accepts) hs)"
    using assms by (intro mapM_res_Ok http_serve_listening) (simp add: list_all_iff)
  then show ?thesis using http_select_all [OF assms] by (simp add: http_turn_def)
qed

text \<open>Many turns.\<close>

fun http_turns :: "(nat \<Rightarrow> os) \<Rightarrow> ((int \<Rightarrow> bool) \<times> (int \<Rightarrow> int)) list \<Rightarrow> http_server list \<Rightarrow> http_server list res option" where
  "http_turns oss [] hs = Some (Ok hs)"
| "http_turns oss ((readable, accepts) # es) hs = obind (http_turn oss readable accepts hs) (http_turns oss es)"

lemma http_accepted_requests:
  "prefix (dl_from (requests h)) (dl_from (requests (http_accepted readable accepts h)))"
  by (cases "dl_from (requests h)") (auto simp: http_accepted_def new_http_connection_def http_request_add_def)

lemma http_turns_listening:
  assumes "list_all listening hs"
  shows "\<exists>hs'. http_turns oss es hs = Some (Ok hs') \<and> list_all listening hs' \<and>
    list_all2 (\<lambda>h h'. prefix (dl_from (requests h)) (dl_from (requests h'))) hs hs'"
  using assms
proof (induction es arbitrary: hs)
  case Nil
  then show ?case by (auto simp: list_all2_same)
next
  case (Cons e es)
  obtain readable accepts where e: "e = (readable, accepts)" by (cases e)
  let ?hs = "map (http_accepted readable accepts) hs"
  have "list_all listening ?hs" using Cons.prems by (simp add: list_all_iff listening_def)
  from Cons.IH [OF this] obtain hs' where hs': "http_turns oss es ?hs = Some (Ok hs')" "list_all listening hs'"
    "list_all2 (\<lambda>h h'. prefix (dl_from (requests h)) (dl_from (requests h'))) ?hs hs'" by blast
  have "list_all2 (\<lambda>h h'. prefix (dl_from (requests h)) (dl_from (requests h'))) hs hs'"
    using hs'(3) http_accepted_requests prefix_order.trans by (fastforce simp: list_all2_conv_all_nth)
  then show ?case using hs' http_turn_listening [OF Cons.prems] by (auto simp: e)
qed

end
