(* ===== verification/Xmpp.thy ===== *)
theory Xmpp
  imports Tsocket
begin

text \<open>
  The module for XMPP servers, \<^verbatim>\<open>src/src/modules/xmpp\<close>: the records and lists of \<^verbatim>\<open>xmpp_server.c\<close> and
  \<^verbatim>\<open>xmpp_trigger.c\<close>, the reader of a packet of \<^verbatim>\<open>xmpp_proto.c\<close>, and the parts of the loop in
  \<^verbatim>\<open>src/src/sockets.c\<close> that are on XMPP servers. The XML library is a parameter.
\<close>

section \<open>Authentication types\<close>

record auth_type =
  at_name :: cstr
  algo_name :: cstr

definition new_auth_type :: auth_type where
  "new_auth_type = \<lparr>at_name = None, algo_name = None\<rparr>"

text \<open>The name of the algorithm for the crypto module.\<close>

definition auth_type_get_algo_info :: "cstr \<Rightarrow> cstr res" where
  "auth_type_get_algo_info name =
     rbind (deref name) (\<lambda>n.
       Ok (if tstrcasecmp n ''DIGEST-MD5'' = 0 then Some ''md5''
           else if tstrcasecmp n ''PLAIN'' = 0 then Some ''plain''
           else None))"

definition auth_type_add :: "auth_type dlist \<Rightarrow> auth_type \<Rightarrow> auth_type dlist" where
  "auth_type_add auth_types add = (if dl_from auth_types = [] then DList [] [add] else dl_add auth_types add)"

definition auth_type_del :: "auth_type dlist \<Rightarrow> nat option \<Rightarrow> auth_type dlist" where
  "auth_type_del auth_types del = (if dl_from auth_types = [] then dl_null else dl_del auth_types del)"

definition free_auth_types :: "auth_type dlist \<Rightarrow> auth_type list" where
  "free_auth_types auth_types = (if dl_from auth_types = [] then [] else dl_all auth_types)"

section \<open>Triggers\<close>

datatype xmpp_trigger_types = XMPP_TRIG_MSG | XMPP_TRIG_ERROR

text \<open>The type \<open>-1\<close> of a fresh trigger is none of the enumeration.\<close>

record xmpp_trigger =
  xt_type :: "xmpp_trigger_types option"
  xt_mask :: cstr
  xt_handler :: "nat option"
  xt_command :: cstr
  xt_usecount :: int

definition new_xmpp_trigger :: xmpp_trigger where
  "new_xmpp_trigger = \<lparr>xt_type = None, xt_mask = None, xt_handler = None, xt_command = None, xt_usecount = 0\<rparr>"

definition xmpp_trigger_add :: "xmpp_trigger dlist \<Rightarrow> xmpp_trigger \<Rightarrow> xmpp_trigger dlist" where
  "xmpp_trigger_add xmpp_triggers add = (if dl_from xmpp_triggers = [] then DList [] [add] else dl_add xmpp_triggers add)"

definition xmpp_trigger_del :: "xmpp_trigger dlist \<Rightarrow> nat option \<Rightarrow> xmpp_trigger dlist" where
  "xmpp_trigger_del xmpp_triggers del = (if dl_from xmpp_triggers = [] then dl_null else dl_del xmpp_triggers del)"

record xmpp_trigger_table =
  xt_msg :: "xmpp_trigger dlist"
  xt_error :: "xmpp_trigger dlist"

definition new_xmpp_trigger_table :: xmpp_trigger_table where
  "new_xmpp_trigger_table = \<lparr>xt_msg = dl_null, xt_error = dl_null\<rparr>"

definition free_xmpp_triggers :: "xmpp_trigger dlist \<Rightarrow> xmpp_trigger list" where
  "free_xmpp_triggers xmpp_triggers = dl_from xmpp_triggers"

definition free_xmpp_trigger_table :: "xmpp_trigger_table \<Rightarrow> xmpp_trigger list" where
  "free_xmpp_trigger_table xtt = free_xmpp_triggers (xt_error xtt) @ free_xmpp_triggers (xt_msg xtt)"

section \<open>Servers\<close>

datatype xmpp_status =
    XMPP_DISCONNECTED | XMPP_INPROGRESS | XMPP_NONBLOCKCONNECT | XMPP_WAITINGCONNECT | XMPP_NOTREADY
  | XMPP_CONNECTED | XMPP_AUTHORIZED | XMPP_IDLE

text \<open>
  \<open>cur_server\<close> is the position of a server in the list, and \<open>x_sent\<close> what was sent. The user name and the passwords,
  which nothing sets or reads, are left out, and so are the log filters and \<open>tcfg\<close>, which stay NULL.
\<close>

record xmpp_server =
  x_label :: cstr
  x_cur_server :: "nat option"
  x_servers :: "server list"
  auth_types_local :: "auth_type dlist"
  auth_types_remote :: "auth_type dlist"
  x_sock :: int
  x_trigs :: xmpp_trigger_table
  x_vhost :: cstr
  x_shost :: cstr
  x_status :: xmpp_status
  x_never_give_up :: int
  x_connect_delay :: int
  x_last_try :: int
  x_timers :: "t_timer list"
  x_sent :: "string list"

definition new_xmpp_server :: "cstr \<Rightarrow> xmpp_server" where
  "new_xmpp_server label =
     \<lparr>x_label = label, x_cur_server = None, x_servers = [], auth_types_local = dl_null, auth_types_remote = dl_null,
      x_sock = -1, x_trigs = new_xmpp_trigger_table, x_vhost = None, x_shost = None, x_status = XMPP_DISCONNECTED,
      x_never_give_up = -1, x_connect_delay = -1, x_last_try = 0, x_timers = [], x_sent = []\<rparr>"

text \<open>A pointer \<open>add\<close> that is NULL is read through, unless the list is empty.\<close>

definition xmpp_server_add :: "xmpp_server dlist \<Rightarrow> xmpp_server option \<Rightarrow> xmpp_server dlist res" where
  "xmpp_server_add servers add =
     (case add of
        None \<Rightarrow> if dl_from servers = [] then Ok dl_null else Fault NullDeref
      | Some a \<Rightarrow> Ok (if dl_from servers = [] then DList [] [a] else dl_add servers a))"

definition xmpp_server_del :: "xmpp_server dlist \<Rightarrow> nat option \<Rightarrow> xmpp_server dlist" where
  "xmpp_server_del servers del = (if dl_from servers = [] then dl_null else dl_del servers del)"

definition free_xmpp_servers :: "xmpp_server dlist \<Rightarrow> xmpp_server list" where
  "free_xmpp_servers servers = (if dl_from servers = [] then [] else dl_all servers)"

text \<open>What goes with a server: its servers, timers and triggers. The authentication types are not freed.\<close>

definition free_xmpp_server :: "xmpp_server \<Rightarrow> server list \<times> t_timer list \<times> xmpp_trigger list" where
  "free_xmpp_server xs = (x_servers xs, t_timers_free (x_timers xs), free_xmpp_trigger_table (x_trigs xs))"

fun xmpp_settings :: "tblock list \<Rightarrow> xmpp_server \<Rightarrow> xmpp_server res" where
  "xmpp_settings [] xs = Ok xs"
| "xmpp_settings (tmp # r) xs =
     rbind (deref (tb_key tmp)) (\<lambda>k.
       xmpp_settings r
         (if tstrcasecmp k ''server'' = 0 then xs\<lparr>x_servers := x_servers xs @ [new_server (tb_value tmp)]\<rparr> else xs))"

definition xmpp_server_from_tconfig_block :: "tblock option \<Rightarrow> xmpp_server option res" where
  "xmpp_server_from_tconfig_block tcfg =
     (case tcfg of
        None \<Rightarrow> Ok None
      | Some b \<Rightarrow>
          rbind (deref (tb_key b)) (\<lambda>k.
            if tstrcasecmp k ''xmpp_server'' \<noteq> 0 then Ok None
            else if tb_child b = [] then Ok None
            else rbind (xmpp_settings (tb_child b) (new_xmpp_server (tb_value b))) (\<lambda>xs. Ok (Some xs))))"

section \<open>Connecting\<close>

text \<open>The server after the current one, or the first.\<close>

definition next_server :: "xmpp_server \<Rightarrow> nat \<Rightarrow> nat" where
  "next_server xs i = (if length (x_servers xs) \<le> i + 1 then 0 else i + 1)"

text \<open>
  The own address is tried if it is known; whether it could be bound is only logged. A refused connection
  leaves the descriptor in the record.
\<close>

definition xmpp_server_connect :: "os \<Rightarrow> xmpp_server \<Rightarrow> xmpp_server res" where
  "xmpp_server_connect os xs0 =
     (let xs = xs0\<lparr>x_sock := os_socket os\<rparr> in
      if os_socket os = -1 then Ok xs
      else case x_cur_server xs of
             None \<Rightarrow> Ok (xs\<lparr>x_status := XMPP_DISCONNECTED, x_sock := -1\<rparr>)
           | Some i \<Rightarrow>
               if length (x_servers xs) \<le> i then Fault UseAfterFree
               else (let j = next_server xs i; svr = x_servers xs ! j; xs = xs\<lparr>x_cur_server := Some j\<rparr> in
                     rbind (deref (sv_host svr)) (\<lambda>host.
                       case os_resolve os host of
                         None \<Rightarrow> Ok (xs\<lparr>x_status := XMPP_DISCONNECTED, x_sock := -1\<rparr>)
                       | Some ip \<Rightarrow>
                           (case os_connect os ip (htons (sv_port svr)) of
                              ConnFailed \<Rightarrow> Ok (xs\<lparr>x_last_try := os_now os, x_status := XMPP_DISCONNECTED\<rparr>)
                            | ConnNow \<Rightarrow> Ok (xs\<lparr>x_status := XMPP_NOTREADY\<rparr>)
                            | ConnPending \<Rightarrow> Ok (xs\<lparr>x_status := XMPP_NONBLOCKCONNECT\<rparr>)))))"

section \<open>What is sent\<close>

text \<open>The text is what the format makes of its arguments.\<close>

definition xmpp_printf :: "xmpp_server \<Rightarrow> string \<Rightarrow> xmpp_server" where
  "xmpp_printf xs s = xs\<lparr>x_sent := x_sent xs @ [take 2047 s @ [NL]]\<rparr>"

abbreviation stream_head :: string where
  "stream_head \<equiv> ''<stream:stream xmlns:stream='' @ [DQUOTE] @ ''http://etherx.jabber.org/streams'' @ [DQUOTE] @
     '' xmlns='' @ [DQUOTE] @ ''jabber:client'' @ [DQUOTE] @ '' to='' @ [DQUOTE]"

definition xmpp_ball_start_rolling :: "xmpp_server \<Rightarrow> xmpp_server" where
  "xmpp_ball_start_rolling xs =
     xmpp_printf xs (stream_head @ fmt_s (x_label xs) @ [DQUOTE] @ '' version='' @ [DQUOTE] @ ''1.0'' @ [DQUOTE] @ ''>'' @ [NL])"

section \<open>Packets\<close>

text \<open>
  What the code reads of a document: the name of a node and its children. The library reads a text into a
  document, or does not, and gives the text of a list of nodes.
\<close>

datatype xml = Xml (xml_name: string) (xml_children: "xml list")

record xml_lib =
  xml_read :: "string \<Rightarrow> xml option"
  xml_text :: "xml list \<Rightarrow> cstr"

fun xmpp_mechanisms :: "xml_lib \<Rightarrow> xml list \<Rightarrow> xmpp_server \<Rightarrow> xmpp_server res" where
  "xmpp_mechanisms lib [] xs = Ok xs"
| "xmpp_mechanisms lib (splnker # r) xs =
     (if xml_name splnker = ''mechanism'' then
        (let n = xml_text lib (xml_children splnker) in
         rbind (auth_type_get_algo_info n) (\<lambda>a.
           xmpp_mechanisms lib r
             (xs\<lparr>auth_types_remote := auth_type_add (auth_types_remote xs) (new_auth_type\<lparr>at_name := n, algo_name := a\<rparr>)\<rparr>)))
      else xmpp_mechanisms lib r xs)"

text \<open>The children of \<open>features\<close>. One for mechanisms that has none ends the reading of the packet.\<close>

fun xmpp_features :: "xml_lib \<Rightarrow> xml list \<Rightarrow> xmpp_server \<Rightarrow> (xmpp_server \<times> bool) res" where
  "xmpp_features lib [] xs = Ok (xs, True)"
| "xmpp_features lib (node2 # r) xs =
     (if xml_name node2 = ''mechanisms'' then
        (if xml_children node2 = [] then Ok (xs, False)
         else rbind (xmpp_mechanisms lib (xml_children node2) xs) (xmpp_features lib r))
      else xmpp_features lib r xs)"

text \<open>
  \<open>xmpp_trigger_match\<close> prints the types of the errors in a packet, up to one without a type, and calls nothing. The
  result is the number of triggers and what is printed.
\<close>

fun xmpp_errors :: "xml list \<Rightarrow> string list" where
  "xmpp_errors [] = []"
| "xmpp_errors (node # r) =
     (if xml_name node = ''error'' then
        (case xml_children node of [] \<Rightarrow> [] | splnker # _ \<Rightarrow> xml_name splnker # xmpp_errors r)
      else xmpp_errors r)"

definition xmpp_trigger_match :: "xml \<Rightarrow> int \<times> string list" where
  "xmpp_trigger_match root_node =
     (if xml_name root_node \<noteq> ''stream'' then (0, []) else (0, xmpp_errors (xml_children root_node)))"

abbreviation starttls :: string where
  "starttls \<equiv> ''<starttls xmlns='' @ [CHR 0x27] @ ''urn:ietf:params:xml:ns:xmpp-tls'' @ [CHR 0x27] @ ''/>''"

text \<open>The result has what \<open>xmpp_trigger_match\<close> gives, if it is called.\<close>

definition parse_xmpp_line :: "xml_lib \<Rightarrow> string \<Rightarrow> xmpp_server \<Rightarrow> (xmpp_server \<times> (int \<times> string list) option) res" where
  "parse_xmpp_line lib buffer xs =
     (case xml_read lib buffer of
        None \<Rightarrow> Ok (xs, None)
      | Some root \<Rightarrow>
          (case xml_children root of
             [] \<Rightarrow> Ok (xs, None)
           | node # _ \<Rightarrow>
               if xml_name node \<noteq> ''features'' then Ok (xs, Some (xmpp_trigger_match root))
               else if xml_children node = [] then Ok (xs, None)
               else rbind (xmpp_features lib (xml_children node) xs) (\<lambda>(xs', done).
                 Ok (if done then (xmpp_printf xs' starttls, Some (xmpp_trigger_match root)) else (xs', None)))))"

text \<open>\<open>xmpp_in\<close> reads nothing.\<close>

definition xmpp_in :: "xmpp_server \<Rightarrow> int" where
  "xmpp_in xs = 0"

section \<open>The loop\<close>

text \<open>Before the loop.\<close>

definition xmpp_start :: "os \<Rightarrow> xmpp_server \<Rightarrow> xmpp_server res" where
  "xmpp_start os xs =
     xmpp_server_connect os
       (xs\<lparr>x_cur_server := (if x_servers xs = [] then None else Some 0), x_last_try := os_now os, x_status := XMPP_INPROGRESS\<rparr>)"

text \<open>Before \<open>select\<close>: another attempt, then the two sets.\<close>

definition xmpp_again :: "os \<Rightarrow> xmpp_server \<Rightarrow> xmpp_server res" where
  "xmpp_again os xs =
     (if x_status xs = XMPP_DISCONNECTED \<and> x_never_give_up xs = 1 \<and> x_last_try xs + x_connect_delay xs \<le> os_now os
      then xmpp_server_connect os (xs\<lparr>x_status := XMPP_INPROGRESS, x_last_try := os_now os\<rparr>)
      else Ok xs)"

definition xmpp_writes :: "xmpp_server \<Rightarrow> xmpp_server res" where
  "xmpp_writes xs =
     (if x_status xs \<in> {XMPP_NONBLOCKCONNECT, XMPP_WAITINGCONNECT} then
        (if in_fd_set (x_sock xs) then Ok (xs\<lparr>x_status := XMPP_WAITINGCONNECT\<rparr>) else Fault OutOfBounds)
      else Ok xs)"

definition xmpp_ready :: "xmpp_status \<Rightarrow> bool" where
  "xmpp_ready s \<longleftrightarrow> s \<in> {XMPP_NOTREADY, XMPP_CONNECTED, XMPP_AUTHORIZED, XMPP_IDLE}"

definition xmpp_reads :: "xmpp_server \<Rightarrow> xmpp_server res" where
  "xmpp_reads xs =
     (if x_sock xs \<noteq> -1 \<and> xmpp_ready (x_status xs) then
        (if in_fd_set (x_sock xs) then
           Ok (if x_status xs = XMPP_NOTREADY then (xmpp_ball_start_rolling xs)\<lparr>x_status := XMPP_CONNECTED\<rparr> else xs)
         else Fault OutOfBounds)
      else Ok xs)"

definition xmpp_prepare :: "os \<Rightarrow> xmpp_server \<Rightarrow> xmpp_server res" where
  "xmpp_prepare os xs = rbind (xmpp_again os xs) (\<lambda>xs. rbind (xmpp_writes xs) xmpp_reads)"

text \<open>After \<open>select\<close>.\<close>

definition xmpp_connecting :: "fd_event \<Rightarrow> xmpp_server \<Rightarrow> xmpp_server res" where
  "xmpp_connecting ev xs =
     (if x_status xs = XMPP_WAITINGCONNECT then
        rbind (fd_isset (fd_writable ev) (x_sock xs)) (\<lambda>b.
          Ok (if \<not> b then xs
              else if fd_valopt ev \<noteq> Some 0 then xs\<lparr>x_sock := -1, x_status := XMPP_DISCONNECTED\<rparr>
              else xs\<lparr>x_status := XMPP_NOTREADY\<rparr>))
      else Ok xs)"

definition xmpp_receive :: "fd_event \<Rightarrow> xmpp_server \<Rightarrow> xmpp_server res" where
  "xmpp_receive ev xs =
     (if x_sock xs \<noteq> -1 \<and> x_status xs \<in> {XMPP_CONNECTED, XMPP_AUTHORIZED, XMPP_IDLE} then
        rbind (fd_isset (fd_readable ev) (x_sock xs)) (\<lambda>b.
          Ok (if b \<and> xmpp_in xs = 0 then xs\<lparr>x_status := XMPP_DISCONNECTED\<rparr> else xs))
      else Ok xs)"

definition xmpp_serve :: "fd_event \<Rightarrow> xmpp_server \<Rightarrow> xmpp_server res" where
  "xmpp_serve ev xs = rbind (xmpp_connecting ev xs) (xmpp_receive ev)"

definition xmpp_turn :: "os \<Rightarrow> fd_event \<Rightarrow> xmpp_server \<Rightarrow> xmpp_server res" where
  "xmpp_turn os ev xs = rbind (xmpp_prepare os xs) (xmpp_serve ev)"

section \<open>The servers in turn\<close>

lemma next_server_mod: "i < length (x_servers xs) \<Longrightarrow> next_server xs i = (i + 1) mod length (x_servers xs)"
  by (auto simp: next_server_def mod_if)

text \<open>Attempts to connect, one after the other.\<close>

fun xmpp_attempts :: "(nat \<Rightarrow> os) \<Rightarrow> nat \<Rightarrow> xmpp_server \<Rightarrow> xmpp_server res" where
  "xmpp_attempts oss 0 xs = Ok xs"
| "xmpp_attempts oss (Suc k) xs = rbind (xmpp_attempts oss k xs) (xmpp_server_connect (oss k))"

definition hosts_known :: "xmpp_server \<Rightarrow> bool" where
  "hosts_known xs \<longleftrightarrow> list_all (\<lambda>s. sv_host s \<noteq> None) (x_servers xs)"

lemma xmpp_connect_next:
  assumes "x_cur_server xs = Some i" and "i < length (x_servers xs)" and "hosts_known xs" and "os_socket os \<noteq> -1"
  shows "\<exists>xs'. xmpp_server_connect os xs = Ok xs' \<and> x_servers xs' = x_servers xs \<and>
    x_cur_server xs' = Some ((i + 1) mod length (x_servers xs))"
proof -
  let ?j = "next_server xs i"
  have j: "?j = (i + 1) mod length (x_servers xs)" using assms(2) by (rule next_server_mod)
  then have "?j < length (x_servers xs)" using assms(2) by (cases "x_servers xs") auto
  then obtain h where h: "sv_host (x_servers xs ! ?j) = Some h"
    using assms(3) by (auto simp: hosts_known_def list_all_length)
  then show ?thesis
    using assms j by (auto simp: xmpp_server_connect_def next_server_def Let_def split: option.split conn.split)
qed

lemma xmpp_attempts_cycle:
  assumes "x_cur_server xs = Some i" and "i < length (x_servers xs)" and "hosts_known xs" and "\<And>k. os_socket (oss k) \<noteq> -1"
  shows "\<exists>xs'. xmpp_attempts oss k xs = Ok xs' \<and> x_servers xs' = x_servers xs \<and>
    x_cur_server xs' = Some ((i + k) mod length (x_servers xs))"
proof (induction k)
  case 0
  then show ?case using assms(1,2) by simp
next
  case (Suc k)
  then obtain x where x: "xmpp_attempts oss k xs = Ok x" "x_servers x = x_servers xs"
    "x_cur_server x = Some ((i + k) mod length (x_servers xs))" by blast
  have "(i + k) mod length (x_servers xs) < length (x_servers x)" using x(2) assms(2) by (cases "x_servers xs") auto
  moreover have "hosts_known x" using assms(3) x(2) by (simp add: hosts_known_def)
  ultimately show ?case
    using xmpp_connect_next [OF x(3), of "oss k"] assms(4) x by (auto simp: mod_Suc_eq)
qed

lemma cyclic_covers:
  assumes "i < n" and "j < (n :: nat)"
  shows "\<exists>k. 1 \<le> k \<and> k \<le> n \<and> (i + k) mod n = j"
proof (cases "i < j")
  case True
  then show ?thesis using assms by (intro exI [of _ "j - i"]) auto
next
  case False
  then have "(i + (n + j - i)) mod n = j" using assms by simp
  then show ?thesis using False assms by (intro exI [of _ "n + j - i"]) auto
qed

section \<open>A server of the configuration\<close>

lemma xmpp_settings_keeps:
  "xmpp_settings bs xs = Ok xs' \<Longrightarrow>
   x_never_give_up xs' = x_never_give_up xs \<and> x_sent xs' = x_sent xs \<and> x_label xs' = x_label xs \<and>
   x_status xs' = x_status xs \<and> x_sock xs' = x_sock xs"
  by (induction bs arbitrary: xs) (fastforce simp: rbind_Ok_iff split: if_splits)+

text \<open>
  A server with which nothing was agreed: it is still to be connected to, or the head of the stream was
  sent and that is all.
\<close>

definition xmpp_hello :: "xmpp_server \<Rightarrow> string list" where
  "xmpp_hello xs = x_sent (xmpp_ball_start_rolling (xs\<lparr>x_sent := []\<rparr>))"

definition xmpp_mute :: "xmpp_server \<Rightarrow> bool" where
  "xmpp_mute xs \<longleftrightarrow> x_never_give_up xs \<noteq> 1 \<and>
     (x_sent xs = [] \<and> x_status xs \<noteq> XMPP_CONNECTED \<and> x_status xs \<noteq> XMPP_AUTHORIZED \<and> x_status xs \<noteq> XMPP_IDLE \<or>
      x_sent xs = xmpp_hello xs \<and> x_status xs \<in> {XMPP_CONNECTED, XMPP_DISCONNECTED})"

lemma xmpp_connect_mute: "x_sent xs = [] \<Longrightarrow> x_never_give_up xs \<noteq> 1 \<Longrightarrow> x_status xs = XMPP_INPROGRESS \<Longrightarrow>
  all_ok xmpp_mute (xmpp_server_connect os xs)"
  by (auto simp: xmpp_server_connect_def xmpp_mute_def Let_def intro!: all_ok_rbind split: option.split conn.split)

lemma xmpp_again_once: "x_never_give_up xs \<noteq> 1 \<Longrightarrow> xmpp_again os xs = Ok xs"
  by (simp add: xmpp_again_def)

lemma xmpp_writes_mute: "xmpp_mute xs \<Longrightarrow> all_ok xmpp_mute (xmpp_writes xs)"
  by (auto simp: xmpp_writes_def xmpp_mute_def xmpp_hello_def)

lemma xmpp_reads_mute: "xmpp_mute xs \<Longrightarrow> all_ok xmpp_mute (xmpp_reads xs)"
  by (auto simp: xmpp_reads_def xmpp_mute_def xmpp_hello_def xmpp_ball_start_rolling_def xmpp_printf_def xmpp_ready_def)

lemma xmpp_connecting_mute: "xmpp_mute xs \<Longrightarrow> all_ok xmpp_mute (xmpp_connecting ev xs)"
  by (auto simp: xmpp_connecting_def xmpp_mute_def xmpp_hello_def xmpp_ball_start_rolling_def xmpp_printf_def intro!: all_ok_rbind)

lemma xmpp_receive_mute: "xmpp_mute xs \<Longrightarrow> all_ok xmpp_mute (xmpp_receive ev xs)"
  by (auto simp: xmpp_receive_def xmpp_mute_def xmpp_hello_def xmpp_ball_start_rolling_def xmpp_printf_def intro!: all_ok_rbind)

lemma all_ok_then: "all_ok Q m \<Longrightarrow> (\<And>x. Q x \<Longrightarrow> all_ok R (f x)) \<Longrightarrow> all_ok R (rbind m f)"
  by (cases m) simp_all

lemma xmpp_turn_mute:
  assumes "xmpp_mute xs"
  shows "all_ok xmpp_mute (xmpp_turn os ev xs)"
proof -
  have "xmpp_again os xs = Ok xs" using assms by (intro xmpp_again_once) (simp add: xmpp_mute_def)
  then have "all_ok xmpp_mute (xmpp_prepare os xs)"
    using all_ok_then [OF xmpp_writes_mute [OF assms] xmpp_reads_mute] by (simp add: xmpp_prepare_def)
  moreover have "all_ok xmpp_mute (xmpp_serve ev x)" if "xmpp_mute x" for x
    unfolding xmpp_serve_def by (rule all_ok_then [OF xmpp_connecting_mute [OF that] xmpp_receive_mute])
  ultimately show ?thesis unfolding xmpp_turn_def by (rule all_ok_then)
qed

text \<open>The runs of a server.\<close>

inductive xmpp_step :: "xmpp_server \<Rightarrow> xmpp_server \<Rightarrow> bool" where
  Xmpp_turn: "xmpp_turn os ev xs = Ok xs' \<Longrightarrow> xmpp_step xs xs'"

inductive_cases xmpp_stepE: "xmpp_step xs xs'"

lemma xmpp_steps_mute: "xmpp_step\<^sup>*\<^sup>* xs xs' \<Longrightarrow> xmpp_mute xs \<Longrightarrow> xmpp_mute xs'"
proof (induction rule: rtranclp_induct)
  case (step y z)
  then show ?case using xmpp_turn_mute [THEN all_okD] by (blast elim: xmpp_stepE)
qed

lemma xmpp_configured_mute:
  assumes "xmpp_server_from_tconfig_block tcfg = Ok (Some xs)" and "xmpp_start os xs = Ok xs'"
  shows "xmpp_mute xs'"
proof -
  have "x_never_give_up xs \<noteq> 1 \<and> x_sent xs = []"
    using assms(1) xmpp_settings_keeps
    by (fastforce simp: xmpp_server_from_tconfig_block_def new_xmpp_server_def rbind_Ok_iff split: option.splits if_splits)
  then show ?thesis
    using assms(2) unfolding xmpp_start_def by (intro all_okD [OF xmpp_connect_mute]) simp_all
qed

text \<open>The first answer ends the connection, and for good.\<close>

lemma xmpp_answer_drops:
  assumes "x_status xs = XMPP_CONNECTED" and "in_fd_set (x_sock xs)" and "fd_readable ev (x_sock xs)"
  shows "xmpp_turn os ev xs = Ok (xs\<lparr>x_status := XMPP_DISCONNECTED\<rparr>)"
proof -
  have "x_sock xs \<noteq> -1" using assms(2) by (auto simp: in_fd_set_def)
  then show ?thesis using assms
    by (simp add: xmpp_turn_def xmpp_prepare_def xmpp_again_def xmpp_writes_def xmpp_reads_def xmpp_ready_def
        xmpp_serve_def xmpp_connecting_def xmpp_receive_def fd_isset_def xmpp_in_def)
qed

lemma xmpp_gone: "x_status xs = XMPP_DISCONNECTED \<Longrightarrow> x_never_give_up xs \<noteq> 1 \<Longrightarrow> xmpp_turn os ev xs = Ok xs"
  by (simp add: xmpp_turn_def xmpp_prepare_def xmpp_again_def xmpp_writes_def xmpp_reads_def xmpp_ready_def
      xmpp_serve_def xmpp_connecting_def xmpp_receive_def)

section \<open>The features of a server\<close>

text \<open>The names of all mechanisms in the children of a \<open>features\<close> node.\<close>

definition mechanism_names :: "xml_lib \<Rightarrow> xml list \<Rightarrow> cstr list" where
  "mechanism_names lib ns =
     concat (map (\<lambda>n. map (\<lambda>m. xml_text lib (xml_children m)) (filter (\<lambda>m. xml_name m = ''mechanism'') (xml_children n)))
       (filter (\<lambda>n. xml_name n = ''mechanisms'') ns))"

definition known_algo :: "string \<Rightarrow> cstr" where
  "known_algo n = (if tstrcasecmp n ''DIGEST-MD5'' = 0 then Some ''md5'' else if tstrcasecmp n ''PLAIN'' = 0 then Some ''plain'' else None)"

definition remote_type :: "cstr \<Rightarrow> auth_type" where
  "remote_type n = \<lparr>at_name = n, algo_name = Option.bind n known_algo\<rparr>"

definition with_types :: "cstr list \<Rightarrow> xmpp_server \<Rightarrow> xmpp_server" where
  "with_types ns xs = xs\<lparr>auth_types_remote := fold (\<lambda>n l. auth_type_add l (remote_type n)) ns (auth_types_remote xs)\<rparr>"

lemma with_types_simps [simp]:
  "with_types [] xs = xs" "with_types (a @ b) xs = with_types b (with_types a xs)"
  "with_types (n # ns) xs = with_types ns (xs\<lparr>auth_types_remote := auth_type_add (auth_types_remote xs) (remote_type n)\<rparr>)"
  by (simp_all add: with_types_def)

lemma with_types_from: "dl_from (auth_types_remote (with_types ns xs)) = dl_from (auth_types_remote xs) @ map remote_type ns"
proof (induction ns arbitrary: xs)
  case (Cons n ns)
  have "dl_from (auth_type_add l t) = dl_from l @ [t]" for l t by (simp add: auth_type_add_def)
  then show ?case using Cons by simp
qed simp

lemma xmpp_mechanisms_list:
  assumes "None \<notin> set (map (\<lambda>m. xml_text lib (xml_children m)) (filter (\<lambda>m. xml_name m = ''mechanism'') ms))"
  shows "xmpp_mechanisms lib ms xs = Ok (with_types (map (\<lambda>m. xml_text lib (xml_children m)) (filter (\<lambda>m. xml_name m = ''mechanism'') ms)) xs)"
  using assms
proof (induction ms arbitrary: xs)
  case (Cons m ms)
  show ?case
  proof (cases "xml_name m = ''mechanism''")
    case True
    then obtain n where n: "xml_text lib (xml_children m) = Some n"
      using Cons.prems by (cases "xml_text lib (xml_children m)") simp_all
    then have "auth_type_get_algo_info (Some n) = Ok (algo_name (remote_type (Some n)))"
      by (simp add: auth_type_get_algo_info_def remote_type_def known_algo_def)
    then show ?thesis using Cons True n by (simp add: remote_type_def new_auth_type_def)
  qed (use Cons in simp)
qed simp

lemma xmpp_features_list:
  assumes "None \<notin> set (mechanism_names lib ns)" and "list_all (\<lambda>n. xml_name n = ''mechanisms'' \<longrightarrow> xml_children n \<noteq> []) ns"
  shows "xmpp_features lib ns xs = Ok (with_types (mechanism_names lib ns) xs, True)"
  using assms
proof (induction ns arbitrary: xs)
  case (Cons n ns)
  then show ?case
    using xmpp_mechanisms_list [of lib "xml_children n"]
    by (cases "xml_name n = ''mechanisms''") (simp_all add: mechanism_names_def)
qed (simp add: mechanism_names_def)

end
