(* ===== verification/Loop.thy ===== *)
theory Loop
  imports Select_Loop Dcc_Loop Http Xmpp
begin

text \<open>
  A whole turn of \<open>irc_loop\<close> in \<^verbatim>\<open>src/src/sockets.c\<close>: the parts in the order of the code, on one state. The
  sockets are those of networks.
\<close>

section \<open>State\<close>

text \<open>
  The bot, the static buffers of the two readers, the list of sockets, each with the place of its network, the servers of the modules,
  and the time of the last check of the timers.
\<close>

record loop_state =
  lp_bot :: bot
  lp_irc_buf :: irc_buf
  lp_dcc_buf :: irc_buf
  lp_socks :: "(tsocket \<times> nat) list"
  lp_xmpp :: "xmpp_server list"
  lp_http :: "http_server list"
  lp_last :: int

text \<open>
  What the system does in a turn: the calls for each network, XMPP server and web server, what it reports of a descriptor, \<open>accept\<close>, and
  what a timer does.
\<close>

record loop_input =
  li_env :: env
  li_os :: "nat \<Rightarrow> os"
  li_xmpp_os :: "nat \<Rightarrow> os"
  li_http_os :: "nat \<Rightarrow> os"
  li_evs :: "int \<Rightarrow> fd_event"
  li_accept :: "int \<Rightarrow> int"
  li_timer :: "t_timer \<Rightarrow> network \<Rightarrow> network res"

section \<open>Before the loop\<close>

text \<open>A network is connected to; its socket goes to the head of the list.\<close>

type_synonym socks_state = "(tsocket \<times> nat) list \<times> irc_buf \<times> bot"

definition net_start :: "loop_input \<Rightarrow> nat \<Rightarrow> socks_state \<Rightarrow> socks_state res" where
  "net_start inp i = (\<lambda>(ts, buf, b).
     let os = li_os inp i;
         net = (net_at i b)\<lparr>n_last_try := e_now (li_env inp), n_status := NET_INPROGRESS, tsock := Some i\<rparr> in
     rbind (connect_servers os (irc_callbacks (li_env inp) i) (vhost net) (dl_from (n_servers net))
         (tsocket_new\<lparr>ts_name := n_label net\<rparr>, buf, put_net i net b))
       (\<lambda>(ok, t, buf, b). Ok (if ok then (t, i) # ts else ts, buf, b)))"

fun nets_start :: "loop_input \<Rightarrow> nat list \<Rightarrow> socks_state \<Rightarrow> socks_state res" where
  "nets_start inp [] st = Ok st"
| "nets_start inp (i # is) st = rbind (net_start inp i st) (nets_start inp is)"

definition all_nets :: "bot \<Rightarrow> nat list" where
  "all_nets b = [0..<length (dl_all (networks (b_cfg b)))]"

definition loop_start :: "loop_input \<Rightarrow> loop_state \<Rightarrow> loop_state res" where
  "loop_start inp st =
     rbind (mapM_res (\<lambda>(k, x). xmpp_start (li_xmpp_os inp k) x) (enumerate 0 (lp_xmpp st))) (\<lambda>xs.
     rbind (http_start (li_http_os inp) 0 (lp_http st)) (\<lambda>hs.
     rbind (nets_start inp (all_nets (lp_bot st)) (lp_socks st, lp_irc_buf st, lp_bot st)) (\<lambda>(ts, buf, b).
       Ok (st\<lparr>lp_xmpp := xs, lp_http := hs, lp_socks := ts, lp_irc_buf := buf, lp_bot := b, lp_last := 0\<rparr>))))"

section \<open>Before select\<close>

text \<open>A network that is disconnected and never gives up is connected to after its delay. The set descriptors are those of its sessions.\<close>

definition net_waits :: "int \<Rightarrow> network \<Rightarrow> bool" where
  "net_waits now net \<longleftrightarrow> n_status net \<noteq> NET_DISCONNECTED \<or> never_give_up net \<noteq> 1 \<or> now < n_last_try net + connect_delay net"

definition net_again :: "loop_input \<Rightarrow> nat \<Rightarrow> socks_state \<Rightarrow> socks_state res" where
  "net_again inp i = (\<lambda>(ts, buf, b).
     if net_waits (e_now (li_env inp)) (net_at i b) then Ok (ts, buf, b) else net_start inp i (ts, buf, b))"

fun nets_prepare :: "loop_input \<Rightarrow> nat list \<Rightarrow> socks_state \<Rightarrow> ((int list \<times> int list) list \<times> socks_state) res" where
  "nets_prepare inp [] st = Ok ([], st)"
| "nets_prepare inp (i # is) st =
     rbind (net_again inp i st) (\<lambda>(ts, buf, b).
     rbind (dcc_prepare (net_at i b)) (\<lambda>(net, fds).
     rbind (nets_prepare inp is (ts, buf, put_net i net b)) (\<lambda>(r, st'). Ok (fds # r, st'))))"

definition sock_prepare :: "tsocket \<times> nat \<Rightarrow> (fd_set option \<times> tsocket \<times> nat) res" where
  "sock_prepare = (\<lambda>(t, i). rbind (tsocket_prepare t) (\<lambda>(w, t'). Ok (w, t', i)))"

text \<open>\<open>sockcount\<close> is not 0.\<close>

definition polled ::
  "xmpp_server list \<Rightarrow> (int list \<times> int list) list \<Rightarrow> int list \<Rightarrow> (fd_set option \<times> tsocket \<times> nat) list \<Rightarrow> bool" where
  "polled xs fdss hsocks ws \<longleftrightarrow>
     (\<exists>x \<in> set xs. x_status x = XMPP_WAITINGCONNECT \<or> x_sock x \<noteq> -1 \<and> xmpp_ready (x_status x)) \<or>
     (\<exists>fds \<in> set fdss. fds \<noteq> ([], [])) \<or> hsocks \<noteq> [] \<or> (\<exists>w \<in> set ws. fst w \<noteq> None)"

section \<open>After select\<close>

text \<open>The program may end at a line.\<close>

fun socks_serve :: "env \<Rightarrow> (int \<Rightarrow> fd_event) \<Rightarrow> (tsocket \<times> nat) list \<Rightarrow> irc_buf \<times> bot \<Rightarrow> ((tsocket \<times> nat) list \<times> irc_buf \<times> bot) res option" where
  "socks_serve env evs [] st = Some (Ok ([], st))"
| "socks_serve env evs ((t, i) # ts) st =
     (if b_exited (snd st) then Some (Ok ((t, i) # ts, st))
      else obind (tsocket_serve (irc_callbacks env i) (evs (ts_sock t)) (t, st)) (\<lambda>(t', st').
        case t' of
          None \<Rightarrow> Some (Fault UseAfterFree)
        | Some t'' \<Rightarrow> obind (socks_serve env evs ts st') (\<lambda>(r, st''). Some (Ok ((t'', i) # r, st'')))))"

text \<open>
  The timers of a network that is connected. What the handlers do to the list of timers is not kept, as the list that the
  check gives is stored at the end.
\<close>

definition net_connected :: "network \<Rightarrow> bool" where
  "net_connected net \<longleftrightarrow> n_status net \<in> {NET_CONNECTED, NET_AUTHORIZED, NET_IDLE}"

fun timers_call :: "(t_timer \<Rightarrow> network \<Rightarrow> network res) \<Rightarrow> t_timer list \<Rightarrow> network \<Rightarrow> network res" where
  "timers_call f [] net = Ok net"
| "timers_call f (t # ts) net = rbind (f t net) (timers_call f ts)"

definition net_timers :: "loop_input \<Rightarrow> int \<Rightarrow> network \<Rightarrow> (network \<times> int) res" where
  "net_timers inp prev net =
     (let now = e_now (li_env inp) in
      if net_connected net \<and> timers net \<noteq> [] \<and> prev \<le> now then
        rbind (t_timers_check (timers net) now) (\<lambda>(fired, ts).
        rbind (timers_call (li_timer inp) fired net) (\<lambda>net'. Ok (net'\<lparr>timers := ts\<rparr>, now)))
      else Ok (net, prev))"

definition net_accepted :: "loop_input \<Rightarrow> network \<Rightarrow> int option" where
  "net_accepted inp net = (let s = li_accept inp (dcc_listener net) in if s = -1 then None else Some s)"

fun nets_serve :: "loop_input \<Rightarrow> (nat \<times> int list \<times> int list) list \<Rightarrow> int \<times> irc_buf \<times> bot \<Rightarrow> (int \<times> irc_buf \<times> bot) res option" where
  "nets_serve inp [] st = Some (Ok st)"
| "nets_serve inp ((i, fds) # r) (prev, buf, b) =
     (if b_exited b then Some (Ok (prev, buf, b))
      else obind (Some (dcc_accept (li_evs inp) (net_accepted inp (net_at i b)) (fst fds) (net_at i b))) (\<lambda>net.
        obind (Some (net_timers inp prev net)) (\<lambda>(net, prev).
        obind (dcc_serve (li_env inp) i (li_evs inp) fds 0 (buf, put_net i net b)) (\<lambda>(buf, b).
          nets_serve inp r (prev, buf, b)))))"

section \<open>A turn\<close>

text \<open>Without a descriptor to wait for the loop starts again at once.\<close>

definition loop_turn :: "loop_input \<Rightarrow> loop_state \<Rightarrow> loop_state res option" where
  "loop_turn inp st =
     obind (Some (mapM_res (\<lambda>(k, x). xmpp_prepare (li_xmpp_os inp k) x) (enumerate 0 (lp_xmpp st)))) (\<lambda>xs.
     obind (Some (nets_prepare inp (all_nets (lp_bot st)) (lp_socks st, lp_irc_buf st, lp_bot st))) (\<lambda>(fdss, ts, buf, b).
     obind (http_select (li_http_os inp) 0 (lp_http st)) (\<lambda>(hs, hsocks).
     obind (Some (mapM_res sock_prepare ts)) (\<lambda>ws.
       let st' = st\<lparr>lp_xmpp := xs, lp_irc_buf := buf, lp_bot := b, lp_http := hs, lp_socks := map snd ws\<rparr> in
       if \<not> polled xs fdss hsocks ws then Some (Ok st')
       else
         obind (socks_serve (li_env inp) (li_evs inp) (map snd ws) (buf, b)) (\<lambda>(ts, ibuf, b).
         if b_exited b then Some (Ok (st'\<lparr>lp_socks := ts, lp_irc_buf := ibuf, lp_bot := b\<rparr>))
         else
           obind (Some (mapM_res (\<lambda>x. xmpp_serve (li_evs inp (x_sock x)) x) xs)) (\<lambda>xs.
           obind (Some (mapM_res (http_serve (\<lambda>s. fd_readable (li_evs inp s) s) (li_accept inp)) hs)) (\<lambda>hs.
           obind (nets_serve inp (zip (all_nets b) fdss) (lp_last st, lp_dcc_buf st, b)) (\<lambda>(prev, dbuf, b).
             Some (Ok (st'\<lparr>lp_socks := ts, lp_irc_buf := ibuf, lp_xmpp := xs, lp_http := hs, lp_last := prev, lp_dcc_buf := dbuf,
               lp_bot := b\<rparr>))))))))))"

section \<open>Turns in which little happens\<close>

text \<open>At most one descriptor is reported, for reading.\<close>

definition only_readable :: "(int \<Rightarrow> fd_event) \<Rightarrow> int \<Rightarrow> bool" where
  "only_readable evs q \<longleftrightarrow> (\<forall>s. s \<noteq> q \<longrightarrow> \<not> fd_readable (evs s) s) \<and> (\<forall>s. \<not> fd_writable (evs s) s)"

text \<open>What waits for something, on another descriptor.\<close>

definition settled_session :: "int \<Rightarrow> dcc_session \<Rightarrow> bool" where
  "settled_session q d \<longleftrightarrow> in_fd_set (d_sock d) \<and> d_sock d \<noteq> q \<and> session_select d = d"

definition calm_net :: "int \<Rightarrow> int \<Rightarrow> network \<Rightarrow> bool" where
  "calm_net q now net \<longleftrightarrow> list_all (settled_session q) (dl_from (n_dccs net)) \<and>
     (dcc_listener net = -1 \<or> in_fd_set (dcc_listener net) \<and> dcc_listener net \<noteq> q) \<and>
     (net_connected net \<longrightarrow> (\<forall>t \<in> set (timers net). now < time_trig t)) \<and> net_waits now net"

definition calm_bot :: "int \<Rightarrow> int \<Rightarrow> bot \<Rightarrow> bool" where
  "calm_bot q now b \<longleftrightarrow> (\<forall>i \<in> set (all_nets b). calm_net q now (net_at i b))"

definition settled_xmpp :: "int \<Rightarrow> xmpp_server \<Rightarrow> bool" where
  "settled_xmpp q x \<longleftrightarrow>
     x_status x = XMPP_DISCONNECTED \<and> x_never_give_up x \<noteq> 1 \<or>
     x_status x \<in> {XMPP_WAITINGCONNECT, XMPP_CONNECTED, XMPP_AUTHORIZED, XMPP_IDLE} \<and> in_fd_set (x_sock x) \<and> x_sock x \<noteq> q"

definition settled_http :: "int \<Rightarrow> http_server \<Rightarrow> bool" where
  "settled_http q h \<longleftrightarrow> listening h \<and> h_sock h \<noteq> q"

definition settled_sock :: "tsocket \<Rightarrow> bool" where
  "settled_sock t \<longleftrightarrow> ts_status t \<in> {TSOCK_CONNECTING, TSOCK_INFDSET} \<and> in_fd_set (ts_sock t)"

lemma dcc_prepare_settled: "list_all (settled_session q) ds \<Longrightarrow> \<exists>fds'. dcc_prepare_sessions ds fds = Ok (ds, fds')"
proof (induction ds arbitrary: fds)
  case (Cons d ds)
  have "\<exists>fds1. dcc_prepare_session d fds = Ok (d, fds1)"
    using Cons.prems by (cases fds) (auto simp: dcc_prepare_session_def settled_session_def fd_put_def)
  then obtain fds1 where "dcc_prepare_session d fds = Ok (d, fds1)" by blast
  moreover obtain fds2 where "dcc_prepare_sessions ds fds1 = Ok (ds, fds2)" using Cons.IH [of fds1] Cons.prems by auto
  ultimately show ?case by simp
qed simp

lemma dcc_prepare_calm: "calm_net q now net \<Longrightarrow> \<exists>fds. dcc_prepare net = Ok (net, fds)"
proof -
  assume c: "calm_net q now net"
  have "\<exists>s. (if dcc_listener net \<noteq> -1 then fd_put (dcc_listener net) [] else Ok []) = Ok s"
    using c by (auto simp: calm_net_def fd_put_def)
  then obtain s where s: "(if dcc_listener net \<noteq> -1 then fd_put (dcc_listener net) [] else Ok []) = Ok s" by blast
  moreover obtain fds where "dcc_prepare_sessions (dl_from (n_dccs net)) (s, []) = Ok (dl_from (n_dccs net), fds)"
    using c dcc_prepare_settled by (fastforce simp: calm_net_def)
  ultimately show ?thesis by (simp add: dcc_prepare_def)
qed

lemma nets_prepare_calm:
  "\<forall>i \<in> set is. calm_net q (e_now (li_env inp)) (net_at i b) \<Longrightarrow> \<exists>fdss. nets_prepare inp is (ts, buf, b) = Ok (fdss, ts, buf, b)"
proof (induction "is")
  case (Cons i "is")
  then obtain fds fdss where "dcc_prepare (net_at i b) = Ok (net_at i b, fds)" "nets_prepare inp is (ts, buf, b) = Ok (fdss, ts, buf, b)"
    using dcc_prepare_calm by fastforce
  moreover have "net_again inp i (ts, buf, b) = Ok (ts, buf, b)" using Cons.prems by (simp add: net_again_def calm_net_def)
  ultimately show ?case by simp
qed simp

lemma dcc_accept_calm: "calm_net q now net \<Longrightarrow> only_readable evs q \<Longrightarrow> dcc_accept evs acc socks net = Ok net"
  by (auto simp: dcc_accept_def calm_net_def only_readable_def fd_set_isset_def)

lemma net_timers_calm: "calm_net q (e_now (li_env inp)) net \<Longrightarrow> \<exists>prev'. net_timers inp prev net = Ok (net, prev')"
  by (auto simp: net_timers_def calm_net_def Let_def t_timers_check_idle)

lemma dcc_serve_calm:
  assumes "calm_net q now (net_at i b)" and "only_readable evs q" and "\<not> b_exited b"
  shows "dcc_serve env i evs fds 0 (buf, b) = Some (Ok (buf, b))"
proof -
  let ?ds = "dl_from (n_dccs (net_at i b))"
  have "at_rest evs fds (session_at (net_at i b) k)" if "k < length ?ds" for k
    using assms that by (simp add: calm_net_def at_rest_def session_at_def settled_session_def only_readable_def list_all_length)
  then show ?thesis
    using dcc_serve_all_rest [of 0 "length ?ds" evs fds i b env buf] assms(3) dcc_serve_end [of i b "length ?ds" env evs fds buf] by simp
qed

lemma nets_serve_calm:
  assumes "\<forall>(i, fds) \<in> set ps. calm_net q (e_now (li_env inp)) (net_at i b)" and "only_readable (li_evs inp) q" and "\<not> b_exited b"
  shows "\<exists>prev'. nets_serve inp ps (prev, buf, b) = Some (Ok (prev', buf, b))"
  using assms(1)
proof (induction ps arbitrary: prev)
  case (Cons p ps)
  obtain i fds where p: "p = (i, fds)" by (cases p)
  have c: "calm_net q (e_now (li_env inp)) (net_at i b)" using Cons.prems p by auto
  obtain prev1 where "net_timers inp prev (net_at i b) = Ok (net_at i b, prev1)" using net_timers_calm [OF c] by blast
  moreover obtain prev2 where "nets_serve inp ps (prev1, buf, b) = Some (Ok (prev2, buf, b))" using Cons by auto
  ultimately show ?case
    using dcc_accept_calm [OF c assms(2)] dcc_serve_calm [OF c assms(2,3)] assms(3) by (simp add: p)
qed simp

lemma mapM_res_same: "(\<And>x. x \<in> set xs \<Longrightarrow> f x = Ok x) \<Longrightarrow> mapM_res f xs = Ok xs"
  using mapM_res_Ok [of xs f "\<lambda>x. x"] by simp

lemma settled_xmpp_idle:
  assumes "settled_xmpp q x"
  shows "xmpp_prepare os x = Ok x" and "only_readable evs q \<Longrightarrow> xmpp_serve (evs (x_sock x)) x = Ok x"
proof -
  show "xmpp_prepare os x = Ok x"
    using assms by (auto simp: settled_xmpp_def xmpp_prepare_def xmpp_again_def xmpp_writes_def xmpp_reads_def xmpp_ready_def)
  show "only_readable evs q \<Longrightarrow> xmpp_serve (evs (x_sock x)) x = Ok x"
    using assms by (auto simp: settled_xmpp_def xmpp_serve_def xmpp_connecting_def xmpp_receive_def fd_isset_def only_readable_def)
qed

lemma settled_http_idle:
  assumes "list_all (settled_http q) hs" and "only_readable evs q"
  shows "http_select oss k hs = Some (Ok (hs, map h_sock hs))" and "mapM_res (http_serve (\<lambda>s. fd_readable (evs s) s) acc) hs = Ok hs"
proof -
  show "http_select oss k hs = Some (Ok (hs, map h_sock hs))"
    using assms(1) by (intro http_select_all) (simp add: list_all_iff settled_http_def)
  show "mapM_res (http_serve (\<lambda>s. fd_readable (evs s) s) acc) hs = Ok hs"
    using assms by (intro mapM_res_same) (auto simp: list_all_iff settled_http_def http_serve_listening http_accepted_def only_readable_def)
qed

lemma settled_sock_prepare: "settled_sock t \<Longrightarrow> \<exists>w. sock_prepare (t, i) = Ok (w, t, i)"
  by (cases t) (auto simp: sock_prepare_def settled_sock_def tsocket_prepare_def)

lemma settled_socks_prepare:
  "list_all (settled_sock \<circ> fst) ts \<Longrightarrow> \<exists>ws. mapM_res sock_prepare ts = Ok ws \<and> map snd ws = ts"
proof (induction ts)
  case (Cons x ts)
  obtain t i where x: "x = (t, i)" by (cases x)
  then obtain w ws where "sock_prepare (t, i) = Ok (w, t, i)" "mapM_res sock_prepare ts = Ok ws" "map snd ws = ts"
    using Cons settled_sock_prepare [of t i] by auto
  then show ?case using x by auto
qed simp

lemma settled_sock_serve:
  assumes "settled_sock t" and "only_readable evs q" and "ts_sock t \<noteq> q"
  shows "tsocket_serve (irc_callbacks env i) (evs (ts_sock t)) (t, st) = Some (Ok (Some t, st))"
  using assms
  by (auto simp: settled_sock_def tsocket_serve_def serve_read_def serve_write_def fd_isset_def only_readable_def irc_callbacks_def)

lemma socks_serve_settled:
  assumes "list_all (\<lambda>(t, i). settled_sock t \<and> ts_sock t \<noteq> q) ts" and "only_readable evs q"
  shows "socks_serve env evs ts st = Some (Ok (ts, st))"
  using assms(1) by (induction ts arbitrary: st) (auto simp: settled_sock_serve [OF _ assms(2)])

lemma socks_serve_before:
  assumes "list_all (\<lambda>(t, i). settled_sock t \<and> ts_sock t \<noteq> q) pre" and "only_readable evs q" and "\<not> b_exited (snd st)"
  shows "socks_serve env evs (pre @ ts) st = obind (socks_serve env evs ts st) (\<lambda>(r, st'). Some (Ok (pre @ r, st')))"
  using assms(1)
proof (induction pre)
  case Nil
  show ?case by (cases "socks_serve env evs ts st") (auto simp: obind_def split: sum.split)
next
  case (Cons x pre)
  obtain t i where x: "x = (t, i)" by (cases x)
  then show ?case
    using Cons assms(2,3) by (cases "socks_serve env evs ts st") (auto simp: settled_sock_serve obind_def split: sum.split)
qed

text \<open>A state all of whose parts but the sockets of networks are settled.\<close>

definition settled_around :: "int \<Rightarrow> loop_input \<Rightarrow> loop_state \<Rightarrow> bool" where
  "settled_around q inp st \<longleftrightarrow> only_readable (li_evs inp) q \<and> list_all (settled_xmpp q) (lp_xmpp st) \<and>
     list_all (settled_http q) (lp_http st) \<and> calm_bot q (e_now (li_env inp)) (lp_bot st) \<and> \<not> b_exited (lp_bot st)"

text \<open>What is left of a turn: the sockets are served, and the rest is as it was.\<close>

lemma loop_turn_settled:
  assumes s: "settled_around q inp st" and socks: "list_all (settled_sock \<circ> fst) (lp_socks st)" "lp_socks st \<noteq> []"
    and served: "socks_serve (li_env inp) (li_evs inp) (lp_socks st) (lp_irc_buf st, lp_bot st) = Some (Ok (lp_socks st, buf', b'))"
    and after: "b_exited b' \<or> calm_bot q (e_now (li_env inp)) b'"
  shows "\<exists>prev. loop_turn inp st = Some (Ok (st\<lparr>lp_irc_buf := buf', lp_bot := b', lp_last := prev\<rparr>))"
proof -
  have e: "only_readable (li_evs inp) q" using s by (simp add: settled_around_def)
  have xs: "mapM_res (\<lambda>(k, x). xmpp_prepare (li_xmpp_os inp k) x) (enumerate 0 (lp_xmpp st)) = Ok (lp_xmpp st)"
    using mapM_res_Ok [of "enumerate 0 (lp_xmpp st)" "\<lambda>(k, x). xmpp_prepare (li_xmpp_os inp k) x" snd] s settled_xmpp_idle(1)
    by (force simp: settled_around_def list_all_iff enumerate_eq_zip dest: set_zip_rightD)
  have xs': "mapM_res (\<lambda>x. xmpp_serve (li_evs inp (x_sock x)) x) (lp_xmpp st) = Ok (lp_xmpp st)"
    using s e settled_xmpp_idle(2) by (intro mapM_res_same) (auto simp: settled_around_def list_all_iff)
  obtain fdss where nets: "nets_prepare inp (all_nets (lp_bot st)) (lp_socks st, lp_irc_buf st, lp_bot st) = Ok (fdss, lp_socks st, lp_irc_buf st, lp_bot st)"
    using s nets_prepare_calm by (fastforce simp: settled_around_def calm_bot_def)
  have hs: "list_all (settled_http q) (lp_http st)" using s by (simp add: settled_around_def)
  obtain ws where ws: "mapM_res sock_prepare (lp_socks st) = Ok ws" "map snd ws = lp_socks st"
    using settled_socks_prepare [OF socks(1)] by blast
  have "\<exists>w \<in> set ws. fst w \<noteq> None"
  proof -
    obtain t i ts where t: "lp_socks st = (t, i) # ts" using socks(2) by (cases "lp_socks st") auto
    then obtain w where "sock_prepare (t, i) = Ok (w, t, i)" "w \<noteq> None"
      using socks(1) by (auto simp: settled_sock_def sock_prepare_def tsocket_prepare_def)
    then show ?thesis using ws(1) t by (auto simp: rbind_Ok_iff)
  qed
  then have p: "polled (lp_xmpp st) fdss hsocks ws" for hsocks by (simp add: polled_def)
  show ?thesis
  proof (cases "b_exited b'")
    case True
    have "loop_turn inp st = Some (Ok (st\<lparr>lp_irc_buf := buf', lp_bot := b', lp_last := lp_last st\<rparr>))"
      using True xs nets ws p served settled_http_idle(1) [OF hs e] by (simp add: loop_turn_def Let_def)
    then show ?thesis by blast
  next
    case False
    have "\<forall>(i, fds) \<in> set (zip (all_nets b') fdss). calm_net q (e_now (li_env inp)) (net_at i b')"
      using after False by (auto simp: calm_bot_def dest: set_zip_leftD)
    then obtain prev where "nets_serve inp (zip (all_nets b') fdss) (lp_last st, lp_dcc_buf st, b') = Some (Ok (prev, lp_dcc_buf st, b'))"
      using nets_serve_calm [OF _ e False] by blast
    then have "loop_turn inp st = Some (Ok (st\<lparr>lp_irc_buf := buf', lp_bot := b', lp_last := prev\<rparr>))"
      using False xs xs' nets ws p served settled_http_idle [OF hs e] by (simp add: loop_turn_def Let_def)
    then show ?thesis by blast
  qed
qed

text \<open>Nothing is reported: nothing changes but the time of the last check of the timers.\<close>

lemma loop_idle:
  assumes "settled_around (-1) inp st" and "list_all (settled_sock \<circ> fst) (lp_socks st)" and "lp_socks st \<noteq> []"
  shows "\<exists>prev. loop_turn inp st = Some (Ok (st\<lparr>lp_last := prev\<rparr>))"
proof -
  have "list_all (\<lambda>(t, i). settled_sock t \<and> ts_sock t \<noteq> -1) (lp_socks st)"
    using assms(2) by (auto simp: list_all_iff settled_sock_def in_fd_set_def)
  then have "socks_serve (li_env inp) (li_evs inp) (lp_socks st) (lp_irc_buf st, lp_bot st) = Some (Ok (lp_socks st, lp_irc_buf st, lp_bot st))"
    using assms(1) by (intro socks_serve_settled) (auto simp: settled_around_def)
  then show ?thesis
    using loop_turn_settled [OF assms(1-3)] assms(1) by (fastforce simp: settled_around_def)
qed

text \<open>One socket is read from: the bot runs on the lines, and every other part of the state is as it was.\<close>

lemma loop_delivers:
  assumes s: "settled_around (ts_sock t) inp st" and socks: "lp_socks st = pre @ (t, i) # behind"
    and others: "list_all (\<lambda>(u, k). settled_sock u \<and> ts_sock u \<noteq> ts_sock t) (pre @ behind)"
    and t: "ts_status t = TSOCK_INFDSET" "in_fd_set (ts_sock t)"
    and rd: "fd_readable (li_evs inp (ts_sock t)) (ts_sock t)" "fd_recv (li_evs inp (ts_sock t)) = Received chunk"
    and buf: "ib_ok (lp_irc_buf st)" "length chunk \<le> 1023"
      "ib_buffer (lp_irc_buf st) = None \<Longrightarrow> NL \<in> set chunk \<or> length chunk < ib_size (lp_irc_buf st) \<and> ib_size (lp_irc_buf st) \<le> 1026"
    and run: "parse_irc_lines (li_env inp) i (fst (split_lines (pending (lp_irc_buf st) @ chunk))) (lp_bot st) = Some (Ok b')"
    and after: "b_exited b' \<or> calm_bot (ts_sock t) (e_now (li_env inp)) b'"
  shows "\<exists>buf' prev. pending buf' = snd (split_lines (pending (lp_irc_buf st) @ chunk)) \<and>
    loop_turn inp st = Some (Ok (st\<lparr>lp_irc_buf := buf', lp_bot := b', lp_last := prev\<rparr>))"
proof -
  let ?evs = "li_evs inp" and ?env = "li_env inp"
  have e: "only_readable ?evs (ts_sock t)" and run0: "\<not> b_exited (lp_bot st)" using s by (simp_all add: settled_around_def)
  obtain buf' where buf': "pending buf' = snd (split_lines (pending (lp_irc_buf st) @ chunk))"
    "tsocket_turn (irc_callbacks ?env i) (?evs (ts_sock t)) (t, lp_irc_buf st, lp_bot st) = Some (Ok (Some (t\<lparr>ts_status := TSOCK_INFDSET\<rparr>), buf', b'))"
    using irc_received_turn [of t "?evs (ts_sock t)" chunk "lp_irc_buf st" ?env i "lp_bot st"] t rd buf run by auto
  have same: "t\<lparr>ts_status := TSOCK_INFDSET\<rparr> = t" using t(1) by (cases t) simp
  have now: "tsocket_serve (irc_callbacks ?env i) (?evs (ts_sock t)) (t, lp_irc_buf st, lp_bot st) = Some (Ok (Some t, buf', b'))"
    using buf'(2) t same by (simp add: tsocket_turn_def tsocket_prepare_def)
  have "socks_serve ?env ?evs behind (buf', b') = Some (Ok (behind, buf', b'))"
    using others e by (intro socks_serve_settled) auto
  then have "socks_serve ?env ?evs ((t, i) # behind) (lp_irc_buf st, lp_bot st) = Some (Ok ((t, i) # behind, buf', b'))"
    using now run0 by simp
  then have "socks_serve ?env ?evs (lp_socks st) (lp_irc_buf st, lp_bot st) = Some (Ok (lp_socks st, buf', b'))"
    using socks_serve_before [of "ts_sock t" pre ?evs "(lp_irc_buf st, lp_bot st)" ?env "(t, i) # behind"] others e run0 socks by simp
  moreover have "list_all (settled_sock \<circ> fst) (lp_socks st)"
    using others t socks by (auto simp: list_all_iff settled_sock_def)
  ultimately show ?thesis
    using loop_turn_settled [OF s, of buf' b'] after socks buf'(1) by auto
qed

text \<open>The sockets that the start puts into the list are those that the loop waits for.\<close>

lemma net_start_ok:
  assumes "net_start inp i (ts, buf, b) = Ok (ts', st')" and "\<And>k. os_socket (li_os inp k) \<noteq> -1 \<Longrightarrow> in_fd_set (os_socket (li_os inp k))"
    and "list_all (ts_ok \<circ> fst) ts"
  shows "list_all (ts_ok \<circ> fst) ts' \<and> (\<exists>new. ts' = new @ ts \<and> set (map snd new) \<subseteq> {i})"
proof -
  obtain ok t buf1 b1 where c: "connect_servers (li_os inp i) (irc_callbacks (li_env inp) i) (vhost (net_at i b)) (dl_from (n_servers (net_at i b)))
      (tsocket_new\<lparr>ts_name := n_label (net_at i b)\<rparr>, buf,
        put_net i ((net_at i b)\<lparr>n_last_try := e_now (li_env inp), n_status := NET_INPROGRESS, tsock := Some i\<rparr>) b) = Ok (ok, t, buf1, b1)"
    and ts': "ts' = (if ok then [(t, i)] else []) @ ts"
    using assms(1) by (auto simp: net_start_def Let_def rbind_Ok_iff split: if_splits)
  have "ok \<Longrightarrow> ts_ok t" using connect_servers_ok [OF _ assms(2)] c by fastforce
  then have "list_all (ts_ok \<circ> fst) ts'" using assms(3) ts' by simp
  moreover have "set (map snd (if ok then [(t, i)] else [])) \<subseteq> {i}" by auto
  ultimately show ?thesis using ts' by blast
qed

lemma nets_start_ok:
  assumes "nets_start inp is (ts, buf, b) = Ok (ts', st')" and "\<And>k. os_socket (li_os inp k) \<noteq> -1 \<Longrightarrow> in_fd_set (os_socket (li_os inp k))"
    and "list_all (ts_ok \<circ> fst) ts"
  shows "list_all (ts_ok \<circ> fst) ts' \<and> (\<exists>new. ts' = new @ ts \<and> set (map snd new) \<subseteq> set is)"
  using assms(1,3)
proof (induction "is" arbitrary: ts buf b)
  case (Cons i "is")
  obtain ts1 buf1 b1 where m: "net_start inp i (ts, buf, b) = Ok (ts1, buf1, b1)" "nets_start inp is (ts1, buf1, b1) = Ok (ts', st')"
    using Cons.prems(1) by (auto simp: rbind_Ok_iff)
  obtain new1 where n1: "list_all (ts_ok \<circ> fst) ts1" "ts1 = new1 @ ts" "set (map snd new1) \<subseteq> {i}"
    using net_start_ok [OF m(1) assms(2) Cons.prems(2)] by blast
  obtain new2 where n2: "list_all (ts_ok \<circ> fst) ts'" "ts' = new2 @ ts1" "set (map snd new2) \<subseteq> set is"
    using Cons.IH [OF m(2) n1(1)] by blast
  have "ts' = (new2 @ new1) @ ts" "set (map snd (new2 @ new1)) \<subseteq> set (i # is)" using n1 n2 by auto
  then show ?case using n2(1) by blast
qed auto

end
