(* ===== verification/Tconfig_Shape.thy ===== *)
theory Tconfig_Shape
  imports Tconfig
begin

text \<open>
  What the parser of \<^verbatim>\<open>src/src/tconfig.c\<close> guarantees about its trees, whatever the file: the links to the parents are where
  the traversals look for them, and no pair is twice on a level. So a file that was read can be written again.
\<close>

section \<open>The shape of a tree\<close>

text \<open>
  A level whose first block has a link to its parent, below the top. A block without a key has no value either: it was
  opened and nothing was written to it.
\<close>

fun shaped :: "bool \<Rightarrow> tblock list \<Rightarrow> bool" where
  "shaped first [] = True"
| "shaped first (TB k v p cs # r) =
     ((k = None \<longleftrightarrow> v = None) \<and> p = first \<and> shaped True cs \<and> shaped False r \<and> distinct (map pair_of (TB k v p cs # r)))"

fun words_ok :: "tblock list \<Rightarrow> bool" where
  "words_ok [] = True"
| "words_ok (TB k v p cs # r) =
     ((case k of None \<Rightarrow> False | Some k' \<Rightarrow> key_ok k') \<and> (case v of None \<Rightarrow> False | Some v' \<Rightarrow> value_ok v') \<and>
      words_ok cs \<and> words_ok r)"

lemma shaped_distinct: "shaped first bs \<Longrightarrow> distinct (map pair_of bs)"
  by (cases "(first, bs)" rule: shaped.cases) simp_all

lemma shaped_storable: "shaped first bs \<Longrightarrow> words_ok bs \<Longrightarrow> storable first bs"
proof (induction bs arbitrary: first rule: forest_induct)
  case (Cons k v p cs r)
  then show ?case using shaped_distinct [of True cs] by simp
qed simp

lemma shaped_linked: "shaped first bs \<Longrightarrow> list_all linked bs"
proof (induction bs arbitrary: first rule: forest_induct)
  case (Cons k v p cs r)
  have "cs \<noteq> [] \<Longrightarrow> tb_parent (hd cs)" using Cons.prems by (cases "(True, cs)" rule: shaped.cases) simp_all
  then show ?case using Cons by (auto split: list.split)
qed simp

lemma shaped_append:
  "shaped first (a @ b) \<longleftrightarrow> shaped first a \<and> shaped (first \<and> a = []) b \<and> distinct (map pair_of (a @ b))"
proof (induction a arbitrary: first)
  case Nil
  then show ?case using shaped_distinct [of first b] by auto
next
  case (Cons x a)
  then show ?case by (cases x) auto
qed

lemma shaped_Cons:
  "shaped first (b # r) \<longleftrightarrow> (tb_key b = None \<longleftrightarrow> tb_value b = None) \<and> tb_parent b = first \<and> shaped True (tb_child b) \<and>
     shaped False r \<and> distinct (map pair_of (b # r))"
  by (cases b) simp

section \<open>The parser\<close>

text \<open>A place in a tree: its level and the levels that it is below, without the blocks that lead to it.\<close>

fun frames_ok :: "tframe list \<Rightarrow> bool" where
  "frames_ok [] = True"
| "frames_ok ((l, k, v, p, r) # up) = (shaped (up \<noteq> []) (rev l @ TB k v p [] # r) \<and> frames_ok up)"

definition place_ok :: "tzip \<Rightarrow> bool" where
  "place_ok z \<longleftrightarrow> shaped (tz_up z \<noteq> []) (tz_level z) \<and> frames_ok (tz_up z)"

text \<open>A block on a level may be given other children.\<close>

lemma shaped_children:
  "shaped first (a @ TB k v p cs # r) \<longleftrightarrow> shaped first (a @ TB k v p [] # r) \<and> shaped True cs"
  by (auto simp: shaped_append)

lemma plug_shaped: "shaped (up \<noteq> []) level \<Longrightarrow> frames_ok up \<Longrightarrow> shaped False (plug level up)"
proof (induction level up rule: plug.induct)
  case (2 level l k v p r up)
  then show ?case using shaped_children [of _ "rev l" k v p level r] by simp
qed simp

lemma open_block_place: "place_ok z \<Longrightarrow> place_ok (open_block z)"
proof -
  assume z: "place_ok z"
  obtain l k v p cs r up where t: "z = TZ l (TB k v p cs) r up" by (metis tblock.exhaust tzip.exhaust)
  then have s: "shaped (up \<noteq> []) (rev l @ TB k v p [] # r)" "shaped True cs" "frames_ok up"
    using z shaped_children [of "up \<noteq> []" "rev l" k v p cs r] by (simp_all add: place_ok_def tz_level_def)
  then show ?thesis
    by (cases cs) (simp_all add: open_block_def t tz_of_list_def place_ok_def tz_level_def)
qed

lemma close_block_place: "place_ok z \<Longrightarrow> close_block z = Ok z' \<Longrightarrow> place_ok z'"
proof -
  assume z: "place_ok z" and c: "close_block z = Ok z'"
  obtain l x r up where t: "z = TZ l x r up" by (cases z)
  obtain b bs where l: "rev l @ x # r = b # bs" by (cases "rev l @ x # r") simp_all
  obtain l' k v p r' up' where up: "up = (l', k, v, p, r') # up'" "z' = TZ l' (TB k v p (b # bs)) r' up'"
    using c t l by (cases up) (auto simp: close_block_def split: if_splits option.splits)
  have "shaped True (b # bs)" "shaped (up' \<noteq> []) (rev l' @ TB k v p [] # r')" "frames_ok up'"
    using z t l up by (simp_all add: place_ok_def tz_level_def)
  then show ?thesis
    using up shaped_children [of "up' \<noteq> []" "rev l'" k v p "b # bs" r'] by (simp add: place_ok_def tz_level_def)
qed

lemma put_pair_place: "place_ok z \<Longrightarrow> place_ok (put_pair k v z)"
proof -
  assume z: "place_ok z"
  let ?L = "tz_level z"
  have ne: "?L \<noteq> []" by (simp add: tz_level_def)
  then have split: "?L = butlast ?L @ [last ?L]" by simp
  have L: "shaped (tz_up z \<noteq> []) ?L" and f: "frames_ok (tz_up z)" using z by (simp_all add: place_ok_def)
  show ?thesis
  proof (cases "find_index (same_pair k v) ?L")
    case None
    then have new: "(Some k, Some v) \<notin> pair_of ` set ?L"
      by (auto simp: find_index_None_iff same_pair_def pair_of_def)
    show ?thesis
    proof (cases "tb_key (last ?L) = None \<and> tb_value (last ?L) = None")
      case True
      have b: "shaped (tz_up z \<noteq> []) (butlast ?L)" "shaped (tz_up z \<noteq> [] \<and> butlast ?L = []) [last ?L]"
        using L shaped_append [of "tz_up z \<noteq> []" "butlast ?L" "[last ?L]"] split by auto
      have "(Some k, Some v) \<notin> pair_of ` set (butlast ?L)" using new in_set_butlastD by fastforce
      then have "shaped (tz_up z \<noteq> []) (butlast ?L @ [TB (Some k) (Some v) (tb_parent (last ?L)) (tb_child (last ?L))])"
        using b shaped_distinct [OF b(1)] by (simp add: shaped_append shaped_Cons)
      then show ?thesis using None True f ne by (simp add: put_pair_def Let_def place_ok_def tz_level_def [of "TZ _ _ _ _"])
    next
      case False
      have "shaped (tz_up z \<noteq> []) (?L @ [TB (Some k) (Some v) False []])"
        using L new ne shaped_distinct [OF L] by (simp add: shaped_append)
      then show ?thesis using None False f by (auto simp: put_pair_def Let_def place_ok_def tz_level_def [of "TZ _ _ _ _"])
    qed
  next
    case (Some i)
    then have "i < length ?L" by (simp add: find_index_Some)
    then have "rev (rev (take i ?L)) @ ?L ! i # drop (Suc i) ?L = ?L" by (simp add: id_take_nth_drop [symmetric])
    then show ?thesis using Some L f by (simp add: put_pair_def Let_def place_ok_def tz_level_def [of "TZ _ _ _ _"])
  qed
qed

lemma parse_blocks_place: "parse_blocks slack z s = Ok z' \<Longrightarrow> place_ok z \<Longrightarrow> place_ok z'"
proof (induction slack z s rule: parse_blocks.induct)
  case (2 slack block c cs)
  then show ?case
    by (auto simp: rbind_Ok_iff open_block_place put_pair_place dest: close_block_place split: if_splits list.splits option.splits)
qed simp

lemma file_to_tconfig_shaped: "file_to_tconfig file = Ok bs \<Longrightarrow> shaped False bs"
proof -
  assume f: "file_to_tconfig file = Ok bs"
  have "place_ok (TZ [] tconfig_block_new [] [])" by (simp add: place_ok_def tz_level_def tconfig_block_new_def)
  then have "tz_top z = bs \<Longrightarrow> place_ok z \<Longrightarrow> shaped False bs" for z
    using plug_shaped [of "tz_up z" "tz_level z"] by (auto simp: place_ok_def tz_top_def)
  moreover have "file = None \<and> bs = [] \<or> (\<exists>z. tz_top z = bs \<and> place_ok z)"
    using f parse_blocks_place \<open>place_ok (TZ [] tconfig_block_new [] [])\<close>
    by (auto simp: file_to_tconfig_def rbind_Ok_iff split: option.splits)
  ultimately show ?thesis by auto
qed

section \<open>A file that is read and written\<close>

text \<open>The writer always ends on what was read, and what it writes is read as the same.\<close>

lemma read_then_written:
  assumes "file_to_tconfig file = Ok bs" and "bs \<noteq> []"
  shows "\<exists>r. tconfig_to_file bs opens = Some r"
  using writer_structural [OF shaped_linked [OF file_to_tconfig_shaped [OF assms(1)]] assms(2)] assms(2)
  by (cases bs) (simp_all add: tconfig_to_file_def tz_of_list_def)

lemma written_again:
  assumes "file_to_tconfig file = Ok bs" and "bs \<noteq> []" and "words_ok bs"
  shows "\<exists>s. tconfig_to_file bs True = Some (Ok (Some s)) \<and> file_to_tconfig (Some s) = Ok bs"
  using tconfig_roundtrip [OF shaped_storable [OF file_to_tconfig_shaped [OF assms(1)] assms(3)] assms(2)] .

end
