(* ===== verification/Hash.thy ===== *)
theory Hash
  imports Prelude
begin

text \<open>
  What the digests of \<^verbatim>\<open>src/src/modules/crypto\<close> share: bytes and words (\<^verbatim>\<open>tomcrypt_macros.h\<close>), and the function
  that the macro \<open>HASH_PROCESS\<close> of \<^verbatim>\<open>tomcrypt_hash.h\<close> makes for each of them, which takes a text in pieces. A pointer
  that is NULL is not modelled here.
\<close>

section \<open>Bytes and words\<close>

unbundle bit_operations_syntax

type_synonym byte = "8 word"

text \<open>The bytes of a text, and the other way round.\<close>

definition bytes_of :: "string \<Rightarrow> byte list" where
  "bytes_of s = map of_char s"

text \<open>Big-endian loads and stores.\<close>

definition load_h :: "byte list \<Rightarrow> 'a::len word" where
  "load_h bs = foldl (\<lambda>w b. push_bit 8 w OR ucast b) 0 bs"

definition LOAD32H :: "byte list \<Rightarrow> 32 word" where
  "LOAD32H y = load_h (take 4 y)"

definition LOAD64H :: "byte list \<Rightarrow> 64 word" where
  "LOAD64H y = load_h (take 8 y)"

definition STORE32H :: "32 word \<Rightarrow> byte list" where
  "STORE32H x = map (\<lambda>n. ucast (drop_bit n x)) [24, 16, 8, 0]"

definition STORE64H :: "64 word \<Rightarrow> byte list" where
  "STORE64H x = map (\<lambda>n. ucast (drop_bit n x)) [56, 48, 40, 32, 24, 16, 8, 0]"

text \<open>\<open>ROR64c\<close> with the shifts written out.\<close>

definition ROR64c :: "64 word \<Rightarrow> nat \<Rightarrow> 64 word" where
  "ROR64c x y = (drop_bit (y mod 64) x OR push_bit (64 - y mod 64) x) AND 0xFFFFFFFFFFFFFFFF"

lemma STORE_length [simp]: "length (STORE32H x) = 4" "length (STORE64H y) = 8"
  by (simp_all add: STORE32H_def STORE64H_def)

lemma LOAD32H_STORE32H [simp]: "LOAD32H (STORE32H x) = x"
proof -
  have "LOAD32H (STORE32H x) = push_bit 24 (ucast (ucast (drop_bit 24 x) :: byte)) OR
      push_bit 16 (ucast (ucast (drop_bit 16 x) :: byte)) OR push_bit 8 (ucast (ucast (drop_bit 8 x) :: byte)) OR ucast (ucast x :: byte)"
    by (simp add: LOAD32H_def STORE32H_def load_h_def push_bit_or or.assoc)
  also have "\<dots> = x"
  proof (rule bit_word_eqI)
    fix n assume "n < LENGTH(32)"
    consider "n < 8" | "8 \<le> n" "n < 16" | "16 \<le> n" "n < 24" | "24 \<le> n" by linarith
    then show "bit (push_bit 24 (ucast (ucast (drop_bit 24 x) :: byte)) OR
      push_bit 16 (ucast (ucast (drop_bit 16 x) :: byte)) OR push_bit 8 (ucast (ucast (drop_bit 8 x) :: byte)) OR ucast (ucast x :: byte) :: 32 word) n = bit x n"
      using \<open>n < LENGTH(32)\<close> by cases (auto simp: bit_simps)
  qed
  finally show ?thesis .
qed

lemma STORE32H_LOAD32H: "length bs = 4 \<Longrightarrow> STORE32H (LOAD32H bs) = bs"
proof -
  assume "length bs = 4"
  then obtain a b c d where bs: "bs = [a, b, c, d]"
    by (auto simp: numeral_eq_Suc length_Suc_conv)
  have l: "LOAD32H bs = push_bit 24 (ucast a) OR push_bit 16 (ucast b) OR push_bit 8 (ucast c) OR ucast d"
    by (simp add: bs LOAD32H_def load_h_def push_bit_or or.assoc)
  have "ucast (drop_bit 24 (LOAD32H bs)) = a" "ucast (drop_bit 16 (LOAD32H bs)) = b"
    "ucast (drop_bit 8 (LOAD32H bs)) = c" "ucast (LOAD32H bs) = d"
    unfolding l by (rule bit_word_eqI; auto simp: bit_simps dest: bit_imp_le_length)+
  then show ?thesis by (simp add: STORE32H_def bs)
qed

section \<open>Taking a text in pieces\<close>

text \<open>
  The state of a digest: what the blocks so far have made of it, their length in bits, and the bytes at the
  beginning of the next block. \<open>curlen\<close> is the number of these bytes.
\<close>

record 's hash_md =
  md_length :: "64 word"
  md_state :: 's
  md_buf :: "byte list"

datatype crypt_error = CRYPT_INVALID_ARG | CRYPT_INVALID_KEYSIZE | CRYPT_INVALID_ROUNDS

definition hash_block :: "nat \<Rightarrow> ('s \<Rightarrow> byte list \<Rightarrow> 's) \<Rightarrow> byte list \<Rightarrow> 's hash_md \<Rightarrow> 's hash_md" where
  "hash_block block compress b md = md\<lparr>md_state := compress (md_state md) b, md_length := md_length md + of_nat (8 * block)\<rparr>"

text \<open>
  The loop of \<open>HASH_PROCESS\<close>. It does not get to a state with more bytes than a block, nor is it used with
  blocks of size 0.
\<close>

function hash_loop :: "nat \<Rightarrow> ('s \<Rightarrow> byte list \<Rightarrow> 's) \<Rightarrow> byte list \<Rightarrow> 's hash_md \<Rightarrow> 's hash_md" where
  "hash_loop block compress inp md =
     (if inp = [] \<or> block = 0 \<or> block < length (md_buf md) then md
      else if md_buf md = [] \<and> block \<le> length inp then
        hash_loop block compress (drop block inp) (hash_block block compress (take block inp) md)
      else (let n = min (length inp) (block - length (md_buf md)); b = md_buf md @ take n inp in
            hash_loop block compress (drop n inp)
              (if length b = block then (hash_block block compress b md)\<lparr>md_buf := []\<rparr> else md\<lparr>md_buf := b\<rparr>)))"
  by pat_completeness auto
termination
proof (relation "measure (\<lambda>(block, compress, inp, md). 2 * length inp + (if md_buf md = [] then 0 else 1))", goal_cases)
  case (3 block compress inp md n b)
  then have "Suc 0 < 2 * length inp" by (cases inp) auto
  then show ?case using 3 by (cases "n = 0") (auto simp: Let_def min_def split: if_splits)
qed (auto simp: hash_block_def)

declare hash_loop.simps [simp del]

definition hash_process ::
  "nat \<Rightarrow> ('s \<Rightarrow> byte list \<Rightarrow> 's) \<Rightarrow> 's hash_md \<Rightarrow> byte list \<Rightarrow> crypt_error + 's hash_md" where
  "hash_process block compress md inp =
     (if block < length (md_buf md) then Inl CRYPT_INVALID_ARG else Inr (hash_loop block compress inp md))"

section \<open>Blocks\<close>

text \<open>The whole blocks of a text, and what is left over.\<close>

fun blocks :: "nat \<Rightarrow> 'a list \<Rightarrow> 'a list list" where
  "blocks n xs = (if n = 0 \<or> length xs < n then [] else take n xs # blocks n (drop n xs))"

declare blocks.simps [simp del]

definition left_over :: "nat \<Rightarrow> 'a list \<Rightarrow> 'a list" where
  "left_over n xs = drop (n * length (blocks n xs)) xs"

lemma blocks_short: "length xs < n \<Longrightarrow> blocks n xs = []" "length xs < n \<Longrightarrow> left_over n xs = xs"
  by (simp_all add: left_over_def blocks.simps)

lemma blocks_whole:
  assumes "length b = n" and "0 < n"
  shows "blocks n (b @ xs) = b # blocks n xs" and "left_over n (b @ xs) = left_over n xs"
  using assms by (simp_all add: left_over_def blocks.simps [of n "b @ xs"])

lemma blocks_long:
  assumes "0 < n" and "n \<le> length xs"
  shows "blocks n (xs @ ys) = take n xs # blocks n (drop n xs @ ys)" and "left_over n (xs @ ys) = left_over n (drop n xs @ ys)"
  using blocks_whole [of "take n xs" n "drop n xs @ ys"] assms by (simp_all flip: append_assoc)

lemma left_over_length: "0 < n \<Longrightarrow> length (left_over n xs) < n"
proof (induction n xs rule: blocks.induct)
  case (1 n xs)
  then show ?case using blocks_long [of n xs "[]"] by (cases "length xs < n") (simp_all add: blocks_short)
qed

text \<open>A text in two pieces.\<close>

lemma blocks_append:
  "0 < n \<Longrightarrow> blocks n (xs @ ys) = blocks n xs @ blocks n (left_over n xs @ ys) \<and> left_over n (xs @ ys) = left_over n (left_over n xs @ ys)"
proof (induction n xs rule: blocks.induct)
  case (1 n xs)
  then show ?case
    using blocks_long [of n xs ys] blocks_long [of n xs "[]"] by (cases "length xs < n") (simp_all add: blocks_short)
qed

lemma blocks_size: "0 < n \<Longrightarrow> n * length (blocks n xs) + length (left_over n xs) = length xs"
proof (induction n xs rule: blocks.induct)
  case (1 n xs)
  show ?case
  proof (cases "length xs < n")
    case False
    then have "n * length (blocks n (drop n xs)) + length (left_over n (drop n xs)) = length xs - n" using 1 by simp
    then show ?thesis using blocks_long [of n xs "[]"] False 1(2) by simp
  qed (simp add: blocks_short)
qed

section \<open>Digests over blocks\<close>

text \<open>
  What is to be known of a digest: the size of its blocks. What the loop makes of a text then is the blocks of the
  text, however it was cut into pieces.
\<close>

locale block_digest =
  fixes block :: nat
    and compress :: "'s \<Rightarrow> byte list \<Rightarrow> 's"
  assumes block_pos: "0 < block"
begin

definition digested :: "'s hash_md \<Rightarrow> byte list \<Rightarrow> 's hash_md" where
  "digested md m =
     \<lparr>md_length = md_length md + of_nat (8 * block * length (blocks block m)),
      md_state = foldl compress (md_state md) (blocks block m), md_buf = left_over block m\<rparr>"

lemma digested_short: "md_buf md = [] \<Longrightarrow> length m < block \<Longrightarrow> digested md m = md\<lparr>md_buf := m\<rparr>"
  by (simp add: digested_def blocks_short)

lemma digested_block:
  "length b = block \<Longrightarrow> digested md (b @ m) = digested (hash_block block compress b md) m"
  using blocks_whole [of b block m] block_pos by (simp add: digested_def hash_block_def algebra_simps)

lemma digested_buf [simp]: "digested (md\<lparr>md_buf := b\<rparr>) m = digested md m"
  by (simp add: digested_def)

lemma hash_block_buf [simp]: "md_buf (hash_block block compress b md) = md_buf md"
  by (simp add: hash_block_def)

lemma loop_digested: "length (md_buf md) < block \<Longrightarrow> hash_loop block compress inp md = digested md (md_buf md @ inp)"
proof (induction "length inp" arbitrary: inp md rule: less_induct)
  case less
  show ?case
  proof (cases "inp = []")
    case True
    then show ?thesis using less.prems by (simp add: hash_loop.simps [of _ _ "[]"] digested_def blocks_short)
  next
    case ne: False
    show ?thesis
    proof (cases "md_buf md = [] \<and> block \<le> length inp")
      case True
      then have "hash_loop block compress inp md = hash_loop block compress (drop block inp) (hash_block block compress (take block inp) md)"
        using ne block_pos by (subst hash_loop.simps) simp
      also have "\<dots> = digested (hash_block block compress (take block inp) md) (drop block inp)"
        using less.hyps [of "drop block inp" "hash_block block compress (take block inp) md"] True ne block_pos by simp
      also have "\<dots> = digested md (take block inp @ drop block inp)" using True by (subst digested_block) simp_all
      finally show ?thesis using True by simp
    next
      case False
      let ?n = "min (length inp) (block - length (md_buf md))" let ?b = "md_buf md @ take ?n inp"
      let ?md = "if length ?b = block then (hash_block block compress ?b md)\<lparr>md_buf := []\<rparr> else md\<lparr>md_buf := ?b\<rparr>"
      have n: "0 < ?n" using ne less.prems by simp
      have "hash_loop block compress inp md = hash_loop block compress (drop ?n inp) ?md"
        using ne less.prems block_pos by (subst hash_loop.simps) (simp add: Let_def if_not_P [OF False])
      also have "\<dots> = digested ?md (md_buf ?md @ drop ?n inp)"
        using n ne block_pos less.prems by (intro less.hyps) auto
      also have "\<dots> = digested md (?b @ drop ?n inp)" using digested_block [of ?b md "drop ?n inp"] by simp
      finally show ?thesis by simp
    qed
  qed
qed

lemma digested_append: "digested (digested md a) (md_buf (digested md a) @ b) = digested md (a @ b)"
  using blocks_append [OF block_pos, of a b] by (simp add: digested_def algebra_simps)

lemma digested_left: "length (md_buf (digested md m)) < block"
  using left_over_length [OF block_pos] by (simp add: digested_def)

text \<open>A text may be handed over in pieces.\<close>

lemma process_append:
  assumes "length (md_buf md) < block"
  shows "\<exists>md'. hash_process block compress md a = Inr md' \<and> length (md_buf md') < block \<and>
    hash_process block compress md' b = hash_process block compress md (a @ b)"
proof -
  let ?md = "digested md (md_buf md @ a)"
  have "hash_loop block compress a md = ?md" "hash_loop block compress b ?md = digested md (md_buf md @ a @ b)"
    "hash_loop block compress (a @ b) md = digested md (md_buf md @ a @ b)"
    using assms digested_left loop_digested digested_append [of md "md_buf md @ a" b] by simp_all
  then show ?thesis using assms digested_left [of md "md_buf md @ a"] by (auto simp: hash_process_def)
qed

end

section \<open>Padding\<close>

text \<open>
  The beginning of \<open>sha512_done\<close> and \<open>md5_done\<close>: the length is made up, a bit is added, and zeros up to the place of
  the length, in another block if the rest of this one is less than what \<open>limit\<close> leaves.
\<close>

definition hash_pad :: "nat \<Rightarrow> nat \<Rightarrow> nat \<Rightarrow> ('s \<Rightarrow> byte list \<Rightarrow> 's) \<Rightarrow> 's hash_md \<Rightarrow> 's hash_md" where
  "hash_pad block limit fill compress md =
     (let b = md_buf md @ [0x80];
          md1 = md\<lparr>md_length := md_length md + of_nat (8 * length (md_buf md)), md_buf := b\<rparr>;
          md2 = (if limit < length b
                 then md1\<lparr>md_state := compress (md_state md1) (b @ replicate (block - length b) 0), md_buf := []\<rparr> else md1)
      in md2\<lparr>md_buf := md_buf md2 @ replicate (fill - length (md_buf md2)) 0\<rparr>)"

text \<open>Little-endian loads and stores.\<close>

definition LOAD32L :: "byte list \<Rightarrow> 32 word" where
  "LOAD32L y = load_h (rev (take 4 y))"

definition STORE32L :: "32 word \<Rightarrow> byte list" where
  "STORE32L x = rev (STORE32H x)"

definition STORE64L :: "64 word \<Rightarrow> byte list" where
  "STORE64L x = rev (STORE64H x)"

lemma STOREL_length [simp]: "length (STORE32L x) = 4" "length (STORE64L y) = 8"
  by (simp_all add: STORE32L_def STORE64L_def)

text \<open>
  With the length \<open>L\<close> behind the padding, the blocks are those of the rest of the text, the bit, as many zeros as are
  missing, and \<open>L\<close>.
\<close>

definition pad_zeros :: "nat \<Rightarrow> nat \<Rightarrow> nat \<Rightarrow> nat \<Rightarrow> nat" where
  "pad_zeros block limit fill n = (if n < limit then fill - Suc n else block + fill - Suc n)"

lemma blocks_one: "length x = n \<Longrightarrow> 0 < n \<Longrightarrow> blocks n x = [x]"
  using blocks_whole(1) [of x n "[]"] blocks_short(1) [of "[]" n] by simp

lemma blocks_two: "length x = n \<Longrightarrow> length y = n \<Longrightarrow> 0 < n \<Longrightarrow> blocks n (x @ y) = [x, y]"
  using blocks_whole(1) [of x n y] blocks_one [of y n] by simp

context block_digest
begin

lemma pad_blocks:
  assumes b: "length (md_buf md) < block" and l: "limit \<le> fill" "fill + length L = block"
  shows "compress (md_state (hash_pad block limit fill compress md)) (md_buf (hash_pad block limit fill compress md) @ L) =
    foldl compress (md_state md) (blocks block (md_buf md @ [0x80] @ replicate (pad_zeros block limit fill (length (md_buf md))) 0 @ L))"
proof (cases "length (md_buf md) < limit")
  case True
  let ?x = "md_buf md @ [0x80] @ replicate (fill - Suc (length (md_buf md))) 0 @ L"
  have "blocks block ?x = [?x]" using True l block_pos by (intro blocks_one) simp_all
  then show ?thesis using True by (simp add: hash_pad_def pad_zeros_def Let_def)
next
  case False
  let ?n = "length (md_buf md)"
  let ?x = "md_buf md @ [0x80] @ replicate (block - Suc ?n) 0" and ?y = "replicate fill 0 @ L"
  have z: "replicate (block + fill - Suc ?n) (0 :: byte) = replicate (block - Suc ?n) 0 @ replicate fill 0"
    using b by (simp flip: replicate_add)
  have "blocks block (?x @ ?y) = [?x, ?y]" using b l block_pos by (intro blocks_two) simp_all
  then show ?thesis using False z by (simp add: hash_pad_def pad_zeros_def Let_def)
qed

lemma pad_length [simp]: "md_length (hash_pad bl limit fill c md) = md_length md + of_nat (8 * length (md_buf md))"
  by (simp add: hash_pad_def Let_def)

lemma digested_bits:
  "md_length md = 0 \<Longrightarrow> md_length (digested md m) + of_nat (8 * length (md_buf (digested md m))) = of_nat (8 * length m)"
proof -
  assume z: "md_length md = 0"
  have "8 * block * length (blocks block m) + 8 * length (left_over block m) = 8 * length m"
    using blocks_size [OF block_pos, of m] by (metis add_mult_distrib2 mult.assoc)
  then show ?thesis using z by (simp add: digested_def flip: of_nat_add of_nat_mult)
qed

text \<open>
  A whole digest: from the beginning, through the text, to what is made of the last blocks. \<open>store\<close> makes the
  bytes of the length.
\<close>

lemma digest_blocks:
  assumes md: "md_length md = 0" "md_buf md = []" and l: "limit \<le> fill" "\<And>n. fill + length (store n) = block"
  shows "\<exists>md'. hash_process block compress md m = Inr md' \<and> length (md_buf md') < block \<and>
    compress (md_state (hash_pad block limit fill compress md'))
      (md_buf (hash_pad block limit fill compress md') @ store (md_length (hash_pad block limit fill compress md'))) =
    foldl compress (md_state md)
      (blocks block (m @ [0x80] @ replicate (pad_zeros block limit fill (length m mod block)) 0 @ store (of_nat (8 * length m))))"
proof -
  let ?md = "digested md m"
  let ?L = "store (of_nat (8 * length m))"
  let ?t = "[0x80] @ replicate (pad_zeros block limit fill (length m mod block)) 0 @ ?L"
  have b: "md_buf ?md = left_over block m" "md_state ?md = foldl compress (md_state md) (blocks block m)"
    by (simp_all add: digested_def)
  have n: "length (left_over block m) = length m mod block"
    using blocks_size [OF block_pos, of m] left_over_length [OF block_pos, of m] by (metis mod_less mod_mult_self4)
  have "hash_process block compress md m = Inr ?md"
    using loop_digested [of md m] md block_pos by (simp add: hash_process_def)
  moreover have "compress (md_state (hash_pad block limit fill compress ?md)) (md_buf (hash_pad block limit fill compress ?md) @ ?L) =
      foldl compress (md_state md) (blocks block (m @ ?t))"
    using pad_blocks [of ?md limit fill ?L] l digested_left blocks_append [OF block_pos, of m ?t] b n block_pos by simp
  ultimately show ?thesis using digested_bits [OF md(1), of m] digested_left by auto
qed

end

end
