(* ===== verification/Sha512.thy ===== *)
theory Sha512
  imports Hash
begin

text \<open>
  The digest SHA-512 of \<^verbatim>\<open>src/src/modules/crypto/sha512.c\<close>, with the rounds in groups of eight as they are compiled, and
  the digest as FIPS 180-4 describes it, which is the same.
\<close>

unbundle bit_operations_syntax

section \<open>The rounds\<close>

text \<open>The macro of the code: a literal of 64 bits.\<close>

definition CONST64 :: "64 word \<Rightarrow> 64 word" where
  [simp]: "CONST64 n = n"

definition sha512_K :: "64 word list" where
  "sha512_K =
    [CONST64 0x428a2f98d728ae22, CONST64 0x7137449123ef65cd, CONST64 0xb5c0fbcfec4d3b2f,
     CONST64 0xe9b5dba58189dbbc, CONST64 0x3956c25bf348b538, CONST64 0x59f111f1b605d019,
     CONST64 0x923f82a4af194f9b, CONST64 0xab1c5ed5da6d8118, CONST64 0xd807aa98a3030242,
     CONST64 0x12835b0145706fbe, CONST64 0x243185be4ee4b28c, CONST64 0x550c7dc3d5ffb4e2,
     CONST64 0x72be5d74f27b896f, CONST64 0x80deb1fe3b1696b1, CONST64 0x9bdc06a725c71235,
     CONST64 0xc19bf174cf692694, CONST64 0xe49b69c19ef14ad2, CONST64 0xefbe4786384f25e3,
     CONST64 0x0fc19dc68b8cd5b5, CONST64 0x240ca1cc77ac9c65, CONST64 0x2de92c6f592b0275,
     CONST64 0x4a7484aa6ea6e483, CONST64 0x5cb0a9dcbd41fbd4, CONST64 0x76f988da831153b5,
     CONST64 0x983e5152ee66dfab, CONST64 0xa831c66d2db43210, CONST64 0xb00327c898fb213f,
     CONST64 0xbf597fc7beef0ee4, CONST64 0xc6e00bf33da88fc2, CONST64 0xd5a79147930aa725,
     CONST64 0x06ca6351e003826f, CONST64 0x142929670a0e6e70, CONST64 0x27b70a8546d22ffc,
     CONST64 0x2e1b21385c26c926, CONST64 0x4d2c6dfc5ac42aed, CONST64 0x53380d139d95b3df,
     CONST64 0x650a73548baf63de, CONST64 0x766a0abb3c77b2a8, CONST64 0x81c2c92e47edaee6,
     CONST64 0x92722c851482353b, CONST64 0xa2bfe8a14cf10364, CONST64 0xa81a664bbc423001,
     CONST64 0xc24b8b70d0f89791, CONST64 0xc76c51a30654be30, CONST64 0xd192e819d6ef5218,
     CONST64 0xd69906245565a910, CONST64 0xf40e35855771202a, CONST64 0x106aa07032bbd1b8,
     CONST64 0x19a4c116b8d2d0c8, CONST64 0x1e376c085141ab53, CONST64 0x2748774cdf8eeb99,
     CONST64 0x34b0bcb5e19b48a8, CONST64 0x391c0cb3c5c95a63, CONST64 0x4ed8aa4ae3418acb,
     CONST64 0x5b9cca4f7763e373, CONST64 0x682e6ff3d6b2b8a3, CONST64 0x748f82ee5defb2fc,
     CONST64 0x78a5636f43172f60, CONST64 0x84c87814a1f0ab72, CONST64 0x8cc702081a6439ec,
     CONST64 0x90befffa23631e28, CONST64 0xa4506cebde82bde9, CONST64 0xbef9a3f7b2c67915,
     CONST64 0xc67178f2e372532b, CONST64 0xca273eceea26619c, CONST64 0xd186b8c721c0c207,
     CONST64 0xeada7dd6cde0eb1e, CONST64 0xf57d4f7fee6ed178, CONST64 0x06f067aa72176fba,
     CONST64 0x0a637dc5a2c898a6, CONST64 0x113f9804bef90dae, CONST64 0x1b710b35131c471b,
     CONST64 0x28db77f523047d84, CONST64 0x32caab7b40c72493, CONST64 0x3c9ebe0a15c9bebc,
     CONST64 0x431d67c49c100d4c, CONST64 0x4cc5d4becb3e42b6, CONST64 0x597f299cfc657e2a,
     CONST64 0x5fcb6fab3ad6faec, CONST64 0x6c44198c4a475817]"

definition sha512_Ch :: "64 word \<Rightarrow> 64 word \<Rightarrow> 64 word \<Rightarrow> 64 word" where
  "sha512_Ch x y z = z XOR (x AND (y XOR z))"

definition sha512_Maj :: "64 word \<Rightarrow> 64 word \<Rightarrow> 64 word \<Rightarrow> 64 word" where
  "sha512_Maj x y z = ((x OR y) AND z) OR (x AND y)"

definition sha512_Sigma0 :: "64 word \<Rightarrow> 64 word" where
  "sha512_Sigma0 x = ROR64c x 28 XOR ROR64c x 34 XOR ROR64c x 39"

definition sha512_Sigma1 :: "64 word \<Rightarrow> 64 word" where
  "sha512_Sigma1 x = ROR64c x 14 XOR ROR64c x 18 XOR ROR64c x 41"

definition sha512_Gamma0 :: "64 word \<Rightarrow> 64 word" where
  "sha512_Gamma0 x = ROR64c x 1 XOR ROR64c x 8 XOR drop_bit 7 x"

definition sha512_Gamma1 :: "64 word \<Rightarrow> 64 word" where
  "sha512_Gamma1 x = ROR64c x 19 XOR ROR64c x 61 XOR drop_bit 6 x"

text \<open>The words of a block, and the 64 made from them.\<close>

definition sha512_load :: "byte list \<Rightarrow> 64 word list" where
  "sha512_load buf = map (\<lambda>i. LOAD64H (drop (8 * i) buf)) [0..<16]"

fun sha512_fill :: "nat \<Rightarrow> 64 word list \<Rightarrow> 64 word list" where
  "sha512_fill 0 W = W"
| "sha512_fill (Suc n) W =
     (let i = length W in
      sha512_fill n (W @ [sha512_Gamma1 (W ! (i - 2)) + W ! (i - 7) + sha512_Gamma0 (W ! (i - 15)) + W ! (i - 16)]))"

text \<open>The macro \<open>RND\<close>, with the registers by their places.\<close>

definition sha512_RND ::
  "64 word list \<Rightarrow> nat \<Rightarrow> nat \<Rightarrow> nat \<Rightarrow> nat \<Rightarrow> nat \<Rightarrow> nat \<Rightarrow> nat \<Rightarrow> nat \<Rightarrow> nat \<Rightarrow> 64 word list \<Rightarrow> 64 word list" where
  "sha512_RND W a b c d e f g h i S =
     (let t0 = S ! h + sha512_Sigma1 (S ! e) + sha512_Ch (S ! e) (S ! f) (S ! g) + sha512_K ! i + W ! i;
          t1 = sha512_Sigma0 (S ! a) + sha512_Maj (S ! a) (S ! b) (S ! c)
      in S[d := S ! d + t0, h := t0 + t1])"

definition sha512_eight :: "64 word list \<Rightarrow> nat \<Rightarrow> 64 word list \<Rightarrow> 64 word list" where
  "sha512_eight W i S =
     (let S = sha512_RND W 0 1 2 3 4 5 6 7 (i + 0) S;
          S = sha512_RND W 7 0 1 2 3 4 5 6 (i + 1) S;
          S = sha512_RND W 6 7 0 1 2 3 4 5 (i + 2) S;
          S = sha512_RND W 5 6 7 0 1 2 3 4 (i + 3) S;
          S = sha512_RND W 4 5 6 7 0 1 2 3 (i + 4) S;
          S = sha512_RND W 3 4 5 6 7 0 1 2 (i + 5) S;
          S = sha512_RND W 2 3 4 5 6 7 0 1 (i + 6) S
      in sha512_RND W 1 2 3 4 5 6 7 0 (i + 7) S)"

definition sha512_compress :: "64 word list \<Rightarrow> byte list \<Rightarrow> 64 word list" where
  "sha512_compress state buf =
     (let W = sha512_fill 64 (sha512_load buf) in
      map2 (+) state (fold (\<lambda>k. sha512_eight W (8 * k)) [0..<10] state))"

section \<open>The digest\<close>

definition sha512_init :: "64 word list hash_md" where
  "sha512_init =
     \<lparr>md_length = 0,
      md_state =
        [CONST64 0x6a09e667f3bcc908, CONST64 0xbb67ae8584caa73b, CONST64 0x3c6ef372fe94f82b,
         CONST64 0xa54ff53a5f1d36f1, CONST64 0x510e527fade682d1, CONST64 0x9b05688c2b3e6c1f,
         CONST64 0x1f83d9abfb41bd6b, CONST64 0x5be0cd19137e2179],
      md_buf = []\<rparr>"

definition sha512_process :: "64 word list hash_md \<Rightarrow> byte list \<Rightarrow> crypt_error + 64 word list hash_md" where
  "sha512_process = hash_process 128 sha512_compress"

definition sha512_done :: "64 word list hash_md \<Rightarrow> crypt_error + byte list" where
  "sha512_done md =
     (if 128 \<le> length (md_buf md) then Inl CRYPT_INVALID_ARG
      else (let p = hash_pad 128 112 120 sha512_compress md;
                s = sha512_compress (md_state p) (md_buf p @ STORE64H (md_length p))
            in Inr (concat (map STORE64H s))))"

text \<open>The calls one after the other.\<close>

definition sha512_digest :: "byte list \<Rightarrow> crypt_error + byte list" where
  "sha512_digest m = (case sha512_process sha512_init m of Inl e \<Rightarrow> Inl e | Inr md \<Rightarrow> sha512_done md)"

interpretation sha512: block_digest 128 sha512_compress
  by unfold_locales simp

section \<open>The digest of the standard\<close>

text \<open>One round on the eight registers, which move on by one.\<close>

definition fips_round :: "64 word list \<Rightarrow> nat \<Rightarrow> 64 word list \<Rightarrow> 64 word list" where
  "fips_round W i r =
     (let t1 = r ! 7 + sha512_Sigma1 (r ! 4) + sha512_Ch (r ! 4) (r ! 5) (r ! 6) + sha512_K ! i + W ! i;
          t2 = sha512_Sigma0 (r ! 0) + sha512_Maj (r ! 0) (r ! 1) (r ! 2)
      in [t1 + t2, r ! 0, r ! 1, r ! 2, r ! 3 + t1, r ! 4, r ! 5, r ! 6])"

definition fips_compress :: "64 word list \<Rightarrow> byte list \<Rightarrow> 64 word list" where
  "fips_compress state buf = map2 (+) state (fold (fips_round (sha512_fill 64 (sha512_load buf))) [0..<80] state)"

text \<open>The message, a bit, zeros, and the length in bits as a number of 128 bits.\<close>

definition big_endian :: "nat \<Rightarrow> nat \<Rightarrow> byte list" where
  "big_endian k n = map (\<lambda>i. of_nat (n div 256 ^ i)) (rev [0..<k])"

definition fips_pad :: "byte list \<Rightarrow> byte list" where
  "fips_pad m = m @ [0x80] @ replicate (nat ((111 - int (length m)) mod 128)) 0 @ big_endian 16 (8 * length m)"

definition fips_sha512 :: "byte list \<Rightarrow> byte list" where
  "fips_sha512 m = concat (map STORE64H (foldl fips_compress (md_state sha512_init) (blocks 128 (fips_pad m))))"

section \<open>The two are the same\<close>

text \<open>A round whose registers are at any eight places, seen from the registers after it.\<close>

definition regs :: "64 word list \<Rightarrow> nat list \<Rightarrow> 64 word list" where
  "regs S ps = map ((!) S) ps"

lemma RND_round:
  assumes "distinct [a, b, c, d, e, f, g, h]" and "list_all (\<lambda>p. p < length S) [a, b, c, d, e, f, g, h]"
  shows "regs (sha512_RND W a b c d e f g h i S) [h, a, b, c, d, e, f, g] = fips_round W i (regs S [a, b, c, d, e, f, g, h])"
    and "length (sha512_RND W a b c d e f g h i S) = length S"
  using assms by (simp_all add: sha512_RND_def fips_round_def regs_def Let_def nth_list_update_neq [OF not_sym])

lemma regs_all: "length S = 8 \<Longrightarrow> regs S [0, 1, 2, 3, 4, 5, 6, 7] = S"
  by (auto simp: regs_def numeral_eq_Suc length_Suc_conv)

lemma eight_rounds:
  assumes S: "length S = 8"
  shows "sha512_eight W i S = fold (fips_round W) [i..<i + 8] S"
proof -
  define S1 where "S1 = sha512_RND W 0 1 2 3 4 5 6 7 (i + 0) S"
  define S2 where "S2 = sha512_RND W 7 0 1 2 3 4 5 6 (i + 1) S1"
  define S3 where "S3 = sha512_RND W 6 7 0 1 2 3 4 5 (i + 2) S2"
  define S4 where "S4 = sha512_RND W 5 6 7 0 1 2 3 4 (i + 3) S3"
  define S5 where "S5 = sha512_RND W 4 5 6 7 0 1 2 3 (i + 4) S4"
  define S6 where "S6 = sha512_RND W 3 4 5 6 7 0 1 2 (i + 5) S5"
  define S7 where "S7 = sha512_RND W 2 3 4 5 6 7 0 1 (i + 6) S6"
  define S8 where "S8 = sha512_RND W 1 2 3 4 5 6 7 0 (i + 7) S7"
  have 1: "regs S1 [7, 0, 1, 2, 3, 4, 5, 6] = fips_round W (i + 0) (regs S [0, 1, 2, 3, 4, 5, 6, 7])" "length S1 = 8"
    using S unfolding S1_def by (subst RND_round; simp)+
  have 2: "regs S2 [6, 7, 0, 1, 2, 3, 4, 5] = fips_round W (i + 1) (regs S1 [7, 0, 1, 2, 3, 4, 5, 6])" "length S2 = 8"
    using 1(2) unfolding S2_def by (subst RND_round; simp)+
  have 3: "regs S3 [5, 6, 7, 0, 1, 2, 3, 4] = fips_round W (i + 2) (regs S2 [6, 7, 0, 1, 2, 3, 4, 5])" "length S3 = 8"
    using 2(2) unfolding S3_def by (subst RND_round; simp)+
  have 4: "regs S4 [4, 5, 6, 7, 0, 1, 2, 3] = fips_round W (i + 3) (regs S3 [5, 6, 7, 0, 1, 2, 3, 4])" "length S4 = 8"
    using 3(2) unfolding S4_def by (subst RND_round; simp)+
  have 5: "regs S5 [3, 4, 5, 6, 7, 0, 1, 2] = fips_round W (i + 4) (regs S4 [4, 5, 6, 7, 0, 1, 2, 3])" "length S5 = 8"
    using 4(2) unfolding S5_def by (subst RND_round; simp)+
  have 6: "regs S6 [2, 3, 4, 5, 6, 7, 0, 1] = fips_round W (i + 5) (regs S5 [3, 4, 5, 6, 7, 0, 1, 2])" "length S6 = 8"
    using 5(2) unfolding S6_def by (subst RND_round; simp)+
  have 7: "regs S7 [1, 2, 3, 4, 5, 6, 7, 0] = fips_round W (i + 6) (regs S6 [2, 3, 4, 5, 6, 7, 0, 1])" "length S7 = 8"
    using 6(2) unfolding S7_def by (subst RND_round; simp)+
  have 8: "regs S8 [0, 1, 2, 3, 4, 5, 6, 7] = fips_round W (i + 7) (regs S7 [1, 2, 3, 4, 5, 6, 7, 0])" "length S8 = 8"
    using 7(2) unfolding S8_def by (subst RND_round; simp)+
  have "sha512_eight W i S = S8"
    by (simp only: sha512_eight_def Let_def S1_def S2_def S3_def S4_def S5_def S6_def S7_def S8_def)
  also have "\<dots> = fips_round W (i + 7) (fips_round W (i + 6) (fips_round W (i + 5) (fips_round W (i + 4)
      (fips_round W (i + 3) (fips_round W (i + 2) (fips_round W (i + 1) (fips_round W (i + 0) S)))))))"
    using 1 2 3 4 5 6 7 8 regs_all [OF S] regs_all [OF 8(2)] by simp
  also have "\<dots> = fold (fips_round W) [i + 0, i + 1, i + 2, i + 3, i + 4, i + 5, i + 6, i + 7] S" by simp
  also have "[i + 0, i + 1, i + 2, i + 3, i + 4, i + 5, i + 6, i + 7] = [i..<i + 8]"
    by (simp add: upt_rec [of i] upt_rec [of "Suc _"] numeral_eq_Suc)
  finally show ?thesis .
qed

lemma fips_round_length [simp]: "length (fips_round W i r) = 8"
  by (simp add: fips_round_def Let_def)

lemma fips_rounds_length: "length S = 8 \<Longrightarrow> length (fold (fips_round W) is S) = 8"
  by (induction "is" arbitrary: S) simp_all

lemma eight_by_eight:
  "length S = 8 \<Longrightarrow> fold (\<lambda>k. sha512_eight W (8 * k)) [0..<n] S = fold (fips_round W) [0..<8 * n] S"
proof (induction n)
  case (Suc n)
  have "[0..<8 * Suc n] = [0..<8 * n] @ [8 * n..<8 * n + 8]"
    using upt_add_eq_append [of 0 "8 * n" 8] by (simp add: add.commute)
  then show ?case using Suc eight_rounds [of "fold (fips_round W) [0..<8 * n] S" W "8 * n"] fips_rounds_length by simp
qed simp

lemma compress_fips: "length state = 8 \<Longrightarrow> sha512_compress state buf = fips_compress state buf"
  using eight_by_eight [of state _ 10] by (simp add: sha512_compress_def fips_compress_def Let_def)

lemma fips_compress_length: "length state = 8 \<Longrightarrow> length (fips_compress state buf) = 8"
  by (simp add: fips_compress_def fips_rounds_length)

lemma compress_blocks:
  "length state = 8 \<Longrightarrow> foldl sha512_compress state bs = foldl fips_compress state bs \<and> length (foldl fips_compress state bs) = 8"
  by (induction bs arbitrary: state) (simp_all add: compress_fips fips_compress_length)

text \<open>The length that is stored is the lower half of the number of 128 bits, whose upper half is 0.\<close>

lemma byte_of_nat: "ucast (drop_bit (8 * i) (of_nat n :: 64 word)) = (of_nat (n div 256 ^ i) :: byte)" if "i < 8"
proof (rule bit_word_eqI)
  fix k assume "k < LENGTH(8)"
  then have "bit (ucast (drop_bit (8 * i) (of_nat n :: 64 word)) :: byte) k = bit n (8 * i + k)"
    using that by (simp add: bit_simps)
  also have "bit n (8 * i + k) = bit (n div 256 ^ i) k"
    by (simp add: bit_iff_odd power_add power_mult div_mult2_eq)
  finally show "bit (ucast (drop_bit (8 * i) (of_nat n :: 64 word)) :: byte) k = bit (of_nat (n div 256 ^ i) :: byte) k"
    using \<open>k < LENGTH(8)\<close> by (simp add: bit_simps)
qed

lemma big_endian_STORE64H: "big_endian 8 n = STORE64H (of_nat n)"
proof -
  have "STORE64H (of_nat n) = map (\<lambda>i. ucast (drop_bit (8 * i) (of_nat n :: 64 word))) (rev [0..<8])"
    by (simp add: STORE64H_def upt_rec numeral_eq_Suc)
  also have "\<dots> = map (\<lambda>i. of_nat (n div 256 ^ i)) (rev [0..<8])"
    by (intro map_cong refl byte_of_nat) simp
  finally show ?thesis by (simp add: big_endian_def)
qed

lemma big_endian_16: "n < 2 ^ 64 \<Longrightarrow> big_endian 16 n = replicate 8 0 @ STORE64H (of_nat n)"
proof -
  assume n: "n < 2 ^ 64"
  have "rev [0..<16] = rev [8..<16] @ rev [0..<(8 :: nat)]" using upt_add_eq_append [of 0 8 8] by (simp flip: rev_append)
  then have "big_endian 16 n = map (\<lambda>i. of_nat (n div 256 ^ i)) (rev [8..<16]) @ big_endian 8 n" by (simp add: big_endian_def)
  moreover have "map (\<lambda>i. of_nat (n div 256 ^ i) :: byte) (rev [8..<16]) = map (\<lambda>_. 0) (rev [8..<16])"
  proof (intro map_cong refl)
    fix i assume "i \<in> set (rev [8..<(16 :: nat)])"
    then have "8 \<le> i" by auto
    then have "(2 :: nat) ^ 64 \<le> 256 ^ i" using power_increasing [of 8 i "256 :: nat"] by simp
    then have "n div 256 ^ i = 0" using n by (intro div_less) linarith
    then show "of_nat (n div 256 ^ i) = (0 :: byte)" by simp
  qed
  moreover have "map (\<lambda>_. 0 :: byte) (rev [8..<(16 :: nat)]) = replicate 8 0"
    by (simp add: numeral_eq_Suc)
  ultimately show ?thesis by (simp only: big_endian_STORE64H)
qed

text \<open>The padding: the blocks of the padded text are those of the text, and the one or two that \<open>sha512_done\<close> makes.\<close>

lemma zeros_fips: "nat ((111 - int n) mod 128) + 8 = pad_zeros 128 112 120 (n mod 128)"
proof -
  define b where "b = n mod 128"
  have b: "b < 128" by (simp add: b_def)
  have m: "(111 - int n) mod 128 = (111 - int b) mod 128" by (simp add: b_def zmod_int mod_diff_right_eq)
  show ?thesis
  proof (cases "b < 112")
    case True
    then have "(111 - int b) mod 128 = 111 - int b" by (intro mod_pos_pos_trivial) auto
    then show ?thesis using True m by (simp add: pad_zeros_def flip: b_def)
  next
    case False
    have "(111 - int b) mod 128 = (239 - int b) mod 128" using mod_add_self2 [of "111 - int b" 128] by (simp add: algebra_simps)
    also have "\<dots> = 239 - int b" using False b by (intro mod_pos_pos_trivial) auto
    finally show ?thesis using False b m by (simp add: pad_zeros_def flip: b_def)
  qed
qed

lemma sha512_fips:
  assumes m: "length m < 2 ^ 61"
  shows "sha512_digest m = Inr (fips_sha512 m)"
proof -
  let ?t = "[0x80] @ replicate (pad_zeros 128 112 120 (length m mod 128)) 0 @ STORE64H (of_nat (8 * length m))"
  have "sha512_digest m = Inr (concat (map STORE64H (foldl sha512_compress (md_state sha512_init) (blocks 128 (m @ ?t)))))"
    using sha512.digest_blocks [of sha512_init 112 120 STORE64H m]
    by (auto simp: sha512_digest_def sha512_process_def sha512_done_def sha512_init_def Let_def)
  also have "m @ ?t = fips_pad m"
    using m big_endian_16 [of "8 * length m"] by (simp add: fips_pad_def replicate_add flip: zeros_fips)
  finally show ?thesis
    using compress_blocks [of "md_state sha512_init"] by (simp add: fips_sha512_def sha512_init_def)
qed

end
