(* ===== verification/Crypto.thy ===== *)
theory Crypto
  imports Sha512 Dcc_Login
begin

text \<open>
  \<^verbatim>\<open>src/src/modules/crypto/crypto.c\<close>: the functions that the bot loads from the module for passwords, and what they
  make of the passwords of accounts.
\<close>

section \<open>The module\<close>

definition cipher_algorithm_exists :: "string \<Rightarrow> int" where
  "cipher_algorithm_exists algo = 0"

text \<open>The name is that of the code. The next one is the function that is loaded.\<close>

definition hash_algoritm_exists :: "string \<Rightarrow> int" where
  "hash_algoritm_exists algo = (if tstrcasecmp algo ''sha512'' = 0 then 1 else 0)"

definition hash_algorithm_exists :: "string \<Rightarrow> int" where
  "hash_algorithm_exists algo = (if tstrcasecmp algo ''md5'' = 0 then 1 else 0)"

text \<open>The conversion \<open>%0x\<close>: no leading zero.\<close>

definition hex_digit :: "nat \<Rightarrow> char" where
  "hex_digit n = (if n < 10 then char_of (48 + n) else char_of (87 + n))"

definition hex_byte :: "byte \<Rightarrow> string" where
  "hex_byte b = (let n = unat b in if n < 16 then [hex_digit n] else [hex_digit (n div 16), hex_digit (n mod 16)])"

text \<open>
  The bytes are printed one after the other to a buffer of the given size, with a NUL behind each; a digest that failed
  leaves 64 zeros.
\<close>

fun print_bytes :: "nat \<Rightarrow> string \<Rightarrow> byte list \<Rightarrow> string res" where
  "print_bytes room s [] = Ok s"
| "print_bytes room s (b # bs) =
     (if length (s @ hex_byte b) + 1 \<le> room then print_bytes room (s @ hex_byte b) bs else Fault OutOfBounds)"

definition create_hash :: "cstr \<Rightarrow> cstr \<Rightarrow> cstr res" where
  "create_hash pass ht =
     (case ht of
        None \<Rightarrow> Ok None
      | Some t \<Rightarrow>
          if tstrcasecmp t ''sha512'' = 0 then
            rbind (deref pass) (\<lambda>p.
              let tmp = (case sha512_digest (bytes_of p) of Inl e \<Rightarrow> replicate 64 0 | Inr d \<Rightarrow> d) in
              rbind (print_bytes (64 * 2 + 1) [] tmp) (\<lambda>s. Ok (Some s)))
          else Ok None)"

section \<open>What a hash is\<close>

definition hex_string :: "byte list \<Rightarrow> string" where
  "hex_string bs = concat (map hex_byte bs)"

lemma hex_byte_length: "1 \<le> length (hex_byte b) \<and> length (hex_byte b) \<le> 2"
  by (simp add: hex_byte_def Let_def)

lemma hex_string_length: "length bs \<le> length (hex_string bs) \<and> length (hex_string bs) \<le> 2 * length bs"
proof (induction bs)
  case (Cons b bs)
  then show ?case using hex_byte_length [of b] by (simp add: hex_string_def)
qed (simp add: hex_string_def)

text \<open>The buffer is large enough.\<close>

lemma print_bytes_fits: "length s + 2 * length bs < room \<Longrightarrow> print_bytes room s bs = Ok (s @ hex_string bs)"
proof (induction bs arbitrary: s)
  case (Cons b bs)
  then show ?case using hex_byte_length [of b] by (simp add: hex_string_def)
qed (simp add: hex_string_def)

lemma fips_sha512_length: "length (fips_sha512 m) = 64"
proof -
  let ?s = "foldl fips_compress (md_state sha512_init) (blocks 128 (fips_pad m))"
  have s: "length ?s = 8" using compress_blocks [of "md_state sha512_init"] by (simp add: sha512_init_def)
  have "length (concat (map STORE64H xs)) = 8 * length xs" for xs by (induction xs) simp_all
  then show ?thesis using s by (simp only: fips_sha512_def)
qed

definition sha512_name :: "string \<Rightarrow> bool" where
  "sha512_name t \<longleftrightarrow> tstrcasecmp t ''sha512'' = 0"

lemma create_hash_sha512:
  assumes "sha512_name t" and "length p < 2 ^ 61"
  shows "create_hash (Some p) (Some t) = Ok (Some (hex_string (fips_sha512 (bytes_of p))))"
  using assms print_bytes_fits [of "[]" "fips_sha512 (bytes_of p)" 129] fips_sha512_length [of "bytes_of p"]
    sha512_fips [of "bytes_of p"]
  by (simp add: create_hash_def sha512_name_def bytes_of_def)

lemma create_hash_other: "\<not> sha512_name t \<Longrightarrow> create_hash p (Some t) = Ok None"
  by (simp add: create_hash_def sha512_name_def)

section \<open>Passwords\<close>

text \<open>The function of the module as the bot calls it. Without a password it would read through NULL.\<close>

definition module_hash :: "cstr \<Rightarrow> cstr \<Rightarrow> cstr" where
  "module_hash pass ht = (case create_hash pass ht of Inl e \<Rightarrow> None | Inr h \<Rightarrow> h)"

lemma makepasswd_sha512:
  assumes "c_crypto cfg = Some module_hash" and "sha512_name t" and "length p < 2 ^ 61"
  shows "egg_makepasswd cfg (Some p) (Some t) = Some (hex_string (fips_sha512 (bytes_of p)))"
  using assms create_hash_sha512 [of t p] by (simp add: egg_makepasswd_def module_hash_def)

lemma makepasswd_other:
  "c_crypto cfg = Some module_hash \<Longrightarrow> \<not> sha512_name t \<Longrightarrow> egg_makepasswd cfg p (Some t) = None"
  by (simp add: egg_makepasswd_def module_hash_def create_hash_other)

text \<open>A password of a user with a hash of the module.\<close>

lemma module_password:
  assumes "c_crypto cfg = Some module_hash" and "hash_type u = Some t" and "sha512_name t"
    and "passhash u = egg_makepasswd cfg (Some p) (Some t)" and "length p < 2 ^ 61" and "length q < 2 ^ 61" and "\<not> asks_only (Some q)"
  shows "passwd_matches cfg u (Some q) =
    Ok (if hex_string (fips_sha512 (bytes_of q)) = hex_string (fips_sha512 (bytes_of p)) then 1 else 0)"
proof -
  have h: "passhash u = Some (hex_string (fips_sha512 (bytes_of p)))" using assms makepasswd_sha512 by simp
  then show ?thesis
    using passwd_matches_iff [of u cfg "Some q"] assms makepasswd_sha512 [OF assms(1,3,6)] by simp
qed

text \<open>Different digests may be printed as the same text: a byte below 16 takes one digit.\<close>

lemma hex_string_collision:
  "hex_string ([0x01, 0x23] @ bs) = hex_string ([0x12, 0x03] @ bs)"
  by (simp add: hex_string_def hex_byte_def hex_digit_def)

end
