(* ===== verification/Program.thy ===== *)
theory Program
  imports Tconfig_Shape Tconfig_Merge Config_Engine Crypto
begin

text \<open>
  The start and the end of the program: \<^verbatim>\<open>src/src/main.c\<close>, \<^verbatim>\<open>die.c\<close>, the loading of shared objects in \<^verbatim>\<open>tmodule.c\<close> and
  \<^verbatim>\<open>t_crypto_module.c\<close>, and the log in \<^verbatim>\<open>log_entry.c\<close> and \<^verbatim>\<open>debug.c\<close>.
\<close>

section \<open>Shared objects\<close>

text \<open>
  What is used of \<open>libltdl\<close>: the number of errors at its start, opening an object by its name, and the functions
  in it. Handles and functions are numbers.
\<close>

record ltdl =
  lt_dlinit :: int
  lt_dlopenext :: "cstr \<Rightarrow> nat option"
  lt_dlsym :: "nat \<Rightarrow> string \<Rightarrow> nat option"

text \<open>The field \<open>status\<close>, which nothing sets or reads, is left out.\<close>

record tmodule =
  tm_name :: cstr
  tm_handle :: nat
  tmodule_load_sym :: "nat option"
  tmodule_unload_sym :: "nat option"
  tmodule_get_tsockets_sym :: "nat option"
  tmodule_get_messages_sym :: "nat option"
  tmodule_handle_messages_sym :: "nat option"

text \<open>
  \<open>call\<close> is what the function that is found gives for the settings of the module and the configuration. An object without it is
  closed, and then used as if it were open.
\<close>

definition tmodule_from_tconfig ::
  "ltdl \<Rightarrow> (nat \<Rightarrow> tblock list \<Rightarrow> tblock list \<Rightarrow> int) \<Rightarrow> tblock \<Rightarrow> tblock list \<Rightarrow> tmodule option res" where
  "tmodule_from_tconfig lib call tcfg global_cfg =
     rbind (deref (tb_key tcfg)) (\<lambda>k.
       if k \<noteq> ''module'' then Ok None
       else (case lt_dlopenext lib (tb_value tcfg) of
               None \<Rightarrow> Ok None
             | Some h \<Rightarrow>
                 (case lt_dlsym lib h ''tmodule_load'' of
                    None \<Rightarrow> Fault UseAfterFree
                  | Some f \<Rightarrow>
                      if call f (tb_child tcfg) global_cfg = 0 then Ok None
                      else Ok (Some \<lparr>tm_name = tb_value tcfg, tm_handle = h,
                        tmodule_load_sym = lt_dlsym lib h ''tmodule_load'',
                        tmodule_unload_sym = lt_dlsym lib h ''tmodule_unload'',
                        tmodule_get_tsockets_sym = lt_dlsym lib h ''tmodule_get_tsockets'',
                        tmodule_get_messages_sym = lt_dlsym lib h ''tmodule_get_messages'',
                        tmodule_handle_messages_sym = lt_dlsym lib h ''tmodule_handle_messages''\<rparr>))))"

text \<open>Freeing a module: the record that is freed. The handle is not closed.\<close>

definition tmodule_free :: "tmodule \<Rightarrow> tmodule list" where
  "tmodule_free module = [module]"

record t_crypto_module =
  tc_handle :: nat
  tc_hash_algorithm_exists :: "nat option"
  tc_create_hash :: "nat option"

definition t_crypto_module_load :: "ltdl \<Rightarrow> cstr \<Rightarrow> t_crypto_module option" where
  "t_crypto_module_load lib module_name =
     map_option (\<lambda>h. \<lparr>tc_handle = h, tc_hash_algorithm_exists = lt_dlsym lib h ''hash_algorithm_exists'',
         tc_create_hash = lt_dlsym lib h ''create_hash''\<rparr>)
       (lt_dlopenext lib module_name)"

text \<open>The hash function of the configuration, with what the functions of shared objects are.\<close>

definition crypto_of :: "ltdl \<Rightarrow> (nat \<Rightarrow> cstr \<Rightarrow> cstr \<Rightarrow> cstr) \<Rightarrow> string \<Rightarrow> (cstr \<Rightarrow> cstr \<Rightarrow> cstr) option" where
  "crypto_of lib hash name = Option.bind (t_crypto_module_load lib (Some name)) (\<lambda>m. map_option hash (tc_create_hash m))"

section \<open>The log\<close>

record log_entry =
  log_text :: cstr
  le_flags :: cstr

definition log_entry_new :: log_entry where
  "log_entry_new = \<lparr>log_text = None, le_flags = None\<rparr>"

definition log_entry_free :: "log_entry \<Rightarrow> log_entry list" where
  "log_entry_free entry = [entry]"

text \<open>
  What becomes of a message: nothing, a line on the terminal while there is no configuration, or the filters whose
  handlers get the entry. \<open>args\<close> is what \<open>vsnprintf\<close> makes of a format.
\<close>

datatype logged = Not_logged | Pre_load string | To_filters "log_filter list" log_entry

definition log_entry_printf :: "config option \<Rightarrow> cstr \<Rightarrow> cstr \<Rightarrow> (string \<Rightarrow> string) \<Rightarrow> logged res" where
  "log_entry_printf g_cfg flags fmt args =
     (if (case g_cfg of None \<Rightarrow> False | Some c \<Rightarrow> c_filters c = []) then Ok Not_logged
      else rbind (deref fmt) (\<lambda>f.
        let ret = take 2047 (args f) in
        case g_cfg of
          None \<Rightarrow> Ok (Pre_load (''Pre-load: '' @ ret @ [NL]))
        | Some c \<Rightarrow>
            (let entry = log_entry_new\<lparr>log_text := Some ret, le_flags := flags\<rparr> in
             Ok (To_filters (log_filters_check (c_filters c) (le_flags entry)) entry))))"

text \<open>\<open>troll_debug\<close>: the line on the terminal, if there is one.\<close>

definition troll_debug :: "config option \<Rightarrow> bool \<Rightarrow> int \<Rightarrow> string \<Rightarrow> string option" where
  "troll_debug g_cfg forked level text =
     (case g_cfg of
        None \<Rightarrow> Some (take 2047 text @ [NL])
      | Some c \<Rightarrow> if level \<le> debug_level c \<and> \<not> forked then Some (take 2047 text @ [NL]) else None)"

section \<open>From the start to the loop\<close>

text \<open>
  \<open>main\<close> ends with a status, or it goes on to the select loop with a configuration. \<open>opens\<close> is whether the dump of the
  configuration can be opened, \<open>pid\<close> what \<open>fork\<close> gives, in a build that has it.
\<close>

datatype main_result = Ended int | Looping config

definition forked_pid :: "int \<Rightarrow> config \<Rightarrow> main_result" where
  "forked_pid pid cfg = (if c_fork cfg = 1 \<and> pid \<noteq> 0 then Ended 0 else Looping cfg)"

definition main_start ::
  "ltdl \<Rightarrow> (nat \<Rightarrow> cstr \<Rightarrow> cstr \<Rightarrow> cstr) \<Rightarrow> files \<Rightarrow> bool \<Rightarrow> int \<Rightarrow> string list \<Rightarrow> (main_result \<times> writes) res option" where
  "main_start lib hash fs opens pid argv =
     (if lt_dlinit lib > 0 then Some (Ok (Ended 1, []))
      else if length argv > 2 then Some (Ok (Ended 1, []))
      else obind (Some (config_engine_init (crypto_of lib hash) fs (if length argv = 2 then argv ! 1 else ''trollbot.conf''))) (\<lambda>st.
        case st of
          Exit_failure \<Rightarrow> Some (Ok (Ended 1, []))
        | Running cfg \<Rightarrow>
            obind (tconfig_to_file (c_tcfg cfg) opens) (\<lambda>out.
              Some (Ok (forked_pid pid cfg, case out of None \<Rightarrow> [] | Some s \<Rightarrow> [(''out.txt'', s)])))))"

text \<open>The end: the configuration tree is freed, block by block, and nothing else but the record.\<close>

definition die_nicely :: "config option \<Rightarrow> int \<Rightarrow> ((cstr \<times> cstr) list \<times> int) option" where
  "die_nicely g_cfg ret =
     (case g_cfg of None \<Rightarrow> Some ([], ret) | Some c \<Rightarrow> map_option (\<lambda>freed. (freed, ret)) (free_tconfig (c_tcfg c)))"

section \<open>What is shown\<close>

text \<open>Without log filters, which are there only if the configuration has them, no call logs or reads anything.\<close>

lemma log_without_filters: "c_filters c = [] \<Longrightarrow> log_entry_printf (Some c) flags fmt args = Ok Not_logged"
  by (simp add: log_entry_printf_def)

text \<open>The callers pass a network and a channel first; with both NULL, the format is NULL.\<close>

lemma log_null_format:
  "log_entry_printf g_cfg None None args = (case g_cfg of None \<Rightarrow> Fault NullDeref | Some c \<Rightarrow> if c_filters c = [] then Ok Not_logged else Fault NullDeref)"
  by (simp add: log_entry_printf_def split: option.split)

lemma shaped_linked1: "shaped first bs \<Longrightarrow> linked1 first bs"
  by (induction bs arbitrary: first rule: forest_induct) simp_all

text \<open>A file and no defaults: the tree that is kept is that of the file.\<close>

lemma init_without_defaults:
  assumes "fs ''defaults.conf'' = None" and "config_engine_init ld fs f = Ok (Running cfg)"
  shows "file_to_tconfig (fs f) = Ok (c_tcfg cfg)" and "c_tcfg cfg \<noteq> []"
    and "c_crypto cfg = Option.bind (c_crypto_name cfg) ld"
    and "\<exists>c. config_engine_load (c_tcfg cfg) = Ok c \<and> cfg = c\<lparr>c_tcfg := c_tcfg cfg, c_crypto := Option.bind (c_crypto_name c) ld\<rparr>"
  using assms by (auto simp: config_engine_init_def rbind_Ok_iff file_to_tconfig_def split: if_splits)

text \<open>The bot that starts, its dump, and its end.\<close>

lemma main_dumps:
  assumes "lt_dlinit lib \<le> 0" and "length argv \<le> 2" and "fs ''defaults.conf'' = None"
    and "config_engine_init (crypto_of lib hash) fs (if length argv = 2 then argv ! 1 else ''trollbot.conf'') = Ok (Running cfg)"
    and "words_ok (c_tcfg cfg)"
  shows "\<exists>s. main_start lib hash fs True pid argv = Some (Ok (forked_pid pid cfg, [(''out.txt'', s)])) \<and>
    file_to_tconfig (Some s) = Ok (c_tcfg cfg)"
  using written_again [OF init_without_defaults(1,2) [OF assms(3,4)] assms(5)] assms(1,2,4) by (auto simp: main_start_def)

lemma dump_loads_again:
  assumes "fs ''defaults.conf'' = None" and "config_engine_init ld fs f = Ok (Running cfg)" and "file_to_tconfig (Some s) = Ok (c_tcfg cfg)"
    and "fs' ''defaults.conf'' = None" and "fs' g = Some s"
  shows "config_engine_init ld fs' g = Ok (Running cfg)"
proof -
  obtain c where c: "config_engine_load (c_tcfg cfg) = Ok c" "cfg = c\<lparr>c_tcfg := c_tcfg cfg, c_crypto := Option.bind (c_crypto_name c) ld\<rparr>"
    using init_without_defaults(4) [OF assms(1,2)] by blast
  moreover have "file_to_tconfig None = Ok []" by (simp add: file_to_tconfig_def)
  ultimately show ?thesis
    using init_without_defaults(2) [OF assms(1,2)] assms(3-5) by (simp add: config_engine_init_def)
qed

lemma die_frees:
  assumes "file_to_tconfig file = Ok (c_tcfg c)"
  shows "\<exists>freed. die_nicely (Some c) ret = Some (freed, ret) \<and> mset freed = mset (map pair_of (all_blocks (c_tcfg c)))"
  using free_tconfig_all [OF shaped_linked1 [OF file_to_tconfig_shaped [OF assms]]] by (auto simp: die_nicely_def)

lemma configured_hash:
  assumes "fs ''defaults.conf'' = None" and "config_engine_init (crypto_of lib (\<lambda>f. module_hash)) fs f = Ok (Running cfg)"
    and "c_crypto_name cfg = Some m" and "lt_dlopenext lib (Some m) = Some h" and "lt_dlsym lib h ''create_hash'' \<noteq> None"
    and "sha512_name t" and "length p < 2 ^ 61"
  shows "egg_makepasswd cfg (Some p) (Some t) = Some (hex_string (fips_sha512 (bytes_of p)))"
proof (rule makepasswd_sha512 [OF _ assms(6,7)])
  show "c_crypto cfg = Some module_hash"
    using init_without_defaults(3) [OF assms(1,2)] assms(3-5) by (auto simp: crypto_of_def t_crypto_module_load_def)
qed

text \<open>A module without the function that is looked for is used after it was closed.\<close>

lemma module_without_load:
  "tb_key b = Some ''module'' \<Longrightarrow> lt_dlopenext lib (tb_value b) = Some h \<Longrightarrow> lt_dlsym lib h ''tmodule_load'' = None \<Longrightarrow>
   tmodule_from_tconfig lib call b cfg = Fault UseAfterFree"
  by (simp add: tmodule_from_tconfig_def)

section \<open>What goes with a network\<close>

text \<open>
  Freeing: the results are the records that are freed. The bans of a channel and the log filters of a network are not among them; a
  network without a socket is a read through NULL in \<open>tsocket_free\<close>.
\<close>

definition free_channels :: "channel dlist \<Rightarrow> (channel \<times> (cstr \<times> cstr) list \<times> channel_user list) list" where
  "free_channels chans =
     (if dl_from chans = [] then []
      else map (\<lambda>c. (c, case egg_vars c of None \<Rightarrow> [] | Some vs \<Rightarrow> vs, channel_users_free (user_list c))) (dl_all chans))"

definition free_channel :: "channel option \<Rightarrow> (channel \<times> (cstr \<times> cstr) list \<times> channel_user list) option" where
  "free_channel chan =
     map_option (\<lambda>c. (c, case egg_vars c of None \<Rightarrow> [] | Some vs \<Rightarrow> vs, channel_users_free (user_list c))) chan"

record freed_network =
  fr_socket :: nat
  fr_trigs :: "trigger list"
  fr_users :: "user list"
  fr_chans :: "(channel \<times> (cstr \<times> cstr) list \<times> channel_user list) list"
  fr_servers :: "server list"
  fr_timers :: "t_timer list"
  fr_dccs :: "dcc_session list"

definition free_network :: "network \<Rightarrow> freed_network res" where
  "free_network net =
     rbind (case tsock net of None \<Rightarrow> Fault NullDeref | Some s \<Rightarrow> Ok s) (\<lambda>s.
       Ok \<lparr>fr_socket = s, fr_trigs = free_trigger_table (trigs net), fr_users = free_users (n_users net),
           fr_chans = free_channels (n_chans net), fr_servers = free_servers (n_servers net),
           fr_timers = t_timers_free (timers net), fr_dccs = free_dcc_sessions (n_dccs net)\<rparr>)"

definition free_networks :: "network dlist \<Rightarrow> freed_network list res" where
  "free_networks net = (if dl_from net = [] then Ok [] else mapM_res free_network (dl_all net))"

text \<open>The variable of \<open>network_capabilities_new\<close> is written through before it is set.\<close>

definition network_capabilities_new :: "unit res" where
  "network_capabilities_new = Fault Uninitialised"

lemma fresh_cannot_be_freed:
  assumes "config_engine_init ld fs f = Ok (Running cfg)" and "network_blocks (c_tcfg cfg) \<noteq> []"
  shows "free_networks (networks cfg) = Fault NullDeref"
proof -
  obtain n ns where n: "networks cfg = DList [] (n # ns)" "fresh n"
    using config_engine_init_bare [OF assms(1)] assms(2) by (cases "network_blocks (c_tcfg cfg)") auto
  then show ?thesis by (simp add: free_networks_def free_network_def fresh_def)
qed

end
