(* ===== verification/Md5.thy ===== *)
theory Md5
  imports Hash
begin

text \<open>
  The digests MD5, MD4 and MD2 of \<^verbatim>\<open>src/src/modules/crypto\<close>. The macros of the rounds are lists of operations, one
  for each line of the code.
\<close>

unbundle bit_operations_syntax

section \<open>MD5\<close>

datatype md_fun = FF | GG | HH | II

definition ROLc :: "32 word \<Rightarrow> nat \<Rightarrow> 32 word" where
  "ROLc x y = push_bit (y mod 32) x OR drop_bit (32 - y mod 32) x"

fun md5_fn :: "md_fun \<Rightarrow> 32 word \<Rightarrow> 32 word \<Rightarrow> 32 word \<Rightarrow> 32 word" where
  "md5_fn FF x y z = z XOR (x AND (y XOR z))"
| "md5_fn GG x y z = y XOR (z AND (y XOR x))"
| "md5_fn HH x y z = x XOR y XOR z"
| "md5_fn II x y z = y XOR (x OR NOT z)"

text \<open>An operation: the function, the registers, the word of the block, the shift and the constant.\<close>

type_synonym md5_operation = "md_fun \<times> nat \<times> nat \<times> nat \<times> nat \<times> nat \<times> nat \<times> 32 word"

definition md5_op :: "32 word list \<Rightarrow> md5_operation \<Rightarrow> 32 word list \<Rightarrow> 32 word list" where
  "md5_op W = (\<lambda>(f, a, b, c, d, k, s, t) S.
     S[a := ROLc (S ! a + md5_fn f (S ! b) (S ! c) (S ! d) + W ! k + t) s + S ! b])"

definition md5_ops :: "md5_operation list" where
  "md5_ops =
    [(FF, 0, 1, 2, 3, 0, 7, 0xd76aa478), (FF, 3, 0, 1, 2, 1, 12, 0xe8c7b756), (FF, 2, 3, 0, 1, 2, 17, 0x242070db),
     (FF, 1, 2, 3, 0, 3, 22, 0xc1bdceee), (FF, 0, 1, 2, 3, 4, 7, 0xf57c0faf), (FF, 3, 0, 1, 2, 5, 12, 0x4787c62a),
     (FF, 2, 3, 0, 1, 6, 17, 0xa8304613), (FF, 1, 2, 3, 0, 7, 22, 0xfd469501), (FF, 0, 1, 2, 3, 8, 7, 0x698098d8),
     (FF, 3, 0, 1, 2, 9, 12, 0x8b44f7af), (FF, 2, 3, 0, 1, 10, 17, 0xffff5bb1), (FF, 1, 2, 3, 0, 11, 22, 0x895cd7be),
     (FF, 0, 1, 2, 3, 12, 7, 0x6b901122), (FF, 3, 0, 1, 2, 13, 12, 0xfd987193), (FF, 2, 3, 0, 1, 14, 17, 0xa679438e),
     (FF, 1, 2, 3, 0, 15, 22, 0x49b40821), (GG, 0, 1, 2, 3, 1, 5, 0xf61e2562), (GG, 3, 0, 1, 2, 6, 9, 0xc040b340),
     (GG, 2, 3, 0, 1, 11, 14, 0x265e5a51), (GG, 1, 2, 3, 0, 0, 20, 0xe9b6c7aa), (GG, 0, 1, 2, 3, 5, 5, 0xd62f105d),
     (GG, 3, 0, 1, 2, 10, 9, 0x02441453), (GG, 2, 3, 0, 1, 15, 14, 0xd8a1e681), (GG, 1, 2, 3, 0, 4, 20, 0xe7d3fbc8),
     (GG, 0, 1, 2, 3, 9, 5, 0x21e1cde6), (GG, 3, 0, 1, 2, 14, 9, 0xc33707d6), (GG, 2, 3, 0, 1, 3, 14, 0xf4d50d87),
     (GG, 1, 2, 3, 0, 8, 20, 0x455a14ed), (GG, 0, 1, 2, 3, 13, 5, 0xa9e3e905), (GG, 3, 0, 1, 2, 2, 9, 0xfcefa3f8),
     (GG, 2, 3, 0, 1, 7, 14, 0x676f02d9), (GG, 1, 2, 3, 0, 12, 20, 0x8d2a4c8a), (HH, 0, 1, 2, 3, 5, 4, 0xfffa3942),
     (HH, 3, 0, 1, 2, 8, 11, 0x8771f681), (HH, 2, 3, 0, 1, 11, 16, 0x6d9d6122), (HH, 1, 2, 3, 0, 14, 23, 0xfde5380c),
     (HH, 0, 1, 2, 3, 1, 4, 0xa4beea44), (HH, 3, 0, 1, 2, 4, 11, 0x4bdecfa9), (HH, 2, 3, 0, 1, 7, 16, 0xf6bb4b60),
     (HH, 1, 2, 3, 0, 10, 23, 0xbebfbc70), (HH, 0, 1, 2, 3, 13, 4, 0x289b7ec6), (HH, 3, 0, 1, 2, 0, 11, 0xeaa127fa),
     (HH, 2, 3, 0, 1, 3, 16, 0xd4ef3085), (HH, 1, 2, 3, 0, 6, 23, 0x04881d05), (HH, 0, 1, 2, 3, 9, 4, 0xd9d4d039),
     (HH, 3, 0, 1, 2, 12, 11, 0xe6db99e5), (HH, 2, 3, 0, 1, 15, 16, 0x1fa27cf8), (HH, 1, 2, 3, 0, 2, 23, 0xc4ac5665),
     (II, 0, 1, 2, 3, 0, 6, 0xf4292244), (II, 3, 0, 1, 2, 7, 10, 0x432aff97), (II, 2, 3, 0, 1, 14, 15, 0xab9423a7),
     (II, 1, 2, 3, 0, 5, 21, 0xfc93a039), (II, 0, 1, 2, 3, 12, 6, 0x655b59c3), (II, 3, 0, 1, 2, 3, 10, 0x8f0ccc92),
     (II, 2, 3, 0, 1, 10, 15, 0xffeff47d), (II, 1, 2, 3, 0, 1, 21, 0x85845dd1), (II, 0, 1, 2, 3, 8, 6, 0x6fa87e4f),
     (II, 3, 0, 1, 2, 15, 10, 0xfe2ce6e0), (II, 2, 3, 0, 1, 6, 15, 0xa3014314), (II, 1, 2, 3, 0, 13, 21, 0x4e0811a1),
     (II, 0, 1, 2, 3, 4, 6, 0xf7537e82), (II, 3, 0, 1, 2, 11, 10, 0xbd3af235), (II, 2, 3, 0, 1, 2, 15, 0x2ad7d2bb),
     (II, 1, 2, 3, 0, 9, 21, 0xeb86d391)]"

definition md_load :: "byte list \<Rightarrow> 32 word list" where
  "md_load buf = map (\<lambda>i. LOAD32L (drop (4 * i) buf)) [0..<16]"

definition md5_compress :: "32 word list \<Rightarrow> byte list \<Rightarrow> 32 word list" where
  "md5_compress state buf = map2 (+) state (fold (md5_op (md_load buf)) md5_ops state)"

text \<open>The same with tables and a loop, as it is compiled with \<open>LTC_SMALL_CODE\<close>.\<close>

definition Worder :: "nat list" where
  "Worder =
    [0, 1, 2, 3, 4, 5, 6, 7, 8, 9, 10, 11, 12, 13, 14, 15,
     1, 6, 11, 0, 5, 10, 15, 4, 9, 14, 3, 8, 13, 2, 7, 12,
     5, 8, 11, 14, 1, 4, 7, 10, 13, 0, 3, 6, 9, 12, 15, 2,
     0, 7, 14, 5, 12, 3, 10, 1, 8, 15, 6, 13, 4, 11, 2, 9]"

definition Rorder :: "nat list" where
  "Rorder =
    [7, 12, 17, 22, 7, 12, 17, 22, 7, 12, 17, 22, 7, 12, 17, 22,
     5, 9, 14, 20, 5, 9, 14, 20, 5, 9, 14, 20, 5, 9, 14, 20,
     4, 11, 16, 23, 4, 11, 16, 23, 4, 11, 16, 23, 4, 11, 16, 23,
     6, 10, 15, 21, 6, 10, 15, 21, 6, 10, 15, 21, 6, 10, 15, 21]"

definition Korder :: "32 word list" where
  "Korder =
    [0xd76aa478, 0xe8c7b756, 0x242070db, 0xc1bdceee, 0xf57c0faf, 0x4787c62a, 0xa8304613, 0xfd469501,
     0x698098d8, 0x8b44f7af, 0xffff5bb1, 0x895cd7be, 0x6b901122, 0xfd987193, 0xa679438e, 0x49b40821,
     0xf61e2562, 0xc040b340, 0x265e5a51, 0xe9b6c7aa, 0xd62f105d, 0x02441453, 0xd8a1e681, 0xe7d3fbc8,
     0x21e1cde6, 0xc33707d6, 0xf4d50d87, 0x455a14ed, 0xa9e3e905, 0xfcefa3f8, 0x676f02d9, 0x8d2a4c8a,
     0xfffa3942, 0x8771f681, 0x6d9d6122, 0xfde5380c, 0xa4beea44, 0x4bdecfa9, 0xf6bb4b60, 0xbebfbc70,
     0x289b7ec6, 0xeaa127fa, 0xd4ef3085, 0x04881d05, 0xd9d4d039, 0xe6db99e5, 0x1fa27cf8, 0xc4ac5665,
     0xf4292244, 0x432aff97, 0xab9423a7, 0xfc93a039, 0x655b59c3, 0x8f0ccc92, 0xffeff47d, 0x85845dd1,
     0x6fa87e4f, 0xfe2ce6e0, 0xa3014314, 0x4e0811a1, 0xf7537e82, 0xbd3af235, 0x2ad7d2bb, 0xeb86d391]"

definition md5_small_round :: "32 word list \<Rightarrow> md_fun \<Rightarrow> nat \<Rightarrow> 32 word list \<Rightarrow> 32 word list" where
  "md5_small_round W f i r =
     (let a = ROLc (r ! 0 + md5_fn f (r ! 1) (r ! 2) (r ! 3) + W ! (Worder ! i) + Korder ! i) (Rorder ! i) + r ! 1
      in [r ! 3, a, r ! 1, r ! 2])"

definition md5_small_compress :: "32 word list \<Rightarrow> byte list \<Rightarrow> 32 word list" where
  "md5_small_compress state buf =
     (let W = md_load buf;
          r = fold (md5_small_round W FF) [0..<16] state;
          r = fold (md5_small_round W GG) [16..<32] r;
          r = fold (md5_small_round W HH) [32..<48] r;
          r = fold (md5_small_round W II) [48..<64] r
      in map2 (+) state r)"

definition md5_init :: "32 word list hash_md" where
  "md5_init = \<lparr>md_length = 0, md_state = [0x67452301, 0xefcdab89, 0x98badcfe, 0x10325476], md_buf = []\<rparr>"

definition md5_process :: "32 word list hash_md \<Rightarrow> byte list \<Rightarrow> crypt_error + 32 word list hash_md" where
  "md5_process = hash_process 64 md5_compress"

definition md5_done :: "32 word list hash_md \<Rightarrow> crypt_error + byte list" where
  "md5_done md =
     (if 64 \<le> length (md_buf md) then Inl CRYPT_INVALID_ARG
      else (let p = hash_pad 64 56 56 md5_compress md in
            Inr (concat (map STORE32L (md5_compress (md_state p) (md_buf p @ STORE64L (md_length p)))))))"

definition md5_digest :: "byte list \<Rightarrow> crypt_error + byte list" where
  "md5_digest m = (case md5_process md5_init m of Inl e \<Rightarrow> Inl e | Inr md \<Rightarrow> md5_done md)"

section \<open>MD4\<close>

datatype md4_fun = MD4_F | MD4_G | MD4_H

fun md4_fn :: "md4_fun \<Rightarrow> 32 word \<Rightarrow> 32 word \<Rightarrow> 32 word \<Rightarrow> 32 word" where
  "md4_fn MD4_F x y z = z XOR (x AND (y XOR z))"
| "md4_fn MD4_G x y z = ((x AND y) OR (z AND (x OR y))) + 0x5a827999"
| "md4_fn MD4_H x y z = (x XOR y XOR z) + 0x6ed9eba1"

text \<open>The constants of the macros are added with the function.\<close>

type_synonym md4_operation = "md4_fun \<times> nat \<times> nat \<times> nat \<times> nat \<times> nat \<times> nat"

definition md4_op :: "32 word list \<Rightarrow> md4_operation \<Rightarrow> 32 word list \<Rightarrow> 32 word list" where
  "md4_op x = (\<lambda>(f, a, b, c, d, k, s) S. S[a := ROLc (S ! a + (md4_fn f (S ! b) (S ! c) (S ! d) + x ! k)) s])"

definition md4_ops :: "md4_operation list" where
  "md4_ops =
    [(MD4_F, 0, 1, 2, 3, 0, 3), (MD4_F, 3, 0, 1, 2, 1, 7), (MD4_F, 2, 3, 0, 1, 2, 11), (MD4_F, 1, 2, 3, 0, 3, 19),
     (MD4_F, 0, 1, 2, 3, 4, 3), (MD4_F, 3, 0, 1, 2, 5, 7), (MD4_F, 2, 3, 0, 1, 6, 11), (MD4_F, 1, 2, 3, 0, 7, 19),
     (MD4_F, 0, 1, 2, 3, 8, 3), (MD4_F, 3, 0, 1, 2, 9, 7), (MD4_F, 2, 3, 0, 1, 10, 11), (MD4_F, 1, 2, 3, 0, 11, 19),
     (MD4_F, 0, 1, 2, 3, 12, 3), (MD4_F, 3, 0, 1, 2, 13, 7), (MD4_F, 2, 3, 0, 1, 14, 11), (MD4_F, 1, 2, 3, 0, 15, 19),
     (MD4_G, 0, 1, 2, 3, 0, 3), (MD4_G, 3, 0, 1, 2, 4, 5), (MD4_G, 2, 3, 0, 1, 8, 9), (MD4_G, 1, 2, 3, 0, 12, 13),
     (MD4_G, 0, 1, 2, 3, 1, 3), (MD4_G, 3, 0, 1, 2, 5, 5), (MD4_G, 2, 3, 0, 1, 9, 9), (MD4_G, 1, 2, 3, 0, 13, 13),
     (MD4_G, 0, 1, 2, 3, 2, 3), (MD4_G, 3, 0, 1, 2, 6, 5), (MD4_G, 2, 3, 0, 1, 10, 9), (MD4_G, 1, 2, 3, 0, 14, 13),
     (MD4_G, 0, 1, 2, 3, 3, 3), (MD4_G, 3, 0, 1, 2, 7, 5), (MD4_G, 2, 3, 0, 1, 11, 9), (MD4_G, 1, 2, 3, 0, 15, 13),
     (MD4_H, 0, 1, 2, 3, 0, 3), (MD4_H, 3, 0, 1, 2, 8, 9), (MD4_H, 2, 3, 0, 1, 4, 11), (MD4_H, 1, 2, 3, 0, 12, 15),
     (MD4_H, 0, 1, 2, 3, 2, 3), (MD4_H, 3, 0, 1, 2, 10, 9), (MD4_H, 2, 3, 0, 1, 6, 11), (MD4_H, 1, 2, 3, 0, 14, 15),
     (MD4_H, 0, 1, 2, 3, 1, 3), (MD4_H, 3, 0, 1, 2, 9, 9), (MD4_H, 2, 3, 0, 1, 5, 11), (MD4_H, 1, 2, 3, 0, 13, 15),
     (MD4_H, 0, 1, 2, 3, 3, 3), (MD4_H, 3, 0, 1, 2, 11, 9), (MD4_H, 2, 3, 0, 1, 7, 11), (MD4_H, 1, 2, 3, 0, 15, 15)]"

definition md4_compress :: "32 word list \<Rightarrow> byte list \<Rightarrow> 32 word list" where
  "md4_compress state buf = map2 (+) state (fold (md4_op (md_load buf)) md4_ops state)"

definition md4_init :: "32 word list hash_md" where
  "md4_init = \<lparr>md_length = 0, md_state = [0x67452301, 0xefcdab89, 0x98badcfe, 0x10325476], md_buf = []\<rparr>"

definition md4_process :: "32 word list hash_md \<Rightarrow> byte list \<Rightarrow> crypt_error + 32 word list hash_md" where
  "md4_process = hash_process 64 md4_compress"

definition md4_done :: "32 word list hash_md \<Rightarrow> crypt_error + byte list" where
  "md4_done md =
     (if 64 \<le> length (md_buf md) then Inl CRYPT_INVALID_ARG
      else (let p = hash_pad 64 56 56 md4_compress md in
            Inr (concat (map STORE32L (md4_compress (md_state p) (md_buf p @ STORE64L (md_length p)))))))"

definition md4_digest :: "byte list \<Rightarrow> crypt_error + byte list" where
  "md4_digest m = (case md4_process md4_init m of Inl e \<Rightarrow> Inl e | Inr md \<Rightarrow> md4_done md)"

section \<open>MD2\<close>

definition PI_SUBST :: "byte list" where
  "PI_SUBST =
    [41, 46, 67, 201, 162, 216, 124, 1, 61, 54, 84, 161, 236, 240, 6, 19,
     98, 167, 5, 243, 192, 199, 115, 140, 152, 147, 43, 217, 188, 76, 130, 202,
     30, 155, 87, 60, 253, 212, 224, 22, 103, 66, 111, 24, 138, 23, 229, 18,
     190, 78, 196, 214, 218, 158, 222, 73, 160, 251, 245, 142, 187, 47, 238, 122,
     169, 104, 121, 145, 21, 178, 7, 63, 148, 194, 16, 137, 11, 34, 95, 33,
     128, 127, 93, 154, 90, 144, 50, 39, 53, 62, 204, 231, 191, 247, 151, 3,
     255, 25, 48, 179, 72, 165, 181, 209, 215, 94, 146, 42, 172, 86, 170, 198,
     79, 184, 56, 210, 150, 164, 125, 182, 118, 252, 107, 226, 156, 116, 4, 241,
     69, 157, 112, 89, 100, 113, 135, 32, 134, 91, 207, 101, 230, 45, 168, 2,
     27, 96, 37, 173, 174, 176, 185, 246, 28, 70, 97, 105, 52, 64, 126, 15,
     85, 71, 163, 35, 221, 81, 175, 58, 195, 92, 249, 206, 186, 197, 234, 38,
     44, 83, 13, 110, 133, 40, 132, 9, 211, 223, 205, 244, 65, 129, 77, 82,
     106, 220, 55, 200, 108, 193, 171, 250, 36, 225, 123, 8, 12, 189, 177, 74,
     120, 136, 149, 139, 227, 99, 232, 109, 233, 203, 213, 254, 59, 0, 29, 57,
     242, 239, 183, 14, 102, 88, 208, 228, 166, 119, 114, 248, 235, 117, 75, 10,
     49, 68, 80, 180, 143, 237, 31, 26, 219, 153, 141, 51, 159, 17, 131, 20]"

record md2_state =
  md2_chksum :: "byte list"
  md2_X :: "byte list"
  md2_buf :: "byte list"

text \<open>A loop over the bytes of the checksum, with the byte before.\<close>

definition md2_update_chksum :: "md2_state \<Rightarrow> md2_state" where
  "md2_update_chksum md =
     md\<lparr>md2_chksum := snd (fold (\<lambda>j (L, c).
          let x = c ! j XOR PI_SUBST ! unat (md2_buf md ! j XOR L) in (x, c[j := x]))
        [0..<16] (md2_chksum md ! 15, md2_chksum md))\<rparr>"

definition md2_compress :: "md2_state \<Rightarrow> md2_state" where
  "md2_compress md =
     (let X = fold (\<lambda>j X. X[16 + j := md2_buf md ! j, 32 + j := X ! j XOR md2_buf md ! j]) [0..<16] (md2_X md);
          (t, X) = fold (\<lambda>j (t, X).
            let (t, X) = fold (\<lambda>k (t, X). let x = X ! k XOR PI_SUBST ! unat t in (x, X[k := x])) [0..<48] (t, X)
            in (t + of_nat j, X)) [0..<18] (0, X)
      in md\<lparr>md2_X := X\<rparr>)"

definition md2_init :: md2_state where
  "md2_init = \<lparr>md2_chksum = replicate 16 0, md2_X = replicate 48 0, md2_buf = []\<rparr>"

text \<open>Blocks are always copied to the buffer.\<close>

definition md2_block :: "md2_state \<Rightarrow> md2_state" where
  "md2_block md = (md2_update_chksum (md2_compress md))\<lparr>md2_buf := []\<rparr>"

function md2_loop :: "byte list \<Rightarrow> md2_state \<Rightarrow> md2_state" where
  "md2_loop inp md =
     (if inp = [] \<or> 16 < length (md2_buf md) then md
      else (let n = min (length inp) (16 - length (md2_buf md)); md' = md\<lparr>md2_buf := md2_buf md @ take n inp\<rparr> in
            md2_loop (drop n inp) (if length (md2_buf md') = 16 then md2_block md' else md')))"
  by pat_completeness auto
termination
proof (relation "measure (\<lambda>(inp, md). 2 * length inp + (if md2_buf md = [] then 0 else 1))", goal_cases)
  case (2 inp md n md')
  then have "Suc 0 < 2 * length inp" by (cases inp) auto
  then show ?case using 2 by (cases "n = 0") (auto simp: Let_def min_def md2_block_def split: if_splits)
qed auto

declare md2_loop.simps [simp del]

definition md2_process :: "md2_state \<Rightarrow> byte list \<Rightarrow> crypt_error + md2_state" where
  "md2_process md inp = (if 16 < length (md2_buf md) then Inl CRYPT_INVALID_ARG else Inr (md2_loop inp md))"

definition md2_done :: "md2_state \<Rightarrow> crypt_error + byte list" where
  "md2_done md =
     (if 16 \<le> length (md2_buf md) then Inl CRYPT_INVALID_ARG
      else (let k = 16 - length (md2_buf md);
                md = md2_update_chksum (md2_compress (md\<lparr>md2_buf := md2_buf md @ replicate k (of_nat k)\<rparr>));
                md = md2_compress (md\<lparr>md2_buf := md2_chksum md\<rparr>)
            in Inr (take 16 (md2_X md))))"

definition md2_digest :: "byte list \<Rightarrow> crypt_error + byte list" where
  "md2_digest m = (case md2_process md2_init m of Inl e \<Rightarrow> Inl e | Inr md \<Rightarrow> md2_done md)"

section \<open>Loop and lines\<close>

text \<open>The lines of MD5 are the entries of the tables, with the registers one further each time.\<close>

definition md5_places :: "nat \<Rightarrow> nat \<times> nat \<times> nat \<times> nat" where
  "md5_places i = [(0, 1, 2, 3), (3, 0, 1, 2), (2, 3, 0, 1), (1, 2, 3, 0)] ! (i mod 4)"

definition md5_at :: "nat \<Rightarrow> md5_operation" where
  "md5_at i = (let (a, b, c, d) = md5_places i in
     ([FF, GG, HH, II] ! (i div 16), a, b, c, d, Worder ! i, Rorder ! i, Korder ! i))"

lemma md5_ops_tables: "md5_ops = map md5_at [0..<64]"
  by code_simp

definition regs4 :: "32 word list \<Rightarrow> nat \<times> nat \<times> nat \<times> nat \<Rightarrow> 32 word list" where
  "regs4 S = (\<lambda>(a, b, c, d). [S ! a, S ! b, S ! c, S ! d])"

lemma regs4_all: "length S = 4 \<Longrightarrow> regs4 S (0, 1, 2, 3) = S"
  by (auto simp: regs4_def numeral_eq_Suc length_Suc_conv)

lemma places_cases:
  obtains "i mod 4 = 0" "md5_places i = (0, 1, 2, 3)" "md5_places (Suc i) = (3, 0, 1, 2)"
  | "i mod 4 = 1" "md5_places i = (3, 0, 1, 2)" "md5_places (Suc i) = (2, 3, 0, 1)"
  | "i mod 4 = 2" "md5_places i = (2, 3, 0, 1)" "md5_places (Suc i) = (1, 2, 3, 0)"
  | "i mod 4 = 3" "md5_places i = (1, 2, 3, 0)" "md5_places (Suc i) = (0, 1, 2, 3)"
proof -
  have "i mod 4 < 4" by simp
  then consider "i mod 4 = 0" | "i mod 4 = 1" | "i mod 4 = 2" | "i mod 4 = 3" by linarith
  then show thesis by cases (use that in \<open>auto simp: md5_places_def mod_Suc\<close>)
qed

lemma md5_op_round:
  assumes "length S = 4"
  shows "regs4 (md5_op W (md5_at i) S) (md5_places (Suc i)) =
      md5_small_round W ([FF, GG, HH, II] ! (i div 16)) i (regs4 S (md5_places i))"
    and "length (md5_op W (md5_at i) S) = 4"
  using assms by (cases rule: places_cases [of i]; simp add: md5_op_def md5_at_def regs4_def md5_small_round_def Let_def case_prod_beta)+

lemma md5_fold_rounds:
  assumes "length S = 4"
  shows "regs4 (fold (md5_op W) (map md5_at [0..<n]) S) (md5_places n) =
      fold (\<lambda>i. md5_small_round W ([FF, GG, HH, II] ! (i div 16)) i) [0..<n] S \<and>
    length (fold (md5_op W) (map md5_at [0..<n]) S) = 4"
proof (induction n)
  case 0
  show ?case using assms regs4_all [OF assms] by (simp add: md5_places_def)
next
  case (Suc n)
  then show ?case using md5_op_round [of "fold (md5_op W) (map md5_at [0..<n]) S" W n] by simp
qed

lemma fold_cong_range:
  "(\<And>i. a \<le> i \<Longrightarrow> i < b \<Longrightarrow> f i = g i) \<Longrightarrow> fold f [a..<b] s = fold g [a..<b] s"
  by (intro fold_cong refl) auto

lemma md5_quarter:
  "fold (\<lambda>i. md5_small_round W ([FF, GG, HH, II] ! (i div 16)) i) [16 * k..<16 * k + 16] s =
   fold (md5_small_round W ([FF, GG, HH, II] ! k)) [16 * k..<16 * k + 16] s"
proof (rule fold_cong_range)
  fix i assume "16 * k \<le> i" and "i < 16 * k + 16"
  then have "i div 16 = k" by linarith
  then show "md5_small_round W ([FF, GG, HH, II] ! (i div 16)) i = md5_small_round W ([FF, GG, HH, II] ! k) i" by simp
qed

lemma md5_small:
  assumes l: "length state = 4"
  shows "md5_compress state buf = md5_small_compress state buf"
proof -
  let ?W = "md_load buf" and ?f = "\<lambda>i. [FF, GG, HH, II] ! (i div 16)"
  note [simp del] = upt_rec_numeral
  define S where "S = fold (md5_op ?W) (map md5_at [0..<64]) state"
  define r where "r = fold (\<lambda>i. md5_small_round ?W (?f i) i) [0..<64] state"
  have "regs4 S (md5_places 64) = r" "length S = 4" using md5_fold_rounds [OF l, of ?W 64] by (simp_all add: S_def r_def)
  moreover have "md5_places 64 = (0, 1, 2, 3)" by (simp add: md5_places_def)
  ultimately have "S = r" using regs4_all [of S] by simp
  have "[0..<64] = [0..<16] @ [16..<32] @ [32..<48] @ [48..<(64 :: nat)]"
    using upt_add_eq_append [of 0 16 48] upt_add_eq_append [of 16 32 32] upt_add_eq_append [of 32 48 16] by simp
  then have "r = fold (md5_small_round ?W II) [48..<64] (fold (md5_small_round ?W HH) [32..<48]
      (fold (md5_small_round ?W GG) [16..<32] (fold (md5_small_round ?W FF) [0..<16] state)))"
    using md5_quarter [of ?W 0] md5_quarter [of ?W 1] md5_quarter [of ?W 2] md5_quarter [of ?W 3] by (simp add: r_def)
  then show ?thesis using \<open>S = r\<close> by (simp add: md5_compress_def md5_small_compress_def md5_ops_tables Let_def S_def)
qed

section \<open>Digests of whole texts\<close>

interpretation md5: block_digest 64 md5_compress
  by unfold_locales simp

interpretation md4: block_digest 64 md4_compress
  by unfold_locales simp

text \<open>As in RFC 1321: the text, a bit, zeros, and the length in bits modulo \<open>2 ^ 64\<close>, the lowest byte first.\<close>

definition rfc_pad :: "byte list \<Rightarrow> byte list" where
  "rfc_pad m = m @ [0x80] @ replicate (nat ((55 - int (length m)) mod 64)) 0 @ STORE64L (of_nat (8 * length m))"

definition rfc_md5 :: "byte list \<Rightarrow> byte list" where
  "rfc_md5 m = concat (map STORE32L (foldl md5_small_compress (md_state md5_init) (blocks 64 (rfc_pad m))))"

definition rfc_md4 :: "byte list \<Rightarrow> byte list" where
  "rfc_md4 m = concat (map STORE32L (foldl md4_compress (md_state md4_init) (blocks 64 (rfc_pad m))))"

lemma zeros_rfc: "nat ((55 - int n) mod 64) = pad_zeros 64 56 56 (n mod 64)"
proof -
  define b where "b = n mod 64"
  have b: "b < 64" by (simp add: b_def)
  have m: "(55 - int n) mod 64 = (55 - int b) mod 64" by (simp add: b_def zmod_int mod_diff_right_eq)
  show ?thesis
  proof (cases "b < 56")
    case True
    then have "(55 - int b) mod 64 = 55 - int b" by (intro mod_pos_pos_trivial) auto
    then show ?thesis using True m by (simp add: pad_zeros_def flip: b_def)
  next
    case False
    have "(55 - int b) mod 64 = (119 - int b) mod 64" using mod_add_self2 [of "55 - int b" 64] by (simp add: algebra_simps)
    also have "\<dots> = 119 - int b" using False b by (intro mod_pos_pos_trivial) auto
    finally show ?thesis using False b m by (simp add: pad_zeros_def flip: b_def)
  qed
qed

lemma md5_blocks:
  "length state = 4 \<Longrightarrow> foldl md5_compress state bs = foldl md5_small_compress state bs \<and> length (foldl md5_small_compress state bs) = 4"
proof (induction bs arbitrary: state)
  case (Cons b bs)
  have "length (md5_compress state b) = 4"
    using conjunct2 [OF md5_fold_rounds [OF Cons.prems, of "md_load b" 64]] Cons.prems
    by (simp add: md5_compress_def md5_ops_tables del: upt_rec_numeral)
  then show ?case using Cons md5_small [OF Cons.prems] by simp
qed simp

lemma md5_rfc: "md5_digest m = Inr (rfc_md5 m)"
  using md5.digest_blocks [of md5_init 56 56 STORE64L m] md5_blocks [of "md_state md5_init"]
  by (auto simp: md5_digest_def md5_process_def md5_done_def md5_init_def Let_def rfc_md5_def rfc_pad_def zeros_rfc)

lemma md4_rfc: "md4_digest m = Inr (rfc_md4 m)"
  using md4.digest_blocks [of md4_init 56 56 STORE64L m]
  by (auto simp: md4_digest_def md4_process_def md4_done_def md4_init_def Let_def rfc_md4_def rfc_pad_def zeros_rfc)

text \<open>MD2, whose state is the checksum and the 48 bytes. The buffer is that of a block.\<close>

definition md2_step :: "byte list \<times> byte list \<Rightarrow> byte list \<Rightarrow> byte list \<times> byte list" where
  "md2_step s b = (let md = md2_update_chksum (md2_compress \<lparr>md2_chksum = fst s, md2_X = snd s, md2_buf = b\<rparr>) in (md2_chksum md, md2_X md))"

interpretation md2: block_digest 16 md2_step
  by unfold_locales simp

definition md2_view :: "md2_state \<Rightarrow> byte list \<times> byte list" where
  "md2_view md = (md2_chksum md, md2_X md)"

lemma md2_block_view: "md2_view (md2_block (md\<lparr>md2_buf := b\<rparr>)) = md2_step (md2_view md) b" "md2_buf (md2_block md) = []"
  by (cases md; simp add: md2_view_def md2_block_def md2_step_def Let_def)+

lemma md2_loop_blocks:
  "length (md2_buf md) < 16 \<Longrightarrow>
   md2_view (md2_loop inp md) = foldl md2_step (md2_view md) (blocks 16 (md2_buf md @ inp)) \<and>
   md2_buf (md2_loop inp md) = left_over 16 (md2_buf md @ inp)"
proof (induction "length inp" arbitrary: inp md rule: less_induct)
  case less
  show ?case
  proof (cases "inp = []")
    case True
    then show ?thesis using less.prems by (simp add: md2_loop.simps [of "[]"] blocks_short)
  next
    case False
    let ?n = "min (length inp) (16 - length (md2_buf md))" let ?b = "md2_buf md @ take ?n inp"
    let ?md = "if length ?b = 16 then md2_block (md\<lparr>md2_buf := ?b\<rparr>) else md\<lparr>md2_buf := ?b\<rparr>"
    have n: "0 < ?n" using False less.prems by simp
    have l: "md2_loop inp md = md2_loop (drop ?n inp) ?md"
      using False less.prems by (subst md2_loop.simps) (simp add: Let_def)
    have "md2_view (md2_loop (drop ?n inp) ?md) = foldl md2_step (md2_view ?md) (blocks 16 (md2_buf ?md @ drop ?n inp)) \<and>
        md2_buf (md2_loop (drop ?n inp) ?md) = left_over 16 (md2_buf ?md @ drop ?n inp)"
      using n False less.prems md2_block_view(2) by (intro less.hyps) auto
    moreover have "foldl md2_step (md2_view ?md) (blocks 16 (md2_buf ?md @ drop ?n inp)) = foldl md2_step (md2_view md) (blocks 16 (?b @ drop ?n inp))
        \<and> left_over 16 (md2_buf ?md @ drop ?n inp) = left_over 16 (?b @ drop ?n inp)"
      using md2_block_view blocks_whole [of ?b 16 "drop ?n inp"] by (simp add: md2_view_def)
    ultimately show ?thesis using l by simp
  qed
qed

text \<open>The bytes that are added say how many they are; then the checksum is a block of its own.\<close>

definition md2_pad :: "byte list \<Rightarrow> byte list" where
  "md2_pad m = (let k = 16 - length m mod 16 in m @ replicate k (of_nat k))"

definition rfc_md2 :: "byte list \<Rightarrow> byte list" where
  "rfc_md2 m = (let s = foldl md2_step (replicate 16 0, replicate 48 0) (blocks 16 (md2_pad m)) in take 16 (snd (md2_step s (fst s))))"

lemma md2_rfc: "md2_digest m = Inr (rfc_md2 m)"
proof -
  let ?md = "md2_loop m md2_init" and ?l = "left_over 16 m"
  let ?p = "?l @ replicate (16 - length ?l) (of_nat (16 - length ?l))"
  have v: "md2_view ?md = foldl md2_step (replicate 16 0, replicate 48 0) (blocks 16 m)" "md2_buf ?md = ?l"
    using md2_loop_blocks [of md2_init m] by (simp_all add: md2_init_def md2_view_def)
  have l: "length ?l < 16" "length ?l = length m mod 16"
    using left_over_length [of 16 m] blocks_size [of 16 m] by simp (metis left_over_length mod_less mod_mult_self4 zero_less_numeral blocks_size)
  have "blocks 16 (md2_pad m) = blocks 16 m @ [?p]"
    using blocks_append [of 16 m "replicate (16 - length ?l) (of_nat (16 - length ?l))"] blocks_one [of ?p 16] l
    by (simp add: md2_pad_def Let_def)
  then have s: "foldl md2_step (replicate 16 0, replicate 48 0) (blocks 16 (md2_pad m)) = md2_step (md2_view ?md) ?p" using v by simp
  have step: "md2_X (md2_compress (x\<lparr>md2_buf := b\<rparr>)) = snd (md2_step (md2_view x) b)"
    "md2_view (md2_update_chksum (md2_compress (x\<lparr>md2_buf := b\<rparr>))) = md2_step (md2_view x) b" for x b
    by (cases x; simp add: md2_step_def md2_view_def Let_def md2_update_chksum_def)+
  have "md2_digest m = md2_done ?md" by (simp add: md2_digest_def md2_process_def md2_init_def)
  also have "\<dots> = Inr (take 16 (snd (md2_step (md2_step (md2_view ?md) ?p) (fst (md2_step (md2_view ?md) ?p)))))"
  proof -
    let ?m = "md2_update_chksum (md2_compress (?md\<lparr>md2_buf := ?p\<rparr>))"
    have "md2_chksum ?m = fst (md2_step (md2_view ?md) ?p)" using step(2) [where x = ?md and b = ?p] by (metis fst_conv md2_view_def)
    then show ?thesis using step(1) [where x = ?m and b = "md2_chksum ?m"] step(2) [where x = ?md and b = ?p] l v(2) by (simp add: md2_done_def Let_def)
  qed
  finally show ?thesis using s by (simp add: rfc_md2_def Let_def)
qed

end
