(* ===== verification/Spec2Isabelle.thy ===== *)
theory Spec2Isabelle
  imports Egg_Bind Scripts Loop Program Script_Lists Blowfish Md5
begin

text \<open>
  A model of Trollbot, an IRC bot in C with the commands of an Eggdrop (\<^verbatim>\<open>src/src\<close>).

  \<^bold>\<open>The program.\<close> \<open>main\<close> reads \<^verbatim>\<open>trollbot.conf\<close> into a tree of blocks (\<open>tconfig.c\<close>), from which
  \<open>config_engine.c\<close> makes the global record with its list of networks. A network (\<open>network.c\<close>) has servers,
  accounts (\<open>user.c\<close>), channels with the users and bans seen there (\<open>channel.c\<close>), sessions of the party line
  (\<open>dcc.c\<close>), timers (\<open>t_timer.c\<close>) and a table of triggers (\<open>irc_trigger.c\<close>). The select loop hands what a
  server sends to \<open>irc_in\<close>, which cuts it into lines; \<open>parse_irc_line\<close> takes a line apart, answers \<open>PING\<close>, and
  calls the handlers of all triggers that match: those of \<open>irc_proto.c\<close> and \<open>troll_lib.c\<close>, or a script's. In
  the same way \<open>dcc_in\<close> cuts what comes from a session into lines, \<open>parse_dcc_line\<close> leads the session through
  the login, and then either a command is called or the line goes to everybody on the party line. Handlers
  and scripts work on the state through \<open>egg_lib.c\<close>. Accounts and channels are stored in files of the same
  format as the configuration; \<open>egg_rehash\<close> reads the configuration again.

  \<^bold>\<open>The theories\<close>, each on those before it:
  \<^item> \<open>Prelude\<close>: C strings (\<open>None\<close> is NULL), the faults a C function runs into, results (\<open>Fault\<close> or \<open>Ok\<close>), and the
    functions of the C library that are used; the rules \<open>all_ok\<close> for properties of results.
  \<^item> \<open>Dlist\<close>: the doubly linked lists. A pointer into a list is the nodes before it and those from it on;
    this is refined by lists of linked nodes in a heap. The locale \<open>keyed_list\<close> has what a list with a lookup
    by a key promises; it is interpreted for channel users, bans, channels and accounts.
  \<^item> \<open>Util\<close> (\<open>util.c\<close>, and the matcher of \<open>troll_lib.c\<close>), \<open>Irc\<close> (\<open>irc.c\<close>), \<open>Tconfig\<close> and \<open>Tconfig_Merge\<close>
    (\<open>tconfig.c\<close>), \<open>Users\<close> (\<open>user.c\<close>), \<open>Channels\<close> (\<open>channel.c\<close>), \<open>Triggers\<close> (\<open>irc_trigger.c\<close>), \<open>Timers\<close>
    (\<open>server.c\<close>, \<open>t_timer.c\<close>, \<open>log_filter.c\<close>).
  \<^item> \<open>Network\<close>: the records \<open>network\<close>, \<open>dcc_session\<close> and \<open>config\<close>, \<open>network.c\<close>, and loading and saving
    of accounts and channels, which need the whole record.
  \<^item> \<open>Troll_Lib\<close> (the handlers of \<open>troll_lib.c\<close>), \<open>Egg_Lib\<close>, \<open>Egg_Chan\<close> and \<open>Egg_Bind\<close> (\<open>egg_lib.c\<close>: users and
    the server; channels, bans, sessions and timers; triggers), \<open>Dcc\<close> and \<open>Dcc_Login\<close> (\<open>dcc.c\<close>), \<open>Irc_Proto\<close>
    (\<open>irc_proto.c\<close>) and \<open>Members\<close> (what its handlers make of the users of a channel), \<open>Config_Engine\<close>
    (\<open>config_engine.c\<close>, and \<open>egg_rehash\<close>).
  \<^item> \<open>Bot\<close> and \<open>Bot_Run\<close>: the handler behind each trigger, and a whole line from its bytes to the new state.
  \<^item> \<open>Ics\<close>, \<open>Ics_Proto\<close> and \<open>Ics_Run\<close> (\<^verbatim>\<open>modules/ics\<close>): the client of a chess server, its records and lists,
    its handlers and the loops that call them, and what a line, a prompt, a board and the end of a game do.
    The locale \<open>walked_list\<close> is what a list promises to a walk that calls handlers on the way; it is
    interpreted for the five lists of triggers.
  \<^item> \<open>Tsocket\<close> (\<open>tsocket.c\<close>) and \<open>Select_Loop\<close> (the part of \<open>irc_loop\<close> in \<open>sockets.c\<close> on the list of sockets):
    a turn of the loop for one socket, with the four callbacks as functions. The locale \<open>tsocket_client\<close> has
    what a client promises; it is interpreted for networks and for chess servers. \<open>Dcc_Loop\<close> is the part of
    the loop on the sessions of the party line. \<open>Loop\<close> puts the parts together: the start of the loop, and whole
    turns with the sockets of all networks, sessions, timers, web servers and XMPP servers on one state.
  \<^item> \<open>Http\<close> and \<open>Xmpp\<close> (\<^verbatim>\<open>modules/http\<close>, \<^verbatim>\<open>modules/xmpp\<close>): the records and lists of the modules, their
    configuration, connections and packets, and their parts of the loop. The library that reads XML is a
    parameter (the record \<open>xml_lib\<close>).
  \<^item> \<open>Hash\<close>, \<open>Sha512\<close>, \<open>Md5\<close> (with MD4 and MD2), \<open>Blowfish\<close> and \<open>Crypto\<close> (\<^verbatim>\<open>modules/crypto\<close>): the digests, the
    block cipher, and what the bot makes of passwords with them. The locale \<open>block_digest\<close> has what a digest
    does with a text that comes in pieces, and with the padding; it is interpreted for the four digests.
  \<^item> \<open>Tconfig_Shape\<close>: the shape of the trees that the parser builds, and that they can be written and read again.
    \<open>Script_Lists\<close>: the arrays of script names that \<open>config_engine.c\<close> fills in builds with script languages.
    \<open>Program\<close>: the start and the end (\<open>main.c\<close>, \<open>die.c\<close>), shared objects (\<open>tmodule.c\<close>, \<open>t_crypto_module.c\<close>), the log
    (\<open>log_entry.c\<close>, \<open>debug.c\<close>), and what is freed with a network.
  \<^item> \<open>Tcl_Lib\<close> (\<open>tcl_lib.c\<close>) and \<open>Tcl_Embed\<close> (\<open>tcl_embed.c\<close>): the commands for scripts in Tcl, the files that are run, and the
    calls of procedures. The interpreter is a parameter; with \<open>tcl_env\<close> it is what \<open>env\<close> says of scripts.
  \<^item> \<open>Js_Lib\<close> (\<open>js_lib.c\<close>, \<open>js_embed.c\<close>), \<open>Php_Lib\<close> (\<open>php_lib.c\<close>, \<open>php_embed.c\<close>) and \<open>Python_Lib\<close> (\<open>python_lib.c\<close>,
    \<open>python_embed.c\<close>): the same for the other languages. \<open>Scripts\<close>: a bot with scripts in all of them. The locale \<open>script_language\<close> has
    what a language does with a word that is bound and with a message that starts with it; it is interpreted for the four.

  \<^bold>\<open>State.\<close> A \<open>struct\<close> is a record with the fields of the code, without those for script languages. A list
  of the code is a \<open>dlist\<close>; a pointer to one of its nodes that the code keeps is the position of the node.
  The static buffers of \<open>irc_in\<close> and \<open>dcc_in\<close> are an argument and a result. What is sent is appended to the
  fields \<open>sent\<close> and \<open>d_out\<close>, what is written to files to a list of writes; files, the clock, connections and
  the address resolver are arguments (the record \<open>env\<close> in \<open>Bot\<close>), and so is what a script does to a network.
  A function pointer in a trigger is a constructor of \<open>handler\<close>, with \<open>Script n\<close> for the procedures of scripts.
  A line goes through \<open>trigger_match\<close>, which says what triggers fire, and then through their handlers
  in turn; that handlers leave the triggers alone, so that the two are the same as the loop of the code, is
  \<open>line_keeps_triggers\<close>.

  \<^bold>\<open>Loops.\<close> Loops over lists and strings are structural recursions. Those through the pointers of a tree or a
  list that the code changes while it walks (\<open>tconfig_r_depth_first_write\<close>, \<open>foreach_loop\<close>, \<open>free_loop\<close>,
  \<open>slist_destroy\<close>, the walks \<open>ics_walk\<close> and \<open>ics_trigger_match\<close> whose handlers may add triggers, the walk
  \<open>dcc_serve\<close> over sessions that are taken out on the way, \<open>http_select\<close>, which may stay at a server, and the
  walks on a heap) are \<open>partial_function (option)\<close>, where \<open>None\<close> is a loop that does not end: the theorems
  about them state that there is a result (\<open>Some\<close>). No definition has fuel.

  \<^bold>\<open>What is shown.\<close> The first section has the way of a message from the line to the state: joining, leaving,
  nicks and modes, and which handlers are called. Then the protocol reader and its buffer, the login on the
  party line as an invariant of all reachable states and as the run of a user who logs in, the configuration
  from its file to the record, and what scripts and a rehash do. The sections after it are on the components:
  the configuration tree (its file format round-trips, the writer is the structural one, freeing visits each
  block once, merging keeps the first value), matching and splitting of strings, lists, users and channels in
  files, the choice of triggers, timers and connections, the modules, and the digests against their standards. The last
  sections are on the program from its start, with the dump from which it can be started again, to its end, on whole turns of the loop,
  and on scripts in Tcl, Javascript, PHP and Python.
  Several theorems state behaviour that is not what the code means to do; they are exact about what it does.

  \<^bold>\<open>Not modelled.\<close> The calls of the log: the callers of \<open>log_entry_printf\<close> pass two arguments that it does not have, so
  that its behaviour is undefined; they are left out, except for what computing their arguments reads
  through NULL. Without log filters a call does nothing (\<open>log_without_filters\<close>). The allocation functions: a value needs
  no allocation, and memory does not run out. The interpreters of the script languages, which are not part of the repository, and
  \<open>libltdl\<close>, a vendored library: the interpreters are arguments of the theories on scripts, and what is used of \<open>libltdl\<close> is one of
  \<open>Program\<close> (the record \<open>ltdl\<close>); the code
  that only sets an interpreter up (contexts, the callbacks of PHP, the module in Python) is left out. The
  system calls of \<open>tsocket.c\<close> are arguments (the record \<open>os\<close> and \<open>fd_event\<close>). Of the loop in \<open>sockets.c\<close>
  the part on \<open>net->sock\<close>, which the record no longer has, is left out, and whole turns are without the sockets of
  chess servers, whose turns are in \<open>Select_Loop\<close>. A command of the party line that takes sessions out of the list while the loop
  walks over it is not followed. A session keeps the position of its account, so that what a session sees of
  an account that \<open>introduce_user\<close> has dropped from the list is not followed; nor is a handler that goes on
  with the old record after \<open>egg_rehash\<close>. Of the digests and the cipher, which come from libtomcrypt, the
  self-tests are left out; the configuration has the hash function as a parameter, which \<open>Crypto\<close> gives as the
  function of the module and \<open>Program\<close> looks up in the shared object.
\<close>

section \<open>Concrete states\<close>

text \<open>A channel with three users, a network with the default triggers, and a bot with that network.\<close>

definition demo_conf :: string where
  "demo_conf = ''network net'' @ [NL] @ ''{'' @ [NL] @ '' nick bot'' @ [NL] @ ''}'' @ [NL]"

definition demo_user :: "string \<Rightarrow> string \<Rightarrow> channel_user" where
  "demo_user n ms = new_channel_user\<lparr>cu_nick := Some n, cu_modes := Some ms\<rparr>"

definition demo_chan :: channel where
  "demo_chan = \<lparr>ch_name = ''#a'', egg_vars = None,
     user_list = dl_of_list [demo_user ''ann'' ''o'', demo_user ''bob'' ''v'', demo_user ''cy'' ''v''],
     chanmode = None, topic = None, banlist = dl_null\<rparr>"

definition demo_net :: network where
  "demo_net = (new_network (Some ''net''))
     \<lparr>nick := Some ''bot'', botnick := Some ''bot'', tsock := Some 3,
      trigs := default_trigs new_trig_table, n_chans := dl_of_list [demo_chan]\<rparr>"

definition demo_bot :: bot where
  "demo_bot = \<lparr>b_cfg = new_config\<lparr>networks := dl_of_list [demo_net]\<rparr>, b_writes = [], b_exited = False\<rparr>"

definition demo_env :: env where
  "demo_env = \<lparr>e_writable = (\<lambda>_. True), e_files = (\<lambda>_. None), e_now = 1000, e_date = ''noon'',
     e_connects = (\<lambda>ip port. Some 7), e_resolve = (\<lambda>_. None), e_listen = 5, e_options = True,
     e_script = (\<lambda>n t data dcc line net. Ok net)\<rparr>"

definition demo_prefix :: "string \<Rightarrow> irc_prefix" where
  "demo_prefix n = \<lparr>servername = None, pnick = Some n, puser = Some ''u'', phost = Some ''h''\<rparr>"

lemma demo_names [simp]:
  "same_name ''#a'' ''#A''" "\<not> same_name ''ann'' ''bob''" "\<not> same_name ''ann'' ''cy''" "\<not> same_name ''bob'' ''cy''"
  "\<not> same_name ''ann'' ''dan''" "\<not> same_name ''bob'' ''dan''" "\<not> same_name ''cy'' ''dan''"
  "\<not> same_name ''ann'' ''eve''" "\<not> same_name ''bob'' ''eve''" "\<not> same_name ''cy'' ''eve''"
  "\<not> same_name ''eve'' ''ann''"
  by code_simp+

lemma demo_at [simp]:
  "net_at 0 demo_bot = demo_net" "has_net 0 demo_bot" "\<not> b_exited demo_bot"
  "nick demo_net = Some ''bot''" "botnick demo_net = Some ''bot''" "tsock demo_net = Some 3"
  "trigs demo_net = default_trigs new_trig_table" "n_chans demo_net = DList [] [demo_chan]"
  "chan_at demo_net 0 = demo_chan" "ch_name demo_chan = ''#a''"
  by (simp_all add: demo_bot_def demo_net_def net_at_def has_net_def chan_at_def demo_chan_def new_config_def
      dl_of_list_def)

lemma demo_users:
  "user_list demo_chan = DList [] [demo_user ''ann'' ''o'', demo_user ''bob'' ''v'', demo_user ''cy'' ''v'']"
  "cu_nick (demo_user n ms) = Some n" "cuser_nick (demo_user n ms) = n" "cu_modes (demo_user n ms) = Some ms"
  by (simp_all add: demo_chan_def demo_user_def dl_of_list_def cuser_nick_def)

lemma demo_ok [simp]: "chan_ok demo_chan"
  by (simp add: chan_ok_def named_users_def cusers.unique_keys_def dl_wf_def demo_users)

lemma demo_prefix_simps [simp]:
  "pnick (demo_prefix n) = Some n" "puser (demo_prefix n) = Some ''u''" "phost (demo_prefix n) = Some ''h''"
  by (simp_all add: demo_prefix_def)

section \<open>Messages, from the line to the state\<close>

text \<open>
  C1: A line \<open>:nick!user@host JOIN :#chan\<close> on a bot with the default triggers ends, without a fault, with
  the user on that channel: the line is parsed, the head of the JOIN triggers matches, and \<open>new_join\<close>
  adds the user once, or finds the one that is there up to case, and gives it the host and the ident; every
  other user is as before, and the users of the channel stay named and distinct.
\<close>
theorem join_reaches_channel:
  assumes "nick (net_at i b) = Some me" and "message_ok me p ''JOIN'' [] [name]" and "pnick p = Some k"
    and "has_net i b" and "\<not> b_exited b" and "reacts_to_join (net_at i b)"
    and "botnick (net_at i b) = Some bn" and "tsock (net_at i b) = Some s"
    and "find_index (\<lambda>c. same_name (ch_name c) name) (dl_all (n_chans (net_at i b))) = Some j"
    and "dl_from (n_chans (net_at i b)) \<noteq> []" and "chan_ok (dl_all (n_chans (net_at i b)) ! j)"
  shows "\<exists>b' c. parse_irc_line env i (message_line p ''JOIN'' [] [name]) b = Some (Ok b') \<and>
    n_chans (net_at i b') = dl_update_all j (\<lambda>_. c) (n_chans (net_at i b)) \<and> chan_ok c \<and>
    ch_name c = ch_name (dl_all (n_chans (net_at i b)) ! j) \<and>
    (\<forall>l. lookup_cuser l (user_list c) =
       (if same_name k l
        then Some (at_join p (case lookup_cuser k (user_list (dl_all (n_chans (net_at i b)) ! j)) of
                                None \<Rightarrow> new_channel_user\<lparr>cu_nick := Some k\<rparr> | Some u \<Rightarrow> u))
        else lookup_cuser l (user_list (dl_all (n_chans (net_at i b)) ! j))))"
  using join_line [OF assms] .

lemma demo_reacts [simp]: "reacts_to_join demo_net"
  using reacts_default [of demo_net] by (simp add: reacts_to_join_def)

theorem join_reaches_channel_witness:
  "\<exists>b' c. parse_irc_line demo_env 0 '':dan!u@h JOIN :#A'' demo_bot = Some (Ok b') \<and>
     n_chans (net_at 0 b') = DList [] [c] \<and> chan_ok c \<and>
     lookup_cuser ''dan'' (user_list c) =
       Some (new_channel_user\<lparr>cu_nick := Some ''dan'', cu_host := Some ''h'', cu_ident := Some ''u''\<rparr>)"
proof -
  have ok: "message_ok ''bot'' (demo_prefix ''dan'') ''JOIN'' [] [''#A'']" by code_simp
  have line: "message_line (demo_prefix ''dan'') ''JOIN'' [] [''#A''] = '':dan!u@h JOIN :#A''" by code_simp
  have none: "lookup_cuser ''dan'' (user_list demo_chan) = None"
    by (simp add: lookup_cuser_def dl_find_def demo_users)
  show ?thesis
    using join_reaches_channel [of 0 demo_bot "''bot''" "demo_prefix ''dan''" "''#A''" "''dan''" "''bot''" 3 0 demo_env]
      ok line none by (auto simp: at_join_def dl_update_all_def)
qed

text \<open>
  A \<open>PART\<close> without a reason and a \<open>QUIT\<close> never reach their handlers: the line is parsed without a
  fault and leaves the whole state as it was, so that the user stays on the channels of the bot.
\<close>
lemma part_and_quit_unnoticed:
  assumes "nick (net_at i b) = Some me" and "message_ok me p cmd params words"
    and "cmd = ''PART'' \<and> words = [] \<or> cmd = ''QUIT''"
  shows "parse_irc_line env i (message_line p cmd params words) b = Some (Ok b)"
  using assms part_unnoticed quit_unnoticed by blast

theorem part_and_quit_unnoticed_witness:
  "parse_irc_line demo_env 0 '':ann!u@h PART #a'' demo_bot = Some (Ok demo_bot) \<and>
   parse_irc_line demo_env 0 '':ann!u@h QUIT :bye'' demo_bot = Some (Ok demo_bot)"
proof -
  have ok: "message_ok ''bot'' (demo_prefix ''ann'') ''PART'' [''#a''] []"
      "message_ok ''bot'' (demo_prefix ''ann'') ''QUIT'' [] [''bye'']" by code_simp+
  have line: "message_line (demo_prefix ''ann'') ''PART'' [''#a''] [] = '':ann!u@h PART #a''"
      "message_line (demo_prefix ''ann'') ''QUIT'' [] [''bye''] = '':ann!u@h QUIT :bye''" by code_simp+
  show ?thesis
    using part_and_quit_unnoticed [OF _ ok(1), of 0 demo_bot demo_env]
      part_and_quit_unnoticed [OF _ ok(2), of 0 demo_bot demo_env] line by simp
qed

text \<open>
  C2: A \<open>PART\<close> that reaches \<open>new_part\<close> takes the user's record out of the channel, and moves the pointer
  of the list to the record before it: the users that joined before that one are still in the list, but no
  search finds them any more.
\<close>
theorem part_hides_users:
  assumes "prefix_of data = Some p" and "pnick p = Some k" and "c_params data = Some (name # ps)"
    and "find_index (\<lambda>c. same_name (ch_name c) name) (dl_from (n_chans net)) = Some i"
    and "chan_ok (chan_at net i)" and "dl_from (user_list (chan_at net i)) = a # xs @ q # u # ys"
    and "cu_nick u = Some k" and "cu_nick a = Some h"
  shows "\<exists>c. new_part net data = Ok (set_chan i c net) \<and> dl_from (user_list c) = q # ys \<and>
    a \<in> set (dl_all (user_list c)) \<and> lookup_cuser h (user_list c) = None"
  using new_part_hides [OF assms] .

theorem part_hides_users_witness:
  "\<exists>c. new_part demo_net (message (demo_prefix ''cy'') ''PART'' [''#A''] [''bye'']) = Ok (set_chan 0 c demo_net) \<and>
     demo_user ''ann'' ''o'' \<in> set (dl_all (user_list c)) \<and> lookup_cuser ''ann'' (user_list c) = None"
  using part_hides_users [where data = "message (demo_prefix ''cy'') ''PART'' [''#A''] [''bye'']" and p = "demo_prefix ''cy''"
      and k = "''cy''" and name = "''#A''" and ps = "[]" and net = demo_net and i = 0 and a = "demo_user ''ann'' ''o''"
      and xs = "[]" and q = "demo_user ''bob'' ''v''" and u = "demo_user ''cy'' ''v''" and ys = "[]" and h = "''ann''"]
  by (auto simp: demo_users opt_list_def)

text \<open>
  C3: A line of the server changes no more than use counts in the trigger table: none of the built-in
  handlers adds, removes or changes a trigger. This is what lets \<open>trigger_match\<close> go on through a list
  while the handlers it calls run.
\<close>
theorem line_keeps_triggers:
  assumes "parse_irc_line env i l b = Some (Ok b')" and "has_net i b" and "built_in (trigs (net_at i b))"
  shows "has_net i b' \<and> table_shape (trigs (net_at i b')) = table_shape (trigs (net_at i b))"
  using parse_irc_line_trigs [OF assms] .

theorem line_keeps_triggers_witness:
  "table_shape (trigs (net_at 0 demo_bot)) = table_shape (default_trigs new_trig_table) \<and>
   (\<exists>b'. parse_irc_line demo_env 0 '':ann!u@h QUIT :bye'' demo_bot = Some (Ok b') \<and> has_net 0 b')"
proof -
  have "message_ok ''bot'' (demo_prefix ''ann'') ''QUIT'' [] [''bye'']" by code_simp
  then have l: "parse_irc_line demo_env 0 (message_line (demo_prefix ''ann'') ''QUIT'' [] [''bye'']) demo_bot = Some (Ok demo_bot)"
    by (intro quit_unnoticed) simp_all
  have line: "message_line (demo_prefix ''ann'') ''QUIT'' [] [''bye''] = '':ann!u@h QUIT :bye''" by code_simp
  show ?thesis
    using line_keeps_triggers [OF l] l built_in_default line by auto
qed

text \<open>
  With the default triggers, a command other than the seven with lists of their own calls exactly the
  handler that \<open>add_default_triggers\<close> registers for it, once, and none if there is none: the numeric
  replies, \<open>NICK\<close> and \<open>MODE\<close> each get to their own handler.
\<close>
lemma numeric_dispatch:
  assumes "command data \<notin> {''PRIVMSG'', ''JOIN'', ''PART'', ''QUIT'', ''TOPIC'', ''KICK'', ''NOTICE''}"
  shows "\<exists>tt' fired. trigger_match b (default_trigs new_trig_table) data = Ok (tt', fired) \<and>
       map t_handler_of fired = (case map_of default_raw (command data) of None \<Rightarrow> [] | Some h \<Rightarrow> [Some h])"
  using raw_calls_default [OF assms] .

theorem numeric_dispatch_witness:
  "\<exists>tt' fired. trigger_match (Some ''bot'') (default_trigs new_trig_table) (message (demo_prefix ''ann'') ''NICK'' [] [''anna'']) = Ok (tt', fired) \<and>
     map t_handler_of fired = [Some Troll_trig_update_nick]"
  using numeric_dispatch [of "message (demo_prefix ''ann'') ''NICK'' [] [''anna'']" "Some ''bot''"]
  by (simp add: default_raw_def)

text \<open>
  Nothing calls \<open>add_default_triggers\<close>, \<open>user_init\<close> or \<open>chan_init\<close>: after \<open>config_engine_init\<close> a
  network has no trigger. The first \<open>JOIN\<close> with a text then reads through the head of the empty list.
\<close>
lemma bare_bot_stops:
  assumes "config_engine_init load_crypto fs f = Ok (Running cfg)" and "b_cfg b = cfg" and "has_net i b"
    and "nick (net_at i b) = Some me" and "message_ok me p ''JOIN'' params (w # ws)"
  shows "parse_irc_line env i (message_line p ''JOIN'' params (w # ws)) b = Some (Fault NullDeref)"
  using bare_bot_faults [OF assms] .

theorem bare_bot_stops_witness:
  "\<exists>cfg. config_engine_init (\<lambda>_. None) ((\<lambda>_. None)(''trollbot.conf'' \<mapsto> demo_conf)) ''trollbot.conf'' = Ok (Running cfg) \<and>
     parse_irc_line demo_env 0 '':ann!u@h JOIN :#a'' \<lparr>b_cfg = cfg, b_writes = [], b_exited = False\<rparr> = Some (Fault NullDeref)"
proof -
  let ?net = "(new_network (Some ''net''))\<lparr>nick := Some ''bot'', botnick := Some ''bot'', n_tcfg := Some 0\<rparr>"
  let ?blocks = "[TB (Some ''network'') (Some ''net'') False [TB (Some ''nick'') (Some ''bot'') True []]]"
  let ?cfg = "new_config\<lparr>networks := DList [] [?net], c_tcfg := ?blocks\<rparr>"
  let ?fs = "(\<lambda>_. None)(''trollbot.conf'' \<mapsto> demo_conf)"
  have blocks: "file_to_tconfig (Some demo_conf) = Ok ?blocks" by code_simp
  have load: "config_engine_load ?blocks = Ok (new_config\<lparr>networks := DList [] [?net]\<rparr>)"
    by (simp add: config_engine_load_def net_setting_def Let_def net_filters_def new_network_def new_config_def dl_add_def)
  have init: "config_engine_init (\<lambda>_. None) ?fs ''trollbot.conf'' = Ok (Running ?cfg)"
    using blocks load by (simp add: config_engine_init_def file_to_tconfig_def new_config_def)
  have ok: "message_ok ''bot'' (demo_prefix ''ann'') ''JOIN'' [] [''#a'']" by code_simp
  have line: "message_line (demo_prefix ''ann'') ''JOIN'' [] [''#a''] = '':ann!u@h JOIN :#a''" by code_simp
  show ?thesis
    using bare_bot_stops [OF init _ _ _ ok, of "\<lparr>b_cfg = ?cfg, b_writes = [], b_exited = False\<rparr>" 0 demo_env] init line
    by (simp add: has_net_def net_at_def)
qed

text \<open>
  C4: When a user changes the nick, the user's record has the new nick on every channel: the record is
  found under the new one and no longer under the old one, everybody else is found as before, and the users
  of every channel stay named and distinct, as long as nobody on a channel has the new nick yet.
\<close>
theorem nick_change_everywhere:
  assumes "\<forall>c \<in> set (dl_from (n_chans net)). chan_ok c \<and> (lookup_cuser new (user_list c) = None \<or> same_name old new)"
    and "prefix_of data = Some p" and "pnick p = Some old" and "rest data = Some (new # ws)"
  shows "\<exists>net'. troll_trig_update_nick net data = Ok net' \<and>
    length (dl_from (n_chans net')) = length (dl_from (n_chans net)) \<and>
    (\<forall>i < length (dl_from (n_chans net)).
       chan_ok (chan_at net' i) \<and> ch_name (chan_at net' i) = ch_name (chan_at net i) \<and>
       (\<forall>l. lookup_cuser l (user_list (chan_at net' i)) =
          (case lookup_cuser old (user_list (chan_at net i)) of
             None \<Rightarrow> lookup_cuser l (user_list (chan_at net i))
           | Some u \<Rightarrow> if same_name new l then Some (u\<lparr>cu_nick := Some new\<rparr>)
                       else if same_name old l then None else lookup_cuser l (user_list (chan_at net i)))))"
  using update_nick_spec [OF assms] .

theorem nick_change_everywhere_witness:
  "\<exists>net'. troll_trig_update_nick demo_net (message (demo_prefix ''ann'') ''NICK'' [] [''eve'']) = Ok net' \<and>
     lookup_cuser ''eve'' (user_list (chan_at net' 0)) = Some (demo_user ''eve'' ''o'') \<and>
     lookup_cuser ''ann'' (user_list (chan_at net' 0)) = None"
proof -
  have l: "lookup_cuser ''eve'' (user_list demo_chan) = None" "lookup_cuser ''ann'' (user_list demo_chan) = Some (demo_user ''ann'' ''o'')"
    by (simp_all add: lookup_cuser_def dl_find_def demo_users)
  have r: "(demo_user ''ann'' ''o'')\<lparr>cu_nick := Some ''eve''\<rparr> = demo_user ''eve'' ''o''" by (simp add: demo_user_def)
  have n: "\<not> same_name ''eve'' ''ann''" by simp
  show ?thesis
    using nick_change_everywhere [of demo_net "''eve''" "''ann''" "message (demo_prefix ''ann'') ''NICK'' [] [''eve'']" "demo_prefix ''ann''" "[]"]
      l r n by (auto simp: opt_list_def)
qed

text \<open>
  C5: What a mode change does is what a script is told afterwards: after \<open>MODE #chan +o nick\<close> (or
  \<open>-o\<close>, \<open>+v\<close>, \<open>-v\<close>) \<open>egg_isop\<close> and \<open>egg_isvoice\<close> answer for that nick what the message said, and for
  everybody else what they answered before.
\<close>
theorem mode_change_is_answered:
  assumes "find_index (\<lambda>c. same_name (ch_name c) name) (dl_from (n_chans net)) = Some i" and "name \<noteq> []"
    and "named_users (user_list (chan_at net i))"
    and "lookup_cuser k (user_list (chan_at net i)) = Some u" and "modes_ok (cu_modes u)"
    and "c = CHR ''o'' \<or> c = CHR ''v''"
    and "c_params data = Some [name, [if adding then CHR ''+'' else CHR ''-'', c], k]"
  shows "\<exists>net'. troll_trig_update_mode now net data = Ok net' \<and>
    with_mode c net' (Some k) (Some name) = Ok (if adding then 1 else 0) \<and>
    (\<forall>e l. \<not> same_name k l \<longrightarrow> with_mode e net' (Some l) (Some name) = with_mode e net (Some l) (Some name))"
  using mode_then_asked [OF assms] .

theorem mode_change_is_answered_witness:
  "\<exists>net'. troll_trig_update_mode 5 demo_net (message (demo_prefix ''ann'') ''MODE'' [''#A'', ''+o'', ''bob''] []) = Ok net' \<and>
     egg_isop net' (Some ''bob'') (Some ''#A'') = Ok 1"
proof -
  have l: "lookup_cuser ''bob'' (user_list demo_chan) = Some (demo_user ''bob'' ''v'')"
    by (simp add: lookup_cuser_def dl_find_def demo_users)
  have n: "named_users (user_list demo_chan)" using demo_ok by (simp only: chan_ok_def)
  show ?thesis
    using mode_change_is_answered [of "''#A''" demo_net 0 "''bob''" "demo_user ''bob'' ''v''" "CHR ''o''"
        "message (demo_prefix ''ann'') ''MODE'' [''#A'', ''+o'', ''bob''] []" True 5]
      l n by (auto simp: opt_list_def demo_users modes_ok_def egg_isop_def)
qed

text \<open>
  When a second mode is given to a user whose mode string has no blank in it, the new letter takes the
  place of the last one: an operator that is given voice is no operator any more, since the buffer is
  made longer with the length of the string as its old size.
\<close>
lemma second_mode_replaces:
  assumes "s \<noteq> []" and "c \<notin> set s" and "SPC \<notin> set s"
  shows "add_mode c (Some s) = Ok (Some (butlast s @ [c]))"
  using add_mode_replaces_last [OF assms] .

theorem second_mode_replaces_witness: "add_mode (CHR ''v'') (Some ''o'') = Ok (Some ''v'')"
  using second_mode_replaces [of "''o''" "CHR ''v''"] by simp

section \<open>The protocol reader\<close>

text \<open>
  C6: A message written in the wire format of RFC 1459 (an optional prefix, a command, its
  parameters, and a text of words after a colon) is read back by \<open>parse_irc_line\<close> as exactly its
  parts: the prefix with nick, user and host or with the server name, the command, the parameters
  with their joined form, and the words of the text with theirs.
\<close>
theorem irc_message_roundtrip:
  assumes "list_all param_ok params" and "list_all text_ok words" and "command_ok cmd"
    and "case pre of None \<Rightarrow> True | Some p \<Rightarrow> prefix_ok me p"
  shows "parse_irc_data (Some me) ((case pre of None \<Rightarrow> [] | Some p \<Rightarrow> show_prefix p) @ show_body cmd params words) =
    Ok \<lparr>prefix_of = pre, command = cmd, c_params = opt_list params, c_params_str = params_str params words,
        rest = opt_list words, rest_str = (if words = [] then None else Some (join_blank words))\<rparr>"
  by (rule parse_show_message [OF assms])

theorem irc_message_roundtrip_witness:
  "parse_irc_data (Some ''bot'') '':joe!j@h PRIVMSG #a :hi all'' =
    Ok \<lparr>prefix_of = Some \<lparr>servername = None, pnick = Some ''joe'', puser = Some ''j'', phost = Some ''h''\<rparr>,
        command = ''PRIVMSG'', c_params = Some [''#a''], c_params_str = Some ''#a '',
        rest = Some [''hi'', ''all''], rest_str = Some ''hi all''\<rparr>"
  using irc_message_roundtrip [of "[''#a'']" "[''hi'', ''all'']" "''PRIVMSG''" "''bot''"
      "Some \<lparr>servername = None, pnick = Some ''joe'', puser = Some ''j'', phost = Some ''h''\<rparr>"]
  by (simp add: param_ok_def text_ok_def command_ok_def prefix_ok_def plain_char_def show_body_def
      opt_list_def params_str_def isspace_c_def next_char_def)

text \<open>
  C7: \<open>parse_irc_line\<close> has no check for the end of the line while it reads the prefix and the
  command: it stays inside the line exactly if the prefix, when there is one, ends in a blank and has
  an \<open>@\<close> after its \<open>!\<close>, and the command is followed by a blank. On every other line it reads past the
  end.
\<close>
theorem irc_line_in_bounds:
  "(\<exists>d. parse_irc_data (Some me) s = Ok d) = line_ok s \<and>
   (\<not> line_ok s \<longrightarrow> parse_irc_data (Some me) s = Fault OutOfBounds)"
  using parse_irc_data_Ok_iff [of me s] parse_irc_data_fault [of s me] by blast

theorem irc_line_in_bounds_witness:
  "parse_irc_data (Some ''bot'') ''QUIT'' = Fault OutOfBounds"
  using irc_line_in_bounds [of "''bot''" "''QUIT''"] by (simp add: line_ok_def)

text \<open>
  C8: Reading a connection in pieces: when every piece that \<open>recv\<close> returns has a line end in it and does
  not start with one, the lines handed to \<open>parse_irc_line\<close> over all the calls of \<open>irc_in\<close> are exactly
  the lines of the whole stream, in order, and what is behind the last line end is kept as the
  fragment. No piece is lost, doubled or cut by the static buffer.
\<close>
theorem irc_in_stream:
  assumes "ib_ok st" and "NL \<notin> set (pending st)"
    and "\<forall>c \<in> set chunks. length c \<le> 1023 \<and> NL \<in> set c \<and> \<not> eol (hd c)"
  shows "\<exists>st'. irc_in_all st chunks = Ok (fst (split_lines (pending st @ concat chunks)), st') \<and>
     ib_ok st' \<and> pending st' = snd (split_lines (pending st @ concat chunks))"
  by (rule irc_in_all_lines [OF assms])

theorem irc_in_stream_witness:
  "\<exists>st'. irc_in_all irc_buf_start [''PING :a'' @ [CR, NL] @ ''PI'', ''NG :b'' @ [NL]] =
     Ok ([''PING :a'', ''PING :b''], st') \<and> pending st' = []"
proof -
  have "ib_ok irc_buf_start" "pending irc_buf_start = []"
    by (simp_all add: irc_buf_start_def ib_ok_def pending_def)
  moreover have "split_lines (''PING :a'' @ [CR, NL] @ ''PING :b'' @ [NL]) = ([''PING :a'', ''PING :b''], [])"
    by (simp add: split_lines.simps first_line_def after_line_def eol_def)
  ultimately show ?thesis
    using irc_in_stream [of irc_buf_start "[''PING :a'' @ [CR, NL] @ ''PI'', ''NG :b'' @ [NL]]"]
    by (auto simp: eol_def simp del: irc_in_all.simps)
qed

text \<open>
  The static \<open>size\<close> of \<open>irc_in\<close> goes stale when the buffer is freed: if the next read has no line
  end and is at least as long as the old \<open>size\<close>, the read after it clears the fragment from byte
  \<open>size - 1\<close> on, so the line that is put together is the cut fragment followed by the new bytes.
\<close>
lemma irc_in_cuts_fragment:
  assumes "ib_buffer st = None" and "NL \<notin> set a" and "ib_size st \<le> length a" and "length a \<le> 1023"
    and "0 < ib_size st"
  shows "\<exists>st'. irc_in st (Received a) = Ok (1, [], st') \<and>
     (\<forall>b. length b \<le> 1023 \<longrightarrow> (\<exists>st''. irc_in st' (Received b) =
        Ok (1, fst (split_lines (take (ib_size st - 1) a @ b)), st'')))"
  by (rule irc_in_stale_size [OF assms])

theorem irc_in_cuts_fragment_witness:
  "\<exists>st' st''. irc_in \<lparr>ib_buffer = None, ib_size = 3\<rparr> (Received ''PRIVMSG'') = Ok (1, [], st') \<and>
     irc_in st' (Received (''X'' @ [NL])) = Ok (1, [''PRX''], st'')"
proof -
  obtain st' where s: "irc_in \<lparr>ib_buffer = None, ib_size = 3\<rparr> (Received ''PRIVMSG'') = Ok (1, [], st')"
      "\<forall>b. length b \<le> 1023 \<longrightarrow> (\<exists>st''. irc_in st' (Received b) = Ok (1, fst (split_lines (''PR'' @ b)), st''))"
    using irc_in_cuts_fragment [of "\<lparr>ib_buffer = None, ib_size = 3\<rparr>" "''PRIVMSG''"] by auto
  have "fst (split_lines (''PR'' @ ''X'' @ [NL])) = [''PRX'']"
    by (simp add: split_lines.simps first_line_def after_line_def eol_def)
  then show ?thesis using s(1) s(2) [rule_format, of "''X'' @ [NL]"] by simp
qed

section \<open>The party line\<close>

text \<open>An account with the flag \<open>p\<close>, and a session that is connected.\<close>

definition demo_account :: user where
  "demo_account = (new_user (Some ''joe'') (Some ''joe'') (Some ''hsecret'') None None None (Some ''p''))
     \<lparr>hash_type := Some ''plain''\<rparr>"

definition demo_config :: config where
  "demo_config = new_config\<lparr>c_hash_type := Some ''plain'', c_crypto := Some (\<lambda>pass ty. map_option ((#) (CHR ''h'')) pass)\<rparr>"

definition demo_session :: "dcc_status \<Rightarrow> nat option \<Rightarrow> dcc_session" where
  "demo_session st u = new_dcc_session\<lparr>d_sock := 9, d_status := st, d_user := u\<rparr>"

definition party_net :: "dcc_status \<Rightarrow> nat option \<Rightarrow> network" where
  "party_net st u = demo_net\<lparr>n_users := dl_of_list [demo_account], n_dccs := dl_of_list [demo_session st u]\<rparr>"

lemma party_simps [simp]:
  "n_users (party_net st u) = DList [] [demo_account]" "dl_from (n_dccs (party_net st u)) = [demo_session st u]"
  "session_at (party_net st u) 0 = demo_session st u" "d_status (demo_session st u) = st" "d_user (demo_session st u) = u"
  "username demo_account = Some ''joe''" "passhash demo_account = Some ''hsecret''"
  "hash_type demo_account = Some ''plain''" "u_flags demo_account = Some ''p''"
  "c_hash_type demo_config = Some ''plain''"
  by (simp_all add: party_net_def dl_of_list_def session_at_def demo_session_def demo_account_def new_user_def demo_config_def)

lemma party_makepasswd [simp]: "egg_makepasswd demo_config (Some w) t = Some (CHR ''h'' # w)"
  by (simp add: egg_makepasswd_def demo_config_def)

lemma party_lists [simp]:
  "dl_head (DList [] us)" "named_accounts [demo_account]"
  "lookup_user ''joe'' (DList [] [demo_account]) = Some demo_account"
  by (simp_all add: dl_head_def named_accounts_def lookup_user_def dl_find_def user_key_def)

text \<open>
  C9: A user with the party-line flag who gives the name and the password gets in: from a connected
  session, the line with the name is followed by the state in which the password is asked for, and the
  line with the password by the authenticated state, with nothing written and no fault on the way.
\<close>
theorem login_succeeds:
  assumes "d_status (session_at net j) = DCC_CONNECTED" and "j < length (dl_from (n_dccs net))"
    and "dl_head (n_users net)" and "named_accounts (dl_from (n_users net))"
    and "distinct (map username (dl_from (n_users net)))"
    and "k < length (dl_from (n_users net))" and "username (dl_from (n_users net) ! k) = Some n"
    and "lookup_user n (n_users net) = Some v" and "u_flags v = Some fl" and "CHR ''p'' \<in> set fl"
    and "passhash (dl_from (n_users net) ! k) = Some h" and "egg_makepasswd cfg (Some pw) (Some t) = Some h"
    and "hash_type (dl_from (n_users net) ! k) = Some t" and "c_hash_type cfg = Some t"
  shows "\<exists>net1 net2. parse_dcc_line cfg writable fs net j n = Some (Ok (Kept net1, [])) \<and>
     parse_dcc_line cfg writable fs net1 j pw = Some (Ok (Kept net2, [])) \<and>
     d_status (session_at net2 j) = DCC_AUTHENTICATED"
  using login_goes_through [OF assms] .

theorem login_succeeds_witness:
  "\<exists>net1 net2. parse_dcc_line demo_config (\<lambda>_. True) (\<lambda>_. None) (party_net DCC_CONNECTED None) 0 ''joe'' = Some (Ok (Kept net1, [])) \<and>
     parse_dcc_line demo_config (\<lambda>_. True) (\<lambda>_. None) net1 0 ''secret'' = Some (Ok (Kept net2, [])) \<and>
     d_status (session_at net2 0) = DCC_AUTHENTICATED"
  by (rule login_succeeds [where k = 0 and v = demo_account and fl = "''p''" and h = "''hsecret''" and t = "''plain''"])
     simp_all

text \<open>
  C10: What the line after the name decides, for accounts with different names and a password of the
  configured hash type: the session is authenticated exactly if the hash of the line is the stored one, or
  if the line is empty or a single \<open>-\<close>, for which \<open>egg_passwdok\<close> only says that there is a password;
  otherwise it is taken out of the list. So nobody needs the password of an account that has one.
\<close>
theorem password_line_decides:
  assumes "d_status (session_at net j) = DCC_HAS_USERNAME" and "j < length (dl_from (n_dccs net))"
    and "dl_head (n_users net)" and "named_accounts (dl_from (n_users net))"
    and "distinct (map username (dl_from (n_users net)))"
    and "d_user (session_at net j) = Some k" and "k < length (dl_from (n_users net))"
    and "passhash (account net j) \<noteq> None"
    and "hash_type (account net j) = Some t" and "c_hash_type cfg = Some t"
  shows "\<exists>res. parse_dcc_line cfg writable fs net j line = Some (Ok (res, [])) \<and>
     (if line = [] \<or> line = ''-'' \<or> egg_makepasswd cfg (Some line) (Some t) = passhash (account net j)
      then \<exists>net'. res = Kept net' \<and> d_status (session_at net' j) = DCC_AUTHENTICATED \<and> n_users net' = n_users net
      else \<exists>d. res = Dropped d (net\<lparr>n_dccs := dcc_list_del (n_dccs net) (Some j)\<rparr>))"
  using password_line [OF assms] .

theorem password_line_decides_witness:
  "(\<exists>net'. parse_dcc_line demo_config (\<lambda>_. True) (\<lambda>_. None) (party_net DCC_HAS_USERNAME (Some 0)) 0 ''-'' =
      Some (Ok (Kept net', [])) \<and> d_status (session_at net' 0) = DCC_AUTHENTICATED)"
proof -
  have a: "account (party_net DCC_HAS_USERNAME (Some 0)) 0 = demo_account" by (simp add: account_def)
  show ?thesis
    using password_line_decides [of "party_net DCC_HAS_USERNAME (Some 0)" 0 0 "''plain''" demo_config "\<lambda>_. True" "\<lambda>_. None" "''-''"]
    by (auto simp: a)
qed

text \<open>
  C11: Whatever is done to the sessions of a network, one step after the other (connections to the
  listener, requests for a chat, turns of the select loop, failed connections, lines, and lines to the
  party line), a session that has got past the name belongs to an account that is in the list: no reading
  of \<open>dcc->user\<close> behind the login goes through NULL.
\<close>
theorem sessions_have_accounts:
  assumes "(dcc_step cfg writable fs)\<^sup>*\<^sup>* net net'" and "dl_all (n_dccs net) = []"
    and "j < length (dl_from (n_dccs net'))" and "DCC_HAS_USERNAME \<le> d_status (session_at net' j)"
  shows "\<exists>k < length (dl_all (n_users net')). d_user (session_at net' j) = Some k"
  using sessions_ok_user [OF reachable_sessions_ok [OF assms(1) sessions_ok_none [OF assms(2)]] assms(3,4)] .

theorem sessions_have_accounts_witness:
  "\<exists>net'. (dcc_step demo_config (\<lambda>_. True) (\<lambda>_. None))\<^sup>*\<^sup>* ((party_net DCC_CONNECTED None)\<lparr>n_dccs := dl_null\<rparr>) net' \<and>
     d_status (session_at net' 0) = DCC_HAS_USERNAME \<and> (\<exists>k < 1. d_user (session_at net' 0) = Some k)"
proof -
  let ?step = "dcc_step demo_config (\<lambda>_. True) (\<lambda>_. None)"
  define net0 where "net0 = (party_net DCC_CONNECTED None)\<lparr>n_dccs := dl_null\<rparr>"
  define net1 where "net1 = new_dcc_connection (Some 9) net0"
  define net2 where "net2 = net1\<lparr>n_dccs := DList (dl_before (n_dccs net1)) (map session_select (dl_from (n_dccs net1)))\<rparr>"
  have 0: "n_users net0 = DList [] [demo_account]" "dl_all (n_dccs net0) = []" by (simp_all add: net0_def)
  have 1: "n_users net1 = DList [] [demo_account]" "dl_before (n_dccs net1) = []" "length (dl_from (n_dccs net1)) = 1"
    "d_status (dl_from (n_dccs net1) ! 0) = DCC_NOTREADY" "d_sock (dl_from (n_dccs net1) ! 0) = 9"
    by (simp_all add: net1_def net0_def new_dcc_connection_def irc_printf_def)
  have 2: "n_users net2 = DList [] [demo_account]" "length (dl_from (n_dccs net2)) = 1"
    "d_status (session_at net2 0) = DCC_CONNECTED"
    using 1 by (simp_all add: net2_def session_at_def session_select_def)
  obtain net3 where 3: "parse_dcc_line demo_config (\<lambda>_. True) (\<lambda>_. None) net2 0 ''joe'' = Some (Ok (Kept net3, []))"
    "d_status (session_at net3 0) = DCC_HAS_USERNAME" "n_users net3 = n_users net2"
    "length (dl_from (n_dccs net3)) = length (dl_from (n_dccs net2))"
    using name_line [of net2 0 0 "''joe''" demo_account "''p''" demo_config "\<lambda>_. True" "\<lambda>_. None"] 2 by auto
  have "?step net0 net1" unfolding net1_def by (rule dcc_step.Accept)
  moreover have "?step net1 net2" unfolding net2_def by (rule dcc_step.Select)
  moreover have "?step net2 net3" using 2(2) 3(1) by (intro dcc_step.Line) simp
  ultimately have r: "?step\<^sup>*\<^sup>* net0 net3" by (meson converse_rtranclp_into_rtranclp rtranclp.rtrancl_refl)
  show ?thesis
    using sessions_have_accounts [OF r 0(2), of 0] r 2 3 by (auto simp: net0_def)
qed

text \<open>
  The identifiers of sessions are not unique: the last session of the list is left out when the
  largest identifier is looked for, so that requests for a chat that all connect get 1, 2, 2, 3, 3, 4, 4 and
  so on, and what a script sends to an identifier goes to the first session that has it.
\<close>
lemma session_ids_repeat:
  assumes "dl_before (n_dccs net) = []" and "map d_id (dl_from (n_dccs net)) = map idx_of [0..<n]"
    and "list_all chat_request rs" and "\<forall>ip p. connects ip p \<noteq> None"
  shows "map d_id (dl_from (n_dccs (initiate_all connects rs net))) = map idx_of [0..<n + length rs]"
  using initiate_all_ids [OF assms] .

theorem session_ids_repeat_witness:
  "map d_id (dl_from (n_dccs (initiate_all (\<lambda>ip p. Some 7)
     (replicate 4 (message (demo_prefix ''joe'') ''PRIVMSG'' [''bot''] [''DCC'', ''CHAT'', ''chat'', ''1'', ''2''])) demo_net))) = [1, 2, 2, 3]"
proof -
  have e: "dl_before (n_dccs demo_net) = []" "map d_id (dl_from (n_dccs demo_net)) = map idx_of [0..<0]"
    by (simp_all add: demo_net_def new_network_def)
  have c: "list_all chat_request (replicate 4 (message (demo_prefix ''joe'') ''PRIVMSG'' [''bot''] [''DCC'', ''CHAT'', ''chat'', ''1'', ''2'']))"
    by (simp add: list_all_iff chat_request_def opt_list_def)
  show ?thesis
    using session_ids_repeat [OF e c, of "\<lambda>ip p. Some 7"] by (simp add: upt_rec idx_of_def)
qed

section \<open>Configuration and scripts\<close>

text \<open>
  C12: What \<open>config_engine_load\<close> makes of the blocks: the networks are those of the \<open>network\<close> blocks, in
  order and with their names, and each starts without triggers, accounts, sessions, timers and socket,
  whatever the settings; no crypto module is loaded yet.
\<close>
theorem configuration_loaded:
  assumes "config_engine_load bs = Ok cfg"
  shows "\<exists>ns. networks cfg = DList [] ns \<and> list_all fresh ns \<and>
    map n_label ns = map tb_value (network_blocks bs) \<and> c_crypto cfg = None"
  using config_engine_load_networks [OF assms] .

theorem configuration_loaded_witness:
  "\<exists>cfg ns. config_engine_load [TB (Some ''network'') (Some ''net'') True [], TB (Some ''network'') (Some ''two'') False []] = Ok cfg \<and>
     networks cfg = DList [] ns \<and> list_all fresh ns \<and> map n_label ns = [Some ''net'', Some ''two'']"
proof -
  obtain cfg where c: "config_engine_load [TB (Some ''network'') (Some ''net'') True [], TB (Some ''network'') (Some ''two'') False []] = Ok cfg"
    by (simp add: config_engine_load_def)
  show ?thesis using configuration_loaded [OF c] c by (auto simp: network_blocks_def)
qed

text \<open>
  For the names and files of a network the first block that has a value counts, and later ones are
  left aside.
\<close>
lemma first_value_counts:
  assumes "load_network bs cfg net = Ok (cfg', net')"
  shows "nick net' = or_else (nick net) (first_value ''nick'' bs) \<and>
    altnick net' = or_else (altnick net) (first_value ''altnick'' bs) \<and>
    n_ident net' = or_else (n_ident net) (first_value ''ident'' bs) \<and>
    n_realname net' = or_else (n_realname net) (first_value ''realname'' bs) \<and>
    userfile net' = or_else (userfile net) (first_value ''userfile'' bs) \<and>
    chanfile net' = or_else (chanfile net) (first_value ''chanfile'' bs)"
  using load_network_first [OF assms] .

theorem first_value_counts_witness:
  "\<exists>c n. load_network [TB (Some ''nick'') (Some ''a'') True [], TB (Some ''nick'') (Some ''b'') False []] new_config (new_network None) = Ok (c, n) \<and>
     nick n = Some ''a''"
proof -
  obtain c n where l: "load_network [TB (Some ''nick'') (Some ''a'') True [], TB (Some ''nick'') (Some ''b'') False []] new_config (new_network None) = Ok (c, n)"
    by (simp add: net_setting_def Let_def)
  show ?thesis using first_value_counts [OF l] l by (simp add: new_network_def)
qed

text \<open>
  \<open>egg_rehash\<close> with one network that is still in the configuration keeps its accounts, channels,
  sessions, triggers and state, but neither the socket nor the crypto module: every line sent to the server
  from then on reads through NULL.
\<close>
lemma rehash_loses_socket:
  assumes "file_to_tconfig (fs ''trollbot.conf'') = Ok tcfg" and "config_engine_load tcfg = Ok new"
    and "networks cfg = DList [] [n]" and "n_label n = Some a"
    and "network_blocks tcfg = [b]" and "tb_value b = Some a'" and "same_name a a'"
  shows "\<exists>cfg' n'. egg_rehash fs cfg = Ok cfg' \<and> networks cfg' = DList [] [n'] \<and> c_crypto cfg' = None \<and>
    n_users n' = n_users n \<and> n_chans n' = n_chans n \<and> n_dccs n' = n_dccs n \<and> trigs n' = trigs n \<and>
    n_status n' = n_status n \<and> tsock n' = None \<and> (\<forall>s. tsocket_printf n' s = Fault NullDeref)"
  using egg_rehash_one [where fs = fs, OF assms] .

theorem rehash_loses_socket_witness:
  "\<exists>cfg' n'. egg_rehash ((\<lambda>_. None)(''trollbot.conf'' \<mapsto> demo_conf)) (b_cfg demo_bot) = Ok cfg' \<and>
     networks cfg' = DList [] [n'] \<and> n_chans n' = DList [] [demo_chan] \<and> tsocket_printf n' ''PING'' = Fault NullDeref"
proof -
  let ?blocks = "[TB (Some ''network'') (Some ''net'') False [TB (Some ''nick'') (Some ''bot'') True []]]"
  have blocks: "file_to_tconfig (((\<lambda>_. None)(''trollbot.conf'' \<mapsto> demo_conf)) ''trollbot.conf'') = Ok ?blocks"
    by simp code_simp
  obtain new where l: "config_engine_load ?blocks = Ok new"
    by (simp add: config_engine_load_def net_setting_def Let_def)
  have d: "networks (b_cfg demo_bot) = DList [] [demo_net]" "n_label demo_net = Some ''net''"
    by (simp_all add: demo_bot_def demo_net_def new_network_def dl_of_list_def)
  show ?thesis
    using rehash_loses_socket [where fs = "(\<lambda>_. None)(''trollbot.conf'' \<mapsto> demo_conf)", OF blocks l d, where a' = "''net''"
        and b = "TB (Some ''network'') (Some ''net'') False [TB (Some ''nick'') (Some ''bot'') True []]"]
    by (auto simp: network_blocks_def)
qed

text \<open>
  A script that binds a \<open>pub\<close> or \<open>msg\<close> command again loses bindings: the old trigger goes, and
  with it all triggers before the one in front of it, which are still in the list but behind its pointer.
\<close>
lemma rebinding_hides:
  assumes "type_named bind_names ty = Some t" and "t = TRIG_PUB \<or> t = TRIG_MSG"
    and "named_trigs (dl_from (tt_get t (trigs net)))"
    and "dl_from (tt_get t (trigs net)) = a @ p # old # b"
    and "\<forall>x \<in> set (a @ [p]). \<not> same_name (the (t_mask x)) m" and "same_name (the (t_mask old)) m"
  shows "\<exists>net'. egg_bind net ty flags (Some m) cmd (Some h) = Ok (Some [cmd], net') \<and>
       dl_from (tt_get t (trigs net')) = p # b @ [new_trigger None t (Some m) cmd (Some h)]"
  using egg_bind_unstackable(2) [OF assms(1-3) refl assms(4-6)] .

theorem rebinding_hides_witness:
  "\<exists>net'. egg_bind demo_net ''msg'' None (Some ''PASS'') (Some ''p'') (Some (Script 1)) = Ok (Some [Some ''p''], net') \<and>
     length (dl_from (tt_msg (trigs demo_net))) = 10 \<and> length (dl_from (tt_msg (trigs net'))) = 5"
proof -
  let ?f = "\<lambda>(m, h). default_trigger TRIG_MSG m h"
  have l: "dl_from (tt_get TRIG_MSG (trigs demo_net)) = map ?f default_msg"
    by (simp add: default_trigs_def add_all_from new_trig_table_def)
  have s: "default_msg = take 5 default_msg @ (default_msg ! 5) # (default_msg ! 6) # drop 7 default_msg" by code_simp
  have ty: "type_named bind_names ''msg'' = Some TRIG_MSG" by code_simp
  have l2: "dl_from (tt_get TRIG_MSG (trigs demo_net)) =
      map ?f (take 5 default_msg) @ ?f (default_msg ! 5) # ?f (default_msg ! 6) # map ?f (drop 7 default_msg)"
    unfolding l by (subst s) simp
  have "\<forall>x \<in> set (take 5 default_msg @ [default_msg ! 5]). \<not> same_name (fst x) ''PASS''" by code_simp
  then have d: "\<forall>x \<in> set (map ?f (take 5 default_msg) @ [?f (default_msg ! 5)]). \<not> same_name (the (t_mask x)) ''PASS''"
    by (auto simp: split_beta)
  have "same_name (fst (default_msg ! 6)) ''PASS''" by code_simp
  then have o: "same_name (the (t_mask (?f (default_msg ! 6)))) ''PASS''" by (simp add: split_beta)
  have n: "named_trigs (dl_from (tt_get TRIG_MSG (trigs demo_net)))" unfolding l by (auto simp: named_trigs_def)
  have len: "length default_msg = 10" by (simp add: default_msg_def)
  have lens: "length (dl_from (tt_msg (trigs demo_net))) = 10" using l len by simp
  obtain net' where net': "egg_bind demo_net ''msg'' None (Some ''PASS'') (Some ''p'') (Some (Script 1)) = Ok (Some [Some ''p''], net')"
    "dl_from (tt_get TRIG_MSG (trigs net')) = ?f (default_msg ! 5) # map ?f (drop 7 default_msg) @
       [new_trigger None TRIG_MSG (Some ''PASS'') (Some ''p'') (Some (Script 1))]"
    using rebinding_hides [OF ty disjI2 [OF refl] n l2 d o, of None "Some ''p''" "Script 1"] by blast
  have "length (dl_from (tt_msg (trigs net'))) = 5" using net'(2) len by simp
  then show ?thesis using net'(1) lens by blast
qed

text \<open>
  \<open>hello\<close> from a user whose name is taken under another nick, or is not taken: the new account
  becomes the next of the one the walk ends at, and the accounts behind that one are lost.
\<close>
lemma introduction_drops_accounts:
  assumes "prefix_of data = Some p" and "pnick p = Some k" and "puser p = Some us" and "phost p = Some ho"
    and "dl_from (n_users net) = xs @ u # ys" and "\<forall>x \<in> set xs. \<exists>n. username x = Some n \<and> n \<noteq> k"
    and "username u = Some k \<or> ys = []" and "u_nick u = Some m" and "m \<noteq> k" and "tsock net = Some s"
  shows "\<exists>net' v. introduce_user cfg net data = Ok net' \<and>
    n_users net' = DList (dl_before (n_users net)) (xs @ [u, v]) \<and> username v = Some k \<and>
    u_nick v = Some k \<and> u_flags v = default_flags net \<and> passhash v = None \<and>
    uhost v = Some (us @ ''!'' @ k @ ''@'' @ ho)"
  using introduce_user_drops [OF assms] .

theorem introduction_drops_accounts_witness:
  "\<exists>net'. introduce_user demo_config
      (demo_net\<lparr>n_users := dl_of_list [demo_account\<lparr>u_nick := Some ''joey''\<rparr>, demo_account\<lparr>username := Some ''kim''\<rparr>]\<rparr>)
      (message (demo_prefix ''joe'') ''PRIVMSG'' [''bot''] [''hello'']) = Ok net' \<and>
     map username (dl_all (n_users net')) = [Some ''joe'', Some ''joe'']"
  using introduction_drops_accounts [where data = "message (demo_prefix ''joe'') ''PRIVMSG'' [''bot''] [''hello'']"
      and p = "demo_prefix ''joe''" and k = "''joe''" and us = "''u''" and ho = "''h''" and xs = "[]"
      and u = "demo_account\<lparr>u_nick := Some ''joey''\<rparr>" and ys = "[demo_account\<lparr>username := Some ''kim''\<rparr>]"
      and m = "''joey''" and s = 3 and cfg = demo_config
      and net = "demo_net\<lparr>n_users := dl_of_list [demo_account\<lparr>u_nick := Some ''joey''\<rparr>, demo_account\<lparr>username := Some ''kim''\<rparr>]\<rparr>"]
  by (auto simp: dl_of_list_def)

section \<open>The configuration tree\<close>

text \<open>
  C13: A configuration tree that can be stored (keys and values without line ends and quotes, no empty
  level, no pair twice on a level, parent links on the first block of a level) is read back from the
  text \<open>tconfig_to_file\<close> writes as exactly the same tree.
\<close>
theorem tconfig_file_roundtrip:
  assumes "storable False bs" and "bs \<noteq> []"
  shows "\<exists>s. tconfig_to_file bs True = Some (Ok (Some s)) \<and> file_to_tconfig (Some s) = Ok bs"
  by (rule tconfig_roundtrip [OF assms])

theorem tconfig_file_roundtrip_witness:
  "\<exists>s. tconfig_to_file [TB (Some ''user'') (Some ''joe'') False [TB (Some ''flags'') (Some ''o n'') True []]] True =
         Some (Ok (Some s)) \<and>
       file_to_tconfig (Some s) =
         Ok [TB (Some ''user'') (Some ''joe'') False [TB (Some ''flags'') (Some ''o n'') True []]]"
  by (rule tconfig_file_roundtrip) (simp_all add: key_ok_def value_ok_def quoted_char_def)

text \<open>
  The writer, a loop over \<open>next\<close>, \<open>child\<close> and \<open>parent\<close> with a depth counter, always ends on a tree
  whose levels are linked to their parents, and writes exactly what the recursion over the tree
  gives: every block with its children indented between braces. It faults only where a key or a value
  is NULL.
\<close>
lemma tconfig_writer_structural:
  assumes "list_all linked bs" and "bs \<noteq> []"
  shows "tconfig_r_depth_first_write 0 [] (tz_of_list bs []) = Some (write_blocks 0 bs)"
  by (rule writer_structural [OF assms])

theorem tconfig_writer_structural_witness:
  "tconfig_r_depth_first_write 0 []
     (tz_of_list [TB (Some ''a'') (Some ''b'') False [TB (Some ''c'') None True []]] []) = Some (Fault NullDeref)"
  using tconfig_writer_structural [of "[TB (Some ''a'') (Some ''b'') False [TB (Some ''c'') None True []]]"]
  by (simp add: write_line_def)

text \<open>
  The depth-first traversal calls the callback on every block in preorder with its depth until the
  callback says stop. When it gets through and the last block of the top level has children it
  returns; when that block is a leaf it runs off the start of the list into a NULL pointer.
\<close>
lemma tconfig_traversal_preorder:
  assumes "list_all linked bs" and "bs \<noteq> []" and "list_all (\<lambda>b. \<not> tb_parent b) bs"
  shows "tconfig_foreach_depth_first bs cback s =
     (case fold_until (\<lambda>(b, d). cback b d) (preorder 0 bs) s of
        (r, s') \<Rightarrow> Some (if r \<and> tb_child (last bs) = [] then Fault NullDeref else Ok s'))"
  by (rule foreach_depth_first_spec [OF assms])

theorem tconfig_traversal_preorder_witness:
  "tconfig_foreach_depth_first [TB (Some ''a'') None False [TB (Some ''b'') None True []]]
     (\<lambda>b d s. (True, s @ [(tb_key b, d)])) [] = Some (Ok [(Some ''a'', 0), (Some ''b'', 1)]) \<and>
   tconfig_foreach_depth_first [TB (Some ''a'') None False []] (\<lambda>b d (s :: unit). (True, s)) () =
     Some (Fault NullDeref)"
  using tconfig_traversal_preorder [of "[TB (Some ''a'') None False [TB (Some ''b'') None True []]]"
      "\<lambda>b d s. (True, s @ [(tb_key b, d)])" "[]"]
    tconfig_traversal_preorder [of "[TB (Some ''a'') None False []]" "\<lambda>b d (s :: unit). (True, s)" "()"]
  by simp

text \<open>
  \<open>free_tconfig\<close> ends and frees every block of a linked tree exactly once: the blocks freed are
  the blocks of the tree, as a multiset.
\<close>
lemma free_tconfig_once:
  assumes "linked1 False bs"
  shows "\<exists>freed. free_tconfig bs = Some freed \<and> mset freed = mset (map pair_of (all_blocks bs))"
  by (rule free_tconfig_all [OF assms])

theorem free_tconfig_once_witness:
  "\<exists>freed. free_tconfig [TB (Some ''a'') None False [TB (Some ''b'') None True []]] = Some freed \<and>
     mset freed = {#(Some ''a'', None), (Some ''b'', None)#}"
  using free_tconfig_once [of "[TB (Some ''a'') None False [TB (Some ''b'') None True []]]"] by simp

text \<open>
  C14: Merging flat defaults into a flat level never changes or moves an entry that is there: the old
  level is a prefix of the new one, and looking up a key gives the old value if there was one, and
  the first default with that key (after dropping a leading \<open>@\<close>) otherwise.
\<close>
theorem tconfig_merge_defaults:
  assumes "list_all is_leaf src" and "src \<noteq> []" and "keyed dst" and "dst \<noteq> []"
  shows "\<exists>t. tconfig_merge src (tz_of_list dst []) = Ok (Some t) \<and> prefix dst t \<and>
     (\<forall>k. search_key k t =
        (case find (\<lambda>b. tb_key b = Some k) dst of
           Some b \<Rightarrow> Ok (tb_value b)
         | None \<Rightarrow> Ok (case find (\<lambda>b. plain_key (the (tb_key b)) = k) src of
                          None \<Rightarrow> None | Some b \<Rightarrow> tb_value b)))"
  by (rule merge_defaults [OF assms])

theorem tconfig_merge_defaults_witness:
  "\<exists>t. tconfig_merge [TB (Some ''a'') (Some ''1'') False [], TB (Some ''@b'') (Some ''2'') False []]
         (tz_of_list [TB (Some ''a'') (Some ''0'') False []] []) = Ok (Some t) \<and>
       search_key ''a'' t = Ok (Some ''0'') \<and> search_key ''b'' t = Ok (Some ''2'')"
proof -
  obtain t where t: "tconfig_merge [TB (Some ''a'') (Some ''1'') False [], TB (Some ''@b'') (Some ''2'') False []]
         (tz_of_list [TB (Some ''a'') (Some ''0'') False []] []) = Ok (Some t)"
      and look: "\<forall>k. search_key k t =
        (case find (\<lambda>b. tb_key b = Some k) [TB (Some ''a'') (Some ''0'') False []] of
           Some b \<Rightarrow> Ok (tb_value b)
         | None \<Rightarrow> Ok (case find (\<lambda>b. plain_key (the (tb_key b)) = k)
                          [TB (Some ''a'') (Some ''1'') False [], TB (Some ''@b'') (Some ''2'') False []] of
                          None \<Rightarrow> None | Some b \<Rightarrow> tb_value b))"
    using tconfig_merge_defaults [of "[TB (Some ''a'') (Some ''1'') False [], TB (Some ''@b'') (Some ''2'') False []]"
        "[TB (Some ''a'') (Some ''0'') False []]"] by (auto simp: is_leaf_def keyed_def)
  have "search_key ''a'' t = Ok (Some ''0'')" "search_key ''b'' t = Ok (Some ''2'')"
    using look [rule_format, of "''a''"] look [rule_format, of "''b''"] by (simp_all add: plain_key_def next_char_def)
  then show ?thesis using t by blast
qed

section \<open>Matching, words and strings\<close>



text \<open>
  \<open>matchwilds\<close>, the matcher that goes back to the last wildcard, never answers 0 on a text the mask
  does not stand for.
\<close>
lemma matchwilds_sound:
  assumes "matchwilds (Some h) (Some n) = 0"
  shows "wmatch (mask_tokens n) h"
  using matchwilds_loop_sound [of n h False None] assms by (simp add: matchwilds_def matchwilds_inv_def)

theorem matchwilds_sound_witness:
  "wmatch (mask_tokens ''*!*b@h'') ''a!ab@h''"
  by (rule matchwilds_sound) code_simp

text \<open>
  \<open>tssv_split\<close> cuts a line of words separated by blanks into exactly those words.
\<close>
lemma tssv_split_words:
  assumes "list_all word_ok ws" and "ws \<noteq> []"
  shows "tssv_split (join_blank ws) = Some ws"
  by (rule tssv_split_join [OF assms])

theorem tssv_split_words_witness:
  "tssv_split ''op joe 12'' = Some [''op'', ''joe'', ''12'']"
  using tssv_split_words [of "[''op'', ''joe'', ''12'']"] by (simp add: word_ok_def blank_def)

text \<open>
  A comparison with \<open>tstrncasecmp\<close> is not a comparison of prefixes: it answers 0 exactly when the
  whole strings agree up to case and are not longer than the bound (or are empty).
\<close>
lemma tstrncasecmp_whole_strings:
  "(tstrncasecmp a b n = 0) = (lower a = lower b \<and> (a = [] \<or> int (length a) \<le> n))"
  by (rule tstrncasecmp_0_iff)

section \<open>Lists of records\<close>

text \<open>
  The insertion every list of the program uses (users, channel users, bans, triggers, sessions,
  servers): on a heap whose nodes are a well-linked list, it ends, does not fault, and leaves a
  well-linked list with the new node last, and the head pointer where it was.
\<close>
lemma list_add_refines:
  assumes "represents h p d" and "a \<notin> fst ` set (dl_all d)"
    and "h a = Some \<lparr>hn_data = x, hn_prev = None, hn_next = None\<rparr>"
  shows "\<exists>h' p'. heap_list_add h p a = Some (Ok (h', p')) \<and> represents h' p' (dl_add d (a, x))"
  by (rule heap_list_add_refines [OF assms])

theorem list_add_refines_witness:
  "\<exists>h' p'. heap_list_add [1 \<mapsto> \<lparr>hn_data = ''u'', hn_prev = None, hn_next = None\<rparr>] None 1 = Some (Ok (h', p')) \<and>
     represents h' p' (DList [] [(1, ''u'')])"
  using list_add_refines [of "[1 \<mapsto> \<lparr>hn_data = ''u'', hn_prev = None, hn_next = None\<rparr>]" None dl_null 1 "''u''"]
  by (simp add: represents_def dl_all_def dl_add_def dl_wf_def)

text \<open>
  C16: The deletion every list of the program uses: it ends, does not fault, and leaves a well-linked
  list of the other nodes. What it returns is a pointer to the node before the deleted one (or to the
  next one for the first node), so that a caller who stores it as the head loses sight of the nodes
  before it. A pointer that is not in the list deletes nothing.
\<close>
theorem list_del_refines:
  assumes "represents h p d"
  shows "(\<forall>i < length (dl_from d). \<exists>h' p'.
            heap_list_del h p (Some (fst (dl_from d ! i))) = Some (Ok (h', p')) \<and>
            represents h' p' (dl_del d (Some i))) \<and>
         (\<forall>a. a \<notin> fst ` set (dl_from d) \<longrightarrow> heap_list_del h p (Some a) = Some (Ok (h, p))) \<and>
         heap_list_del h p None = Some (Ok (h, p))"
  using heap_list_del_refines [OF assms] heap_list_del_missing [OF assms, of "Some _"]
    heap_list_del_missing [OF assms, of None] by simp

theorem list_del_refines_witness:
  "\<exists>h' p'. heap_list_del [1 \<mapsto> \<lparr>hn_data = ''u'', hn_prev = None, hn_next = Some 2\<rparr>,
                         2 \<mapsto> \<lparr>hn_data = ''v'', hn_prev = Some 1, hn_next = None\<rparr>] (Some 1) (Some 2) = Some (Ok (h', p')) \<and>
     represents h' p' (DList [] [(1, ''u'')])"
  using list_del_refines [of "[1 \<mapsto> \<lparr>hn_data = ''u'', hn_prev = None, hn_next = Some 2\<rparr>,
                         2 \<mapsto> \<lparr>hn_data = ''v'', hn_prev = Some 1, hn_next = None\<rparr>]" "Some 1"
       "DList [] [(1, ''u''), (2, ''v'')]", THEN conjunct1, rule_format, of 1]
  by (simp add: represents_def dl_wf_def dl_del_def)

text \<open>
  \<open>slist_destroy\<close> ends and hands every element of a list whose \<open>size\<close> counts its nodes to the
  destroy function, in order, and leaves it empty; when \<open>size\<close> is larger (as after \<open>slist_remove\<close>,
  which does not decrement it) it goes on past the last node.
\<close>
lemma slist_destroy_each:
  "(wf_slist l \<longrightarrow> (\<exists>l'. slist_destroy l = Some (Ok (map snd (sl_nodes l), l')) \<and> sl_nodes l' = [] \<and> sl_size l' = 0)) \<and>
   (sl_size l > int (length (sl_nodes l)) \<longrightarrow> slist_destroy l = Some (Fault NullDeref))"
  using slist_destroy_all [of l] slist_destroy_oversized [of l] by blast

theorem slist_destroy_each_witness:
  "\<exists>l'. slist_destroy \<lparr>sl_size = 1, sl_nodes = [(7, ''s'')], sl_tail = Some 7, sl_destroy = True\<rparr> =
      Some (Ok ([''s''], l')) \<and> sl_nodes l' = [] \<and> sl_size l' = 0"
  using slist_destroy_each [of "\<lparr>sl_size = 1, sl_nodes = [(7, ''s'')], sl_tail = Some 7, sl_destroy = True\<rparr>"]
  by (simp add: wf_slist_def)

section \<open>Users and channels\<close>

text \<open>
  C17: Saving and loading the users: for users with distinct names and storable fields (each with
  flags), the file that \<open>users_to_tconfig\<close> and \<open>tconfig_to_file\<close> write is read back by
  \<open>file_to_tconfig\<close> and \<open>user_init\<close>'s loop as the same users in the same order, with the fields that
  are saved and only those.
\<close>
theorem userfile_roundtrip:
  assumes "list_all user_ok us" and "distinct (map username us)" and "us \<noteq> []"
  shows "\<exists>out blocks users.
     tconfig_to_file (users_to_tconfig (dl_of_list us)) True = Some (Ok (Some out)) \<and>
     file_to_tconfig (Some out) = Ok blocks \<and>
     load_users blocks dl_null = Ok users \<and> dl_head users \<and> dl_from users = map saved_user us"
  by (rule users_file_roundtrip [OF assms])

theorem userfile_roundtrip_witness:
  "\<exists>out blocks users.
     tconfig_to_file (users_to_tconfig (dl_of_list [new_user (Some ''joe'') None (Some ''a b'') None None None (Some ''no'')])) True =
       Some (Ok (Some out)) \<and>
     file_to_tconfig (Some out) = Ok blocks \<and> load_users blocks dl_null = Ok users"
  using userfile_roundtrip [of "[new_user (Some ''joe'') None (Some ''a b'') None None None (Some ''no'')]"]
  by (fastforce simp: user_ok_def new_user_def user_fields_def key_ok_def value_ok_def quoted_char_def)

text \<open>
  A user without flags cannot be saved or loaded: the block that \<open>users_to_tconfig\<close> makes ends in
  an empty block, on which the writer and the loader both read a NULL key.
\<close>
lemma flagless_user_faults:
  assumes "u_flags u = None" and "uhost u \<noteq> None"
  shows "new_user_from_tconfig_block (Some (user_block u)) = Fault NullDeref \<and>
    write_blocks d (tb_child (user_block u)) = Fault NullDeref"
  using load_flagless_user [OF assms(1)] assms write_field_level_no_flags
  by (simp add: user_block_def)

theorem flagless_user_faults_witness:
  "new_user_from_tconfig_block (Some (user_block ((new_user (Some ''joe'') None None None None None None)\<lparr>uhost := Some ''*''\<rparr>))) =
     Fault NullDeref"
  using flagless_user_faults [of "(new_user (Some ''joe'') None None None None None None)\<lparr>uhost := Some ''*''\<rparr>"]
  by (simp add: new_user_def)

text \<open>
  C18: After the names reply 353 for a channel, the channel's users are the ones of before and the ones
  named, each at most once up to case, and the modes of every nick named are those of its last
  mention; no other user changes.
\<close>
theorem names_reply_populates:
  assumes "dl_head chans" and "dl_from chans \<noteq> []" and "\<forall>c \<in> set (dl_from chans). chan_ok c"
    and "c_params data = Some ps" and "2 < length ps" and "rest data = Some ws"
  shows "\<exists>chans' c. channel_list_populate chans data = Ok chans' \<and> dl_head chans' \<and>
     lookup_channel (ps ! 2) chans' = Some c \<and> chan_ok c \<and>
     (\<forall>l. map_option cu_modes (lookup_cuser l (user_list c)) =
        (case find (\<lambda>w. same_name (symbol_nick w) l) (rev ws) of
           Some w \<Rightarrow> Some (modes_field (symbol_modes w))
         | None \<Rightarrow> Option.bind (lookup_channel (ps ! 2) chans)
                     (\<lambda>c0. map_option cu_modes (lookup_cuser l (user_list c0)))))"
  by (rule channel_list_populate_spec [OF assms])

theorem names_reply_populates_witness:
  "\<exists>chans' c. channel_list_populate (dl_of_list [the (new_channel (Some ''#a''))])
       \<lparr>prefix_of = None, command = ''353'', c_params = Some [''bot'', ''='', ''#a''], c_params_str = None,
        rest = Some [''@joe'', ''ann''], rest_str = None\<rparr> = Ok chans' \<and>
     lookup_channel ''#a'' chans' = Some c \<and>
     map_option cu_modes (lookup_cuser ''JOE'' (user_list c)) = Some (modes_field (symbol_modes ''@joe''))"
proof -
  obtain chans' c where c: "channel_list_populate (dl_of_list [the (new_channel (Some ''#a''))])
       \<lparr>prefix_of = None, command = ''353'', c_params = Some [''bot'', ''='', ''#a''], c_params_str = None,
        rest = Some [''@joe'', ''ann''], rest_str = None\<rparr> = Ok chans'"
      "lookup_channel ''#a'' chans' = Some c"
      and modes: "\<forall>l. map_option cu_modes (lookup_cuser l (user_list c)) =
        (case find (\<lambda>w. same_name (symbol_nick w) l) (rev [''@joe'', ''ann'']) of
           Some w \<Rightarrow> Some (modes_field (symbol_modes w))
         | None \<Rightarrow> Option.bind (lookup_channel ''#a'' (dl_of_list [the (new_channel (Some ''#a''))]))
                     (\<lambda>c0. map_option cu_modes (lookup_cuser l (user_list c0))))"
    using names_reply_populates [of "dl_of_list [the (new_channel (Some ''#a''))]"
       "\<lparr>prefix_of = None, command = ''353'', c_params = Some [''bot'', ''='', ''#a''], c_params_str = None,
        rest = Some [''@joe'', ''ann''], rest_str = None\<rparr>" "[''bot'', ''='', ''#a'']" "[''@joe'', ''ann'']"]
    by (auto simp: new_channel_def chan_ok_empty dl_head_def)
  have "find (\<lambda>w. same_name (symbol_nick w) ''JOE'') (rev [''@joe'', ''ann'']) = Some ''@joe''"
    by code_simp
  then show ?thesis using c modes [rule_format, of "''JOE''"] by auto
qed

text \<open>
  Loading the channel file never puts two channels with the same name (up to case) into a network
  that has none.
\<close>
lemma channels_loaded_once:
  assumes "load_chans bs chans = Ok chans'" and "chans.unique_keys chans"
  shows "chans.unique_keys chans'"
  by (rule load_chans_unique [OF assms])

theorem channels_loaded_once_witness:
  "\<exists>chans'. load_chans [TB (Some ''channel'') (Some ''#a'') False [TB (Some ''k'') (Some ''v'') True []]] dl_null = Ok chans' \<and>
     chans.unique_keys chans'"
proof -
  obtain chans' where l: "load_chans [TB (Some ''channel'') (Some ''#a'') False [TB (Some ''k'') (Some ''v'') True []]] dl_null = Ok chans'"
    by (simp add: new_chan_from_tconfig_block_def new_channel_def)
  moreover have "chans.unique_keys dl_null" by (simp add: chans.unique_keys_def)
  ultimately show ?thesis using channels_loaded_once [OF l] by blast
qed



text \<open>
  \<open>join_channels\<close> sends one JOIN for all the channels when their names and commas fit its buffer;
  the check it makes counts the names only, so that enough short names write past the buffer.
\<close>
lemma join_channels_buffer:
  assumes "dl_from chans \<noteq> []"
  shows "(sum_list (map (\<lambda>c. length (ch_name c) + 1) (dl_from chans)) \<le> 1016 \<longrightarrow>
      join_channels chans = Ok (Some (''JOIN '' @ join_comma (map ch_name (dl_from chans)) @ [NL]))) \<and>
    (5 + sum_list (map (length \<circ> ch_name) (dl_from chans)) \<le> 1021 \<and>
     sum_list (map (\<lambda>c. length (ch_name c) + 1) (dl_from chans)) \<ge> 1024 \<longrightarrow>
      join_channels chans = Fault OutOfBounds)"
  using join_channels_sends [OF assms] join_channels_overflow [of chans] by blast

theorem join_channels_buffer_witness:
  "join_channels (dl_of_list [the (new_channel (Some ''#a'')), the (new_channel (Some ''#b''))]) = Ok (Some (''JOIN #a,#b'' @ [NL]))"
  using join_channels_buffer [of "dl_of_list [the (new_channel (Some ''#a'')), the (new_channel (Some ''#b''))]"]
  by (simp add: new_channel_def)

section \<open>Triggers, timers and filters\<close>



text \<open>
  Of the PUB triggers exactly the first one whose mask is a prefix of the text of a channel message
  is called, whatever comes after it in the list.
\<close>
lemma pub_first_match_only:
  assumes "command data = ''PRIVMSG''" and "c_params data = Some (target # ps)" and "bn = Some me"
    and "lower target \<noteq> lower me" and "rest data = Some ws" and "ws \<noteq> []" and "rest_str data = Some s"
    and "dl_from (tt_pubm tt) = []"
    and "\<forall>t \<in> set (dl_from (tt_pub tt)). t_mask t \<noteq> None \<and> t_handler_of t \<noteq> None"
  shows "\<exists>tt'. trigger_match bn tt data =
    Ok (tt', map bump (case find (\<lambda>t. prefix (the (t_mask t)) s) (dl_from (tt_pub tt)) of
                         None \<Rightarrow> [] | Some t \<Rightarrow> [t]))"
  by (rule pub_not_stackable [OF assms(2-8) assms(1,9)])

theorem pub_first_match_only_witness:
  "\<exists>tt'. trigger_match (Some ''bot'')
     (new_trig_table\<lparr>tt_pub := dl_of_list [new_trigger None TRIG_PUB (Some ''!o'') None (Some Do_join_channels),
                                       new_trigger None TRIG_PUB (Some ''!op'') None (Some Do_join_channels)]\<rparr>)
     \<lparr>prefix_of = None, command = ''PRIVMSG'', c_params = Some [''#a''], c_params_str = None,
      rest = Some [''!op''], rest_str = Some ''!op''\<rparr> =
     Ok (tt', [bump (new_trigger None TRIG_PUB (Some ''!o'') None (Some Do_join_channels))])"
  using pub_first_match_only [of "\<lparr>prefix_of = None, command = ''PRIVMSG'', c_params = Some [''#a''], c_params_str = None,
      rest = Some [''!op''], rest_str = Some ''!op''\<rparr>" "''#a''" "[]" "Some ''bot''" "''bot''" "[''!op'']" "''!op''"
      "new_trig_table\<lparr>tt_pub := dl_of_list [new_trigger None TRIG_PUB (Some ''!o'') None (Some Do_join_channels),
                                       new_trigger None TRIG_PUB (Some ''!op'') None (Some Do_join_channels)]\<rparr>"]
  by (simp add: new_trigger_def new_trig_table_def tolower_c_def)

text \<open>
  A timer list is walked without a fault as long as nothing is due; one due timer that is not the
  first is called once and its deletion makes the rest of the walk read what \<open>t_timer_remove\<close> gives
  back, so the timers before it are lost; a due first timer is read after it is freed.
\<close>
lemma timers_check:
  "((\<forall>t \<in> set ts. now < time_trig t) \<longrightarrow> t_timers_check ts now = Ok ([], ts)) \<and>
   (time_trig t \<le> now \<longrightarrow> t_timers_check (t # ts) now = Fault UseAfterFree) \<and>
   (time_trig t \<le> now \<and> a \<noteq> [] \<and> (\<forall>x \<in> set a. now < time_trig x) \<and> (\<forall>x \<in> set b. now < time_trig x) \<longrightarrow>
      t_timers_check (a @ t # b) now = Ok (if t_handler t \<noteq> None then [t] else [], t # b))"
  using t_timers_check_idle [of ts now] t_timers_check_head_due [of t now ts]
    t_timers_check_one_due [of t now a b] by blast

theorem timers_check_witness:
  "t_timers_check [t_timer_new\<lparr>time_trig := 9\<rparr>] 5 = Ok ([], [t_timer_new\<lparr>time_trig := 9\<rparr>]) \<and>
   t_timers_check [t_timer_new\<lparr>time_trig := 3\<rparr>] 5 = Fault UseAfterFree \<and>
   t_timers_check [t_timer_new\<lparr>time_trig := 9\<rparr>, t_timer_new\<lparr>time_trig := 3\<rparr>] 5 = Ok ([], [t_timer_new\<lparr>time_trig := 3\<rparr>])"
  using timers_check [of "[t_timer_new\<lparr>time_trig := 9\<rparr>]" 5 "t_timer_new\<lparr>time_trig := 3\<rparr>" "[t_timer_new\<lparr>time_trig := 9\<rparr>]" "[]"]
    timers_check [of "[]" 5 "t_timer_new\<lparr>time_trig := 3\<rparr>" "[t_timer_new\<lparr>time_trig := 9\<rparr>]" "[]"]
  by (simp add: t_timer_new_def)

text \<open>
  A log line goes to exactly the filters that have a handler and whose flags contain all the flags
  of the line, in the order of the list.
\<close>
lemma log_filters_selected:
  "log_filters_check filters flags =
     filter (\<lambda>f. lf_handler f \<noteq> None \<and> lf_flags f \<noteq> None \<and> flags \<noteq> None \<and>
                 set (the flags) \<subseteq> set (the (lf_flags f))) filters"
  by (rule log_filters_check_spec)

text \<open>
  A server given as \<open>host:port\<close> is read as that host and port, and one without a port gets 6667.
\<close>
lemma server_host_port:
  assumes "CHR '':'' \<notin> set h"
  shows "(n < 2 ^ 31 \<longrightarrow> new_server (Some (h @ CHR '':'' # show_nat n)) = \<lparr>sv_host = Some h, sv_port = int n\<rparr>) \<and>
    new_server (Some h) = \<lparr>sv_host = Some h, sv_port = 6667\<rparr>"
  using new_server_host_port [OF assms] new_server_host [OF assms] by blast

theorem server_host_port_witness:
  "new_server (Some (''irc.a'' @ CHR '':'' # show_nat 7000)) = \<lparr>sv_host = Some ''irc.a'', sv_port = 7000\<rparr>"
  using server_host_port [of "''irc.a''" 7000] by simp

text \<open>
  Saving the users of all networks writes, for a network with a user file and storable users,
  exactly one file, from which the users are loaded back.
\<close>
lemma users_save_load:
  assumes "dl_head (networks cfg)" and "dl_from (networks cfg) = [n]" and "userfile n = Some f" and "writable f"
    and "n_users n = dl_of_list us" and "list_all user_ok us" and "distinct (map username us)" and "us \<noteq> []"
  shows "\<exists>s. users_save cfg writable None = Some (Ok [(f, s)]) \<and>
     (\<exists>blocks users. file_to_tconfig (Some s) = Ok blocks \<and>
        load_users blocks dl_null = Ok users \<and> dl_from users = map saved_user us)"
  by (rule users_save_all [where writable = writable and f = f, OF assms])

theorem users_save_load_witness:
  "\<exists>s. users_save
      \<lparr>networks = dl_of_list [(new_network (Some ''net''))\<lparr>userfile := Some ''u'',
         n_users := dl_of_list [new_user (Some ''joe'') None (Some ''abc'') None None None (Some ''no'')]\<rparr>],
       c_filters = [], c_hash_type = None, c_crypto_name = None, c_crypto = None, c_dcc_motd = None, c_fork = 0,
       debug_level = 0, c_tcfg = [], c_tsockets = []\<rparr> (\<lambda>f. True) None = Some (Ok [(''u'', s)])"
proof -
  let ?u = "new_user (Some ''joe'') None (Some ''abc'') None None None (Some ''no'')"
  let ?n = "(new_network (Some ''net''))\<lparr>userfile := Some ''u'', n_users := dl_of_list [?u]\<rparr>"
  have "user_ok ?u"
    by (simp add: user_ok_def new_user_def user_fields_def value_ok_def quoted_char_def)
  then show ?thesis
    using users_save_load [of "\<lparr>networks = dl_of_list [?n], c_filters = [], c_hash_type = None, c_crypto_name = None,
         c_crypto = None, c_dcc_motd = None, c_fork = 0, debug_level = 0, c_tcfg = [], c_tsockets = []\<rparr>"
         ?n "''u''" "\<lambda>f. True" "[?u]"]
    by (auto simp: dl_head_def)
qed

text \<open>
  When none of a network's servers accepts the connection, the network keeps a pointer to the
  socket that is freed.
\<close>
lemma connect_failure_dangles:
  assumes "\<forall>srv \<in> set (dl_from (n_servers net)). sv_host srv = None \<or> connects (the (sv_host srv)) (sv_port srv) = ConnFailed"
  shows "network_connect connects s net ts = Ok (net\<lparr>tsock := Some s\<rparr>, ts, True)"
  by (rule network_connect_dangling [OF assms])

theorem connect_failure_dangles_witness:
  "network_connect (\<lambda>h p. ConnFailed) 4 ((new_network (Some ''n''))\<lparr>n_servers := dl_of_list [new_server (Some ''a'')]\<rparr>) [] =
     Ok ((new_network (Some ''n''))\<lparr>n_servers := dl_of_list [new_server (Some ''a'')], tsock := Some 4\<rparr>, [], True)"
  using connect_failure_dangles [of "(new_network (Some ''n''))\<lparr>n_servers := dl_of_list [new_server (Some ''a'')]\<rparr>" "\<lambda>h p. ConnFailed" 4 "[]"]
  by simp

section \<open>Sockets\<close>

text \<open>A socket with a descriptor, and what the loop is told about it.\<close>

definition demo_socket :: "tsocket_status \<Rightarrow> tsocket" where
  "demo_socket st = tsocket_new\<lparr>ts_sock := 3, ts_status := st\<rparr>"

definition demo_event :: "recv_result \<Rightarrow> int option \<Rightarrow> fd_event" where
  "demo_event r v = \<lparr>fd_readable = (\<lambda>s. s = 3), fd_writable = (\<lambda>s. s = 3), fd_recv = r, fd_valopt = v\<rparr>"

lemma demo_socket_simps [simp]:
  "ts_sock (demo_socket st) = 3" "ts_status (demo_socket st) = st" "in_fd_set 3"
  "fd_readable (demo_event r v) 3" "fd_writable (demo_event r v) 3" "fd_recv (demo_event r v) = r"
  "fd_valopt (demo_event r v) = v"
  by (simp_all add: demo_socket_def demo_event_def in_fd_set_def)

text \<open>
  What is received on the socket of a network goes to the bot: one turn of the select loop is the run of
  the bot on the complete lines of the bytes, those that were left over before included, in their order. The
  rest is kept for the next turn, and the socket stays in the loop.
\<close>
lemma bytes_reach_bot:
  assumes "ts_status t \<in> {TSOCK_INFDSET, TSOCK_NOTINFDSET}" and "in_fd_set (ts_sock t)" and "fd_readable ev (ts_sock t)"
    and "fd_recv ev = Received chunk" and "ib_ok buf" and "length chunk \<le> 1023"
    and "ib_buffer buf = None \<Longrightarrow> NL \<in> set chunk \<or> length chunk < ib_size buf \<and> ib_size buf \<le> 1026"
  shows "\<exists>buf'. ib_ok buf' \<and> pending buf' = snd (split_lines (pending buf @ chunk)) \<and>
    tsocket_turn (irc_callbacks env i) ev (t, buf, b) =
      obind (parse_irc_lines env i (fst (split_lines (pending buf @ chunk))) b)
        (\<lambda>b'. Some (Ok (Some (t\<lparr>ts_status := TSOCK_INFDSET\<rparr>), buf', b')))"
  using irc_received_turn [OF assms] .

theorem bytes_reach_bot_witness:
  "\<exists>buf'. tsocket_turn (irc_callbacks demo_env 0) (demo_event (Received ('':ann!u@h QUIT :bye'' @ [CR, NL] @ ''PI'')) None)
       (demo_socket TSOCK_INFDSET, \<lparr>ib_buffer = None, ib_size = 1024\<rparr>, demo_bot) =
     Some (Ok (Some (demo_socket TSOCK_INFDSET), buf', demo_bot)) \<and> pending buf' = ''PI''"
proof -
  let ?c = "'':ann!u@h QUIT :bye'' @ [CR, NL] @ ''PI''"
  have s: "split_lines ([] @ ?c) = (['':ann!u@h QUIT :bye''], ''PI'')" by code_simp
  have ok: "message_ok ''bot'' (demo_prefix ''ann'') ''QUIT'' [] [''bye'']" by code_simp
  have line: "message_line (demo_prefix ''ann'') ''QUIT'' [] [''bye''] = '':ann!u@h QUIT :bye''" by code_simp
  have q: "parse_irc_lines demo_env 0 ['':ann!u@h QUIT :bye''] demo_bot = Some (Ok demo_bot)"
    using quit_unnoticed [of 0 demo_bot "''bot''" "demo_prefix ''ann''" "[]" "[''bye'']" demo_env] ok line by simp
  have t: "(demo_socket TSOCK_INFDSET)\<lparr>ts_status := TSOCK_INFDSET\<rparr> = demo_socket TSOCK_INFDSET" by (simp add: demo_socket_def)
  show ?thesis
    using bytes_reach_bot [of "demo_socket TSOCK_INFDSET" "demo_event (Received ?c) None" ?c "\<lparr>ib_buffer = None, ib_size = 1024\<rparr>" demo_env 0 demo_bot]
      s q t by (auto simp: ib_ok_def pending_def [of "\<lparr>ib_buffer = None, ib_size = 1024\<rparr>"])
qed

text \<open>
  When the server closes the connection the bot does not come back: \<open>network_connect\<close> installs no callback
  for it, and the loop calls it through NULL.
\<close>
lemma lost_connection_stops:
  assumes "ts_status t = TSOCK_INFDSET" and "in_fd_set (ts_sock t)" and "fd_readable ev (ts_sock t)" and "fd_recv ev = RecvClosed"
  shows "tsocket_turn (irc_callbacks env i) ev (t, buf, b) = Some (Fault NullDeref)"
  using irc_closed_turn [OF assms] .

theorem lost_connection_stops_witness:
  "tsocket_turn (irc_callbacks demo_env 0) (demo_event RecvClosed None)
     (demo_socket TSOCK_INFDSET, \<lparr>ib_buffer = None, ib_size = 1024\<rparr>, demo_bot) = Some (Fault NullDeref)"
  by (rule lost_connection_stops) simp_all


definition demo_os :: os where
  "demo_os = \<lparr>os_socket = 4, os_options = True, os_resolve = Some, os_bind = (\<lambda>a p. True), os_listen = True,
     os_connect = (\<lambda>h p. ConnNow), os_now = 0\<rparr>"

definition demo_ics :: ics_server where
  "demo_ics = (new_ics_server (Some ''fics''))
     \<lparr>i_servers := dl_of_list [new_server (Some ''freechess:5000'')], i_username := Some ''guest'', i_tsock := Some 3\<rparr>"


text \<open>
  A connection that could not be made is forgotten: the socket is marked as not set up, and no later turn
  of the loop changes anything, whatever \<open>never-give-up\<close> says.
\<close>
lemma failed_connection_forgotten:
  assumes "ts_status t = TSOCK_CONNECTING" and "in_fd_set (ts_sock t)" and "fd_writable ev (ts_sock t)" and "fd_valopt ev \<noteq> Some 0"
  shows "\<exists>t'. tsocket_turn cbs ev (t, s) = Some (Ok (Some t', s)) \<and> ts_sock t' = -1 \<and>
    (\<forall>ev'. tsocket_turn cbs ev' (t', s) = Some (Ok (Some t', s)))"
  using turn_connect_failed [OF assms, of cbs s] turn_dead [of "t\<lparr>ts_sock := -1, ts_status := TSOCK_UNINITIALIZED\<rparr>" cbs _ s] by simp

theorem failed_connection_forgotten_witness:
  "\<exists>t'. tsocket_turn (irc_callbacks demo_env 0) (demo_event RecvError (Some 111)) (demo_socket TSOCK_CONNECTING, \<lparr>ib_buffer = None, ib_size = 1024\<rparr>, demo_bot) =
     Some (Ok (Some t', \<lparr>ib_buffer = None, ib_size = 1024\<rparr>, demo_bot)) \<and> ts_sock t' = -1"
  using failed_connection_forgotten [of "demo_socket TSOCK_CONNECTING" "demo_event RecvError (Some 111)" "irc_callbacks demo_env 0"
      "(\<lparr>ib_buffer = None, ib_size = 1024\<rparr>, demo_bot)"] by auto



section \<open>Chess servers\<close>

lemma demo_ics_simps [simp]:
  "it_msg (i_trigs demo_ics) = dl_null" "i_tsock demo_ics = Some 3" "i_username demo_ics = Some ''guest''"
  "connected demo_ics = 0" "game demo_ics = dl_null" "i_sent demo_ics = []"
  by (simp_all add: demo_ics_def new_ics_server_def new_ics_trigger_table_def)


lemma demo_rolling_keeps [simp]:
  "i_tsock (ics_ball_start_rolling demo_ics) = Some 3" "connected (ics_ball_start_rolling demo_ics) = 0"
  "game (ics_ball_start_rolling demo_ics) = dl_null" "i_sent (ics_ball_start_rolling demo_ics) = []"
  using connections_keep [of 1 demo_ics] by simp_all

text \<open>
  A line from a chess server is handed to the triggers for messages one after the other, each once and in the
  order of the list, and this comes to an end, as long as scripts leave the triggers alone.
\<close>
lemma chess_line_dispatched:
  assumes "quiet scripts"
  shows "ics_trigger_match scripts data 0 st = fire_list scripts data (dl_from (it_msg (i_trigs (snd (snd st))))) st \<and>
    (\<exists>r. ics_trigger_match scripts data 0 st = Some r)"
  using ics_trigger_match_list [OF assms, of data 0 st] fire_list_ends [OF assms] by simp

theorem chess_line_dispatched_witness:
  "\<exists>r. ics_trigger_match no_scripts \<lparr>txt_packet = ''fics% '', tokens = Some [''fics%'']\<rparr> 0 (0, 20, ics_ball_start_rolling demo_ics) = Some r"
  using chess_line_dispatched [OF quiet_no_scripts] by blast

text \<open>
  C23: A board in the format of the chess server (style 12) is read as the game it stands for: the rows, whose turn it
  is, all numbers, the names and the notations, for every game whose numbers fit an \<open>int\<close> and whose words have
  no blanks.
\<close>
theorem board_roundtrip:
  assumes "game_ok g" and "l = join_blank (style_twelve_line g)"
  shows "style_twelve_game \<lparr>txt_packet = l, tokens = tssv_split l\<rparr> = Ok (g\<lparr>style_twelve := Some l\<rparr>)"
  using style_twelve_roundtrip [OF assms(1)] assms(2) by simp

definition demo_game :: ics_game where
  "demo_game = new_ics_game
     \<lparr>board := [''rnbqkbnr'', ''pppppppp'', ''--------'', ''--------'', ''----P---'', ''--------'', ''PPPP-PPP'', ''RNBQKBNR''],
      turn := CHR ''B'', pawn_double_push_file := 4, white_can_castle_short := 1, white_can_castle_long := 1,
      black_can_castle_short := 1, black_can_castle_long := 1, last_irreversible_move := 0, game_number := 7,
      white_name := Some ''ann'', black_name := Some ''bob'', my_relation := -1, initial_time := 3, increment_time := 0,
      white_strength := 39, black_strength := 39, white_time_remaining := 180, black_time_remaining := 180,
      next_move_number := 1, verbose_notation := Some ''P/e2-e4'', last_move_time := Some ''(0:00)'',
      pretty_notation := Some ''e4'', flip_field_orientation := 0\<rparr>"

theorem board_roundtrip_witness:
  "\<exists>l. style_twelve_game \<lparr>txt_packet = l, tokens = tssv_split l\<rparr> = Ok (demo_game\<lparr>style_twelve := Some l\<rparr>)"
proof -
  have "game_ok demo_game" by code_simp
  from board_roundtrip [OF this refl] show ?thesis by blast
qed



text \<open>
  Every connection to a chess server adds the built-in triggers again: after a connection was lost and made
  again \<open>n\<close> times, the prompt for the name is answered \<open>n + 1\<close> times.
\<close>
lemma reconnecting_repeats:
  assumes "quiet scripts" and "it_msg (i_trigs ics) = dl_null" and "i_tsock ics = Some s"
    and "i_username ics = Some u" and "CHR ''%'' \<notin> set u" and "only_mask l LOGIN_TRIGGER" and "reachable_server connects ics"
  shows "\<exists>ics'. ics_reconnect connects n (ics_ball_start_rolling ics, ts) = Ok (ics', ts) \<and>
    (\<exists>ics''. parse_ics_line scripts l (k, ics') = Some (Ok (k, ics'')) \<and>
       i_sent ics'' = i_sent ics @ replicate (n + 1) (take 2047 u @ [NL]))"
  using ics_reconnect_rolling [OF assms(7,3), of n 1 ts] login_prompt [OF assms(1-6), of k "n + 1"] by simp

theorem reconnecting_repeats_witness:
  "\<exists>ics' ics''. ics_reconnect (\<lambda>h p. ConnNow) 2 (ics_ball_start_rolling demo_ics, [3]) = Ok (ics', [3]) \<and>
     parse_ics_line no_scripts ''(If your return key does not work, use cntrl-J)'' (20, ics') = Some (Ok (20, ics'')) \<and>
     i_sent ics'' = replicate 3 (''guest'' @ [NL])"
proof -
  have m: "only_mask ''(If your return key does not work, use cntrl-J)'' LOGIN_TRIGGER" by code_simp
  have r: "reachable_server (\<lambda>h p. ConnNow) demo_ics"
    by (simp add: reachable_server_def demo_ics_def new_server_def)
  show ?thesis
    using reconnecting_repeats [of no_scripts demo_ics 3 "''guest''" _ "\<lambda>h p. ConnNow" 2 "[3]" 20] m r
    by (auto simp: numeral_eq_Suc)
qed

text \<open>
  The settings of the bot (style 12, no shouts) are sent at the first prompt only. After a lost connection
  they are never sent again, however often the triggers are there.
\<close>
lemma settings_sent_once:
  assumes "quiet scripts" and "it_msg (i_trigs ics) = dl_null" and "it_connect (i_trigs ics) = dl_null"
    and "connected ics = 0" and "i_tsock ics = Some s" and "only_mask l CONNECT_TRIGGER"
  shows "\<exists>ics'. parse_ics_line scripts l (k, ics_ball_start_rolling ics) = Some (Ok (k, ics')) \<and>
    i_sent ics' = i_sent ics @ setup_lines \<and>
    (\<forall>n. parse_ics_line scripts l (k, (ics_ball_start_rolling ^^ n) ics') = Some (Ok (k, (ics_ball_start_rolling ^^ n) ics')))"
  using settings_once [OF assms] .

theorem settings_sent_once_witness:
  "\<exists>ics'. parse_ics_line no_scripts ''fics% '' (20, ics_ball_start_rolling demo_ics) = Some (Ok (20, ics')) \<and> i_sent ics' = setup_lines"
proof -
  have m: "only_mask ''fics% '' CONNECT_TRIGGER" by code_simp
  have c: "it_connect (i_trigs demo_ics) = dl_null" by (simp add: demo_ics_def new_ics_server_def new_ics_trigger_table_def)
  show ?thesis using settings_sent_once [OF quiet_no_scripts _ c _ _ m, of 3 20] by auto
qed

text \<open>
  A lost connection to a chess server is made again in the same turn of the loop; when no server takes it, the
  socket is freed while the loop still uses it.
\<close>
lemma chess_connection_lost:
  assumes "ts_status t = TSOCK_INFDSET" and "in_fd_set (ts_sock t)" and "fd_readable ev (ts_sock t)" and "fd_recv ev = RecvClosed"
    and "i_tsock ics = Some s" and "os_socket os \<noteq> -1 \<Longrightarrow> in_fd_set (os_socket os)"
  shows "\<exists>t' buf' ics' ok. ics_try_servers (conn_of os None) (dl_from (i_servers ics)) ics = (ics', ok) \<and>
    tsocket_turn (ics_callbacks scripts os) ev (t, buf, k, ics) =
      (if ok then Some (Ok (Some t', buf', k, ics')) else Some (Fault UseAfterFree)) \<and>
    (ok \<longrightarrow> ts_status t' \<in> {TSOCK_NOTINFDSET, TSOCK_CONNECTING} \<and> ts_sock t' = os_socket os)"
  using ics_closed_turn [OF assms] .

theorem chess_connection_lost_witness:
  "\<exists>t' buf'. tsocket_turn (ics_callbacks no_scripts demo_os) (demo_event RecvClosed None)
     (demo_socket TSOCK_INFDSET, \<lparr>ib_buffer = None, ib_size = 1024\<rparr>, 20, demo_ics) =
     Some (Ok (Some t', buf', 20, ics_ball_start_rolling demo_ics)) \<and> ts_sock t' = 4"
proof -
  have "conn_of demo_os None h p = ConnNow" for h p by (simp add: conn_of_def demo_os_def)
  then have c: "ics_try_servers (conn_of demo_os None) (dl_from (i_servers demo_ics)) demo_ics = (ics_ball_start_rolling demo_ics, True)"
    by (simp add: demo_ics_def new_server_def)
  show ?thesis
    using chess_connection_lost [of "demo_socket TSOCK_INFDSET" "demo_event RecvClosed None" demo_ics 3 demo_os no_scripts "\<lparr>ib_buffer = None, ib_size = 1024\<rparr>" 20] c
    by (auto simp: demo_os_def in_fd_set_def)
qed

section \<open>The party line in the select loop\<close>

text \<open>A bot with one network on whose party line there are some sessions, all on their own descriptors.\<close>

definition party_bot :: "dcc_session list \<Rightarrow> bot" where
  "party_bot ds = \<lparr>b_cfg = demo_config\<lparr>networks := dl_of_list [(party_net DCC_CONNECTED None)\<lparr>n_dccs := dl_of_list ds\<rparr>]\<rparr>,
     b_writes = [], b_exited = False\<rparr>"

lemma party_bot_simps [simp]:
  "net_at 0 (party_bot ds) = (party_net DCC_CONNECTED None)\<lparr>n_dccs := DList [] ds\<rparr>"
  "length (dl_all (networks (b_cfg (party_bot ds)))) = 1" "\<not> b_exited (party_bot ds)"
  "dcc_listener (party_net st u) = -1" "d_sock (demo_session st u) = 9" "in_fd_set 9"
  by (simp_all add: party_bot_def net_at_def dl_of_list_def party_net_def demo_net_def new_network_def
      demo_session_def in_fd_set_def)

text \<open>
  A connection to a user that is not there yet when \<open>select\<close> returns for the first time is never noticed: the
  session is waited for in that turn only. Whatever is reported in any later turn, the sessions stay as they are, so
  that nobody is greeted.
\<close>
lemma late_dcc_connection_missed:
  assumes "list_all outgoing (dl_from (n_dccs (net_at i b)))" and "dcc_listener (net_at i b) = -1"
    and "i < length (dl_all (networks (b_cfg b)))" and "\<not> b_exited b" and "\<And>s. \<not> fd_writable (evs s) s"
  shows "dcc_turns env i ((evs, accepted) # es) (buf, b) = Some (Ok (buf, put_net i ((net_at i b)\<lparr>n_dccs :=
    DList (dl_before (n_dccs (net_at i b))) (map session_select (dl_from (n_dccs (net_at i b))))\<rparr>) b))"
  using dcc_turns_late [OF assms] .

theorem late_dcc_connection_missed_witness:
  "\<exists>b'. dcc_turns demo_env 0 [(\<lambda>s. (demo_event RecvError None)\<lparr>fd_writable := (\<lambda>_. False)\<rparr>, None), (\<lambda>s. demo_event RecvError (Some 0), None)]
     (\<lparr>ib_buffer = None, ib_size = 1024\<rparr>, party_bot [demo_session DCC_NONBLOCKCONNECT None]) = Some (Ok (\<lparr>ib_buffer = None, ib_size = 1024\<rparr>, b')) \<and>
     d_status (session_at (net_at 0 b') 0) = DCC_WAITINGCONNECT"
  using late_dcc_connection_missed [of 0 "party_bot [demo_session DCC_NONBLOCKCONNECT None]"
      "\<lambda>s. (demo_event RecvError None)\<lparr>fd_writable := (\<lambda>_. False)\<rparr>" demo_env None
      "[(\<lambda>s. demo_event RecvError (Some 0), None)]" "\<lparr>ib_buffer = None, ib_size = 1024\<rparr>"]
  by (simp add: outgoing_def session_at_def session_select_def del: dcc_turns.simps)



text \<open>
  When a user on the party line hangs up, the list goes on at the session in front of the closed one, so that all
  those before that one are no longer on the party line: they are neither read from nor written to.
\<close>
lemma closing_hides_sessions:
  assumes "n_dccs (net_at i b) = DList [] (pre @ p # d # behind)" and "list_all live (pre @ p # d # behind)"
    and "dcc_listener (net_at i b) = -1" and "i < length (dl_all (networks (b_cfg b)))" and "\<not> b_exited b"
    and "fd_readable (evs (d_sock d)) (d_sock d)" and "fd_recv (evs (d_sock d)) = RecvClosed"
    and "\<forall>x \<in> set (pre @ p # behind). \<not> fd_readable (evs (d_sock x)) (d_sock x)"
  shows "\<exists>buf'. dcc_turn env i evs accepted (buf, b) =
    Some (Ok (buf', put_net i ((net_at i b)\<lparr>n_dccs := DList (rev pre) (p # behind)\<rparr>) b))"
  using dcc_turn_closed [OF assms] .

theorem closing_hides_sessions_witness:
  "\<exists>buf' b'. dcc_turn demo_env 0 (\<lambda>s. (demo_event RecvClosed None)\<lparr>fd_readable := (\<lambda>s. s = 9)\<rparr>) None
     (\<lparr>ib_buffer = None, ib_size = 1024\<rparr>,
      party_bot [(demo_session DCC_AUTHENTICATED (Some 0))\<lparr>d_sock := 5\<rparr>, (demo_session DCC_AUTHENTICATED (Some 0))\<lparr>d_sock := 6\<rparr>,
        demo_session DCC_AUTHENTICATED (Some 0)]) = Some (Ok (buf', b')) \<and>
     map d_sock (dl_from (n_dccs (net_at 0 b'))) = [6]"
proof -
  let ?d = "demo_session DCC_AUTHENTICATED (Some 0)"
  let ?b = "party_bot [?d\<lparr>d_sock := 5\<rparr>, ?d\<lparr>d_sock := 6\<rparr>, ?d]"
  have st: "live ?d" "live (?d\<lparr>d_sock := 5\<rparr>)" "live (?d\<lparr>d_sock := 6\<rparr>)"
    by (simp_all add: live_def dcc_status_order in_fd_set_def)
  obtain buf' where t: "dcc_turn demo_env 0 (\<lambda>s. (demo_event RecvClosed None)\<lparr>fd_readable := (\<lambda>s. s = 9)\<rparr>) None (\<lparr>ib_buffer = None, ib_size = 1024\<rparr>, ?b) =
      Some (Ok (buf', put_net 0 ((net_at 0 ?b)\<lparr>n_dccs := DList (rev [?d\<lparr>d_sock := 5\<rparr>]) [?d\<lparr>d_sock := 6\<rparr>]\<rparr>) ?b))"
    using closing_hides_sessions [of 0 ?b "[?d\<lparr>d_sock := 5\<rparr>]" "?d\<lparr>d_sock := 6\<rparr>" ?d "[]"
        "\<lambda>s. (demo_event RecvClosed None)\<lparr>fd_readable := (\<lambda>s. s = 9)\<rparr>" demo_env None "\<lparr>ib_buffer = None, ib_size = 1024\<rparr>"] st by auto
  show ?thesis by (rule exI, rule exI, rule conjI, rule t) simp
qed

section \<open>The web server\<close>

definition demo_http :: http_server where
  "demo_http = (new_http_server (Some ''www''))\<lparr>h_host := Some ''here''\<rparr>"

lemma demo_http_simps [simp]:
  "h_sock demo_http = -1" "h_host demo_http = Some ''here''" "h_port demo_http = -1"
  by (simp_all add: demo_http_def new_http_server_def)

text \<open>
  A web server whose listener cannot be set up stops the bot, behind any servers that do listen: in the turn
  that tries to, the descriptor -2 is put into a set of \<open>select\<close>; and if the descriptor is -2 already, the loop over
  the servers does not end, because \<open>continue\<close> goes on with the same server.
\<close>
lemma http_without_listener_stops:
  assumes "list_all listening pre" and "h_sock h \<in> {-1, -2}" and "h_sock (http_init_listener (oss (length pre)) h) = -2"
  shows "http_turn oss readable accepts (pre @ h # behind) = (if h_sock h = -1 then Some (Fault OutOfBounds) else None)"
  using http_select_failed [OF assms(1,2), of oss] assms(3) by (simp add: http_turn_def obind_def)

theorem http_without_listener_stops_witness:
  "http_turn (\<lambda>i. demo_os\<lparr>os_listen := False\<rparr>) (\<lambda>s. False) (\<lambda>s. -1) [demo_http] = Some (Fault OutOfBounds) \<and>
   http_turn (\<lambda>i. demo_os\<lparr>os_listen := False\<rparr>) (\<lambda>s. False) (\<lambda>s. -1) [demo_http\<lparr>h_sock := -2\<rparr>] = None"
  using http_without_listener_stops [of "[]" demo_http "\<lambda>i. demo_os\<lparr>os_listen := False\<rparr>" "\<lambda>s. False" "\<lambda>s. -1" "[]"]
    http_without_listener_stops [of "[]" "demo_http\<lparr>h_sock := -2\<rparr>" "\<lambda>i. demo_os\<lparr>os_listen := False\<rparr>" "\<lambda>s. False" "\<lambda>s. -1" "[]"]
  by (simp add: http_init_listener_sock demo_os_def)

text \<open>
  The port that a web server is bound to is the last 16 bits of the one that is configured; the default of
  84191 is the port 18655.
\<close>
lemma http_port_bits:
  assumes "h_sock (http_init_listener os h) \<noteq> -2"
  shows "\<exists>ip port. Option.bind (h_host h) (os_resolve os) = Some ip \<and> os_bind os (Some ip) port \<and>
    uint port = (if h_port h = -1 then 18655 else h_port h mod 65536)"
proof -
  obtain ip where ip: "Option.bind (h_host h) (os_resolve os) = Some ip"
    "os_bind os (Some ip) (htons (if h_port h = -1 then 84191 else h_port h))"
    using assms by (auto simp: http_init_listener_sock split: option.splits if_splits)
  then show ?thesis by (intro exI [of _ ip] exI [of _ "htons (if h_port h = -1 then 84191 else h_port h)"]) (simp add: uint_htons)
qed

theorem http_port_bits_witness:
  "\<exists>ip port. os_resolve demo_os ''here'' = Some ip \<and> os_bind demo_os (Some ip) port \<and> uint port = 18655"
  using http_port_bits [of demo_os demo_http] by (simp add: http_init_listener_sock demo_os_def)

text \<open>
  Nobody is ever answered: through any number of turns, servers that listen go on listening, and what was asked
  is kept. Every connection adds one request behind those that there are, which no turn reads, answers or takes out.
\<close>
lemma http_never_answers:
  assumes "list_all listening hs"
  shows "\<exists>hs'. http_turns oss es hs = Some (Ok hs') \<and> list_all listening hs' \<and>
    list_all2 (\<lambda>h h'. prefix (dl_from (requests h)) (dl_from (requests h'))) hs hs'"
  using http_turns_listening [OF assms] .

theorem http_never_answers_witness:
  "\<exists>hs'. http_turns (\<lambda>i. demo_os) [(\<lambda>s. True, \<lambda>s. 7), (\<lambda>s. True, \<lambda>s. 8)] [demo_http\<lparr>h_sock := 4\<rparr>] = Some (Ok hs') \<and> list_all listening hs'"
  using http_never_answers [of "[demo_http\<lparr>h_sock := 4\<rparr>]" "\<lambda>i. demo_os" "[(\<lambda>s. True, \<lambda>s. 7), (\<lambda>s. True, \<lambda>s. 8)]"]
  by (auto simp: listening_def in_fd_set_def)

section \<open>The XMPP server\<close>

definition demo_xmpp_block :: tblock where
  "demo_xmpp_block = TB (Some ''xmpp_server'') (Some ''jabber'') False
     [TB (Some ''server'') (Some ''one:5222'') True [], TB (Some ''server'') (Some ''two:5222'') True []]"

text \<open>
  The servers of an XMPP network are tried in turn: from whichever is the current one, each of them is the
  current one after some number of attempts that is at most the number of servers, whether the attempts before
  succeed or not.
\<close>
lemma xmpp_servers_in_turn:
  assumes "x_cur_server xs = Some i" and "i < length (x_servers xs)" and "hosts_known xs"
    and "\<And>k. os_socket (oss k) \<noteq> -1" and "j < length (x_servers xs)"
  shows "\<exists>k xs'. 1 \<le> k \<and> k \<le> length (x_servers xs) \<and> xmpp_attempts oss k xs = Ok xs' \<and> x_cur_server xs' = Some j"
proof -
  obtain k where k: "1 \<le> k" "k \<le> length (x_servers xs)" "(i + k) mod length (x_servers xs) = j"
    using cyclic_covers [OF assms(2,5)] by blast
  then show ?thesis using xmpp_attempts_cycle [where oss = oss and k = k, OF assms(1-4)] by blast
qed

definition demo_xmpp :: xmpp_server where
  "demo_xmpp = (new_xmpp_server (Some ''jabber''))
     \<lparr>x_servers := [new_server (Some ''one:5222''), new_server (Some ''two:5222'')], x_cur_server := Some 0\<rparr>"

theorem xmpp_servers_in_turn_witness:
  "\<exists>k xs'. 1 \<le> k \<and> k \<le> 2 \<and> xmpp_attempts (\<lambda>k. demo_os\<lparr>os_connect := (\<lambda>h p. ConnFailed)\<rparr>) k demo_xmpp = Ok xs' \<and>
     x_cur_server xs' = Some 0"
proof -
  have s: "length (x_servers demo_xmpp) = 2" "x_cur_server demo_xmpp = Some 0" by (simp_all add: demo_xmpp_def)
  have h: "hosts_known demo_xmpp" by code_simp
  show ?thesis
    using xmpp_servers_in_turn [of demo_xmpp 0 "\<lambda>k. demo_os\<lparr>os_connect := (\<lambda>h p. ConnFailed)\<rparr>" 0] s h by (simp add: demo_os_def)
qed

text \<open>
  C26: A configured XMPP network never gets further than its greeting: whatever happens in the select loop, the head of the stream
  is all that is ever sent, once, and the network is never authorized.
\<close>
theorem xmpp_only_greets:
  assumes "xmpp_server_from_tconfig_block tcfg = Ok (Some xs)" and "xmpp_start os xs = Ok xs'" and "xmpp_step\<^sup>*\<^sup>* xs' xs''"
  shows "(x_sent xs'' = [] \<or> x_sent xs'' = xmpp_hello xs'') \<and> x_status xs'' \<notin> {XMPP_AUTHORIZED, XMPP_IDLE}"
  using xmpp_steps_mute [OF assms(3) xmpp_configured_mute [OF assms(1,2)]] by (auto simp: xmpp_mute_def)

theorem xmpp_only_greets_witness:
  "\<exists>xs xs' xs''. xmpp_server_from_tconfig_block (Some demo_xmpp_block) = Ok (Some xs) \<and> xmpp_start demo_os xs = Ok xs' \<and>
     xmpp_step xs' xs'' \<and> x_status xs'' = XMPP_CONNECTED \<and> x_sent xs'' = xmpp_hello xs''"
proof -
  have c: "case xmpp_server_from_tconfig_block (Some demo_xmpp_block) of Inl e \<Rightarrow> False | Inr m \<Rightarrow> (case m of None \<Rightarrow> False | Some xs \<Rightarrow>
      (case xmpp_start demo_os xs of Inl e \<Rightarrow> False | Inr xs' \<Rightarrow>
      (case xmpp_turn demo_os (demo_event RecvError None) xs' of Inl e \<Rightarrow> False | Inr xs'' \<Rightarrow> x_status xs'' = XMPP_CONNECTED \<and> x_sent xs'' \<noteq> [])))"
    by code_simp
  then obtain xs where 1: "xmpp_server_from_tconfig_block (Some demo_xmpp_block) = Ok (Some xs)" by (auto split: sum.splits option.splits)
  obtain xs' where 2: "xmpp_start demo_os xs = Ok xs'" using c 1 by (auto split: sum.splits)
  obtain xs'' where 3: "xmpp_turn demo_os (demo_event RecvError None) xs' = Ok xs''" using c 1 2 by (auto split: sum.splits)
  have s: "x_status xs'' = XMPP_CONNECTED" "x_sent xs'' \<noteq> []" using c 1 2 3 by simp_all
  have st: "xmpp_step xs' xs''" using 3 by (rule Xmpp_turn)
  show ?thesis using xmpp_only_greets [OF 1 2 r_into_rtranclp [of xmpp_step, OF st]] 1 2 s st by blast
qed

text \<open>
  The mechanisms that a server offers in its features are all recorded, in their order and behind those that
  there are, each with the algorithm that is known for it, and encryption is asked for.
\<close>
lemma xmpp_mechanisms_recorded:
  assumes "xml_read lib buffer = Some (Xml r (Xml ''features'' (n # ns) # rest'))"
    and "None \<notin> set (mechanism_names lib (n # ns))"
    and "list_all (\<lambda>n. xml_name n = ''mechanisms'' \<longrightarrow> xml_children n \<noteq> []) (n # ns)"
  shows "\<exists>xs' t. parse_xmpp_line lib buffer xs = Ok (xs', Some t) \<and>
    dl_from (auth_types_remote xs') = dl_from (auth_types_remote xs) @ map remote_type (mechanism_names lib (n # ns)) \<and>
    x_sent xs' = x_sent xs @ [starttls @ [NL]]"
proof -
  have "x_sent (with_types ls xs) = x_sent xs" for ls by (simp add: with_types_def)
  then show ?thesis
    using xmpp_features_list [OF assms(2,3), of xs] assms(1)
    by (simp add: parse_xmpp_line_def with_types_from xmpp_printf_def del: xmpp_features.simps)
qed

definition demo_xml :: xml_lib where
  "demo_xml = \<lparr>xml_read = (\<lambda>_. Some (Xml ''stream'' [Xml ''features'' [Xml ''mechanisms'' [Xml ''mechanism'' [Xml ''PLAIN'' []], Xml ''mechanism'' [Xml ''DIGEST-MD5'' []]]]])),
     xml_text = (\<lambda>ns. case ns of [] \<Rightarrow> None | n # _ \<Rightarrow> Some (xml_name n))\<rparr>"

theorem xmpp_mechanisms_recorded_witness:
  "\<exists>xs' t. parse_xmpp_line demo_xml ''x'' demo_xmpp = Ok (xs', Some t) \<and>
     map algo_name (dl_from (auth_types_remote xs')) = [Some ''plain'', Some ''md5'']"
proof -
  let ?ms = "Xml ''mechanisms'' [Xml ''mechanism'' [Xml ''PLAIN'' []], Xml ''mechanism'' [Xml ''DIGEST-MD5'' []]]"
  have n: "mechanism_names demo_xml [?ms] = [Some ''PLAIN'', Some ''DIGEST-MD5'']" by code_simp
  have a: "map algo_name (map remote_type [Some ''PLAIN'', Some ''DIGEST-MD5'']) = [Some ''plain'', Some ''md5'']" by code_simp
  have e: "dl_from (auth_types_remote demo_xmpp) = []" by code_simp
  show ?thesis
    using xmpp_mechanisms_recorded [of demo_xml "''x''" "''stream''" ?ms "[]" "[]" demo_xmpp] n a e by (auto simp: demo_xml_def)
qed

section \<open>Digests, passwords and ciphers\<close>



text \<open>
  C28: For texts of any length, MD5 and MD4 with their buffer and their padding in one block or two are what a
  compression makes of the blocks of the text, a bit, zeros and the length modulo \<open>2 ^ 64\<close>; for MD5 it is that of the loop over
  tables that is compiled with \<open>LTC_SMALL_CODE\<close>, so that the unrolled rounds are right if these are. MD2 is the
  compression and the checksum of the blocks of the text with 1 to 16 bytes behind it, and of the checksum at the end.
\<close>
theorem digests_of_padded_blocks:
  "md5_digest m = Inr (rfc_md5 m) \<and> md4_digest m = Inr (rfc_md4 m) \<and> md2_digest m = Inr (rfc_md2 m)"
  using md5_rfc md4_rfc md2_rfc by simp

text \<open>
  A text may be handed to a digest in pieces: with a state whose buffer is not full, which a digest leaves behind
  every time, two pieces one after the other give the state that both together give.
\<close>
lemma hash_in_pieces:
  assumes "length (md_buf s) < 128" and "length (md_buf r) < 64"
  shows "(\<exists>s'. sha512_process s a = Inr s' \<and> length (md_buf s') < 128 \<and> sha512_process s' b = sha512_process s (a @ b)) \<and>
    (\<exists>r'. md5_process r a = Inr r' \<and> length (md_buf r') < 64 \<and> md5_process r' b = md5_process r (a @ b))"
  using sha512.process_append [OF assms(1), of a b] md5.process_append [OF assms(2), of a b]
  by (simp add: sha512_process_def md5_process_def)

theorem hash_in_pieces_witness:
  "(\<exists>s'. sha512_process sha512_init (bytes_of ''ab'') = Inr s' \<and> length (md_buf s') < 128 \<and>
      sha512_process s' (bytes_of ''c'') = sha512_process sha512_init (bytes_of ''ab'' @ bytes_of ''c'')) \<and>
   (\<exists>r'. md5_process md5_init (bytes_of ''ab'') = Inr r' \<and> length (md_buf r') < 64 \<and>
      md5_process r' (bytes_of ''c'') = md5_process md5_init (bytes_of ''ab'' @ bytes_of ''c''))"
  by (rule hash_in_pieces) (simp_all add: sha512_init_def md5_init_def)

text \<open>
  C29: The text of a hash fits: \<open>create_hash\<close> prints the 64 bytes of the digest to its buffer of 129 without going past the end,
  and what it returns has from 64 to 128 characters.
\<close>
theorem hash_text_fits:
  assumes "tstrcasecmp t ''sha512'' = 0" and "length p < 2 ^ 61"
  shows "\<exists>h. create_hash (Some p) (Some t) = Ok (Some h) \<and> 64 \<le> length h \<and> length h \<le> 128"
  using create_hash_sha512 [of t p] hex_string_length [of "fips_sha512 (bytes_of p)"] fips_sha512_length [of "bytes_of p"] assms
  by (simp add: sha512_name_def)

theorem hash_text_fits_witness:
  "\<exists>h. create_hash (Some ''secret'') (Some ''SHA512'') = Ok (Some h) \<and> 64 \<le> length h \<and> length h \<le> 128"
proof -
  have "tstrcasecmp ''SHA512'' ''sha512'' = 0" by code_simp
  then show ?thesis using hash_text_fits [of "''SHA512''" "''secret''"] by simp
qed

text \<open>
  C30: With the crypto module, a password that was stored with the hash type SHA-512 lets in exactly the words whose
  digest is printed as the same text, apart from the empty word and \<open>-\<close>; the right word is one of them.
\<close>
theorem module_passwords:
  assumes "c_crypto cfg = Some module_hash" and "hash_type u = Some t" and "tstrcasecmp t ''sha512'' = 0"
    and "passhash u = egg_makepasswd cfg (Some p) (Some t)" and "length p < 2 ^ 61" and "length q < 2 ^ 61" and "\<not> asks_only (Some q)"
  shows "passwd_matches cfg u (Some q) =
    Ok (if hex_string (fips_sha512 (bytes_of q)) = hex_string (fips_sha512 (bytes_of p)) then 1 else 0)"
  using module_password [OF assms(1,2) _ assms(4-7)] assms(3) by (simp add: sha512_name_def)

theorem module_passwords_witness:
  "passwd_matches (demo_config\<lparr>c_crypto := Some module_hash\<rparr>)
     (demo_account\<lparr>hash_type := Some ''sha512'', passhash := egg_makepasswd (demo_config\<lparr>c_crypto := Some module_hash\<rparr>) (Some ''key'') (Some ''sha512'')\<rparr>)
     (Some ''key'') = Ok 1"
proof -
  let ?u = "demo_account\<lparr>hash_type := Some ''sha512'', passhash := egg_makepasswd (demo_config\<lparr>c_crypto := Some module_hash\<rparr>) (Some ''key'') (Some ''sha512'')\<rparr>"
  have "tstrcasecmp ''sha512'' ''sha512'' = 0" "\<not> asks_only (Some ''key'')" by code_simp+
  then show ?thesis
    using module_passwords [of "demo_config\<lparr>c_crypto := Some module_hash\<rparr>" ?u "''sha512''" "''key''" "''key''"] by simp
qed

text \<open>
  C31: Blowfish goes there and back: every key of 8 to 56 bytes is accepted for 16 rounds (or 0, which stands for
  16), gives 18 subkeys and four boxes of 256 words, and what is made of a block by encrypting is the block again
  when it is decrypted, and the other way round.
\<close>
theorem blowfish_roundtrip:
  assumes "8 \<le> length key" and "length key \<le> 56" and "n \<in> {0, 16}" and "length b = 8"
  shows "\<exists>k. blowfish_setup key n = Inr k \<and> bf_shape k \<and>
    blowfish_ecb_decrypt k (blowfish_ecb_encrypt k b) = b \<and> blowfish_ecb_encrypt k (blowfish_ecb_decrypt k b) = b"
proof -
  obtain k where k: "blowfish_setup key n = Inr k"
    using assms by (auto simp: blowfish_setup_def Let_def case_prod_beta)
  then show ?thesis using setup_shape [OF k] decrypt_encrypt [OF assms(4)] encrypt_decrypt [OF assms(4)] by auto
qed

theorem blowfish_roundtrip_witness:
  "\<exists>k. blowfish_setup [1, 2, 3, 4, 5, 6, 7, 8] 16 = Inr k \<and>
     blowfish_ecb_decrypt k (blowfish_ecb_encrypt k [8, 7, 6, 5, 4, 3, 2, 1]) = [8, 7, 6, 5, 4, 3, 2, 1]"
  using blowfish_roundtrip [of "[1, 2, 3, 4, 5, 6, 7, 8]" 16 "[8, 7, 6, 5, 4, 3, 2, 1]"] by auto

text \<open>
  A key, and the key twice, are the same to Blowfish, because the words are made from its bytes in turn.
\<close>
lemma blowfish_key_twice:
  "8 \<le> length key \<Longrightarrow> length key \<le> 28 \<Longrightarrow> blowfish_setup (key @ key) n = blowfish_setup key n"
  by (rule setup_twice)

text \<open>Different digests may be printed as the same text, so that different words may go for the same password.\<close>

lemma different_digests_same_text: "hex_string ([0x01, 0x23] @ bs) = hex_string ([0x12, 0x03] @ bs)"
  by (rule hex_string_collision)

section \<open>The program from its start to its end\<close>

definition demo_files :: files where
  "demo_files f = (if f = ''trollbot.conf'' then Some demo_conf else None)"

definition demo_ltdl :: ltdl where
  "demo_ltdl = \<lparr>lt_dlinit = 0, lt_dlopenext = (\<lambda>n. Some 1), lt_dlsym = (\<lambda>h s. Some 2)\<rparr>"

text \<open>
  C32: Whatever file the parser accepts, its tree has the shape that the walks over it rely on: every level below the top
  starts with a block that has the link to its parent, no other block has one, no pair of a key and a value is twice
  on a level, and a block without a key has no value. So the writer ends on it.
\<close>
theorem parsed_trees_shaped:
  assumes "file_to_tconfig file = Ok bs"
  shows "shaped False bs \<and> list_all linked bs \<and> (bs = [] \<or> (\<exists>r. tconfig_to_file bs opens = Some r))"
  using file_to_tconfig_shaped [OF assms] shaped_linked read_then_written [OF assms, of opens] by blast

theorem parsed_trees_shaped_witness:
  "\<exists>bs. file_to_tconfig (Some demo_conf) = Ok bs \<and> shaped False bs \<and> bs \<noteq> []"
proof -
  have "case file_to_tconfig (Some demo_conf) of Inl e \<Rightarrow> False | Inr bs \<Rightarrow> bs \<noteq> []" by code_simp
  then obtain bs where bs: "file_to_tconfig (Some demo_conf) = Ok bs" "bs \<noteq> []" by (auto split: sum.splits)
  then show ?thesis using parsed_trees_shaped [OF bs(1)] by blast
qed

text \<open>
  C33: A bot can be started from its own dump: when \<open>main\<close> has started with a configuration file, without defaults and with words that can be
  written, it goes on to the loop, or ends in the parent of a fork, and leaves a file \<open>out.txt\<close> from which a start gives the very same configuration, with the same networks, settings and
  crypto module.
\<close>
theorem dump_starts_again:
  assumes "lt_dlinit lib \<le> 0" and "length argv \<le> 2" and "fs ''defaults.conf'' = None"
    and "config_engine_init (crypto_of lib hash) fs (if length argv = 2 then argv ! 1 else ''trollbot.conf'') = Ok (Running cfg)"
    and "words_ok (c_tcfg cfg)"
  shows "\<exists>s. main_start lib hash fs True pid argv =
      Some (Ok (if c_fork cfg = 1 \<and> pid \<noteq> 0 then Ended 0 else Looping cfg, [(''out.txt'', s)])) \<and>
    (\<forall>fs'. fs' ''defaults.conf'' = None \<longrightarrow> fs' ''out.txt'' = Some s \<longrightarrow>
       config_engine_init (crypto_of lib hash) fs' ''out.txt'' = Ok (Running cfg))"
proof -
  obtain s where s: "main_start lib hash fs True pid argv = Some (Ok (forked_pid pid cfg, [(''out.txt'', s)]))"
    "file_to_tconfig (Some s) = Ok (c_tcfg cfg)" using main_dumps [OF assms] by blast
  then show ?thesis using dump_loads_again [OF assms(3,4) s(2)] by (auto simp: forked_pid_def)
qed

theorem dump_starts_again_witness:
  "\<exists>cfg s. main_start demo_ltdl (\<lambda>f. module_hash) demo_files True 0 [''trollbot''] = Some (Ok (Looping cfg, [(''out.txt'', s)])) \<and>
     config_engine_init (crypto_of demo_ltdl (\<lambda>f. module_hash)) (\<lambda>f. if f = ''out.txt'' then Some s else None) ''out.txt'' = Ok (Running cfg)"
proof -
  let ?ld = "crypto_of demo_ltdl (\<lambda>f. module_hash)"
  have "case file_to_tconfig (Some demo_conf) of Inl e \<Rightarrow> False | Inr bs \<Rightarrow> bs \<noteq> [] \<and> words_ok bs \<and>
      (case config_engine_load bs of Inl e \<Rightarrow> False | Inr c \<Rightarrow> c_fork c = 0)" by code_simp
  then obtain bs c where bs: "file_to_tconfig (Some demo_conf) = Ok bs" "bs \<noteq> []" "words_ok bs" "config_engine_load bs = Ok c" "c_fork c = 0"
    by (auto split: sum.splits)
  let ?cfg = "c\<lparr>c_tcfg := bs, c_crypto := Option.bind (c_crypto_name c) ?ld\<rparr>"
  have i: "config_engine_init ?ld demo_files ''trollbot.conf'' = Ok (Running ?cfg)"
    using bs by (simp add: config_engine_init_def demo_files_def file_to_tconfig_def [of None])
  obtain s where s: "main_start demo_ltdl (\<lambda>f. module_hash) demo_files True 0 [''trollbot''] = Some (Ok (Looping ?cfg, [(''out.txt'', s)]))"
    "\<forall>fs'. fs' ''defaults.conf'' = None \<longrightarrow> fs' ''out.txt'' = Some s \<longrightarrow> config_engine_init ?ld fs' ''out.txt'' = Ok (Running ?cfg)"
    using dump_starts_again [of demo_ltdl "[''trollbot'']" demo_files "\<lambda>f. module_hash" ?cfg 0] i bs(3)
    by (auto simp: demo_ltdl_def demo_files_def)
  have "config_engine_init ?ld (\<lambda>f. if f = ''out.txt'' then Some s else None) ''out.txt'' = Ok (Running ?cfg)"
    using s(2) by simp
  then show ?thesis using s(1) by auto
qed



section \<open>Whole turns of the select loop\<close>

definition demo_input :: "fd_event \<Rightarrow> loop_input" where
  "demo_input ev = \<lparr>li_env = demo_env, li_os = (\<lambda>i. demo_os), li_xmpp_os = (\<lambda>i. demo_os), li_http_os = (\<lambda>i. demo_os), li_evs = (\<lambda>s. ev), li_accept = (\<lambda>s. -1), li_timer = (\<lambda>t n. Ok n)\<rparr>"

definition demo_state :: loop_state where
  "demo_state = \<lparr>lp_bot = demo_bot, lp_irc_buf = \<lparr>ib_buffer = None, ib_size = 1024\<rparr>, lp_dcc_buf = \<lparr>ib_buffer = None, ib_size = 1024\<rparr>,
     lp_socks = [(demo_socket TSOCK_INFDSET, 0)], lp_xmpp = [], lp_http = [demo_http\<lparr>h_sock := 5\<rparr>], lp_last = 0\<rparr>"

lemma demo_settled: "q \<noteq> 5 \<Longrightarrow> only_readable (\<lambda>s. ev) q \<Longrightarrow> settled_around q (demo_input ev) demo_state"
  by (simp add: settled_around_def demo_input_def demo_state_def settled_http_def listening_def in_fd_set_def calm_bot_def all_nets_def net_waits_def
      calm_net_def demo_bot_def demo_net_def new_network_def net_at_def new_config_def dl_of_list_def)

text \<open>
  C35: A turn of the whole loop in which one network has something to read is the run of the bot on the complete lines, in their order, what was left over before
  included: the sockets, the sessions of the party line, the timers, the web servers and the XMPP servers, as long as they
  wait, are neither served nor changed.
\<close>
theorem message_in_loop:
  assumes "settled_around (ts_sock t) inp st" and "lp_socks st = pre @ (t, i) # behind"
    and "list_all (\<lambda>(u, k). settled_sock u \<and> ts_sock u \<noteq> ts_sock t) (pre @ behind)"
    and "ts_status t = TSOCK_INFDSET" and "in_fd_set (ts_sock t)"
    and "fd_readable (li_evs inp (ts_sock t)) (ts_sock t)" and "fd_recv (li_evs inp (ts_sock t)) = Received chunk"
    and "ib_ok (lp_irc_buf st)" and "length chunk \<le> 1023"
    and "ib_buffer (lp_irc_buf st) = None \<Longrightarrow> NL \<in> set chunk \<or> length chunk < ib_size (lp_irc_buf st) \<and> ib_size (lp_irc_buf st) \<le> 1026"
    and "parse_irc_lines (li_env inp) i (fst (split_lines (pending (lp_irc_buf st) @ chunk))) (lp_bot st) = Some (Ok b')"
    and "b_exited b' \<or> calm_bot (ts_sock t) (e_now (li_env inp)) b'"
  shows "\<exists>buf' prev. pending buf' = snd (split_lines (pending (lp_irc_buf st) @ chunk)) \<and>
    loop_turn inp st = Some (Ok (st\<lparr>lp_irc_buf := buf', lp_bot := b', lp_last := prev\<rparr>))"
  using loop_delivers [OF assms] .

theorem message_in_loop_witness:
  "\<exists>buf' prev. pending buf' = ''PI'' \<and>
     loop_turn (demo_input ((demo_event (Received ('':ann!u@h QUIT :bye'' @ [CR, NL] @ ''PI'')) None)\<lparr>fd_writable := (\<lambda>s. False)\<rparr>)) demo_state =
       Some (Ok (demo_state\<lparr>lp_irc_buf := buf', lp_last := prev\<rparr>))"
proof -
  let ?c = "'':ann!u@h QUIT :bye'' @ [CR, NL] @ ''PI''"
  let ?ev = "(demo_event (Received ?c) None)\<lparr>fd_writable := (\<lambda>s. False)\<rparr>"
  have s: "split_lines ([] @ ?c) = (['':ann!u@h QUIT :bye''], ''PI'')" by code_simp
  have ok: "message_ok ''bot'' (demo_prefix ''ann'') ''QUIT'' [] [''bye'']" by code_simp
  have line: "message_line (demo_prefix ''ann'') ''QUIT'' [] [''bye''] = '':ann!u@h QUIT :bye''" by code_simp
  have q: "parse_irc_lines demo_env 0 ['':ann!u@h QUIT :bye''] demo_bot = Some (Ok demo_bot)"
    using quit_unnoticed [of 0 demo_bot "''bot''" "demo_prefix ''ann''" "[]" "[''bye'']" demo_env] ok line by simp
  have e: "only_readable (\<lambda>s. ?ev) 3" by (simp add: only_readable_def demo_event_def)
  have calm: "calm_bot 3 1000 demo_bot" using demo_settled [OF _ e] by (simp add: settled_around_def demo_input_def demo_env_def demo_state_def)
  have p: "pending (lp_irc_buf demo_state) = []" "ib_ok (lp_irc_buf demo_state)" "lp_bot demo_state = demo_bot" "length ?c \<le> 1023" "NL \<in> set ?c"
    by (simp_all add: demo_state_def pending_def ib_ok_def)
  have i: "li_env (demo_input ?ev) = demo_env" "e_now demo_env = 1000" "li_evs (demo_input ?ev) = (\<lambda>s. ?ev)"
    by (simp_all add: demo_input_def demo_env_def)
  have sk: "lp_socks demo_state = [] @ (demo_socket TSOCK_INFDSET, 0) # []" by (simp add: demo_state_def)
  obtain buf' prev where r: "pending buf' = snd (split_lines ([] @ ?c))"
    "loop_turn (demo_input ?ev) demo_state = Some (Ok (demo_state\<lparr>lp_irc_buf := buf', lp_bot := demo_bot, lp_last := prev\<rparr>))"
    using message_in_loop [OF _ sk, of "demo_input ?ev" ?c demo_bot] demo_settled [OF _ e] p i q calm s by (auto simp: demo_event_def)
  have "demo_state\<lparr>lp_irc_buf := buf', lp_bot := demo_bot, lp_last := prev\<rparr> = demo_state\<lparr>lp_irc_buf := buf', lp_last := prev\<rparr>"
    by (simp add: demo_state_def)
  then show ?thesis using r s by auto
qed

text \<open>
  C36: A turn of the whole loop in which nothing is reported changes nothing but the time of the last check of the timers, when every
  part waits and no timer is due.
\<close>
theorem idle_turn:
  assumes "settled_around (-1) inp st" and "list_all (settled_sock \<circ> fst) (lp_socks st)" and "lp_socks st \<noteq> []"
  shows "\<exists>prev. loop_turn inp st = Some (Ok (st\<lparr>lp_last := prev\<rparr>))"
  using loop_idle [OF assms] .

theorem idle_turn_witness:
  "\<exists>prev. loop_turn (demo_input ((demo_event RecvError None)\<lparr>fd_readable := (\<lambda>s. False), fd_writable := (\<lambda>s. False)\<rparr>)) demo_state =
     Some (Ok (demo_state\<lparr>lp_last := prev\<rparr>))"
proof (rule idle_turn)
  show "settled_around (-1) (demo_input ((demo_event RecvError None)\<lparr>fd_readable := (\<lambda>s. False), fd_writable := (\<lambda>s. False)\<rparr>)) demo_state"
    by (rule demo_settled) (simp_all add: only_readable_def)
qed (simp_all add: demo_state_def settled_sock_def)

text \<open>
  In a build with Tcl a network may have nine scripts: the tenth is written behind the end of an array that was made
  smaller, because \<open>tsrealloc0\<close> takes its size in bytes.
\<close>
lemma nine_scripts:
  assumes "list_all other_setting bs"
  shows "script_settings bs no_script_lists =
    (if length (tcl_names bs) \<le> 9 then Ok (no_script_lists\<lparr>tcl_scripts := names_list (tcl_names bs)\<rparr>) else Fault OutOfBounds)"
  by (rule tcl_scripts_bound [OF assms])

section \<open>Scripts in Tcl\<close>


definition demo_tcl :: tcl_lib where
  "demo_tcl = \<lparr>tl_int = (\<lambda>s. if s = ''7'' then Some 7 else None), tl_rand = 40\<rparr>"





text \<open>
  A Tcl command that is called with a number of words that it does not take fails with its usage as the result, and changes nothing.
\<close>
lemma tcl_wrong_words:
  assumes "(f, lo, hi, usage) \<in> set tcl_usages" and "length objv < lo \<or> hi < length objv"
  shows "f lib env i objv b = Some (Ok (TCL_ERROR, Wrong_num_args objv usage, b))"
  by (rule tcl_wrong_number [OF assms])

theorem tcl_wrong_words_witness:
  "tcl_isop demo_tcl demo_env 0 [''isop''] demo_bot = Some (Ok (TCL_ERROR, Wrong_num_args [''isop''] ''<nickname> [channel]'', demo_bot))"
  by (rule tcl_wrong_words [where lo = 2 and hi = 3]) (simp_all add: tcl_usages_def)



text \<open>
  C39: With a channel, \<open>isop\<close> and \<open>isvoice\<close> read a word behind those that they were called with; so does \<open>onchan\<close> without one, and
  \<open>newchanban\<close> with a lifetime and no options.
\<close>
theorem tcl_words_overrun:
  assumes "length objv = 3" and "length nick_only = 2" and "length with_lifetime = 6"
  shows "tcl_isop lib env i objv b = Some (Fault OutOfBounds) \<and> tcl_isvoice lib env i objv b = Some (Fault OutOfBounds) \<and>
    tcl_onchan lib env i nick_only b = Some (Fault OutOfBounds) \<and> tcl_newchanban lib env i with_lifetime b = Some (Fault OutOfBounds)"
  using tcl_words_run_out assms by auto

theorem tcl_words_overrun_witness:
  "tcl_isop demo_tcl demo_env 0 [''isop'', ''ann'', ''#a''] demo_bot = Some (Fault OutOfBounds)"
  using tcl_words_overrun [of "[''isop'', ''ann'', ''#a'']" "[''onchan'', ''ann'']" "[''newchanban'', ''#a'', ''m'', ''w'', ''c'', ''7'']"] by simp

text \<open>The scripts of a network block are run in the order in which they are written there.\<close>

lemma tcl_scripts_in_order:
  assumes "list_all other_setting bs" and "script_settings bs no_script_lists = Ok ls" and "tcl_names bs \<noteq> []"
  shows "tcl_run_files eval (fst (tcl_scripts ls)) s = foldl (\<lambda>r f. rbind r (eval f)) (Ok s) (tcl_names bs)"
  by (rule tcl_runs_scripts [OF assms])

section \<open>Scripts in the other languages\<close>









text \<open>The functions of Javascript that only ask leave the bot as it is, and those of Python refuse arguments that do not start with a network.\<close>

lemma js_questions_only_ask:
  assumes "f \<in> set js_questions" and "f lib env i argv b = Some (Ok (x, b'))"
  shows "b' = b"
  by (rule js_question_same [OF assms])

end
